(* ===== verification/Prelude.thy ===== *)
theory Prelude
  imports Main "HOL-Library.Sublist" "HOL-Library.Char_ord" "HOL-Library.List_Lexorder"
    "HOL-Library.AList"
begin

text \<open>
  What every component shares: sequencing of fallible, state-passing code, the string
  operations of Rust's standard library the program uses (on the UTF-8 bytes of a string,
  as \<open>str\<close> stores them), decimal printing, the sliding window of a bounded queue, and
  the collections of rewrite rules the component proofs name.
\<close>

named_theorems rust_str \<open>string operations of the standard library\<close>
named_theorems effect_simps \<open>sequencing of effects, unfolded\<close>

section \<open>Fallible code over a state\<close>

text \<open>
  A Rust function \<open>fn f(..) -> Result<T, E>\<close> that works on shared state is a function from
  the state to an error (\<open>Inl\<close>) or a value (\<open>Inr\<close>) and the state it leaves behind; what was
  written before an error stays written. \<open>bindE m f\<close> is \<open>let x = m?; f(x)\<close>.
\<close>

definition retE :: "'a \<Rightarrow> 's \<Rightarrow> ('e + 'a) \<times> 's" where
  "retE x s = (Inr x, s)"

definition failE :: "'e \<Rightarrow> 's \<Rightarrow> ('e + 'a) \<times> 's" where
  "failE e s = (Inl e, s)"

definition bindE ::
  "('s \<Rightarrow> ('e + 'a) \<times> 's) \<Rightarrow> ('a \<Rightarrow> 's \<Rightarrow> ('e + 'b) \<times> 's) \<Rightarrow> 's \<Rightarrow> ('e + 'b) \<times> 's" where
  "bindE m f s = (case m s of (Inl e, s') \<Rightarrow> (Inl e, s') | (Inr x, s') \<Rightarrow> f x s')"

text \<open>\<open>mapErrE g m\<close> is \<open>m.map_err(g)\<close> (also \<open>.context(..)\<close>).\<close>

definition mapErrE :: "('e \<Rightarrow> 'f) \<Rightarrow> ('s \<Rightarrow> ('e + 'a) \<times> 's) \<Rightarrow> 's \<Rightarrow> ('f + 'a) \<times> 's" where
  "mapErrE g m s = (case m s of (Inl e, s') \<Rightarrow> (Inl (g e), s') | (Inr x, s') \<Rightarrow> (Inr x, s'))"

text \<open>
  Some code may also not return at all: it panics, or a loop of it goes on for ever. Such
  code has an optional result, \<open>None\<close> when it does not return. \<open>bindP\<close> sequences it.
\<close>

definition liftP :: "('s \<Rightarrow> ('e + 'a) \<times> 's) \<Rightarrow> 's \<Rightarrow> (('e + 'a) \<times> 's) option" where
  "liftP m s = Some (m s)"

definition bindP ::
  "('s \<Rightarrow> (('e + 'a) \<times> 's) option) \<Rightarrow> ('a \<Rightarrow> 's \<Rightarrow> (('e + 'b) \<times> 's) option) \<Rightarrow>
   's \<Rightarrow> (('e + 'b) \<times> 's) option" where
  "bindP m f s = (case m s of
     None \<Rightarrow> None
   | Some (Inl e, s') \<Rightarrow> Some (Inl e, s')
   | Some (Inr x, s') \<Rightarrow> f x s')"

definition mapErrP ::
  "('e \<Rightarrow> 'f) \<Rightarrow> ('s \<Rightarrow> (('e + 'a) \<times> 's) option) \<Rightarrow> 's \<Rightarrow> (('f + 'a) \<times> 's) option" where
  "mapErrP g m s = (case m s of
     None \<Rightarrow> None
   | Some (Inl e, s') \<Rightarrow> Some (Inl (g e), s')
   | Some (Inr x, s') \<Rightarrow> Some (Inr x, s'))"

text \<open>\<open>opt.ok_or(e)?\<close>, also written \<open>opt.context(e)?\<close>.\<close>

definition okOr :: "'e \<Rightarrow> 'a option \<Rightarrow> 's \<Rightarrow> ('e + 'a) \<times> 's" where
  "okOr e v s = (case v of None \<Rightarrow> (Inl e, s) | Some x \<Rightarrow> (Inr x, s))"

text \<open>Code that looks at the state it runs in.\<close>

definition look :: "('s \<Rightarrow> 's \<Rightarrow> 'r) \<Rightarrow> 's \<Rightarrow> 'r" where
  "look f s = f s s"

lemmas [effect_simps] = look_def retE_def failE_def bindE_def mapErrE_def liftP_def bindP_def mapErrP_def
  okOr_def

lemma bindE_Inr [simp]: "m s = (Inr x, s') \<Longrightarrow> bindE m f s = f x s'"
  by (simp add: bindE_def)

lemma bindE_Inl [simp]: "m s = (Inl e, s') \<Longrightarrow> bindE m f s = (Inl e, s')"
  by (simp add: bindE_def)

lemma bindE_retE [simp]: "bindE (retE x) f = f x"
  by (simp add: bindE_def retE_def fun_eq_iff)

lemma bindE_failE [simp]: "bindE (failE e) f = failE e"
  by (simp add: bindE_def failE_def fun_eq_iff)

lemma bindE_assoc: "bindE (bindE m f) g = bindE m (\<lambda>x. bindE (f x) g)"
  by (auto simp: bindE_def fun_eq_iff split: prod.splits sum.splits)

lemma bindE_eq_Inr_iff:
  "bindE m f s = (Inr y, t) \<longleftrightarrow> (\<exists>x s'. m s = (Inr x, s') \<and> f x s' = (Inr y, t))"
  by (auto simp: bindE_def split: prod.splits sum.splits)

lemma bindE_eq_Inl_iff:
  "bindE m f s = (Inl e, t) \<longleftrightarrow>
    m s = (Inl e, t) \<or> (\<exists>x s'. m s = (Inr x, s') \<and> f x s' = (Inl e, t))"
  by (auto simp: bindE_def split: prod.splits sum.splits)

lemma bindP_eq_Some_iff:
  "bindP m f s = Some (r, t) \<longleftrightarrow>
    (\<exists>e. m s = Some (Inl e, t) \<and> r = Inl e) \<or> (\<exists>x s'. m s = Some (Inr x, s') \<and> f x s' = Some (r, t))"
  by (auto simp: bindP_def split: option.splits prod.splits sum.splits)

subsection \<open>What a piece of code does to the state, whatever it returns\<close>

text \<open>
  \<open>does R m\<close>: from every state, \<open>m\<close> leaves a state that is related to the first by \<open>R\<close>, on
  success and on error alike; \<open>doesP\<close> says it of code that may not return. For a reflexive
  and transitive \<open>R\<close> (no key is forgotten, only requests of this kind are sent) the
  sequencing operators keep it.
\<close>

definition does :: "('s \<Rightarrow> 's \<Rightarrow> bool) \<Rightarrow> ('s \<Rightarrow> 'a \<times> 's) \<Rightarrow> bool" where
  "does R m \<longleftrightarrow> (\<forall>s r t. m s = (r, t) \<longrightarrow> R s t)"

definition doesP :: "('s \<Rightarrow> 's \<Rightarrow> bool) \<Rightarrow> ('s \<Rightarrow> ('a \<times> 's) option) \<Rightarrow> bool" where
  "doesP R m \<longleftrightarrow> (\<forall>s r t. m s = Some (r, t) \<longrightarrow> R s t)"

lemma doesI: "(\<And>s r t. m s = (r, t) \<Longrightarrow> R s t) \<Longrightarrow> does R m"
  by (simp add: does_def)

lemma doesD: "does R m \<Longrightarrow> m s = (r, t) \<Longrightarrow> R s t"
  by (simp add: does_def)

lemma doesPI: "(\<And>s r t. m s = Some (r, t) \<Longrightarrow> R s t) \<Longrightarrow> doesP R m"
  by (simp add: doesP_def)

lemma doesPD: "doesP R m \<Longrightarrow> m s = Some (r, t) \<Longrightarrow> R s t"
  by (simp add: doesP_def)

locale stepwise =
  fixes R :: "'s \<Rightarrow> 's \<Rightarrow> bool"
  assumes refl: "R s s"
    and trans: "R s t \<Longrightarrow> R t u \<Longrightarrow> R s u"
begin

lemma does_retE: "does R (retE x)"
  by (simp add: does_def retE_def refl)

lemma does_failE: "does R (failE e)"
  by (simp add: does_def failE_def refl)

lemma does_okOr: "does R (okOr e v)"
  by (auto simp: does_def okOr_def refl split: option.splits)

lemma does_bindE: "does R m \<Longrightarrow> (\<And>x. does R (f x)) \<Longrightarrow> does R (bindE m f)"
  unfolding does_def bindE_def
  by (fastforce split: prod.splits sum.splits intro: trans)

lemma does_bindE_after:
  "does R m \<Longrightarrow> (\<And>x s t. m s = (Inr x, t) \<Longrightarrow> does R (f x)) \<Longrightarrow> does R (bindE m f)"
  unfolding does_def bindE_def
  by (fastforce split: prod.splits sum.splits intro: trans)

lemma does_mapErrE: "does R m \<Longrightarrow> does R (mapErrE g m)"
  unfolding does_def mapErrE_def by (fastforce split: prod.splits sum.splits)

lemma does_look: "(\<And>s. does R (f s)) \<Longrightarrow> does R (look f)"
  by (simp add: does_def look_def)

lemma doesP_look: "(\<And>s. doesP R (f s)) \<Longrightarrow> doesP R (look f)"
  by (simp add: doesP_def look_def)

lemma does_if: "does R m \<Longrightarrow> does R n \<Longrightarrow> does R (if b then m else n)"
  by simp

lemma does_case_prod: "(\<And>a b. does R (f a b)) \<Longrightarrow> does R (case p of (a, b) \<Rightarrow> f a b)"
  by (simp split: prod.split)

lemma does_case_sum:
  "(\<And>a. does R (f a)) \<Longrightarrow> (\<And>b. does R (g b)) \<Longrightarrow> does R (case v of Inl a \<Rightarrow> f a | Inr b \<Rightarrow> g b)"
  by (simp split: sum.split)

lemma does_Let: "(\<And>x. does R (f x)) \<Longrightarrow> does R (let x = v in f x)"
  by simp

lemma does_case_option:
  "does R m \<Longrightarrow> (\<And>x. does R (f x)) \<Longrightarrow> does R (case v of None \<Rightarrow> m | Some x \<Rightarrow> f x)"
  by (simp split: option.splits)

lemma doesP_liftP: "does R m \<Longrightarrow> doesP R (liftP m)"
  by (simp add: does_def doesP_def liftP_def)

lemma doesP_bindP: "doesP R m \<Longrightarrow> (\<And>x. doesP R (f x)) \<Longrightarrow> doesP R (bindP m f)"
  unfolding doesP_def bindP_eq_Some_iff by (fastforce intro: trans)

lemma doesP_mapErrP: "doesP R m \<Longrightarrow> doesP R (mapErrP g m)"
  unfolding doesP_def mapErrP_def by (fastforce split: option.splits prod.splits sum.splits)

lemma doesP_if: "doesP R m \<Longrightarrow> doesP R n \<Longrightarrow> doesP R (if b then m else n)"
  by simp

lemma doesP_case_option:
  "doesP R m \<Longrightarrow> (\<And>x. doesP R (f x)) \<Longrightarrow> doesP R (case v of None \<Rightarrow> m | Some x \<Rightarrow> f x)"
  by (simp split: option.splits)

lemma doesP_case_prod: "(\<And>a b. doesP R (f a b)) \<Longrightarrow> doesP R (case p of (a, b) \<Rightarrow> f a b)"
  by (simp split: prod.split)

lemma doesP_case_sum:
  "(\<And>a. doesP R (f a)) \<Longrightarrow> (\<And>b. doesP R (g b)) \<Longrightarrow> doesP R (case v of Inl a \<Rightarrow> f a | Inr b \<Rightarrow> g b)"
  by (simp split: sum.split)

lemma doesP_Let: "(\<And>x. doesP R (f x)) \<Longrightarrow> doesP R (let x = v in f x)"
  by simp

lemmas does_intros = does_retE does_failE does_okOr does_bindE does_mapErrE does_look
  does_if does_case_option does_case_prod does_case_sum does_Let
lemmas doesP_intros = doesP_liftP doesP_bindP doesP_mapErrP doesP_look
  doesP_if doesP_case_option doesP_case_prod doesP_case_sum doesP_Let

end

section \<open>Strings\<close>

text \<open>\<open>s.split(c)\<close>: always at least one piece.\<close>

fun split_on :: "'a \<Rightarrow> 'a list \<Rightarrow> 'a list list" where
  "split_on c [] = [[]]"
| "split_on c (x # xs) =
     (if x = c then [] # split_on c xs
      else (case split_on c xs of [] \<Rightarrow> [[x]] | p # ps \<Rightarrow> (x # p) # ps))"

text \<open>\<open>parts.join(sep)\<close>.\<close>

fun join_with :: "'a list \<Rightarrow> 'a list list \<Rightarrow> 'a list" where
  "join_with sep [] = []"
| "join_with sep [x] = x"
| "join_with sep (x # y # xs) = x @ sep @ join_with sep (y # xs)"

text \<open>\<open>s.split_once(c)\<close>.\<close>

fun split_once :: "'a \<Rightarrow> 'a list \<Rightarrow> ('a list \<times> 'a list) option" where
  "split_once c [] = None"
| "split_once c (x # xs) =
     (if x = c then Some ([], xs)
      else (case split_once c xs of None \<Rightarrow> None | Some (a, b) \<Rightarrow> Some (x # a, b)))"

text \<open>\<open>s.strip_prefix(p)\<close>.\<close>

fun strip_prefix :: "'a list \<Rightarrow> 'a list \<Rightarrow> 'a list option" where
  "strip_prefix [] ys = Some ys"
| "strip_prefix (x # xs) [] = None"
| "strip_prefix (x # xs) (y # ys) = (if x = y then strip_prefix xs ys else None)"

text \<open>\<open>s.trim_start_matches(c)\<close>, \<open>s.trim_end_matches(..)\<close>.\<close>

definition trim_start :: "('a \<Rightarrow> bool) \<Rightarrow> 'a list \<Rightarrow> 'a list" where
  "trim_start p s = dropWhile p s"

definition trim_end :: "('a \<Rightarrow> bool) \<Rightarrow> 'a list \<Rightarrow> 'a list" where
  "trim_end p s = rev (dropWhile p (rev s))"

lemma split_on_not_Nil [simp]: "split_on c xs \<noteq> []"
  by (induction xs) (auto split: list.splits)

lemma split_on_free: "c \<notin> set xs \<Longrightarrow> split_on c xs = [xs]"
  by (induction xs) auto

lemma split_on_append: "split_on c (xs @ c # ys) = split_on c xs @ split_on c ys"
  by (induction xs) (auto split: list.splits)

lemma split_on_pieces: "p \<in> set (split_on c xs) \<Longrightarrow> c \<notin> set p"
  by (induction xs arbitrary: p) (auto split: list.splits if_splits)

lemma join_split [simp]: "join_with [c] (split_on c xs) = xs"
proof (induction xs)
  case (Cons x xs)
  obtain p ps where ps: "split_on c xs = p # ps"
    by (cases "split_on c xs") auto
  show ?case
    using Cons.IH ps by (cases ps) auto
qed simp

lemma split_join:
  assumes "xs \<noteq> []" and "\<forall>x \<in> set xs. c \<notin> set x"
  shows "split_on c (join_with [c] xs) = xs"
  using assms
proof (induction xs)
  case (Cons x xs)
  then show ?case
    by (cases xs) (auto simp: split_on_append split_on_free)
qed simp

lemma split_once_free [simp]: "c \<notin> set a \<Longrightarrow> split_once c (a @ c # b) = Some (a, b)"
  by (induction a) auto

lemma split_once_None: "split_once c xs = None \<longleftrightarrow> c \<notin> set xs"
  by (induction xs) (auto split: option.splits)

lemma split_once_SomeD: "split_once c xs = Some (a, b) \<Longrightarrow> xs = a @ c # b \<and> c \<notin> set a"
proof (induction xs arbitrary: a)
  case (Cons x xs)
  then show ?case by (auto split: option.splits if_splits)
qed simp

lemma split_once_Some:
  "split_once c xs = Some (a, b) \<longleftrightarrow> xs = a @ c # b \<and> c \<notin> set a"
  using split_once_SomeD by fastforce

lemma strip_prefix_Some: "strip_prefix p s = Some r \<longleftrightarrow> s = p @ r"
  by (induction p s rule: strip_prefix.induct) auto

lemma strip_prefix_append [simp]: "strip_prefix p (p @ r) = Some r"
  by (simp add: strip_prefix_Some)

lemma strip_prefix_None: "strip_prefix p s = None \<longleftrightarrow> \<not> prefix p s"
  by (induction p s rule: strip_prefix.induct) auto

lemma trim_end_idem [simp]: "trim_end p (trim_end p s) = trim_end p s"
  by (simp add: trim_end_def)

lemma trim_end_last: "trim_end p s \<noteq> [] \<Longrightarrow> \<not> p (last (trim_end p s))"
  unfolding trim_end_def by (simp add: last_rev hd_dropWhile)

lemma trim_end_prefix: "prefix (trim_end p s) s"
proof -
  have "rev s = takeWhile p (rev s) @ dropWhile p (rev s)" by simp
  then have "s = rev (dropWhile p (rev s)) @ rev (takeWhile p (rev s))"
    by (metis rev_append rev_rev_ident)
  then show ?thesis unfolding trim_end_def by (metis prefixI)
qed

lemmas [rust_str] = split_on_free split_on_append split_once_Some split_once_None
  strip_prefix_Some strip_prefix_None trim_start_def

subsection \<open>ASCII\<close>

definition is_ascii_digit :: "char \<Rightarrow> bool" where
  "is_ascii_digit c \<longleftrightarrow> CHR ''0'' \<le> c \<and> c \<le> CHR ''9''"

definition is_ascii_upper :: "char \<Rightarrow> bool" where
  "is_ascii_upper c \<longleftrightarrow> CHR ''A'' \<le> c \<and> c \<le> CHR ''Z''"

definition is_ascii_lower :: "char \<Rightarrow> bool" where
  "is_ascii_lower c \<longleftrightarrow> CHR ''a'' \<le> c \<and> c \<le> CHR ''z''"

definition is_ascii_alphanumeric :: "char \<Rightarrow> bool" where
  "is_ascii_alphanumeric c \<longleftrightarrow> is_ascii_digit c \<or> is_ascii_upper c \<or> is_ascii_lower c"

definition ascii_lower_char :: "char \<Rightarrow> char" where
  "ascii_lower_char c = (if is_ascii_upper c then char_of (of_char c + 32 :: nat) else c)"

definition to_ascii_lowercase :: "string \<Rightarrow> string" where
  "to_ascii_lowercase s = map ascii_lower_char s"

subsection \<open>Decimal numbers\<close>

definition digit_char :: "nat \<Rightarrow> char" where
  "digit_char d = char_of (48 + d)"

fun show_nat :: "nat \<Rightarrow> string" where
  "show_nat n = (if n < 10 then [digit_char n] else show_nat (n div 10) @ [digit_char (n mod 10)])"

declare show_nat.simps [simp del]

lemma show_nat_not_Nil [simp]: "show_nat n \<noteq> []"
  by (subst show_nat.simps) simp

section \<open>The window of a bounded queue\<close>

text \<open>The last \<open>cap\<close> elements: what a queue that drops its front beyond \<open>cap\<close> holds.\<close>

definition window :: "nat \<Rightarrow> 'a list \<Rightarrow> 'a list" where
  "window cap xs = drop (length xs - cap) xs"

lemma length_window [simp]: "length (window cap xs) = min cap (length xs)"
  by (simp add: window_def)

lemma window_short: "length xs \<le> cap \<Longrightarrow> window cap xs = xs"
  by (simp add: window_def)

lemma set_window: "set (window cap xs) \<subseteq> set xs"
  by (simp add: window_def set_drop_subset)

lemma distinct_window: "distinct xs \<Longrightarrow> distinct (window cap xs)"
  by (simp add: window_def)

lemma window_window_append: "window cap (window cap xs @ ys) = window cap (xs @ ys)"
proof (cases "length xs \<le> cap")
  case True
  then show ?thesis by (simp add: window_short)
next
  case False
  then show ?thesis by (simp add: window_def algebra_simps)
qed

lemma window_append_mem: "length ys < cap \<Longrightarrow> x \<in> set (window cap (xs @ x # ys))"
  unfolding window_def by (cases "length xs + Suc (length ys) \<le> cap") auto

lemma window_snoc_full: "length xs = cap \<Longrightarrow> 0 < cap \<Longrightarrow> window cap (xs @ [x]) = tl xs @ [x]"
  unfolding window_def by (cases xs) auto

section \<open>Association lists read as options\<close>

lemma map_of_filter_fst:
  "map_of (filter (\<lambda>p. P (fst p)) xs) k = (if P k then map_of xs k else None)"
  by (induction xs) auto

lemma keys_update: "fst ` set (AList.update k v xs) = insert k (fst ` set xs)"
  by (simp add: dom_update)

lemma set_update: "p \<in> set (AList.update k v xs) \<Longrightarrow> p = (k, v) \<or> p \<in> set xs"
  by (induction xs) (auto split: if_splits)

lemma set_delete: "set (AList.delete k xs) = {p \<in> set xs. fst p \<noteq> k}"
  by (induction xs) (auto split: if_splits)

lemma keys_delete: "fst ` set (AList.delete k xs) = fst ` set xs - {k}"
  by (induction xs) auto

lemmas alist_simps = update_conv' delete_conv' distinct_update distinct_delete keys_update set_delete

end
