(* ===== verification/Bounded.thy ===== *)
theory Bounded
  imports Prelude
begin

text \<open>
  The interface the program's bounded memories share (the to-device events already
  processed, the placeholders waiting for keys, the finished verification flows): keys in
  arrival order, a key known already is not entered again, and beyond the capacity the
  oldest key is dropped. Each component interprets the locale on its own operations.
\<close>

locale keyed_fifo =
  fixes cap :: nat
    and keys :: "'s \<Rightarrow> 'k list"
    and ins :: "'k \<Rightarrow> 'v \<Rightarrow> 's \<Rightarrow> 's"
    and inv :: "'s \<Rightarrow> bool"
  assumes cap_pos: "0 < cap"
    and inv_ins: "inv s \<Longrightarrow> inv (ins k v s)"
    and inv_keys: "inv s \<Longrightarrow> distinct (keys s) \<and> length (keys s) \<le> cap"
    and keys_old: "inv s \<Longrightarrow> k \<in> set (keys s) \<Longrightarrow> keys (ins k v s) = keys s"
    and keys_new: "inv s \<Longrightarrow> k \<notin> set (keys s) \<Longrightarrow> keys (ins k v s) = window cap (keys s @ [k])"
begin

definition fill :: "('k \<times> 'v) list \<Rightarrow> 's \<Rightarrow> 's" where
  "fill kvs s = fold (\<lambda>(k, v). ins k v) kvs s"

lemma fill_Nil [simp]: "fill [] s = s"
  by (simp add: fill_def)

lemma fill_Cons [simp]: "fill ((k, v) # kvs) s = fill kvs (ins k v s)"
  by (simp add: fill_def)

lemma inv_fill: "inv s \<Longrightarrow> inv (fill kvs s)"
  by (induction kvs arbitrary: s) (auto simp: inv_ins)

lemma fill_bounded: "inv s \<Longrightarrow> length (keys (fill kvs s)) \<le> cap"
  using inv_fill inv_keys by blast

lemma fill_distinct: "inv s \<Longrightarrow> distinct (keys (fill kvs s))"
  using inv_fill inv_keys by blast

lemma ins_remembers: "inv s \<Longrightarrow> k \<in> set (keys (ins k v s))"
  using keys_old [of s k v] keys_new [of s k v] window_append_mem [of "[]" cap k "keys s"] cap_pos
  by (cases "k \<in> set (keys s)") auto

lemma fill_window:
  "inv s \<Longrightarrow> \<exists>zs. length zs \<le> length kvs \<and> keys (fill kvs s) = window cap (keys s @ zs)"
proof (induction kvs arbitrary: s)
  case Nil
  then show ?case using inv_keys [of s] by (auto simp: window_short)
next
  case (Cons kv kvs)
  obtain k v where kv: "kv = (k, v)" by fastforce
  obtain zs where zs: "length zs \<le> length kvs"
    "keys (fill kvs (ins k v s)) = window cap (keys (ins k v s) @ zs)"
    using Cons.IH [OF inv_ins [OF Cons.prems]] by blast
  show ?case
  proof (cases "k \<in> set (keys s)")
    case True
    then show ?thesis
      using zs Cons.prems by (intro exI [of _ zs]) (simp add: kv keys_old)
  next
    case False
    then show ?thesis
      using zs Cons.prems
      by (intro exI [of _ "k # zs"]) (simp add: kv keys_new window_window_append)
  qed
qed

text \<open>A key just entered outlives fewer than \<open>cap\<close> further insertions, whatever they are.\<close>

lemma recent_kept:
  assumes "inv s" and "k \<notin> set (keys s)" and "length kvs < cap"
  shows "k \<in> set (keys (fill kvs (ins k v s)))"
proof -
  obtain zs where zs: "length zs \<le> length kvs"
    "keys (fill kvs (ins k v s)) = window cap (keys (ins k v s) @ zs)"
    using fill_window [OF inv_ins [OF assms(1)]] by blast
  have "keys (fill kvs (ins k v s)) = window cap (keys s @ k # zs)"
    using zs(2) assms(1,2) by (simp add: keys_new window_window_append)
  then show ?thesis
    using window_append_mem [of zs cap k "keys s"] zs(1) assms(3) by simp
qed

text \<open>Fresh keys queue up in the order they came; only the oldest are dropped.\<close>

lemma fill_fresh:
  "inv s \<Longrightarrow> distinct (keys s @ map fst kvs) \<Longrightarrow>
    keys (fill kvs s) = window cap (keys s @ map fst kvs)"
proof (induction kvs arbitrary: s)
  case Nil
  then show ?case using inv_keys [of s] by (simp add: window_short)
next
  case (Cons kv kvs)
  obtain k v where kv: "kv = (k, v)" by fastforce
  have new: "keys (ins k v s) = window cap (keys s @ [k])"
    using Cons.prems by (auto simp: kv keys_new)
  have "distinct (keys (ins k v s) @ map fst kvs)"
    using Cons.prems distinct_window [of "keys s @ [k]" cap] set_window [of cap "keys s @ [k]"]
    by (auto simp: kv new)
  then have "keys (fill kvs (ins k v s)) = window cap (keys (ins k v s) @ map fst kvs)"
    using Cons.IH [OF inv_ins [OF Cons.prems(1)]] by blast
  then show ?case
    by (simp add: kv new window_window_append)
qed

end

text \<open>The same memory where a key can also be taken back.\<close>

locale keyed_fifo_del = keyed_fifo cap keys ins inv
  for cap :: nat and keys :: "'s \<Rightarrow> 'k list" and ins :: "'k \<Rightarrow> 'v \<Rightarrow> 's \<Rightarrow> 's" and inv :: "'s \<Rightarrow> bool" +
  fixes del :: "'k \<Rightarrow> 's \<Rightarrow> 's"
  assumes inv_del: "inv s \<Longrightarrow> inv (del k s)"
    and keys_del: "inv s \<Longrightarrow> keys (del k s) = filter (\<lambda>x. x \<noteq> k) (keys s)"
begin

lemma inv_fold_del: "inv s \<Longrightarrow> inv (fold del ks s)"
  by (induction ks arbitrary: s) (auto simp: inv_del)

lemma keys_fold_del: "inv s \<Longrightarrow> keys (fold del ks s) = filter (\<lambda>x. x \<notin> set ks) (keys s)"
  by (induction ks arbitrary: s)
    (auto simp: keys_del inv_del filter_filter intro!: filter_cong)

lemma forgotten: "inv s \<Longrightarrow> k \<in> set ks \<Longrightarrow> k \<notin> set (keys (fold del ks s))"
  by (simp add: keys_fold_del)

end

end
