(* ===== verification/LogBuf.thy ===== *)
theory LogBuf
  imports Bounded
begin

text \<open>
  The in-memory tail of the log (\<open>src/src/logbuf.rs\<close>): which lines the layer keeps, how a
  line is put together from a record's fields, the bounded buffer and its two queries.
  Times are nanoseconds since the epoch.
\<close>

section \<open>Levels\<close>

text \<open>\<open>tracing::Level\<close>: the more severe level is the smaller one.\<close>

datatype level = ERROR | WARN | INFO | DEBUG | TRACE

primrec level_rank :: "level \<Rightarrow> nat" where
  "level_rank ERROR = 0"
| "level_rank WARN = 1"
| "level_rank INFO = 2"
| "level_rank DEBUG = 3"
| "level_rank TRACE = 4"

instantiation level :: linorder
begin

definition less_eq_level :: "level \<Rightarrow> level \<Rightarrow> bool" where
  "l \<le> m \<longleftrightarrow> level_rank l \<le> level_rank m"

definition less_level :: "level \<Rightarrow> level \<Rightarrow> bool" where
  "l < m \<longleftrightarrow> level_rank l < level_rank m"

instance
proof
  fix l m :: level
  show "l \<le> m \<Longrightarrow> m \<le> l \<Longrightarrow> l = m"
    by (cases l; cases m) (simp_all add: less_eq_level_def)
qed (auto simp: less_eq_level_def less_level_def)

end

section \<open>Lines\<close>

record log_line =
  ll_time :: nat
  ll_level :: level
  ll_target :: string
  ll_message :: string

text \<open>
  \<open>LineVisitor\<close>: the field called \<open>message\<close> is the text, every other field is appended as
  \<open>key=value\<close>. A field is its name and its rendering, \<open>record_debug\<close> and \<open>record_str\<close>
  differing only in how the value was rendered.
\<close>

record line_visitor =
  lv_message :: string
  lv_fields :: string

definition record_field :: "string \<times> string \<Rightarrow> line_visitor \<Rightarrow> line_visitor" where
  "record_field f v =
     (if fst f = ''message'' then v\<lparr>lv_message := lv_message v @ snd f\<rparr>
      else v\<lparr>lv_fields := lv_fields v @ '' '' @ fst f @ ''='' @ snd f\<rparr>)"

definition visitor_finish :: "line_visitor \<Rightarrow> string" where
  "visitor_finish v =
     (if lv_fields v = [] then lv_message v
      else if lv_message v = [] then trim_start (\<lambda>c. c = CHR '' '') (lv_fields v)
      else lv_message v @ lv_fields v)"

definition line_text :: "(string \<times> string) list \<Rightarrow> string" where
  "line_text fs = visitor_finish (fold record_field fs \<lparr>lv_message = [], lv_fields = []\<rparr>)"

section \<open>The buffer\<close>

definition log_capacity :: nat where
  "log_capacity = 500"

type_synonym log_buffer = "log_line list"

definition log_push :: "log_line \<Rightarrow> log_buffer \<Rightarrow> log_buffer" where
  "log_push line lines = (if length lines = log_capacity then tl lines else lines) @ [line]"

definition log_tail :: "level \<Rightarrow> nat \<Rightarrow> log_buffer \<Rightarrow> log_line list" where
  "log_tail min_level limit lines =
     rev (take limit (filter (\<lambda>line. ll_level line \<le> min_level) (rev lines)))"

text \<open>\<open>line.time.elapsed()\<close> is an error for a time that is still to come.\<close>

definition elapsed :: "nat \<Rightarrow> nat \<Rightarrow> nat option" where
  "elapsed now t = (if t \<le> now then Some (now - t) else None)"

definition count_since :: "nat \<Rightarrow> level \<Rightarrow> nat \<Rightarrow> log_buffer \<Rightarrow> nat" where
  "count_since now lvl win lines =
     length (filter (\<lambda>line. case elapsed now (ll_time line) of None \<Rightarrow> False | Some age \<Rightarrow> age \<le> win)
       (filter (\<lambda>line. ll_level line \<le> lvl) lines))"

text \<open>
  \<open>layer\<close>: the proxy's own target at INFO and above, everything else at WARN and above;
  \<open>on_event\<close> pushes the line.
\<close>

definition layer_accepts :: "string \<Rightarrow> level \<Rightarrow> bool" where
  "layer_accepts target lvl = (if prefix ''ement_e2ee'' target then lvl \<le> INFO else lvl \<le> WARN)"

definition on_event ::
  "nat \<Rightarrow> level \<Rightarrow> string \<Rightarrow> (string \<times> string) list \<Rightarrow> log_buffer \<Rightarrow> log_buffer" where
  "on_event now lvl target fs lines =
     (if layer_accepts target lvl
      then log_push \<lparr>ll_time = now, ll_level = lvl, ll_target = target, ll_message = line_text fs\<rparr> lines
      else lines)"

section \<open>Lemmas\<close>

lemma log_push_window:
  "length lines \<le> log_capacity \<Longrightarrow> log_push line lines = window log_capacity (lines @ [line])"
  by (cases "length lines = log_capacity")
    (simp_all add: log_push_def window_snoc_full window_short log_capacity_def)

lemma fold_log_push:
  "length lines \<le> log_capacity \<Longrightarrow> fold log_push ls lines = window log_capacity (lines @ ls)"
proof (induction ls arbitrary: lines)
  case (Cons l ls)
  have "length (log_push l lines) \<le> log_capacity"
    using Cons.prems by (simp add: log_push_window)
  then show ?case
    using Cons.IH Cons.prems by (simp add: log_push_window window_window_append)
qed (simp add: window_short)

lemma log_tail_window: "log_tail lvl limit lines = window limit (filter (\<lambda>l. ll_level l \<le> lvl) lines)"
  unfolding log_tail_def window_def by (simp add: take_rev flip: rev_filter)

text \<open>
  After any number of log lines the buffer holds exactly the newest 500 in the order
  they came, and \<open>tail\<close> answers with the newest \<open>limit\<close> of those that are severe enough,
  oldest first.
\<close>

theorem log_tail_newest:
  "log_tail lvl limit (fold log_push ls []) =
     window limit (filter (\<lambda>l. ll_level l \<le> lvl) (window 500 ls))"
  using fold_log_push [of "[]" ls] by (simp add: log_tail_window log_capacity_def)

end
