(* ===== verification/Json.thy ===== *)
theory Json
  imports Prelude "HOL-Library.Word"
begin

text \<open>
  JSON values as \<open>serde_json::Value\<close> holds them, the data the whole program is about. An
  object is the sorted association list its \<open>BTreeMap\<close> iterates over (the program does not
  turn on \<open>preserve_order\<close>), so that two objects with the same entries are equal and a
  rendering lists the keys in order. The access functions are those of the crate that the
  program calls: \<open>get\<close>, \<open>pointer\<close>, the \<open>as_..\<close> readers, reading by \<open>value[key]\<close> (\<open>null\<close> where
  there is none) and writing by \<open>value[key] = x\<close>, which makes an object of \<open>null\<close> and panics
  on every other value that is not an object (\<open>None\<close> here).
\<close>

type_synonym u64 = "64 word"

datatype number = PosInt u64 | NegInt int | Float string

datatype json =
    JNull
  | JBool bool
  | JNum number
  | JStr string
  | JArr "json list"
  | JObj "(string \<times> json) list"

type_synonym fields = "(string \<times> json) list"

section \<open>Objects\<close>

fun obj_put :: "string \<Rightarrow> json \<Rightarrow> fields \<Rightarrow> fields" where
  "obj_put k v [] = [(k, v)]"
| "obj_put k v ((k', v') # m) =
     (if k = k' then (k, v) # m
      else if k' < k then (k', v') # obj_put k v m
      else (k, v) # (k', v') # m)"

definition obj_del :: "string \<Rightarrow> fields \<Rightarrow> fields" where
  "obj_del k m = filter (\<lambda>p. fst p \<noteq> k) m"

text \<open>\<open>map.entry(k).or_insert(v)\<close>.\<close>

definition obj_or_insert :: "string \<Rightarrow> json \<Rightarrow> fields \<Rightarrow> fields" where
  "obj_or_insert k v m = (case map_of m k of Some _ \<Rightarrow> m | None \<Rightarrow> obj_put k v m)"

text \<open>\<open>json!({ .. })\<close>.\<close>

definition mk_obj :: "fields \<Rightarrow> json" where
  "mk_obj kvs = JObj (fold (\<lambda>(k, v). obj_put k v) kvs [])"

definition sorted_keys :: "fields \<Rightarrow> bool" where
  "sorted_keys m \<longleftrightarrow> sorted_wrt (<) (map fst m)"

fun wf_json :: "json \<Rightarrow> bool" where
  "wf_json (JArr xs) = list_all wf_json xs"
| "wf_json (JObj m) = (sorted_keys m \<and> list_all (\<lambda>p. wf_json (snd p)) m)"
| "wf_json _ = True"

lemma map_of_obj_put [simp]: "map_of (obj_put k v m) = (map_of m)(k \<mapsto> v)"
  by (induction k v m rule: obj_put.induct) (auto simp: fun_eq_iff)

lemma map_of_obj_del [simp]: "map_of (obj_del k m) = (map_of m)(k := None)"
  by (simp add: obj_del_def map_of_filter_fst [of "\<lambda>x. x \<noteq> k"] fun_eq_iff)

lemma map_of_obj_or_insert [simp]:
  "map_of (obj_or_insert k v m) = (case map_of m k of Some _ \<Rightarrow> map_of m | None \<Rightarrow> (map_of m)(k \<mapsto> v))"
  by (simp add: obj_or_insert_def split: option.splits)

lemma fst_obj_put: "fst ` set (obj_put k v m) = insert k (fst ` set m)"
  by (induction k v m rule: obj_put.induct) auto

lemma sorted_keys_Nil [simp]: "sorted_keys []"
  by (simp add: sorted_keys_def)

lemma sorted_keys_Cons:
  "sorted_keys ((k, v) # m) \<longleftrightarrow> (\<forall>k' \<in> fst ` set m. k < k') \<and> sorted_keys m"
  by (auto simp: sorted_keys_def)

lemma sorted_obj_put: "sorted_keys m \<Longrightarrow> sorted_keys (obj_put k v m)"
proof (induction k v m rule: obj_put.induct)
  case (2 k v k' v' m)
  consider "k = k'" | "k' < k" | "k < k'" by fastforce
  then show ?case
  proof cases
    case 2
    with "2.IH" "2.prems" show ?thesis by (auto simp: sorted_keys_Cons fst_obj_put)
  next
    case 3
    with "2.prems" show ?thesis by (auto simp: sorted_keys_Cons intro: less_trans)
  qed (use "2.prems" in \<open>auto simp: sorted_keys_Cons\<close>)
qed (simp add: sorted_keys_def)

lemma set_obj_del: "set (obj_del k m) \<subseteq> set m"
  by (auto simp: obj_del_def)

lemma sorted_obj_del: "sorted_keys m \<Longrightarrow> sorted_keys (obj_del k m)"
  by (induction m) (auto simp: obj_del_def sorted_keys_Cons)

lemma sorted_obj_or_insert: "sorted_keys m \<Longrightarrow> sorted_keys (obj_or_insert k v m)"
  by (simp add: obj_or_insert_def sorted_obj_put split: option.splits)

lemma set_obj_put: "set (obj_put k v m) \<subseteq> insert (k, v) (set m)"
  by (induction k v m rule: obj_put.induct) auto

lemma wf_obj_put:
  "wf_json (JObj m) \<Longrightarrow> wf_json v \<Longrightarrow> wf_json (JObj (obj_put k v m))"
  using set_obj_put [of k v m] by (auto simp: sorted_obj_put list_all_iff)

lemma wf_obj_del: "wf_json (JObj m) \<Longrightarrow> wf_json (JObj (obj_del k m))"
  using set_obj_del [of k m] by (auto simp: sorted_obj_del list_all_iff)

lemma wf_obj_or_insert:
  "wf_json (JObj m) \<Longrightarrow> wf_json v \<Longrightarrow> wf_json (JObj (obj_or_insert k v m))"
  unfolding obj_or_insert_def by (auto simp del: wf_json.simps intro: wf_obj_put split: option.splits)

lemma wf_mk_obj: "list_all (\<lambda>p. wf_json (snd p)) kvs \<Longrightarrow> wf_json (mk_obj kvs)"
proof -
  have "wf_json (JObj m) \<Longrightarrow> list_all (\<lambda>p. wf_json (snd p)) kvs \<Longrightarrow>
      wf_json (JObj (fold (\<lambda>(k, v). obj_put k v) kvs m))" for m
    by (induction kvs arbitrary: m) (auto simp del: wf_json.simps simp: wf_obj_put)
  from this [of "[]"] show "list_all (\<lambda>p. wf_json (snd p)) kvs \<Longrightarrow> wf_json (mk_obj kvs)"
    by (simp add: mk_obj_def)
qed

lemma wf_map_of: "wf_json (JObj m) \<Longrightarrow> map_of m k = Some v \<Longrightarrow> wf_json v"
  by (fastforce simp: list_all_iff dest: map_of_SomeD)

text \<open>Sorted objects with the same entries are the same object.\<close>

lemma sorted_keys_ext:
  assumes "sorted_keys m" and "sorted_keys n" and "map_of m = map_of n"
  shows "m = n"
proof -
  have d: "sorted (map fst l) \<and> distinct (map fst l)" if "sorted_keys l" for l :: fields
    using that unfolding sorted_keys_def by (metis strict_sorted_iff)
  have "p \<in> set m \<longleftrightarrow> p \<in> set n" for p
    using d [OF assms(1)] d [OF assms(2)] assms(3) by (cases p) (metis map_of_eq_Some_iff)
  then have eq: "set m = set n" by blast
  have "inj_on fst (set m \<union> set n)"
    using d [OF assms(1)] by (simp add: eq distinct_map)
  then show ?thesis
    using d [OF assms(1)] d [OF assms(2)] eq by (auto intro: map_sorted_distinct_set_unique)
qed

section \<open>Reading\<close>

fun get :: "string \<Rightarrow> json \<Rightarrow> json option" where
  "get k (JObj m) = map_of m k"
| "get k _ = None"

text \<open>\<open>value[key]\<close>.\<close>

definition idx :: "json \<Rightarrow> string \<Rightarrow> json" where
  "idx j k = (case get k j of None \<Rightarrow> JNull | Some v \<Rightarrow> v)"

fun as_str :: "json \<Rightarrow> string option" where
  "as_str (JStr s) = Some s"
| "as_str _ = None"

fun as_bool :: "json \<Rightarrow> bool option" where
  "as_bool (JBool b) = Some b"
| "as_bool _ = None"

fun as_u64 :: "json \<Rightarrow> u64 option" where
  "as_u64 (JNum (PosInt w)) = Some w"
| "as_u64 _ = None"

fun as_array :: "json \<Rightarrow> json list option" where
  "as_array (JArr xs) = Some xs"
| "as_array _ = None"

fun as_object :: "json \<Rightarrow> fields option" where
  "as_object (JObj m) = Some m"
| "as_object _ = None"

definition is_object :: "json \<Rightarrow> bool" where
  "is_object j \<longleftrightarrow> as_object j \<noteq> None"

definition get_str :: "string \<Rightarrow> json \<Rightarrow> string option" where
  "get_str k j = Option.bind (get k j) as_str"

definition elements :: "json \<Rightarrow> json list" where
  "elements j = (case as_array j of None \<Rightarrow> [] | Some xs \<Rightarrow> xs)"

text \<open>A number of a list position in a pointer: no sign, no leading zero.\<close>

fun parse_digits :: "nat \<Rightarrow> string \<Rightarrow> nat option" where
  "parse_digits acc [] = Some acc"
| "parse_digits acc (c # cs) =
     (if is_ascii_digit c then parse_digits (10 * acc + (of_char c - 48)) cs else None)"

definition parse_index :: "string \<Rightarrow> nat option" where
  "parse_index s =
     (if s = [] \<or> (hd s = CHR ''0'' \<and> length s \<noteq> 1) then None else parse_digits 0 s)"

text \<open>\<open>str::parse::<usize>\<close> and \<open><u64>\<close>, both of 64 bits.\<close>

definition parse_usize :: "string \<Rightarrow> nat option" where
  "parse_usize s =
     (let digits = (case strip_prefix ''+'' s of None \<Rightarrow> s | Some r \<Rightarrow> r) in
      if digits = [] then None
      else Option.bind (parse_digits 0 digits) (\<lambda>n. if n < 2 ^ 64 then Some n else None))"

fun pointer :: "string list \<Rightarrow> json \<Rightarrow> json option" where
  "pointer [] j = Some j"
| "pointer (t # ts) j = (case j of
      JObj m \<Rightarrow> (case map_of m t of None \<Rightarrow> None | Some v \<Rightarrow> pointer ts v)
    | JArr xs \<Rightarrow> (case parse_index t of
          None \<Rightarrow> None
        | Some i \<Rightarrow> if i < length xs then pointer ts (xs ! i) else None)
    | _ \<Rightarrow> None)"

fun unescape_token :: "string \<Rightarrow> string" where
  "unescape_token (a # b # s) =
     (if a = CHR 0x7E \<and> b = CHR ''1'' then CHR ''/'' # unescape_token s
      else if a = CHR 0x7E \<and> b = CHR ''0'' then CHR 0x7E # unescape_token s
      else a # unescape_token (b # s))"
| "unescape_token s = s"

text \<open>The pointer syntax itself: tokens after each \<open>/\<close>, with \<open>~1\<close> and \<open>~0\<close> escaped.\<close>

definition pointer_str :: "string \<Rightarrow> json \<Rightarrow> json option" where
  "pointer_str p j =
     (if p = [] then Some j
      else if hd p \<noteq> CHR ''/'' then None
      else pointer (map unescape_token (tl (split_on (CHR ''/'') p))) j)"

lemma idx_get_Some [simp]: "get k j = Some v \<Longrightarrow> idx j k = v"
  by (simp add: idx_def)

lemma get_Some_JObj: "get k j = Some v \<longleftrightarrow> (\<exists>m. j = JObj m \<and> map_of m k = Some v)"
  by (cases j) auto

lemma as_str_Some [simp]: "as_str j = Some s \<longleftrightarrow> j = JStr s"
  by (cases j) auto

lemma as_array_Some [simp]: "as_array j = Some xs \<longleftrightarrow> j = JArr xs"
  by (cases j) auto

lemma as_object_Some [simp]: "as_object j = Some m \<longleftrightarrow> j = JObj m"
  by (cases j) auto

lemma is_object_iff: "is_object j \<longleftrightarrow> (\<exists>m. j = JObj m)"
  by (cases j) (auto simp: is_object_def)

lemma pointer_JObj [simp]: "pointer (t # ts) (JObj m) = Option.bind (map_of m t) (pointer ts)"
  by (simp split: option.split)

lemma pointer_JNull [simp]: "pointer (t # ts) JNull = None"
  by simp

declare pointer.simps(2) [simp del]

lemma bind_pointer_Nil [simp]: "Option.bind x (pointer []) = x"
  by (cases x) auto

lemma pointer_obj: "is_object j \<Longrightarrow> pointer (k # ks) j = Option.bind (get k j) (pointer ks)"
  by (cases j) (auto simp: is_object_def)

lemma pointer_append:
  "pointer (xs @ ys) j = Option.bind (pointer xs j) (pointer ys)"
  by (induction xs j rule: pointer.induct)
    (auto simp: pointer.simps(2) split: json.splits option.splits)

lemma map_of_fold_put:
  "distinct (map fst kvs) \<Longrightarrow>
    map_of (fold (\<lambda>(k, v). obj_put k v) kvs m) k =
      (case map_of kvs k of None \<Rightarrow> map_of m k | Some v \<Rightarrow> Some v)"
proof (induction kvs arbitrary: m)
  case (Cons p kvs)
  obtain a b where p: "p = (a, b)" by fastforce
  have "map_of kvs a = None"
    using Cons.prems by (simp add: p map_of_eq_None_iff)
  then show ?case
    using Cons by (auto simp: p split: option.splits)
qed simp

lemma get_mk_obj: "distinct (map fst kvs) \<Longrightarrow> get k (mk_obj kvs) = map_of kvs k"
  by (simp add: mk_obj_def map_of_fold_put split: option.splits)

section \<open>Writing\<close>

text \<open>\<open>value[k] = x\<close> and, along a path, \<open>value[k1][k2].. = x\<close>: \<open>None\<close> is the panic.\<close>

fun jupdate :: "string list \<Rightarrow> (json \<Rightarrow> json option) \<Rightarrow> json \<Rightarrow> json option" where
  "jupdate [] f j = f j"
| "jupdate (k # ks) f j = (case j of
      JNull \<Rightarrow> map_option (\<lambda>v. JObj [(k, v)]) (jupdate ks f JNull)
    | JObj m \<Rightarrow> map_option (\<lambda>v. JObj (obj_put k v m))
        (jupdate ks f (case map_of m k of None \<Rightarrow> JNull | Some v \<Rightarrow> v))
    | _ \<Rightarrow> None)"

definition jset :: "string list \<Rightarrow> json \<Rightarrow> json \<Rightarrow> json option" where
  "jset ks x j = jupdate ks (\<lambda>_. Some x) j"

text \<open>Writing into what is known to be an object (after \<open>as_object_mut\<close>, or built by \<open>json!\<close>).\<close>

fun jput :: "string \<Rightarrow> json \<Rightarrow> json \<Rightarrow> json" where
  "jput k x (JObj m) = JObj (obj_put k x m)"
| "jput k x j = j"

fun jdel :: "string \<Rightarrow> json \<Rightarrow> json" where
  "jdel k (JObj m) = JObj (obj_del k m)"
| "jdel k j = j"

text \<open>
  Replace what is at a path of object keys, where there is something (\<open>get_mut\<close> and
  \<open>pointer_mut\<close> hand out a reference to it).
\<close>

fun jreplace :: "string list \<Rightarrow> json \<Rightarrow> json \<Rightarrow> json" where
  "jreplace [] x j = x"
| "jreplace (k # ks) x (JObj m) = (case map_of m k of
      None \<Rightarrow> JObj m
    | Some v \<Rightarrow> JObj (obj_put k (jreplace ks x v) m))"
| "jreplace (k # ks) x j = j"

lemma get_jput: "get k (jput k' x j) = (if k = k' \<and> is_object j then Some x else get k j)"
  by (cases j) (auto simp: is_object_def)

lemma get_jdel: "get k (jdel k' j) = (if k = k' then None else get k j)"
  by (cases j) auto

lemma jset_one: "jset [k] x j = (case j of JNull \<Rightarrow> Some (JObj [(k, x)])
    | JObj m \<Rightarrow> Some (JObj (obj_put k x m)) | _ \<Rightarrow> None)"
  by (auto simp: jset_def split: json.splits)

lemma wf_jput: "wf_json j \<Longrightarrow> wf_json x \<Longrightarrow> wf_json (jput k x j)"
  by (cases j) (auto simp del: wf_json.simps simp: wf_obj_put)

lemma wf_jdel: "wf_json j \<Longrightarrow> wf_json (jdel k j)"
  by (cases j) (auto simp del: wf_json.simps simp: wf_obj_del)

lemma wf_jreplace: "wf_json j \<Longrightarrow> wf_json x \<Longrightarrow> wf_json (jreplace ks x j)"
proof (induction ks x j rule: jreplace.induct)
  case (2 k ks x m)
  then show ?case
    by (auto simp del: wf_json.simps split: option.splits intro!: wf_obj_put dest: wf_map_of)
qed auto

lemma get_jreplace_other: "k \<noteq> k' \<Longrightarrow> get k (jreplace (k' # ks) x j) = get k j"
  by (cases j) (auto split: option.splits)

lemma is_object_jreplace: "is_object (jreplace (k # ks) x j) = is_object j"
  by (cases j) (auto simp: is_object_def split: option.splits)

lemma as_object_jput [simp]: "as_object (jput k x j) = map_option (obj_put k x) (as_object j)"
  by (cases j) auto

section \<open>Reading back what was written\<close>

text \<open>Following keys by \<open>value[k1][k2]..\<close>; \<open>walkable\<close> values do not make the writer panic.\<close>

fun walk :: "string list \<Rightarrow> json \<Rightarrow> json" where
  "walk [] j = j"
| "walk (k # ks) j = walk ks (idx j k)"

fun walkable :: "string list \<Rightarrow> json \<Rightarrow> bool" where
  "walkable [] j = True"
| "walkable (k # ks) j = ((j = JNull \<or> is_object j) \<and> walkable ks (idx j k))"

lemma walk_append: "walk (xs @ ys) j = walk ys (walk xs j)"
  by (induction xs j rule: walk.induct) auto

lemma walkable_append: "walkable (xs @ ys) j \<longleftrightarrow> walkable xs j \<and> walkable ys (walk xs j)"
  by (induction xs j rule: walk.induct) auto

lemma idx_JNull [simp]: "idx JNull k = JNull"
  by (simp add: idx_def)

lemma idx_JObj: "idx (JObj m) k = (case map_of m k of None \<Rightarrow> JNull | Some v \<Rightarrow> v)"
  by (simp add: idx_def)

lemma jupdate_Some_iff:
  "walkable ks j \<Longrightarrow> (\<exists>j'. jupdate ks f j = Some j') \<longleftrightarrow> f (walk ks j) \<noteq> None"
proof (induction ks arbitrary: j)
  case (Cons k ks)
  then show ?case
    by (cases j) (auto simp: idx_JObj is_object_iff)
qed auto

lemma jupdate_walk: "jupdate ks f j = Some j' \<Longrightarrow> f (walk ks j) = Some (walk ks j')"
proof (induction ks arbitrary: j j')
  case (Cons k ks)
  then show ?case
    by (cases j) (auto simp: idx_JObj)
qed simp

lemma jupdate_pointer: "jupdate ks f j = Some j' \<Longrightarrow> pointer ks j' = Some (walk ks j')"
proof (induction ks arbitrary: j j')
  case (Cons k ks)
  then show ?case
    by (cases j) (auto simp: idx_JObj)
qed simp

lemma jupdate_get_other: "jupdate (k # ks) f j = Some j' \<Longrightarrow> k' \<noteq> k \<Longrightarrow> get k' j' = get k' j"
  by (cases j) auto

lemma jupdate_is_object: "jupdate (k # ks) f j = Some j' \<Longrightarrow> is_object j'"
  by (cases j) (auto simp: is_object_iff)

lemma jupdate_not_walkable: "jupdate ks f j = Some j' \<Longrightarrow> walkable ks j"
proof (induction ks arbitrary: j j')
  case (Cons k ks)
  then show ?case by (cases j) (auto simp: idx_JObj is_object_iff)
qed simp

text \<open>A branch off the path keeps what it had.\<close>

lemma jupdate_walk_other:
  "jupdate (ks @ k # ls) f j = Some j' \<Longrightarrow> k' \<noteq> k \<Longrightarrow> get k' (walk ks j') = get k' (walk ks j)"
proof (induction ks arbitrary: j j')
  case Nil
  then show ?case by (simp add: jupdate_get_other del: jupdate.simps)
next
  case (Cons l ks)
  then show ?case
    by (cases j) (fastforce simp: idx_JObj)+
qed

end
