(* ===== verification/Http.thy ===== *)
theory Http
  imports Json
begin

text \<open>
  Requests, responses and headers as the program sees them, and the libraries it calls on
  strings. What these libraries do is a parameter (\<open>codec\<close>): percent-encoding, reading and
  printing JSON text, the display of a status code, which strings are room and user IDs.
  The documented behaviour a theorem relies on is a named predicate on the codec, and
  \<open>ref_codec\<close> is one codec that has it, for concrete runs.
\<close>

section \<open>The libraries' functions on strings\<close>

record codec =
  \<comment> \<open>\<open>utf8_percent_encode(s, set)\<close>: the second argument is the set of ASCII characters to encode\<close>
  pct_encode :: "(char \<Rightarrow> bool) \<Rightarrow> string \<Rightarrow> string"
  \<comment> \<open>\<open>percent_decode_str(s)\<close>, the bytes\<close>
  pct_decode :: "string \<Rightarrow> string"
  \<comment> \<open>\<open>decode_utf8_lossy\<close>\<close>
  utf8_lossy :: "string \<Rightarrow> string"
  \<comment> \<open>\<open>serde_json::from_slice\<close> and \<open>to_vec\<close> on a \<open>Value\<close>\<close>
  json_parse :: "string \<Rightarrow> json option"
  json_print :: "json \<Rightarrow> string"
  \<comment> \<open>\<open>to_vec_pretty\<close>, indented\<close>
  json_pretty :: "json \<Rightarrow> string"
  \<comment> \<open>\<open>StatusCode\<close>'s \<open>Display\<close>\<close>
  show_status :: "nat \<Rightarrow> string"
  \<comment> \<open>ruma's identifier grammar\<close>
  is_room_id :: "string \<Rightarrow> bool"
  is_user_id :: "string \<Rightarrow> bool"

definition is_ascii :: "char \<Rightarrow> bool" where
  "is_ascii c \<longleftrightarrow> (of_char c :: nat) < 128"

definition hex_digit :: "nat \<Rightarrow> char" where
  "hex_digit d = (if d < 10 then char_of (48 + d) else char_of (55 + d))"

definition hex_value :: "char \<Rightarrow> nat option" where
  "hex_value c = (let n = of_char c in
     if 48 \<le> n \<and> n \<le> 57 then Some (n - 48)
     else if 65 \<le> n \<and> n \<le> 70 then Some (n - 55)
     else if 97 \<le> n \<and> n \<le> 102 then Some (n - 87)
     else None)"

definition pct_byte :: "(char \<Rightarrow> bool) \<Rightarrow> char \<Rightarrow> string" where
  "pct_byte A c =
     (if is_ascii c \<and> \<not> A c then [c]
      else [CHR ''%'', hex_digit (of_char c div 16), hex_digit (of_char c mod 16)])"

fun pct_decode_bytes :: "string \<Rightarrow> string" where
  "pct_decode_bytes (p # h # l # s) =
     (if p = CHR ''%'' then
        (case (hex_value h, hex_value l) of
           (Some a, Some b) \<Rightarrow> char_of (16 * a + b) # pct_decode_bytes s
         | _ \<Rightarrow> p # pct_decode_bytes (h # l # s))
      else p # pct_decode_bytes (h # l # s))"
| "pct_decode_bytes s = s"

text \<open>
  The documentation of the percent-encoding crate: every byte that is not ASCII or is in the
  set becomes \<open>%XX\<close>, the others stay; decoding turns each \<open>%XX\<close> back and leaves everything
  else; the lossy conversion changes nothing in valid UTF-8.
\<close>

definition percent_coding :: "(string \<Rightarrow> bool) \<Rightarrow> codec \<Rightarrow> bool" where
  "percent_coding utf8 cd \<longleftrightarrow>
     (\<forall>A s. pct_encode cd A s = concat (map (pct_byte A) s)) \<and>
     (\<forall>s. pct_decode cd s = pct_decode_bytes s) \<and>
     (\<forall>s. utf8 s \<longrightarrow> utf8_lossy cd s = s)"

lemma hex_value_digit: "d < 16 \<Longrightarrow> hex_value (hex_digit d) = Some d"
  by (auto simp: hex_value_def hex_digit_def Let_def)

lemma pct_decode_bytes_plain: "c \<noteq> CHR ''%'' \<Longrightarrow> pct_decode_bytes (c # s) = c # pct_decode_bytes s"
proof (cases s)
  case (Cons a r)
  then show "c \<noteq> CHR ''%'' \<Longrightarrow> ?thesis" by (cases r) auto
qed simp

lemma pct_decode_byte:
  assumes "A (CHR ''%'')"
  shows "pct_decode_bytes (pct_byte A c @ s) = c # pct_decode_bytes s"
proof (cases "is_ascii c \<and> \<not> A c")
  case True
  with assms have "c \<noteq> CHR ''%''" by auto
  with True show ?thesis by (simp add: pct_byte_def pct_decode_bytes_plain)
next
  case False
  have lt: "(of_char c :: nat) < 256" by simp
  then have "(of_char c :: nat) div 16 < 16" by (simp add: less_mult_imp_div_less)
  moreover have "pct_byte A c = [CHR ''%'', hex_digit (of_char c div 16), hex_digit (of_char c mod 16)]"
    using False by (auto simp: pct_byte_def)
  ultimately show ?thesis
    using lt by (simp add: hex_value_digit)
qed

lemma pct_decode_encode:
  "A (CHR ''%'') \<Longrightarrow> pct_decode_bytes (concat (map (pct_byte A) s)) = s"
  by (induction s) (auto simp: pct_decode_byte)

lemma hex_digit_alnum: "d < 16 \<Longrightarrow> is_ascii_alphanumeric (hex_digit d)"
proof -
  have "\<forall>d \<in> set [0..<16]. is_ascii_alphanumeric (hex_digit d)" by code_simp
  then show "d < 16 \<Longrightarrow> ?thesis" by simp
qed

lemma pct_byte_chars:
  "x \<in> set (pct_byte A c) \<Longrightarrow> x = CHR ''%'' \<or> is_ascii_alphanumeric x \<or> (x = c \<and> is_ascii c \<and> \<not> A c)"
proof -
  have "(of_char c :: nat) < 256" by simp
  then have "(of_char c :: nat) div 16 < 16" "(of_char c :: nat) mod 16 < 16"
    by (simp_all add: less_mult_imp_div_less)
  then show "x \<in> set (pct_byte A c) \<Longrightarrow> ?thesis"
    by (auto simp: pct_byte_def hex_digit_alnum split: if_splits)
qed

section \<open>Headers\<close>

text \<open>
  A header map is the list of its entries; names are lower case, as the \<open>http\<close> crate keeps
  them. A name may occur more than once.
\<close>

type_synonym headers = "(string \<times> string) list"

definition header_values :: "string \<Rightarrow> headers \<Rightarrow> string list" where
  "header_values n hs = map snd (filter (\<lambda>h. fst h = n) hs)"

definition header_get :: "string \<Rightarrow> headers \<Rightarrow> string option" where
  "header_get n hs = map_of hs n"

text \<open>\<open>HeaderValue::to_str\<close>: visible ASCII only.\<close>

definition header_to_str :: "string \<Rightarrow> string option" where
  "header_to_str v =
     (if list_all (\<lambda>c. (32 \<le> (of_char c :: nat) \<and> (of_char c :: nat) < 127) \<or> c = CHR 0x09) v
      then Some v else None)"

section \<open>Requests and responses\<close>

record client_request =
  rq_method :: string
  rq_path :: string
  rq_query :: "string option"
  rq_headers :: headers
  rq_body :: string

record response =
  rs_status :: nat
  rs_headers :: headers
  rs_body :: string

text \<open>\<open>req.uri().path_and_query()\<close>.\<close>

definition path_and_query :: "client_request \<Rightarrow> string" where
  "path_and_query rq =
     rq_path rq @ (case rq_query rq of None \<Rightarrow> [] | Some q \<Rightarrow> CHR ''?'' # q)"

text \<open>\<open>StatusCode::is_success\<close>.\<close>

definition is_success :: "nat \<Rightarrow> bool" where
  "is_success st \<longleftrightarrow> 200 \<le> st \<and> st < 300"

text \<open>\<open>to_bytes(body, limit)\<close>: a body longer than the limit is an error.\<close>

definition to_bytes :: "string \<Rightarrow> nat \<Rightarrow> string option" where
  "to_bytes body limit = (if length body \<le> limit then Some body else None)"

lemma header_values_append [simp]:
  "header_values n (xs @ ys) = header_values n xs @ header_values n ys"
  by (simp add: header_values_def)

lemma header_get_values: "header_get n hs = (case header_values n hs of [] \<Rightarrow> None | v # _ \<Rightarrow> Some v)"
  by (induction hs) (auto simp: header_get_def header_values_def)

section \<open>A codec for concrete runs\<close>

text \<open>
  Percent-encoding as documented. JSON text is not needed in concrete runs beyond small
  tables, so the reference codec reads and prints nothing but the bodies it is given.
\<close>

definition ref_codec :: "(string \<times> json) list \<Rightarrow> codec" where
  "ref_codec tbl =
     \<lparr>pct_encode = (\<lambda>A s. concat (map (pct_byte A) s)),
      pct_decode = pct_decode_bytes,
      utf8_lossy = (\<lambda>s. s),
      json_parse = map_of tbl,
      json_print = (\<lambda>j. case List.find (\<lambda>p. snd p = j) tbl of None \<Rightarrow> ''?'' | Some p \<Rightarrow> fst p),
      json_pretty = (\<lambda>j. case List.find (\<lambda>p. snd p = j) tbl of None \<Rightarrow> ''?'' | Some p \<Rightarrow> fst p),
      show_status = show_nat,
      is_room_id = (\<lambda>s. prefix ''!'' s),
      is_user_id = (\<lambda>s. prefix ''@'' s \<and> CHR '':'' \<in> set s)\<rparr>"

lemma percent_coding_ref: "percent_coding utf8 (ref_codec tbl)"
  by (simp add: percent_coding_def ref_codec_def)

end
