(* ===== verification/Base.thy ===== *)
theory Base
  imports Http
begin

text \<open>
  Types that many components share: URLs, requests to the homeserver, the errors of
  \<open>anyhow\<close> and of \<open>src/src/error.rs\<close>, device conflicts (\<open>src/src/crypto/device.rs\<close>), file
  system paths, socket addresses and the configuration record (\<open>src/src/config.rs\<close>).
\<close>

section \<open>URLs and requests\<close>

text \<open>Scheme, host and port are one component, the origin; it is what decides who is asked.\<close>

record url =
  url_origin :: string
  url_path :: string
  url_query :: "string option"

record http_request =
  hr_method :: string
  hr_url :: url
  hr_headers :: headers
  hr_body :: string

section \<open>Errors\<close>

text \<open>
  A session the proxy does not serve: the homeserver has identity keys for its device that
  are not the ones in the store. \<open>dc_store\<close> is the store holding other keys.
\<close>

record device_conflict =
  dc_user_id :: string
  dc_device_id :: string
  dc_store :: "string option"

definition conflict_detail :: "device_conflict \<Rightarrow> string" where
  "conflict_detail c =
     (case dc_store c of
        None \<Rightarrow> ''the homeserver has encryption keys for device '' @ dc_device_id c @ '' of '' @ dc_user_id c @
          '' that this proxy does not hold (its store was deleted, or another program set the device up)''
      | Some store \<Rightarrow> ''the homeserver publishes other encryption keys for device '' @ dc_device_id c @
          '' of '' @ dc_user_id c @ '' than the store in '' @ store @ '' holds'')"

definition conflict_hint :: "device_conflict \<Rightarrow> string" where
  "conflict_hint c =
     (let again = ''log in again to continue as a new device (in ement: C-u M-x ement-connect)'' in
      case dc_store c of
        None \<Rightarrow> ''a device's keys cannot be replaced: '' @ again
      | Some store \<Rightarrow> ''a device's keys cannot be replaced: move '' @ store @ '' away and '' @ again)"

definition show_conflict :: "device_conflict \<Rightarrow> string" where
  "show_conflict c = conflict_detail c @ ''; '' @ conflict_hint c"

text \<open>
  \<open>anyhow::Error\<close>: a message, an error wrapped in a context, or one of the program's own
  error types, which the callers look for by \<open>downcast\<close>.
\<close>

record device_unchecked =
  du_device_id :: string
  du_reason :: string

datatype error =
    Msg string
  | Wrap string error
  | ConflictErr device_conflict
  | UncheckedErr device_unchecked

definition show_unchecked :: "device_unchecked \<Rightarrow> string" where
  "show_unchecked u =
     ''could not find out whether device '' @ du_device_id u @
     '' already has encryption keys, so none were published for it yet: '' @ du_reason u"

text \<open>\<open>{e}\<close>, the outermost message, and \<open>{e:#}\<close>, the whole chain.\<close>

fun show_error :: "error \<Rightarrow> string" where
  "show_error (Msg m) = m"
| "show_error (Wrap m e) = m"
| "show_error (ConflictErr c) = show_conflict c"
| "show_error (UncheckedErr u) = show_unchecked u"

fun show_chain :: "error \<Rightarrow> string" where
  "show_chain (Wrap m e) = m @ '': '' @ show_chain e"
| "show_chain e = show_error e"

fun downcast_conflict :: "error \<Rightarrow> device_conflict option" where
  "downcast_conflict (ConflictErr c) = Some c"
| "downcast_conflict (Wrap _ e) = downcast_conflict e"
| "downcast_conflict _ = None"

fun downcast_unchecked :: "error \<Rightarrow> device_unchecked option" where
  "downcast_unchecked (UncheckedErr u) = Some u"
| "downcast_unchecked (Wrap _ e) = downcast_unchecked e"
| "downcast_unchecked _ = None"

datatype proxy_error =
    Upstream string
  | Internal error
  | BadRequest string
  | DeviceConflict device_conflict
  | DeviceUnchecked device_unchecked

fun show_proxy_error :: "proxy_error \<Rightarrow> string" where
  "show_proxy_error (Upstream e) = ''upstream request failed: '' @ e"
| "show_proxy_error (Internal e) = show_error e"
| "show_proxy_error (BadRequest m) = m"
| "show_proxy_error (DeviceConflict c) = show_conflict c"
| "show_proxy_error (DeviceUnchecked u) = show_unchecked u"

fun error_status :: "proxy_error \<Rightarrow> nat" where
  "error_status (Upstream _) = 502"
| "error_status (Internal _) = 500"
| "error_status (BadRequest _) = 400"
| "error_status (DeviceConflict _) = 409"
| "error_status (DeviceUnchecked _) = 502"

text \<open>\<open>impl IntoResponse for ProxyError\<close>.\<close>

definition error_response :: "codec \<Rightarrow> proxy_error \<Rightarrow> response" where
  "error_response cd e =
     \<lparr>rs_status = error_status e,
      rs_headers = [(''content-type'', ''application/json'')],
      rs_body = json_print cd (mk_obj [(''errcode'', JStr ''M_UNKNOWN''),
        (''error'', JStr (''ement-e2ee: '' @ show_proxy_error e))])\<rparr>"

section \<open>Paths\<close>

text \<open>\<open>Path::join\<close>: an absolute path replaces what it is joined to.\<close>

definition path_join :: "string \<Rightarrow> string \<Rightarrow> string" where
  "path_join p q =
     (if q \<noteq> [] \<and> hd q = CHR ''/'' then q
      else if p = [] \<or> last p = CHR ''/'' then p @ q
      else p @ ''/'' @ q)"

section \<open>Configuration\<close>

datatype ip_addr = V4 "32 word" | V6 "128 word"

record socket_addr =
  sa_ip :: ip_addr
  sa_port :: "16 word"

record config =
  cfg_listen :: socket_addr
  cfg_homeserver :: url
  cfg_store_dir :: string
  cfg_log_level :: string
  cfg_store_passphrase :: "string option"
  cfg_admin_token :: "string option"

end
