(* ===== verification/Tracker.thy ===== *)
theory Tracker
  imports Json "HOL-Library.AList"
begin

text \<open>
  What the proxy knows about the rooms of an account (\<open>RoomTracker\<close> in
  \<open>src/src/crypto/rooms.rs\<close>): pure state and its operations. The functions that also ask the
  homeserver or the crypto machine are in \<open>Rooms\<close>. Hash maps are association lists, times
  nanoseconds of a monotone clock.
\<close>

section \<open>State\<close>

text \<open>ruma's \<open>HistoryVisibility\<close>, an open enumeration over its string form.\<close>

datatype history_visibility = Invited | Joined | Shared | WorldReadable | CustomVisibility string

definition history_visibility_from :: "string \<Rightarrow> history_visibility" where
  "history_visibility_from s =
     (if s = ''invited'' then Invited
      else if s = ''joined'' then Joined
      else if s = ''shared'' then Shared
      else if s = ''world_readable'' then WorldReadable
      else CustomVisibility s)"

record member_cache =
  mc_at :: nat
  mc_members :: "string list"

record room_tracker =
  visibility :: "(string \<times> history_visibility) list"
  members :: "(string \<times> member_cache) list"
  unencrypted :: "string set"
  requested_sessions :: "string set"
  joined :: "(string \<times> json option) list"

definition empty_tracker :: room_tracker where
  "empty_tracker = \<lparr>visibility = [], members = [], unencrypted = {}, requested_sessions = {}, joined = []\<rparr>"

text \<open>600 seconds.\<close>

definition member_cache_ttl :: nat where
  "member_cache_ttl = 600 * 10 ^ 9"

section \<open>Operations\<close>

definition get_history_visibility :: "string \<Rightarrow> room_tracker \<Rightarrow> history_visibility option" where
  "get_history_visibility room t = map_of (visibility t) room"

definition set_history_visibility :: "string \<Rightarrow> history_visibility \<Rightarrow> room_tracker \<Rightarrow> room_tracker" where
  "set_history_visibility room v t = t\<lparr>visibility := AList.update room v (visibility t)\<rparr>"

definition cached_members :: "nat \<Rightarrow> string \<Rightarrow> room_tracker \<Rightarrow> string list option" where
  "cached_members now room t =
     (case map_of (members t) room of
        None \<Rightarrow> None
      | Some c \<Rightarrow> if now - mc_at c < member_cache_ttl then Some (mc_members c) else None)"

definition cache_members :: "nat \<Rightarrow> string \<Rightarrow> string list \<Rightarrow> room_tracker \<Rightarrow> room_tracker" where
  "cache_members now room ms t =
     t\<lparr>members := AList.update room \<lparr>mc_at = now, mc_members = ms\<rparr> (members t)\<rparr>"

definition invalidate_members :: "string \<Rightarrow> room_tracker \<Rightarrow> room_tracker" where
  "invalidate_members room t = t\<lparr>members := AList.delete room (members t)\<rparr>"

definition is_known_unencrypted :: "string \<Rightarrow> room_tracker \<Rightarrow> bool" where
  "is_known_unencrypted room t \<longleftrightarrow> room \<in> unencrypted t"

definition mark_unencrypted :: "string \<Rightarrow> room_tracker \<Rightarrow> room_tracker" where
  "mark_unencrypted room t = t\<lparr>unencrypted := insert room (unencrypted t)\<rparr>"

definition mark_encrypted :: "string \<Rightarrow> room_tracker \<Rightarrow> room_tracker" where
  "mark_encrypted room t = t\<lparr>unencrypted := unencrypted t - {room}\<rparr>"

text \<open>\<open>joined.entry(room).or_default()\<close>, then the counts if the entry carries any.\<close>

definition note_joined :: "string \<Rightarrow> json option \<Rightarrow> room_tracker \<Rightarrow> room_tracker" where
  "note_joined room unread t =
     (let last = (case map_of (joined t) room of None \<Rightarrow> None | Some l \<Rightarrow> l);
          last' = (case unread of None \<Rightarrow> last | Some u \<Rightarrow> Some u)
      in t\<lparr>joined := AList.update room last' (joined t)\<rparr>)"

definition note_left :: "string \<Rightarrow> room_tracker \<Rightarrow> room_tracker" where
  "note_left room t = t\<lparr>joined := AList.delete room (joined t)\<rparr>"

definition last_unread_notifications :: "string \<Rightarrow> room_tracker \<Rightarrow> json option option" where
  "last_unread_notifications room t = map_of (joined t) room"

section \<open>Settings of an encrypted room\<close>

record room_settings =
  st_algorithm :: string
  st_only_trusted :: bool
  st_rotation_period_ms :: "u64 option"
  st_rotation_msgs :: "u64 option"

definition room_settings_from_content :: "json \<Rightarrow> room_settings option" where
  "room_settings_from_content content =
     (case Option.bind (get ''algorithm'' content) as_str of
        None \<Rightarrow> None
      | Some algorithm \<Rightarrow> Some
          \<lparr>st_algorithm = algorithm,
           st_only_trusted = False,
           st_rotation_period_ms = Option.bind (get ''rotation_period_ms'' content) as_u64,
           st_rotation_msgs = Option.bind (get ''rotation_period_msgs'' content) as_u64\<rparr>)"

section \<open>Lemmas\<close>

lemmas tracker_defs = get_history_visibility_def set_history_visibility_def cached_members_def
  cache_members_def invalidate_members_def is_known_unencrypted_def mark_unencrypted_def
  mark_encrypted_def note_joined_def note_left_def last_unread_notifications_def

text \<open>
  A room the client has left is unknown until a join entry comes; the counts of a join entry
  without any are those of the last one that had some.
\<close>

fun note_joins :: "(string \<times> json option) list \<Rightarrow> room_tracker \<Rightarrow> room_tracker" where
  "note_joins [] t = t"
| "note_joins ((room, u) # js) t = note_joins js (note_joined room u t)"

lemma last_unread_note_joined:
  "last_unread_notifications r (note_joined room u t) =
    (if r = room then Some (case u of None \<Rightarrow> Option.bind (last_unread_notifications room t) (\<lambda>x. x)
      | Some x \<Rightarrow> Some x)
     else last_unread_notifications r t)"
  by (auto simp: tracker_defs Let_def update_conv' split: option.splits)

text \<open>The counts in the last of the entries that has some, or else the ones from before.\<close>

fun last_counts :: "json option \<Rightarrow> json option list \<Rightarrow> json option" where
  "last_counts d [] = d"
| "last_counts d (u # us) = last_counts (case u of None \<Rightarrow> d | Some x \<Rightarrow> Some x) us"

text \<open>
  Whatever join entries the client was given, in whatever order the rooms come, the
  counts the proxy repeats for a joined room are those of the latest entry of that room that
  carried any; a room that was left is not joined.
\<close>

theorem unread_counts_latest:
  "last_unread_notifications room (note_left room t) = None \<and>
   (js \<noteq> [] \<longrightarrow>
     last_unread_notifications room (note_joins (map (Pair room) js) t) =
       Some (last_counts (Option.bind (last_unread_notifications room t) (\<lambda>x. x)) js)) \<and>
   (\<forall>other. other \<notin> set (map fst ks) \<longrightarrow>
     last_unread_notifications other (note_joins ks t) = last_unread_notifications other t)"
proof (intro conjI impI allI)
  show "last_unread_notifications room (note_left room t) = None"
    by (simp add: tracker_defs delete_conv')
  show "js \<noteq> [] \<Longrightarrow> last_unread_notifications room (note_joins (map (Pair room) js) t) =
      Some (last_counts (Option.bind (last_unread_notifications room t) (\<lambda>x. x)) js)"
  proof (induction js arbitrary: t)
    case (Cons u us)
    then show ?case
      by (cases us) (auto simp: last_unread_note_joined split: option.splits)
  qed simp
  show "last_unread_notifications other (note_joins ks t) = last_unread_notifications other t"
    if "other \<notin> set (map fst ks)" for other
    using that by (induction ks t rule: note_joins.induct) (auto simp: last_unread_note_joined)
qed

theorem unread_counts_latest_witness:
  "last_unread_notifications ''!r'' (note_joins [(''!r'', Some (JBool True)), (''!r'', None)] empty_tracker) =
    Some (Some (JBool True))"
  using unread_counts_latest [of "''!r''" empty_tracker "[Some (JBool True), None]" "[]"]
  by (simp add: empty_tracker_def last_unread_notifications_def)

text \<open>
  The member list of a room is used for less than ten minutes after it was fetched and
  not past a membership event; other rooms' lists are not touched by either.
\<close>

theorem member_cache_bounded:
  "cached_members now room (cache_members at room ms t) =
     (if now - at < 600 * 10 ^ 9 then Some ms else None) \<and>
   cached_members now room (invalidate_members room t) = None \<and>
   (other \<noteq> room \<longrightarrow>
     cached_members now other (cache_members at room ms t) = cached_members now other t \<and>
     cached_members now other (invalidate_members room t) = cached_members now other t)"
  by (simp add: tracker_defs update_conv' delete_conv' member_cache_ttl_def)

theorem member_cache_bounded_witness:
  "cached_members 5 ''!b'' (cache_members 1 ''!a'' [''@a:hs''] empty_tracker) = None"
  using member_cache_bounded [of 5 "''!a''" 1 "[''@a:hs'']" empty_tracker "''!b''"]
  by (simp add: cached_members_def empty_tracker_def)

end
