(* ===== verification/SeenEvents.thy ===== *)
theory SeenEvents
  imports Bounded Json
begin

text \<open>
  The memory of processed to-device events and the counters of the sync stream
  (\<open>SeenToDevice\<close>, \<open>SyncStats\<close> and \<open>SyncState\<close> in \<open>src/src/crypto/sync.rs\<close>). The keyed hash
  of an event is a parameter of the code that uses this memory; a key is a \<open>u64\<close>.
\<close>

record seen_to_device =
  seen_order :: "u64 list"
  seen_set :: "u64 set"

definition seen_capacity :: nat where
  "seen_capacity = 4096"

definition empty_seen :: seen_to_device where
  "empty_seen = \<lparr>seen_order = [], seen_set = {}\<rparr>"

definition seen_insert :: "u64 \<Rightarrow> seen_to_device \<Rightarrow> bool \<times> seen_to_device" where
  "seen_insert key s =
     (if key \<in> seen_set s then (False, s)
      else
        let s1 = s\<lparr>seen_set := insert key (seen_set s), seen_order := seen_order s @ [key]\<rparr> in
        if length (seen_order s1) > seen_capacity then
          (case seen_order s1 of
             [] \<Rightarrow> (True, s1)
           | oldest # rest \<Rightarrow> (True, s1\<lparr>seen_order := rest, seen_set := seen_set s1 - {oldest}\<rparr>))
        else (True, s1))"

definition seen_forget :: "u64 \<Rightarrow> seen_to_device \<Rightarrow> seen_to_device" where
  "seen_forget key s =
     (if key \<in> seen_set s
      then s\<lparr>seen_set := seen_set s - {key}, seen_order := filter (\<lambda>k. k \<noteq> key) (seen_order s)\<rparr>
      else s)"

record sync_stats =
  client_syncs :: u64
  last_client_sync :: "nat option"
  to_device_events :: u64
  to_device_duplicates :: u64
  room_keys_received :: u64

definition no_stats :: sync_stats where
  "no_stats = \<lparr>client_syncs = 0, last_client_sync = None, to_device_events = 0,
     to_device_duplicates = 0, room_keys_received = 0\<rparr>"

record sync_state =
  ss_seen :: seen_to_device
  ss_stats :: sync_stats

definition empty_sync :: sync_state where
  "empty_sync = \<lparr>ss_seen = empty_seen, ss_stats = no_stats\<rparr>"

section \<open>The invariant and the bounded memory\<close>

definition seen_ok :: "seen_to_device \<Rightarrow> bool" where
  "seen_ok s \<longleftrightarrow> distinct (seen_order s) \<and> set (seen_order s) = seen_set s \<and>
     length (seen_order s) \<le> seen_capacity"

lemma seen_ok_empty: "seen_ok empty_seen"
  by (simp add: seen_ok_def empty_seen_def)

lemma fst_seen_insert: "fst (seen_insert k s) \<longleftrightarrow> k \<notin> seen_set s"
  by (simp add: seen_insert_def Let_def split: list.split)

lemma seen_insert_order:
  assumes "seen_ok s"
  shows "seen_order (snd (seen_insert k s)) =
    (if k \<in> set (seen_order s) then seen_order s else window seen_capacity (seen_order s @ [k]))"
proof (cases "length (seen_order s) = seen_capacity")
  case True
  then obtain x xs where "seen_order s = x # xs"
    by (cases "seen_order s") (auto simp: seen_capacity_def)
  with True assms show ?thesis
    by (auto simp: seen_insert_def seen_ok_def Let_def window_def)
qed (use assms in \<open>auto simp: seen_insert_def seen_ok_def Let_def window_short\<close>)

lemma seen_insert_set:
  assumes "seen_ok s"
  shows "seen_set (snd (seen_insert k s)) = set (seen_order (snd (seen_insert k s)))"
proof (cases "k \<in> seen_set s \<or> length (seen_order s) \<noteq> seen_capacity")
  case True
  then have "k \<in> seen_set s \<or> Suc (length (seen_order s)) \<le> seen_capacity"
    using assms by (simp add: seen_ok_def) linarith
  with assms show ?thesis
    by (cases "k \<in> seen_set s") (simp_all add: seen_insert_def seen_ok_def Let_def)
next
  case False
  then obtain x xs where x: "seen_order s = x # xs"
    by (cases "seen_order s") (auto simp: seen_capacity_def)
  have "seen_set s = insert x (set xs)" "x \<notin> set xs" "k \<noteq> x"
    using assms False by (auto simp: seen_ok_def x)
  then have "insert k (seen_set s) - {x} = set (xs @ [k])" by auto
  with False show ?thesis
    by (simp add: seen_insert_def Let_def x)
qed

lemma seen_insert_ok: "seen_ok s \<Longrightarrow> seen_ok (snd (seen_insert k s))"
  using seen_insert_set [of s k] seen_insert_order [of s k]
    distinct_window [of "seen_order s @ [k]" seen_capacity]
  by (simp add: seen_ok_def)

lemma seen_forget_ok: "seen_ok s \<Longrightarrow> seen_ok (seen_forget k s)"
  unfolding seen_forget_def seen_ok_def by (auto intro: order_trans [OF length_filter_le])

lemma seen_forget_order: "seen_ok s \<Longrightarrow> seen_order (seen_forget k s) = filter (\<lambda>x. x \<noteq> k) (seen_order s)"
  by (auto simp: seen_forget_def seen_ok_def intro!: filter_True [symmetric])

lemma seen_set_order: "seen_ok s \<Longrightarrow> seen_set s = set (seen_order s)"
  by (simp add: seen_ok_def)

interpretation sn: keyed_fifo_del seen_capacity seen_order "\<lambda>k (_::unit) s. snd (seen_insert k s)"
  seen_ok seen_forget
proof
  show "0 < seen_capacity" by (simp add: seen_capacity_def)
  show "seen_ok s \<Longrightarrow> distinct (seen_order s) \<and> length (seen_order s) \<le> seen_capacity" for s
    by (simp add: seen_ok_def)
qed (simp_all add: seen_insert_ok seen_insert_order seen_forget_ok seen_forget_order)

text \<open>Which of a batch of keys are let through, and the memory afterwards.\<close>

fun admit :: "u64 list \<Rightarrow> seen_to_device \<Rightarrow> u64 list \<times> seen_to_device" where
  "admit [] s = ([], s)"
| "admit (k # ks) s =
     (let (new, s1) = seen_insert k s; (rest, s2) = admit ks s1
      in (if new then k # rest else rest, s2))"

lemma admit_fill: "snd (admit ks s) = sn.fill (map (\<lambda>k. (k, ())) ks) s"
proof (induction ks arbitrary: s)
  case (Cons k ks)
  have "snd (admit (k # ks) s) = snd (admit ks (snd (seen_insert k s)))"
    by (simp add: Let_def split: prod.splits)
  then show ?case
    by (simp add: Cons.IH del: admit.simps)
qed simp

lemma admit_ok: "seen_ok s \<Longrightarrow> seen_ok (snd (admit ks s))"
  by (simp add: admit_fill sn.inv_fill)

lemma admit_append:
  "admit (xs @ ys) s = (fst (admit xs s) @ fst (admit ys (snd (admit xs s))), snd (admit ys (snd (admit xs s))))"
  by (induction xs arbitrary: s) (auto simp: Let_def split: prod.splits)

lemma admit_mem:
  "x \<in> set (fst (admit ks s)) \<longleftrightarrow> (\<exists>xs ys. ks = xs @ x # ys \<and> x \<notin> seen_set (snd (admit xs s)))"
proof (induction ks arbitrary: s)
  case (Cons k ks)
  have step: "x \<in> set (fst (admit (k # ks) s)) \<longleftrightarrow>
      (x = k \<and> k \<notin> seen_set s) \<or> x \<in> set (fst (admit ks (snd (seen_insert k s))))"
    using fst_seen_insert [of k s] by (auto simp: Let_def split: prod.splits)
  have tail: "snd (admit (k # xs) s) = snd (admit xs (snd (seen_insert k s)))" for xs
    by (simp add: Let_def split: prod.splits)
  show ?case
    unfolding step Cons.IH
  proof (intro iffI; elim disjE exE conjE)
    fix xs ys
    assume "k # ks = xs @ x # ys" and "x \<notin> seen_set (snd (admit xs s))"
    then show "x = k \<and> k \<notin> seen_set s \<or>
        (\<exists>xs ys. ks = xs @ x # ys \<and> x \<notin> seen_set (snd (admit xs (snd (seen_insert k s)))))"
      by (cases xs) (auto simp: tail simp del: admit.simps(2))
  next
    fix xs ys
    assume "ks = xs @ x # ys" "x \<notin> seen_set (snd (admit xs (snd (seen_insert k s))))"
    then show "\<exists>xs ys. k # ks = xs @ x # ys \<and> x \<notin> seen_set (snd (admit xs s))"
      by (intro exI [of _ "k # xs"] exI [of _ ys]) (simp add: tail del: admit.simps(2))
  qed (auto intro: exI [of _ "[]"])
qed simp

text \<open>
  A to-device event is handed over at most once while it is remembered: once it was let
  through, it is not let through again within the next 4096 deliveries, whatever comes
  between; and the memory never holds more than 4096 keys.
\<close>

theorem to_device_at_most_once:
  assumes "k \<in> set (fst (admit [k] (snd (admit before empty_seen))))" and "length later \<le> 4096"
  shows "k \<notin> set (fst (admit later (snd (admit (before @ [k]) empty_seen)))) \<and>
    length (seen_order (snd (admit (before @ [k] @ later) empty_seen))) \<le> 4096"
proof -
  let ?s = "snd (admit before empty_seen)"
  have ok: "seen_ok ?s" by (simp add: admit_ok seen_ok_empty)
  have new: "k \<notin> set (seen_order ?s)"
    using assms(1) by (auto simp: admit_mem seen_set_order [OF ok] Cons_eq_append_conv
        simp del: admit.simps(2))
  have "k \<in> seen_set (snd (admit xs (snd (seen_insert k ?s))))" if "later = xs @ k # ys" for xs ys
  proof -
    have "seen_ok (snd (admit xs (snd (seen_insert k ?s))))"
      by (simp add: admit_ok seen_insert_ok ok)
    moreover have "k \<in> set (seen_order (sn.fill (map (\<lambda>k. (k, ())) xs) (snd (seen_insert k ?s))))"
      using that assms(2) by (intro sn.recent_kept [OF ok new]) (simp add: seen_capacity_def)
    ultimately show ?thesis by (simp add: seen_set_order admit_fill)
  qed
  moreover have "snd (admit (before @ [k]) empty_seen) = snd (seen_insert k ?s)"
    by (simp add: admit_append split: prod.splits)
  moreover have "length (seen_order (snd (admit (before @ [k] @ later) empty_seen))) \<le> seen_capacity"
    using admit_ok [OF seen_ok_empty] by (simp add: seen_ok_def)
  ultimately show ?thesis
    by (auto simp: admit_mem seen_capacity_def)
qed

theorem to_device_at_most_once_witness:
  "7 \<notin> set (fst (admit [8, 7] (snd (admit ([] @ [7]) empty_seen))))"
proof -
  have "(7::u64) \<in> set (fst (admit [7] (snd (admit [] empty_seen))))"
    by code_simp
  then show ?thesis
    using to_device_at_most_once [of 7 "[]" "[8, 7]"] by simp
qed

end
