(* ===== verification/VerifyLog.thy ===== *)
theory VerifyLog
  imports Bounded Json
begin

text \<open>
  The outcomes of finished verification flows (\<open>VerificationLog\<close> in
  \<open>src/src/crypto/verify.rs\<close>): the 32 most recent flows, each with its latest summary.
\<close>

record verification_log =
  vl_users :: "string set"
  vl_finished :: "(string \<times> json) list"
  vl_order :: "string list"

definition max_finished :: nat where
  "max_finished = 32"

definition empty_log :: verification_log where
  "empty_log = \<lparr>vl_users = {}, vl_finished = [], vl_order = []\<rparr>"

definition log_watch :: "string \<Rightarrow> verification_log \<Rightarrow> verification_log" where
  "log_watch user l = l\<lparr>vl_users := insert user (vl_users l)\<rparr>"

definition log_record :: "string \<Rightarrow> json \<Rightarrow> verification_log \<Rightarrow> verification_log" where
  "log_record flow_id summary l =
     (let old = map_of (vl_finished l) flow_id;
          l1 = l\<lparr>vl_finished := AList.update flow_id summary (vl_finished l)\<rparr>
      in if old \<noteq> None then l1
         else
           let l2 = l1\<lparr>vl_order := vl_order l1 @ [flow_id]\<rparr> in
           if length (vl_order l2) > max_finished then
             (case vl_order l2 of
                [] \<Rightarrow> l2
              | oldest # rest \<Rightarrow> l2\<lparr>vl_order := rest, vl_finished := AList.delete oldest (vl_finished l2)\<rparr>)
           else l2)"

definition log_get :: "string \<Rightarrow> verification_log \<Rightarrow> json option" where
  "log_get flow_id l = map_of (vl_finished l) flow_id"

definition log_all :: "verification_log \<Rightarrow> json list" where
  "log_all l = List.map_filter (map_of (vl_finished l)) (vl_order l)"

section \<open>The invariant and the bounded memory\<close>

definition log_ok :: "verification_log \<Rightarrow> bool" where
  "log_ok l \<longleftrightarrow> distinct (vl_order l) \<and> set (vl_order l) = fst ` set (vl_finished l) \<and>
     distinct (map fst (vl_finished l)) \<and> length (vl_order l) \<le> max_finished"

lemma log_ok_empty: "log_ok empty_log"
  by (simp add: log_ok_def empty_log_def)

lemma log_known: "log_ok l \<Longrightarrow> map_of (vl_finished l) k = None \<longleftrightarrow> k \<notin> set (vl_order l)"
  by (simp add: log_ok_def map_of_eq_None_iff)

lemma log_record_order:
  assumes "log_ok l"
  shows "vl_order (log_record k v l) =
    (if k \<in> set (vl_order l) then vl_order l else window max_finished (vl_order l @ [k]))"
proof (cases "length (vl_order l) = max_finished")
  case True
  then obtain x xs where "vl_order l = x # xs"
    by (cases "vl_order l") (auto simp: max_finished_def)
  with True assms show ?thesis
    using log_known [OF assms, of k] by (auto simp: log_record_def log_ok_def Let_def window_def)
next
  case False
  with assms show ?thesis
    using log_known [OF assms, of k]
    by (auto simp: log_record_def log_ok_def Let_def window_short)
qed

lemma log_record_keys:
  assumes "log_ok l"
  shows "fst ` set (vl_finished (log_record k v l)) = set (vl_order (log_record k v l)) \<and>
    distinct (map fst (vl_finished (log_record k v l)))"
proof (cases "k \<in> set (vl_order l) \<or> length (vl_order l) \<noteq> max_finished")
  case True
  with assms show ?thesis
    using log_known [OF assms, of k]
    by (auto simp: log_record_def log_ok_def Let_def keys_update distinct_update)
next
  case False
  then obtain x xs where x: "vl_order l = x # xs"
    by (cases "vl_order l") (auto simp: max_finished_def)
  have fin: "vl_finished (log_record k v l) = AList.delete x (AList.update k v (vl_finished l))"
    "vl_order (log_record k v l) = xs @ [k]"
    using False log_known [OF assms, of k] by (simp_all add: log_record_def Let_def x)
  have "fst ` set (AList.delete x (AList.update k v (vl_finished l))) =
      insert k (fst ` set (vl_finished l)) - {x}"
    by (simp add: keys_delete keys_update)
  also have "\<dots> = set (xs @ [k])"
  proof -
    have "fst ` set (vl_finished l) = insert x (set xs)" "x \<notin> set xs" "k \<noteq> x"
      using assms False by (auto simp: log_ok_def x)
    then show ?thesis by auto
  qed
  finally show ?thesis
    using assms by (simp add: fin distinct_delete distinct_update log_ok_def)
qed

lemma log_record_ok: "log_ok l \<Longrightarrow> log_ok (log_record k v l)"
  using log_record_keys [of l k v] log_record_order [of l k v]
    distinct_window [of "vl_order l @ [k]" max_finished]
  unfolding log_ok_def by auto

lemma log_ok_order: "log_ok l \<Longrightarrow> distinct (vl_order l) \<and> length (vl_order l) \<le> max_finished"
  by (simp add: log_ok_def)

interpretation vl: keyed_fifo max_finished vl_order log_record log_ok
proof
  show "0 < max_finished" by (simp add: max_finished_def)
qed (simp_all add: log_record_ok log_record_order log_ok_order)

lemma log_get_record: "log_ok l \<Longrightarrow> log_get k (log_record k v l) = Some v"
proof -
  assume ok: "log_ok l"
  have in_order: "k \<in> set (vl_order (log_record k v l))"
    by (rule vl.ins_remembers [OF ok])
  then have some: "log_get k (log_record k v l) \<noteq> None"
    using log_known [OF log_record_ok [OF ok], of k v k] by (simp add: log_get_def)
  show ?thesis
  proof (cases "vl_order l")
    case (Cons x xs)
    then show ?thesis
      using some
      by (auto simp: log_record_def log_get_def Let_def update_conv' delete_conv' fun_upd_def
          split: if_splits)
  qed (use some in \<open>auto simp: log_record_def log_get_def Let_def update_conv' max_finished_def\<close>)
qed

lemma log_record_other:
  assumes ok: "log_ok l" and "j \<noteq> k" and "j \<in> set (vl_order (log_record k v l))"
  shows "log_get j (log_record k v l) = log_get j l"
proof -
  have "log_get j (log_record k v l) \<noteq> None"
    using assms(3) log_known [OF log_record_ok [OF ok]] by (simp add: log_get_def)
  then show ?thesis
    using assms(2)
    by (cases "vl_order l")
      (auto simp: log_record_def log_get_def Let_def update_conv' delete_conv' fun_upd_def
        split: if_splits)
qed

text \<open>
  The log of finished flows never holds more than 32, answers for a flow that was just
  noted with its latest summary, still knows it after fewer than 32 other endings, and
  forgets only whole flows, the oldest ones: a flow it still lists keeps its summary.
\<close>

theorem verification_log_latest:
  assumes "log_ok l" and "k \<notin> set (vl_order l)" and "length later < 32"
  shows "log_get k (log_record k v l) = Some v \<and>
    log_get k (fold (\<lambda>(k, v). log_record k v) later (log_record k v l)) \<noteq> None \<and>
    length (vl_order (fold (\<lambda>(k, v). log_record k v) later (log_record k v l))) \<le> 32 \<and>
    (\<forall>j. j \<noteq> k \<and> j \<in> set (vl_order (log_record k v l)) \<longrightarrow>
       log_get j (log_record k v l) = log_get j l)"
proof -
  have ok: "log_ok (log_record k v l)" by (rule log_record_ok [OF assms(1)])
  have fill: "fold (\<lambda>(k, v). log_record k v) later = vl.fill later"
    by (simp add: vl.fill_def fun_eq_iff)
  have "k \<in> set (vl_order (vl.fill later (log_record k v l)))"
    using vl.recent_kept [OF assms(1,2)] assms(3) by (simp add: max_finished_def)
  then have "log_get k (vl.fill later (log_record k v l)) \<noteq> None"
    using log_known [OF vl.inv_fill [OF ok]] by (simp add: log_get_def)
  then show ?thesis
    using log_get_record [OF assms(1)] log_record_other [OF assms(1)] vl.fill_bounded [OF ok, of later]
    by (simp add: fill max_finished_def)
qed

theorem verification_log_latest_witness:
  "log_get ''f'' (fold (\<lambda>(k, v). log_record k v) [(''g'', JNull)] (log_record ''f'' (JBool True) empty_log)) \<noteq> None"
  using verification_log_latest [OF log_ok_empty, of "''f''" "[(''g'', JNull)]" "JBool True"]
  by (simp add: empty_log_def)

end
