(* ===== verification/Repair.thy ===== *)
theory Repair
  imports Bounded Json
begin

text \<open>
  The queue of placeholders waiting for their room keys, and the edit that replaces one
  (\<open>src/src/crypto/repair.rs\<close>; \<open>inject\<close>, which also decrypts, is in \<open>Decrypt\<close>). The hash map of
  pending repairs is an association list with distinct keys.
\<close>

section \<open>State\<close>

record pending_repair =
  pr_room_id :: string
  pr_event_id :: string
  pr_session_id :: "string option"
  pr_event :: json

record repair_queue =
  pending :: "(string \<times> pending_repair) list"
  order :: "string list"
  ready_sessions :: "string set"
  retry_all :: bool
  \<comment> \<open>how often \<open>wake.notify_waiters()\<close> was called\<close>
  wakes :: nat

definition empty_queue :: repair_queue where
  "empty_queue = \<lparr>pending = [], order = [], ready_sessions = {}, retry_all = False, wakes = 0\<rparr>"

definition max_pending :: nat where
  "max_pending = 2000"

section \<open>Operations\<close>

definition is_ready :: "repair_queue \<Rightarrow> pending_repair \<Rightarrow> bool" where
  "is_ready q r \<longleftrightarrow> retry_all q \<or>
     (case pr_session_id r of None \<Rightarrow> False | Some sid \<Rightarrow> sid \<in> ready_sessions q)"

definition any_ready :: "repair_queue \<Rightarrow> bool" where
  "any_ready q \<longleftrightarrow> list_ex (is_ready q) (map snd (pending q))"

text \<open>The loop \<open>while inner.order.len() > MAX_PENDING\<close>.\<close>

function evict :: "repair_queue \<Rightarrow> repair_queue" where
  "evict q =
     (if length (order q) > max_pending then
        (case order q of
           [] \<Rightarrow> q
         | oldest # rest \<Rightarrow> evict (q\<lparr>order := rest, pending := AList.delete oldest (pending q)\<rparr>))
      else q)"
  by pat_completeness auto
termination
  by (relation "measure (\<lambda>q. length (order q))") auto

declare evict.simps [simp del]

definition track_id :: "string \<Rightarrow> string \<times> json \<times> string option \<Rightarrow> repair_queue \<Rightarrow> repair_queue" where
  "track_id eid v q =
     (if map_of (pending q) eid \<noteq> None then q
      else evict (q\<lparr>
        pending := AList.update eid \<lparr>pr_room_id = fst v, pr_event_id = eid,
          pr_session_id = snd (snd v), pr_event = fst (snd v)\<rparr> (pending q),
        order := order q @ [eid]\<rparr>))"

definition track :: "string \<Rightarrow> json \<Rightarrow> string option \<Rightarrow> repair_queue \<Rightarrow> repair_queue" where
  "track room_id event session_id q =
     (case get_str ''event_id'' event of
        None \<Rightarrow> q
      | Some eid \<Rightarrow> track_id eid (room_id, event, session_id) q)"

definition note_room_keys :: "string list \<Rightarrow> repair_queue \<Rightarrow> repair_queue" where
  "note_room_keys sids q =
     (if pending q = [] then q
      else let q1 = q\<lparr>ready_sessions := ready_sessions q \<union> set sids\<rparr> in
        if any_ready q1 then q1\<lparr>wakes := Suc (wakes q1)\<rparr>
        else q1\<lparr>ready_sessions := {}\<rparr>)"

definition note_bulk_import :: "repair_queue \<Rightarrow> repair_queue" where
  "note_bulk_import q =
     (if pending q = [] then q else q\<lparr>retry_all := True, wakes := Suc (wakes q)\<rparr>)"

text \<open>The \<open>retain\<close> of \<open>take_ready\<close>: what is taken, the order and the map that are left.\<close>

fun take_order ::
  "string set \<Rightarrow> string list \<Rightarrow> (string \<times> pending_repair) list \<Rightarrow>
   pending_repair list \<times> string list \<times> (string \<times> pending_repair) list" where
  "take_order ready [] pend = ([], [], pend)"
| "take_order ready (eid # rest) pend =
     (if eid \<notin> ready then
        (let (taken, ord, pend') = take_order ready rest pend in (taken, eid # ord, pend'))
      else (case map_of pend eid of
          Some r \<Rightarrow> (let (taken, ord, pend') = take_order ready rest (AList.delete eid pend)
                     in (r # taken, ord, pend'))
        | None \<Rightarrow> take_order ready rest pend))"

definition take_ready :: "repair_queue \<Rightarrow> pending_repair list \<times> repair_queue" where
  "take_ready q =
     (let ready = set (map pr_event_id (filter (is_ready q) (map snd (pending q))));
          (taken, ord, pend) = take_order ready (order q) (pending q)
      in (taken, q\<lparr>ready_sessions := {}, retry_all := False, order := ord, pending := pend\<rparr>))"

definition requeue :: "pending_repair \<Rightarrow> repair_queue \<Rightarrow> repair_queue" where
  "requeue r q = q\<lparr>order := order q @ [pr_event_id r],
     pending := AList.update (pr_event_id r) r (pending q)\<rparr>"

definition pending_snapshot :: "repair_queue \<Rightarrow> pending_repair list" where
  "pending_snapshot q = List.map_filter (map_of (pending q)) (order q)"

section \<open>The invariant\<close>

text \<open>
  The order lists each pending event once, and an entry is filed under the ID of its event.
\<close>

definition queue_inv :: "repair_queue \<Rightarrow> bool" where
  "queue_inv q \<longleftrightarrow> distinct (map fst (pending q)) \<and> distinct (order q) \<and>
     set (order q) = fst ` set (pending q) \<and> (\<forall>p \<in> set (pending q). pr_event_id (snd p) = fst p)"

definition queue_ok :: "repair_queue \<Rightarrow> bool" where
  "queue_ok q \<longleftrightarrow> queue_inv q \<and> length (order q) \<le> max_pending"

lemma queue_ok_empty: "queue_ok empty_queue"
  by (simp add: queue_ok_def queue_inv_def empty_queue_def)

lemma evict_inv: "queue_inv q \<Longrightarrow> queue_inv (evict q)"
proof (induction q rule: evict.induct)
  case (1 q)
  show ?case
  proof (cases "length (order q) > max_pending")
    case True
    then obtain oldest rest where ord: "order q = oldest # rest"
      by (cases "order q") auto
    have "queue_inv (q\<lparr>order := rest, pending := AList.delete oldest (pending q)\<rparr>)"
      using "1.prems" ord by (auto simp: queue_inv_def alist_simps image_iff)
    with "1.IH" [OF True ord] True ord show ?thesis
      by (simp add: evict.simps [of q])
  qed (use "1.prems" in \<open>simp add: evict.simps [of q]\<close>)
qed

lemma order_evict: "order (evict q) = window max_pending (order q)"
proof (induction q rule: evict.induct)
  case (1 q)
  show ?case
  proof (cases "length (order q) > max_pending")
    case True
    then obtain oldest rest where ord: "order q = oldest # rest"
      by (cases "order q") auto
    have "window max_pending rest = window max_pending (oldest # rest)"
      using True ord by (simp add: window_def Suc_diff_le less_Suc_eq_le)
    with "1.IH" [OF True ord] True ord show ?thesis
      by (simp add: evict.simps [of q])
  qed (simp add: evict.simps [of q] window_short)
qed

lemma map_of_pending_None: "queue_inv q \<Longrightarrow> map_of (pending q) k = None \<longleftrightarrow> k \<notin> set (order q)"
  by (simp add: queue_inv_def map_of_eq_None_iff)

lemma add_pending_inv:
  assumes "queue_inv q" and "pr_event_id r \<notin> set (order q)"
  shows "queue_inv (q\<lparr>pending := AList.update (pr_event_id r) r (pending q), order := order q @ [pr_event_id r]\<rparr>)"
  using assms unfolding queue_inv_def
  by (auto simp: alist_simps dest!: set_update)

lemma track_id_inv: "queue_inv q \<Longrightarrow> queue_inv (track_id eid v q)"
  using add_pending_inv [of q "\<lparr>pr_room_id = fst v, pr_event_id = eid,
          pr_session_id = snd (snd v), pr_event = fst (snd v)\<rparr>"]
  by (auto simp: track_id_def map_of_pending_None intro!: evict_inv)

lemma track_id_order:
  "queue_inv q \<Longrightarrow> order (track_id eid v q) =
    (if eid \<in> set (order q) then order q else window max_pending (order q @ [eid]))"
  using map_of_pending_None [of q eid] by (simp add: track_id_def order_evict)

lemma track_id_ok: "queue_ok q \<Longrightarrow> queue_ok (track_id eid v q)"
  by (simp add: queue_ok_def track_id_inv track_id_order)

lemma queue_ok_inv: "queue_ok q \<Longrightarrow> queue_inv q"
  by (simp add: queue_ok_def)

lemma queue_ok_order: "queue_ok q \<Longrightarrow> distinct (order q) \<and> length (order q) \<le> max_pending"
  by (simp add: queue_ok_def queue_inv_def)

interpretation rq: keyed_fifo max_pending order track_id queue_ok
proof
  show "0 < max_pending" by (simp add: max_pending_def)
qed (auto simp: track_id_ok track_id_order queue_ok_inv queue_ok_order)

lemma track_ok: "queue_ok q \<Longrightarrow> queue_ok (track r e s q)"
  by (simp add: track_def track_id_ok split: option.splits)

lemma note_room_keys_ok: "queue_ok q \<Longrightarrow> queue_ok (note_room_keys sids q)"
  by (simp add: note_room_keys_def queue_ok_def queue_inv_def Let_def)

lemma note_bulk_import_ok: "queue_ok q \<Longrightarrow> queue_ok (note_bulk_import q)"
  by (simp add: note_bulk_import_def queue_ok_def queue_inv_def)

section \<open>Taking what is ready\<close>

lemma take_order_spec:
  assumes "distinct ord" and "set ord \<subseteq> fst ` set pend"
  shows "take_order R ord pend =
    (map (\<lambda>e. the (map_of pend e)) (filter (\<lambda>e. e \<in> R) ord), filter (\<lambda>e. e \<notin> R) ord,
     filter (\<lambda>p. fst p \<notin> R \<inter> set ord) pend)"
  using assms
proof (induction ord arbitrary: pend)
  case (Cons e ord)
  have sub: "set ord \<subseteq> fst ` set (AList.delete e pend)"
    using Cons.prems by (force simp: set_delete)
  have del: "AList.delete e xs = filter (\<lambda>p. fst p \<noteq> e) xs" for xs :: "(string \<times> pending_repair) list"
    by (induction xs) auto
  have lookups: "map (\<lambda>x. the (map_of (AList.delete e pend) x)) (filter (\<lambda>x. x \<in> R) ord) =
      map (\<lambda>x. the (map_of pend x)) (filter (\<lambda>x. x \<in> R) ord)"
    using Cons.prems(1) by (auto simp: delete_conv')
  show ?case
  proof (cases "e \<in> R")
    case True
    obtain v where "(e, v) \<in> set pend" using Cons.prems(2) by auto
    then obtain r where r: "map_of pend e = Some r" by (meson weak_map_of_SomeI)
    show ?thesis
      using Cons.IH [OF _ sub] Cons.prems(1) True r lookups
      by (auto simp: del filter_filter intro!: filter_cong)
  next
    case False
    have "take_order R ord pend =
      (map (\<lambda>x. the (map_of pend x)) (filter (\<lambda>x. x \<in> R) ord), filter (\<lambda>x. x \<notin> R) ord,
       filter (\<lambda>p. fst p \<notin> R \<inter> set ord) pend)"
      using Cons.IH [of pend] Cons.prems by simp
    moreover have "filter (\<lambda>p. fst p \<notin> R \<inter> set (e # ord)) pend = filter (\<lambda>p. fst p \<notin> R \<inter> set ord) pend"
      using False by (intro filter_cong) auto
    ultimately show ?thesis using False by simp
  qed
qed simp

lemma snapshot_map:
  "queue_inv q \<Longrightarrow> pending_snapshot q = map (\<lambda>e. the (map_of (pending q) e)) (order q)"
proof -
  have "set ord \<subseteq> fst ` set pend \<Longrightarrow>
      List.map_filter (map_of pend) ord = map (\<lambda>e. the (map_of pend e)) ord"
    for ord and pend :: "(string \<times> pending_repair) list"
    by (induction ord) (auto simp: List.map_filter_def dest!: weak_map_of_SomeI)
  then show "queue_inv q \<Longrightarrow> ?thesis"
    by (simp add: pending_snapshot_def queue_inv_def)
qed

lemma pending_entry:
  assumes "queue_inv q" and "e \<in> set (order q)"
  shows "\<exists>r. map_of (pending q) e = Some r \<and> pr_event_id r = e \<and> (e, r) \<in> set (pending q)"
proof -
  obtain v where "(e, v) \<in> set (pending q)" using assms by (auto simp: queue_inv_def)
  then obtain r where r: "map_of (pending q) e = Some r" by (meson weak_map_of_SomeI)
  then show ?thesis
    using assms(1) map_of_SomeD [OF r] by (auto simp: queue_inv_def)
qed

definition ready_ids :: "repair_queue \<Rightarrow> string set" where
  "ready_ids q = set (map pr_event_id (filter (is_ready q) (map snd (pending q))))"

lemma ready_ids_iff:
  assumes "queue_inv q" and "e \<in> set (order q)"
  shows "e \<in> ready_ids q \<longleftrightarrow> is_ready q (the (map_of (pending q) e))"
proof -
  obtain r where r: "map_of (pending q) e = Some r" "pr_event_id r = e" "(e, r) \<in> set (pending q)"
    using pending_entry [OF assms] by blast
  have uniq: "snd p = r" if "p \<in> set (pending q)" "pr_event_id (snd p) = e" for p
  proof -
    have "fst p = e" using that assms(1) by (auto simp: queue_inv_def)
    then have "(e, snd p) \<in> set (pending q)" using that(1) by (cases p) auto
    then have "map_of (pending q) e = Some (snd p)"
      using assms(1) by (intro map_of_is_SomeI) (auto simp: queue_inv_def)
    then show ?thesis using r(1) by simp
  qed
  have "e \<in> ready_ids q \<longleftrightarrow> (\<exists>p \<in> set (pending q). is_ready q (snd p) \<and> pr_event_id (snd p) = e)"
    by (auto simp: ready_ids_def)
  also have "\<dots> \<longleftrightarrow> is_ready q r"
    using uniq r(2,3) by (metis snd_conv)
  finally have "e \<in> ready_ids q \<longleftrightarrow> is_ready q r" .
  then show ?thesis using r(1) by simp
qed

lemma ready_ids_sub: "queue_inv q \<Longrightarrow> ready_ids q \<subseteq> set (order q)"
  by (auto simp: ready_ids_def queue_inv_def image_iff)

lemma take_ready_eq:
  assumes "queue_inv q"
  shows "take_ready q =
    (filter (is_ready q) (pending_snapshot q),
     q\<lparr>ready_sessions := {}, retry_all := False,
       order := filter (\<lambda>e. e \<notin> ready_ids q) (order q),
       pending := filter (\<lambda>p. fst p \<notin> ready_ids q) (pending q)\<rparr>)"
proof -
  have "filter (\<lambda>p. fst p \<notin> ready_ids q \<inter> set (order q)) (pending q) =
      filter (\<lambda>p. fst p \<notin> ready_ids q) (pending q)"
    using ready_ids_sub [OF assms] by (intro filter_cong) auto
  moreover have "map (\<lambda>e. the (map_of (pending q) e)) (filter (\<lambda>e. e \<in> ready_ids q) (order q)) =
      filter (is_ready q) (pending_snapshot q)"
    using ready_ids_iff [OF assms]
    by (simp add: snapshot_map [OF assms] filter_map comp_def cong: filter_cong)
  ultimately show ?thesis
    using assms take_order_spec [of "order q" "pending q" "ready_ids q"]
    by (simp add: take_ready_def ready_ids_def [symmetric] queue_inv_def del: set_map)
qed

lemma take_ready_inv: "queue_inv q \<Longrightarrow> queue_inv (snd (take_ready q))"
  by (auto simp: take_ready_eq queue_inv_def distinct_map_filter image_iff)

lemma take_ready_ok: "queue_ok q \<Longrightarrow> queue_ok (snd (take_ready q))"
  using take_ready_inv [OF queue_ok_inv]
  by (auto simp: queue_ok_def take_ready_eq intro: order_trans [OF length_filter_le])

text \<open>
  \<open>take_ready\<close> hands out exactly the placeholders whose key should be there, oldest first;
  the others keep waiting in their order, nothing is ready any more, and the queue stays
  consistent.
\<close>

theorem take_ready_partition:
  assumes "queue_inv q"
  shows "fst (take_ready q) = filter (is_ready q) (pending_snapshot q) \<and>
    pending_snapshot (snd (take_ready q)) = filter (\<lambda>r. \<not> is_ready q r) (pending_snapshot q) \<and>
    \<not> any_ready (snd (take_ready q)) \<and> queue_inv (snd (take_ready q))"
proof -
  let ?q = "snd (take_ready q)"
  have inv: "queue_inv ?q" by (rule take_ready_inv [OF assms])
  have "pending_snapshot ?q =
      map (\<lambda>e. the (map_of (pending q) e)) (filter (\<lambda>e. e \<notin> ready_ids q) (order q))"
    using snapshot_map [OF inv]
    by (simp add: take_ready_eq [OF assms] map_of_filter_fst [of "\<lambda>e. e \<notin> ready_ids q"])
  also have "\<dots> = filter (\<lambda>r. \<not> is_ready q r) (pending_snapshot q)"
    using ready_ids_iff [OF assms]
    by (simp add: snapshot_map [OF assms] filter_map comp_def cong: filter_cong)
  finally show ?thesis
    using inv by (simp add: take_ready_eq [OF assms] any_ready_def is_ready_def list_ex_iff
        split: option.splits)
qed

theorem take_ready_partition_witness:
  "\<not> any_ready (snd (take_ready (note_room_keys [''s'']
     (track ''!r'' (mk_obj [(''event_id'', JStr ''$1'')]) (Some ''s'') empty_queue))))"
  using take_ready_partition [OF queue_ok_inv [OF note_room_keys_ok [OF track_ok [OF queue_ok_empty]]]]
  by blast

end
