(* ===== verification/Edit.thy ===== *)
theory Edit
  imports Repair
begin

text \<open>
  The pure parts of repairing a placeholder (\<open>src/src/crypto/repair.rs\<close>): the edit that
  replaces it, which events a sync response delivers, and appending an event to a room of
  a sync response.
\<close>

section \<open>The replacing edit\<close>

text \<open>The open lock in front of a note, in UTF-8.\<close>

definition unlocked :: string where
  "unlocked = [CHR 0xF0, CHR 0x9F, CHR 0x94, CHR 0x93]"

definition edit_new_content :: "string \<Rightarrow> json \<Rightarrow> json option" where
  "edit_new_content ty plain =
     (if ty = ''m.room.message'' then
        (case get ''content'' plain of
           None \<Rightarrow> None
         | Some content \<Rightarrow>
             (let is_edit = (Option.bind (pointer [''m.relates_to'', ''rel_type''] content) as_str
                              = Some ''m.replace'')
              in case get ''m.new_content'' content of
                   Some inner \<Rightarrow> Some (if is_edit then inner else content)
                 | None \<Rightarrow> Some content))
      else if ty = ''m.reaction'' then
        (let key = (case Option.bind (pointer [''content'', ''m.relates_to'', ''key''] plain) as_str of
              None \<Rightarrow> ''?'' | Some k \<Rightarrow> k)
         in Some (mk_obj [(''msgtype'', JStr ''m.notice''),
              (''body'', JStr (unlocked @ '' reacted with '' @ key))]))
      else Some (mk_obj [(''msgtype'', JStr ''m.notice''),
              (''body'', JStr (unlocked @ '' ['' @ ty @ ''] decrypted; reopen the room to render it''))]))"

text \<open>
  The content of the edit: the new content twice, and the relation to the placeholder,
  which keeps a reply a reply. The argument is the new content as an object.
\<close>

definition edit_content :: "string \<Rightarrow> fields \<Rightarrow> json" where
  "edit_content event_id obj =
     (let reply = Option.bind (map_of obj ''m.relates_to'') (get ''m.in_reply_to'');
          new_content = JObj (obj_del ''m.relates_to'' obj);
          relation = mk_obj [(''rel_type'', JStr ''m.replace''), (''event_id'', JStr event_id)];
          relation' = (case reply of None \<Rightarrow> relation | Some r \<Rightarrow> jput ''m.in_reply_to'' r relation)
      in jput ''m.relates_to'' relation' (jput ''m.new_content'' new_content new_content))"

text \<open>\<open>for key in ["sender", "origin_server_ts", "room_id"]\<close>, and the like.\<close>

fun copy_keys :: "string list \<Rightarrow> json \<Rightarrow> json \<Rightarrow> json" where
  "copy_keys [] src dst = dst"
| "copy_keys (k # ks) src dst =
     copy_keys ks src (case get k src of None \<Rightarrow> dst | Some v \<Rightarrow> jput k v dst)"

text \<open>The outer \<open>None\<close> is a panic (a marker that is neither an object nor null).\<close>

definition synthetic_edit :: "json \<Rightarrow> json option option" where
  "synthetic_edit plain =
     (case (get_str ''event_id'' plain, get_str ''type'' plain) of
        (Some event_id, Some ty) \<Rightarrow>
          (case Option.bind (edit_new_content ty plain) as_object of
             None \<Rightarrow> Some None
           | Some obj \<Rightarrow>
               (let marker = (case pointer [''unsigned'', ''ement_e2ee''] plain of
                      None \<Rightarrow> JObj [] | Some m \<Rightarrow> m)
                in case jset [''repairs''] (JStr event_id) marker of
                     None \<Rightarrow> None
                   | Some marker' \<Rightarrow>
                       Some (Some (copy_keys [''sender'', ''origin_server_ts'', ''room_id''] plain
                         (mk_obj [(''type'', JStr ''m.room.message''),
                           (''event_id'', JStr (event_id @ [CHR 0x7E] @ ''decrypted'')),
                           (''content'', edit_content event_id obj),
                           (''unsigned'', mk_obj [(''ement_e2ee'', marker')])])))))
      | _ \<Rightarrow> Some None)"

section \<open>Sync bodies\<close>

definition delivered_event_ids :: "json \<Rightarrow> string list" where
  "delivered_event_ids body =
     (case Option.bind (pointer [''rooms'', ''join''] body) as_object of
        None \<Rightarrow> []
      | Some rooms \<Rightarrow>
          List.map_filter (get_str ''event_id'')
            (concat (List.map_filter
              (\<lambda>room. Option.bind (pointer [''timeline'', ''events''] room) as_array)
              (map snd rooms))))"

definition push_event :: "json \<Rightarrow> json \<Rightarrow> json option" where
  "push_event event room =
     jupdate [''timeline'', ''events'']
       (\<lambda>es. Some (JArr (elements es @ [event]))) room"

definition has_joined_room :: "json \<Rightarrow> string \<Rightarrow> bool" where
  "has_joined_room body room =
     (case Option.bind (pointer [''rooms'', ''join''] body) as_object of
        None \<Rightarrow> False
      | Some rooms \<Rightarrow> map_of rooms room \<noteq> None)"

text \<open>The room entry the proxy makes where the homeserver sent none.\<close>

definition fresh_room :: "json option \<Rightarrow> json" where
  "fresh_room u =
     (let fresh = mk_obj [(''timeline'', mk_obj [(''events'', JArr []), (''limited'', JBool False)])]
      in case u of None \<Rightarrow> fresh | Some n \<Rightarrow> jput ''unread_notifications'' n fresh)"

definition joined_path :: "string \<Rightarrow> string list" where
  "joined_path room = [''rooms'', ''join'', room]"

text \<open>
  \<open>unread\<close> is \<open>last_unread_notifications\<close> of the room: \<open>None\<close> where the client is not in it.
  The result \<open>None\<close> is a panic.
\<close>

definition push_into_sync ::
  "json option option \<Rightarrow> string \<Rightarrow> json \<Rightarrow> json \<Rightarrow> (bool \<times> json) option" where
  "push_into_sync unread room_id event body =
     (if \<not> is_object body then Some (False, body)
      else
        let push = (\<lambda>b. map_option (Pair True) (jupdate (joined_path room_id) (push_event event) b))
        in if has_joined_room body room_id then push body
           else (case unread of
               None \<Rightarrow> Some (False, body)
             | Some u \<Rightarrow> Option.bind (jset (joined_path room_id) (fresh_room u) body) push))"

section \<open>Lemmas\<close>

lemma is_object_mk_obj [simp]: "is_object (mk_obj kvs)"
  by (simp add: mk_obj_def is_object_def)

lemma is_object_jput [simp]: "is_object (jput k v j) = is_object j"
  by (cases j) (auto simp: is_object_def)

lemma is_object_copy_keys [simp]: "is_object (copy_keys ks src dst) = is_object dst"
  by (induction ks arbitrary: dst) (auto split: option.splits)

lemma get_copy_keys:
  "is_object dst \<Longrightarrow> get k (copy_keys ks src dst) =
    (if k \<in> set ks \<and> get k src \<noteq> None then get k src else get k dst)"
proof (induction ks arbitrary: dst)
  case (Cons l ks)
  then show ?case by (auto simp: get_jput split: option.splits)
qed simp

lemma get_edit_content:
  "get ''m.new_content'' (edit_content eid obj) = Some (JObj (obj_del ''m.relates_to'' obj))"
  "get ''m.relates_to'' (edit_content eid obj) = Some
     (let relation = mk_obj [(''rel_type'', JStr ''m.replace''), (''event_id'', JStr eid)]
      in case Option.bind (map_of obj ''m.relates_to'') (get ''m.in_reply_to'') of
           None \<Rightarrow> relation | Some r \<Rightarrow> jput ''m.in_reply_to'' r relation)"
  "k \<noteq> ''m.new_content'' \<Longrightarrow> k \<noteq> ''m.relates_to'' \<Longrightarrow> get k (edit_content eid obj) = map_of obj k"
  by (simp_all add: edit_content_def Let_def get_jput is_object_def)

declare copy_keys.simps [simp del]

text \<open>The edit before the envelope of the original is copied over.\<close>

definition edit_base :: "string \<Rightarrow> fields \<Rightarrow> json \<Rightarrow> json" where
  "edit_base eid obj marker =
     mk_obj [(''type'', JStr ''m.room.message''),
       (''event_id'', JStr (eid @ [CHR 0x7E] @ ''decrypted'')),
       (''content'', edit_content eid obj),
       (''unsigned'', mk_obj [(''ement_e2ee'', marker)])]"

definition edit_marker :: "json \<Rightarrow> json" where
  "edit_marker plain =
     (case pointer [''unsigned'', ''ement_e2ee''] plain of None \<Rightarrow> JObj [] | Some m \<Rightarrow> m)"

lemma is_object_edit_base [simp]: "is_object (edit_base eid obj marker)"
  by (simp add: edit_base_def)

lemma is_object_edit_content [simp]: "is_object (edit_content eid obj)"
  by (simp add: edit_content_def Let_def) (simp add: is_object_def)

lemma get_edit_base:
  "get ''type'' (edit_base eid obj marker) = Some (JStr ''m.room.message'')"
  "get ''event_id'' (edit_base eid obj marker) = Some (JStr (eid @ [CHR 0x7E] @ ''decrypted''))"
  "get ''content'' (edit_base eid obj marker) = Some (edit_content eid obj)"
  "get ''unsigned'' (edit_base eid obj marker) = Some (mk_obj [(''ement_e2ee'', marker)])"
  "get ''sender'' (edit_base eid obj marker) = None"
  "get ''origin_server_ts'' (edit_base eid obj marker) = None"
  "get ''room_id'' (edit_base eid obj marker) = None"
  by (simp_all add: edit_base_def get_mk_obj)

lemma synthetic_edit_SomeD:
  assumes "synthetic_edit plain = Some (Some e)"
  obtains eid ty obj marker where "get_str ''event_id'' plain = Some eid" "get_str ''type'' plain = Some ty"
    "edit_new_content ty plain = Some (JObj obj)"
    "jset [''repairs''] (JStr eid) (edit_marker plain) = Some marker"
    "e = copy_keys [''sender'', ''origin_server_ts'', ''room_id''] plain (edit_base eid obj marker)"
  using assms
  by (auto simp: synthetic_edit_def Let_def bind_eq_Some_conv edit_base_def edit_marker_def
      split: option.splits prod.splits)

lemma jset_marker:
  assumes "jset [k] v m = Some m'"
  shows "is_object m'" and "get k m' = Some v"
  using assms by (auto simp: jset_one is_object_def split: json.splits)

text \<open>
  C20: the edit made for a decrypted event is an \<open>m.replace\<close> of exactly that event: it has an
  ID of its own, the sender, time and room of the original, the new content both at the top
  and in \<open>m.new_content\<close>, no relation inside the new content, the reply relation where the
  original was a reply, and it names the event it repairs.
\<close>

theorem synthetic_edit_replaces:
  assumes "synthetic_edit plain = Some (Some e)"
  shows "\<exists>eid ty obj. get_str ''event_id'' plain = Some eid \<and> get_str ''type'' plain = Some ty \<and>
    edit_new_content ty plain = Some (JObj obj) \<and>
    get ''type'' e = Some (JStr ''m.room.message'') \<and>
    get ''event_id'' e = Some (JStr (eid @ [CHR 0x7E] @ ''decrypted'')) \<and>
    (\<forall>k \<in> {''sender'', ''origin_server_ts'', ''room_id''}. get k e = get k plain) \<and>
    pointer [''content'', ''m.relates_to'', ''rel_type''] e = Some (JStr ''m.replace'') \<and>
    pointer [''content'', ''m.relates_to'', ''event_id''] e = Some (JStr eid) \<and>
    pointer [''content'', ''m.relates_to'', ''m.in_reply_to''] e =
      Option.bind (map_of obj ''m.relates_to'') (get ''m.in_reply_to'') \<and>
    pointer [''content'', ''m.new_content''] e = Some (JObj (obj_del ''m.relates_to'' obj)) \<and>
    (\<forall>k. k \<noteq> ''m.relates_to'' \<and> k \<noteq> ''m.new_content'' \<longrightarrow> pointer [''content'', k] e = map_of obj k) \<and>
    pointer [''unsigned'', ''ement_e2ee'', ''repairs''] e = Some (JStr eid)"
proof -
  obtain eid ty obj marker where ids: "get_str ''event_id'' plain = Some eid"
    "get_str ''type'' plain = Some ty" "edit_new_content ty plain = Some (JObj obj)"
    and m: "jset [''repairs''] (JStr eid) (edit_marker plain) = Some marker"
    and e: "e = copy_keys [''sender'', ''origin_server_ts'', ''room_id''] plain (edit_base eid obj marker)"
    by (rule synthetic_edit_SomeD [OF assms])
  have g: "get k e = (if k \<in> {''sender'', ''origin_server_ts'', ''room_id''} \<and> get k plain \<noteq> None
      then get k plain else get k (edit_base eid obj marker))" for k
    by (simp add: e get_copy_keys)
  have o: "is_object e" by (simp add: e)
  let ?relation = "mk_obj [(''rel_type'', JStr ''m.replace''), (''event_id'', JStr eid)]"
  have rel: "get ''rel_type'' ?relation = Some (JStr ''m.replace'')"
    "get ''event_id'' ?relation = Some (JStr eid)" "get ''m.in_reply_to'' ?relation = None"
    by (simp_all add: get_mk_obj)
  have "pointer [''content'', ''m.relates_to'', k] e = (case Option.bind (map_of obj ''m.relates_to'')
      (get ''m.in_reply_to'') of None \<Rightarrow> get k ?relation
      | Some r \<Rightarrow> if k = ''m.in_reply_to'' then Some r else get k ?relation)" for k
    using o by (simp add: pointer_obj g get_edit_base get_edit_content get_jput bind_assoc Let_def
        split: option.split)
  moreover have "pointer [''content'', k] e = get k (edit_content eid obj)" for k
    using o by (simp add: pointer_obj g get_edit_base)
  moreover have "pointer [''unsigned'', ''ement_e2ee'', ''repairs''] e = Some (JStr eid)"
    using o jset_marker [OF m] by (simp add: pointer_obj g get_edit_base get_mk_obj)
  moreover have "\<forall>k \<in> {''sender'', ''origin_server_ts'', ''room_id''}. get k e = get k plain"
    by (auto simp: g get_edit_base)
  ultimately show ?thesis
    using ids by (intro exI [of _ eid] exI [of _ ty] exI [of _ obj])
      (simp add: g get_edit_base get_edit_content rel split: option.splits)
qed


text \<open>A decrypted reply, for concrete runs.\<close>

definition sample_reply :: json where
  "sample_reply = mk_obj [(''type'', JStr ''m.room.message''), (''event_id'', JStr ''$1''),
     (''sender'', JStr ''@a:hs''),
     (''content'', mk_obj [(''body'', JStr ''hi''),
        (''m.relates_to'', mk_obj [(''m.in_reply_to'', mk_obj [(''event_id'', JStr ''$0'')])])])]"

theorem synthetic_edit_replaces_witness:
  "\<exists>e. synthetic_edit sample_reply = Some (Some e) \<and>
    pointer [''content'', ''m.relates_to'', ''event_id''] e = Some (JStr ''$1'')"
proof -
  have "(case synthetic_edit sample_reply of Some (Some e) \<Rightarrow> True | _ \<Rightarrow> False) \<and>
      get_str ''event_id'' sample_reply = Some ''$1''"
    by code_simp
  then obtain e where e: "synthetic_edit sample_reply = Some (Some e)"
    and i: "get_str ''event_id'' sample_reply = Some ''$1''"
    by (auto split: option.splits)
  show ?thesis
    using synthetic_edit_replaces [OF e] e i by auto
qed

section \<open>Appending to a sync response\<close>

lemma jupdate_append: "jupdate (xs @ ys) f j = jupdate xs (jupdate ys f) j"
  by (induction xs arbitrary: j) (simp_all split: json.splits)

lemma push_event_path:
  "jupdate (joined_path room) (push_event ev) b =
    jupdate (joined_path room @ [''timeline'', ''events'']) (\<lambda>es. Some (JArr (elements es @ [ev]))) b"
proof -
  have "push_event ev = jupdate [''timeline'', ''events''] (\<lambda>es. Some (JArr (elements es @ [ev])))"
    by (rule ext) (simp only: push_event_def)
  then show ?thesis by (simp only: jupdate_append)
qed

lemma walk_missing_room:
  assumes "walkable (joined_path room) body"
    and "\<not> has_joined_room body room"
  shows "walk (joined_path room) body = JNull"
  using assms
  by (cases body; cases "idx body ''rooms''"; cases "walk [''rooms'', ''join''] body")
    (auto simp: has_joined_room_def joined_path_def idx_def is_object_def split: option.splits)

lemma walk_fresh_room:
  assumes "idx entry ''timeline'' = mk_obj [(''events'', JArr []), (''limited'', JBool False)]"
  shows "elements (walk [''timeline'', ''events''] entry) = []"
  using assms by (simp add: mk_obj_def idx_JObj elements_def)

lemma fresh_room_timeline:
  "idx (fresh_room u) ''timeline'' = mk_obj [(''events'', JArr []), (''limited'', JBool False)]"
  by (cases u) (simp_all add: fresh_room_def idx_def get_jput get_mk_obj Let_def)

lemma jupdate_joined:
  assumes "jupdate (joined_path room @ ls) f b = Some b'"
  shows "r \<noteq> room \<Longrightarrow> get r (walk [''rooms'', ''join''] b') = get r (walk [''rooms'', ''join''] b)"
    and "k \<noteq> ''rooms'' \<Longrightarrow> get k b' = get k b"
    and "k \<noteq> ''join'' \<Longrightarrow> get k (idx b' ''rooms'') = get k (idx b ''rooms'')"
  using assms jupdate_walk_other [of "[''rooms'', ''join'']" room ls f b b' r]
    jupdate_walk_other [of "[''rooms'']" "''join''" "room # ls" f b b' k]
    jupdate_get_other [of "''rooms''" "''join'' # room # ls" f b b' k]
  by (simp_all add: joined_path_def del: jupdate.simps)

lemma push_event_effect:
  assumes "jupdate (joined_path room) (push_event ev) b = Some b'"
  shows "pointer (joined_path room @ [''timeline'', ''events'']) b' =
    Some (JArr (elements (walk (joined_path room @ [''timeline'', ''events'']) b) @ [ev]))"
    and "walk (joined_path room @ [''timeline'', ''events'']) b' =
    JArr (elements (walk (joined_path room @ [''timeline'', ''events'']) b) @ [ev])"
proof -
  note j = assms [unfolded push_event_path]
  show "pointer (joined_path room @ [''timeline'', ''events'']) b' =
      Some (JArr (elements (walk (joined_path room @ [''timeline'', ''events'']) b) @ [ev]))"
    and "walk (joined_path room @ [''timeline'', ''events'']) b' =
      JArr (elements (walk (joined_path room @ [''timeline'', ''events'']) b) @ [ev])"
    using jupdate_walk [OF j] jupdate_pointer [OF j] by simp_all
qed

lemma push_into_sync_effect:
  assumes "push_into_sync unread room ev body = Some (pushed, body')"
  shows "(\<not> pushed \<longrightarrow> body' = body) \<and>
    (pushed \<longrightarrow>
      pointer (joined_path room @ [''timeline'', ''events'']) body' =
        Some (JArr (elements (walk (joined_path room @ [''timeline'', ''events'']) body) @ [ev])) \<and>
      walk (joined_path room @ [''timeline'', ''events'']) body' =
        JArr (elements (walk (joined_path room @ [''timeline'', ''events'']) body) @ [ev]) \<and>
      (\<forall>r. r \<noteq> room \<longrightarrow> get r (walk [''rooms'', ''join''] body') = get r (walk [''rooms'', ''join''] body)) \<and>
      (\<forall>k. k \<noteq> ''join'' \<longrightarrow> get k (idx body' ''rooms'') = get k (idx body ''rooms'')) \<and>
      (\<forall>k. k \<noteq> ''rooms'' \<longrightarrow> get k body' = get k body))"
proof (cases pushed)
  case False
  then show ?thesis
    using assms by (auto simp: push_into_sync_def Let_def bind_eq_Some_conv split: if_splits option.splits)
next
  case True
  have obj: "is_object body"
    using assms True by (cases "is_object body") (simp_all add: push_into_sync_def)
  show ?thesis
  proof (cases "has_joined_room body room")
    case True
    then have j: "jupdate (joined_path room) (push_event ev) body = Some body'"
      using assms obj by (simp add: push_into_sync_def Let_def)
    then show ?thesis
      using push_event_effect [OF j] jupdate_joined [OF j [unfolded push_event_path]] \<open>pushed\<close>
      by simp
  next
    case False
    have "\<exists>u mid. jset (joined_path room) (fresh_room u) body = Some mid \<and>
        jupdate (joined_path room) (push_event ev) mid = Some body'"
      using assms \<open>pushed\<close> obj False
      by (cases unread) (auto simp: push_into_sync_def Let_def bind_eq_Some_conv)
    then obtain u mid where mid: "jset (joined_path room) (fresh_room u) body = Some mid"
      and j: "jupdate (joined_path room) (push_event ev) mid = Some body'"
      by blast
    have mid': "jupdate (joined_path room @ []) (\<lambda>_. Some (fresh_room u)) body = Some mid"
      using mid by (simp add: jset_def)
    have "walk (joined_path room) body = JNull"
      using jupdate_not_walkable [OF mid'] False by (intro walk_missing_room) simp_all
    then have old: "elements (walk (joined_path room @ [''timeline'', ''events'']) body) = []"
      by (simp add: walk_append elements_def)
    have "walk (joined_path room) mid = fresh_room u"
      using jupdate_walk [OF mid'] by simp
    then have new: "elements (walk (joined_path room @ [''timeline'', ''events'']) mid) = []"
      using walk_fresh_room [OF fresh_room_timeline] by (simp add: walk_append)
    show ?thesis
      using push_event_effect [OF j] jupdate_joined [OF j [unfolded push_event_path]]
        jupdate_joined [OF mid'] old new \<open>pushed\<close>
      by simp
  qed
qed

text \<open>
  Appending an event to a sync response either does nothing (the body is no object, or
  the homeserver says nothing about the room and the client is not in it) or appends exactly
  that event to that room's timeline: the events before it stay, every other room, every
  other part of \<open>rooms\<close> and every other key of the response stays as the homeserver sent it.
\<close>

theorem push_into_sync_appends:
  assumes "push_into_sync unread room ev body = Some (pushed, body')"
  shows "(\<not> pushed \<longrightarrow> body' = body) \<and>
    (pushed \<longrightarrow>
      pointer (joined_path room @ [''timeline'', ''events'']) body' =
        Some (JArr (elements (walk (joined_path room @ [''timeline'', ''events'']) body) @ [ev])) \<and>
      (\<forall>r. r \<noteq> room \<longrightarrow> get r (walk [''rooms'', ''join''] body') = get r (walk [''rooms'', ''join''] body)) \<and>
      (\<forall>k. k \<noteq> ''join'' \<longrightarrow> get k (idx body' ''rooms'') = get k (idx body ''rooms'')) \<and>
      (\<forall>k. k \<noteq> ''rooms'' \<longrightarrow> get k body' = get k body))"
  using push_into_sync_effect [OF assms] by simp

theorem push_into_sync_appends_witness:
  "\<exists>b. push_into_sync (Some None) ''!r'' JNull (mk_obj [(''next_batch'', JStr ''s'')]) = Some (True, b) \<and>
    pointer (joined_path ''!r'' @ [''timeline'', ''events'']) b = Some (JArr [JNull])"
proof -
  let ?b = "mk_obj [(''next_batch'', JStr ''s'')]"
  have "(case push_into_sync (Some None) ''!r'' JNull ?b of Some (True, b) \<Rightarrow> True | _ \<Rightarrow> False) \<and>
      elements (walk (joined_path ''!r'' @ [''timeline'', ''events'']) ?b) = []"
    by code_simp
  then obtain b where b: "push_into_sync (Some None) ''!r'' JNull ?b = Some (True, b)"
    and e: "elements (walk (joined_path ''!r'' @ [''timeline'', ''events'']) ?b) = []"
    by (auto split: option.splits bool.splits)
  show ?thesis
    using push_into_sync_appends [OF b] b e by auto
qed

end
