(* ===== verification/Env.thy ===== *)
theory Env
  imports Base Tracker SeenEvents VerifyLog Edit
begin

text \<open>
  The state of the proxy and the world around it. \<open>env\<close> is what the program calls and does
  not define: the HTTP client, the clock, the file system, the SQLite files, and the crypto
  SDK (\<open>matrix-sdk-crypto\<close>), each operation a function of an abstract world \<open>'w\<close>, which it
  may change and in which it may fail. \<open>account\<close> is \<open>AccountContext\<close> of
  \<open>src/src/session.rs\<close>; \<open>proxy\<close> is what all requests share, with two records no code reads:
  every request handed to the HTTP client, in order, and the background tasks started. A
  function of one account runs on a \<open>ctx\<close>, the shared state and the account.

  Locks (\<open>pump_lock\<close>, \<open>share_lock\<close>, the mutexes) are not part of the state: every function is
  modelled as it runs when it is not interleaved with another request.
\<close>

section \<open>What the crypto machine hands out\<close>

record to_device_request =
  td_event_type :: string
  td_txn_id :: string
  td_messages :: json

record room_message_request =
  rm_room_id :: string
  rm_txn_id :: string
  rm_event_type :: string
  rm_content :: json

datatype any_request =
    KeysUpload "json option" fields fields
  | KeysQuery json "u64 option"
  | KeysClaim json "u64 option"
  | ToDevice to_device_request
  | SignatureUpload json
  | RoomMessage room_message_request

record outgoing_request =
  or_id :: string
  or_request :: any_request

datatype response_kind =
    KeysUploadResponse
  | KeysQueryResponse
  | KeysClaimResponse
  | ToDeviceResponse
  | SignatureUploadResponse
  | RoomMessageResponse
  | BackupKeysResponse

record claim_request =
  cl_txn_id :: string
  cl_one_time_keys :: json
  cl_timeout :: "u64 option"

record backup_request =
  bk_txn_id :: string
  bk_version :: string
  bk_rooms :: json

record encryption_settings =
  es_algorithm :: string
  es_rotation_period_ms :: u64
  es_rotation_msgs :: u64
  es_visibility :: history_visibility

record sync_changes =
  sc_to_device :: "json list"
  sc_changed_devices :: json
  sc_one_time_keys :: "(string \<times> json) list"
  sc_unused_fallback :: "json option"
  sc_next_batch :: "string option"

datatype decryption_result =
    SdkDecrypted string json
  | SdkUnableToDecrypt string "string option"

record media_row =
  mk_mxc :: string
  mk_key_json :: string
  mk_mimetype :: "string option"
  mk_filename :: "string option"

section \<open>The world\<close>

type_synonym ('w, 'a) api = "'w \<Rightarrow> (string + 'a) \<times> 'w"

record 'w env =
  env_codec :: codec
  env_config :: config
  \<comment> \<open>the URL library: what a path or query becomes when it is set; reading a URL\<close>
  set_path :: "string \<Rightarrow> string"
  set_query :: "string \<Rightarrow> string"
  append_query :: "string option \<Rightarrow> string \<times> string \<Rightarrow> string option"
  \<comment> \<open>one call is one \<open>send\<close> of a request by \<open>reqwest\<close>, with its default redirect policy: the answer
    is that of the last of up to ten redirects, which may lead to any host (see \<open>on_wire\<close> in Start)\<close>
  http_send :: "http_request \<Rightarrow> ('w, response) api"
  \<comment> \<open>reading the body of an answer may fail when the answer itself has come\<close>
  http_body :: "response \<Rightarrow> ('w, string) api"
  now :: "'w \<Rightarrow> nat"
  \<comment> \<open>the keyed hash of an event\<close>
  event_key :: "json \<Rightarrow> u64"
  \<comment> \<open>which JSON values ruma and the SDK read as their types (\<open>serde_json::from_value\<close>)\<close>
  parses_as :: "string \<Rightarrow> json \<Rightarrow> bool"
  \<comment> \<open>does a homeserver's answer parse as the response type of a request?\<close>
  response_ok :: "response_kind \<Rightarrow> json \<Rightarrow> bool"
  header_value_ok :: "string \<Rightarrow> bool"
  \<comment> \<open>the account's OlmMachine, named by its handle\<close>
  sdk_open :: "string \<Rightarrow> string \<Rightarrow> string \<Rightarrow> string option \<Rightarrow> ('w, string) api"
  sdk_identity :: "string \<Rightarrow> 'w \<Rightarrow> string"
  sdk_outgoing :: "string \<Rightarrow> ('w, outgoing_request list) api"
  sdk_mark_sent :: "string \<Rightarrow> string \<Rightarrow> response_kind \<Rightarrow> json \<Rightarrow> ('w, unit) api"
  sdk_room_settings :: "string \<Rightarrow> string \<Rightarrow> ('w, room_settings option) api"
  sdk_set_room_settings :: "string \<Rightarrow> string \<Rightarrow> room_settings \<Rightarrow> ('w, unit) api"
  \<comment> \<open>\<open>RoomSettings::default()\<close> and \<open>EncryptionSettings::default()\<close>\<close>
  sdk_default_room_settings :: room_settings
  sdk_default_settings :: encryption_settings
  sdk_update_tracked :: "string \<Rightarrow> string list \<Rightarrow> ('w, unit) api"
  sdk_missing_sessions :: "string \<Rightarrow> string list \<Rightarrow> ('w, claim_request option) api"
  sdk_share_room_key :: "string \<Rightarrow> string \<Rightarrow> string list \<Rightarrow> encryption_settings \<Rightarrow> ('w, to_device_request list) api"
  sdk_encrypt :: "string \<Rightarrow> string \<Rightarrow> string \<Rightarrow> json \<Rightarrow> ('w, string) api"
  sdk_receive_sync :: "string \<Rightarrow> sync_changes \<Rightarrow> ('w, string list) api"
  sdk_decrypt :: "string \<Rightarrow> json \<Rightarrow> string \<Rightarrow> ('w, decryption_result) api"
  sdk_receive_verification :: "string \<Rightarrow> json \<Rightarrow> ('w, unit) api"
  sdk_request_room_key :: "string \<Rightarrow> json \<Rightarrow> string \<Rightarrow> ('w, outgoing_request option \<times> outgoing_request) api"
  sdk_backup_enabled :: "string \<Rightarrow> 'w \<Rightarrow> bool"
  sdk_backup :: "string \<Rightarrow> ('w, backup_request option) api"
  sdk_own_device_keys :: "string \<Rightarrow> ('w, json option) api"
  \<comment> \<open>\<open>serde_json::to_value\<close> of a media key and back, the \<open>file\<close> object's reading, attachments\<close>
  media_info_ok :: "json \<Rightarrow> bool"
  encrypted_file :: "json \<Rightarrow> (string \<times> json) option"
  encrypt_attachment :: "string \<Rightarrow> ('w, string \<times> json) api"
  decrypt_attachment :: "string \<Rightarrow> json \<Rightarrow> string + string"
  \<comment> \<open>SQLite: the rows of a media cache that is opened, and a write to it\<close>
  media_open :: "string \<Rightarrow> ('w, media_row list) api"
  media_write :: "string \<Rightarrow> media_row \<Rightarrow> ('w, unit) api"
  \<comment> \<open>files\<close>
  is_file :: "string \<Rightarrow> 'w \<Rightarrow> bool"
  subdirs_of :: "string \<Rightarrow> 'w \<Rightarrow> string list"
  read_file :: "string \<Rightarrow> 'w \<Rightarrow> string option"
  modified :: "string \<Rightarrow> 'w \<Rightarrow> nat option"
  create_dirs :: "string \<Rightarrow> ('w, unit) api"
  write_file :: "string \<Rightarrow> string \<Rightarrow> ('w, unit) api"

section \<open>State\<close>

record account =
  user_id :: string
  device_id :: string
  token :: string
  olm :: string
  rooms :: room_tracker
  media :: "media_row list"
  media_path :: string
  sync :: sync_state
  repairs :: repair_queue
  verifications :: verification_log

text \<open>Background tasks the program spawns.\<close>

datatype task =
    PumpTask string
  | PeriodicPump string
  | PublishTask string bool
  | RoomKeyRequest string string json string

record 'w proxy =
  world :: 'w
  trace :: "http_request list"
  tasks :: "task list"
  sessions :: "(string \<times> account) list"
  refused :: "device_conflict list"

record 'w ctx = "'w proxy" +
  acct :: account

section \<open>Basic effects\<close>

text \<open>A call of the environment, with its error as an \<open>anyhow\<close> message.\<close>

definition call :: "('w, 'a) api \<Rightarrow> ('w, 'z) proxy_scheme \<Rightarrow> (error + 'a) \<times> ('w, 'z) proxy_scheme" where
  "call f s = (case f (world s) of
     (Inl e, w) \<Rightarrow> (Inl (Msg e), s\<lparr>world := w\<rparr>)
   | (Inr x, w) \<Rightarrow> (Inr x, s\<lparr>world := w\<rparr>))"

definition send_http ::
  "('w, 'y) env_scheme \<Rightarrow> http_request \<Rightarrow> ('w, 'z) proxy_scheme \<Rightarrow> (string + response) \<times> ('w, 'z) proxy_scheme" where
  "send_http E rq s = (case http_send E rq (world s) of
     (r, w) \<Rightarrow> (r, s\<lparr>world := w, trace := trace s @ [rq]\<rparr>))"

definition reads :: "('s \<Rightarrow> 'a) \<Rightarrow> 's \<Rightarrow> ('e + 'a) \<times> 's" where
  "reads f s = (Inr (f s), s)"

definition writes :: "('s \<Rightarrow> 's) \<Rightarrow> 's \<Rightarrow> ('e + unit) \<times> 's" where
  "writes f s = (Inr (), f s)"

text \<open>Running \<open>m\<close> and looking at its outcome, \<open>match m { Ok(x) => .., Err(e) => .. }\<close>.\<close>

definition attempt :: "('s \<Rightarrow> ('e + 'a) \<times> 's) \<Rightarrow> 's \<Rightarrow> ('f + ('e + 'a)) \<times> 's" where
  "attempt m s = (case m s of (r, s') \<Rightarrow> (Inr r, s'))"

definition spawn :: "task \<Rightarrow> ('w, 'z) proxy_scheme \<Rightarrow> ('e + unit) \<times> ('w, 'z) proxy_scheme" where
  "spawn t = writes (\<lambda>s. s\<lparr>tasks := tasks s @ [t]\<rparr>)"

definition on_rooms :: "(room_tracker \<Rightarrow> room_tracker) \<Rightarrow> 'w ctx \<Rightarrow> 'w ctx" where
  "on_rooms f s = s\<lparr>acct := (acct s)\<lparr>rooms := f (rooms (acct s))\<rparr>\<rparr>"

definition on_repairs :: "(repair_queue \<Rightarrow> repair_queue) \<Rightarrow> 'w ctx \<Rightarrow> 'w ctx" where
  "on_repairs f s = s\<lparr>acct := (acct s)\<lparr>repairs := f (repairs (acct s))\<rparr>\<rparr>"

definition on_sync :: "(sync_state \<Rightarrow> sync_state) \<Rightarrow> 'w ctx \<Rightarrow> 'w ctx" where
  "on_sync f s = s\<lparr>acct := (acct s)\<lparr>sync := f (sync (acct s))\<rparr>\<rparr>"

definition on_log :: "(verification_log \<Rightarrow> verification_log) \<Rightarrow> 'w ctx \<Rightarrow> 'w ctx" where
  "on_log f s = s\<lparr>acct := (acct s)\<lparr>verifications := f (verifications (acct s))\<rparr>\<rparr>"

text \<open>\<open>for x in xs { body(x)?; }\<close>.\<close>

fun each :: "('a \<Rightarrow> 's \<Rightarrow> ('e + unit) \<times> 's) \<Rightarrow> 'a list \<Rightarrow> 's \<Rightarrow> ('e + unit) \<times> 's" where
  "each f [] = retE ()"
| "each f (x # xs) = bindE (f x) (\<lambda>_. each f xs)"

fun eachP :: "('a \<Rightarrow> 's \<Rightarrow> (('e + unit) \<times> 's) option) \<Rightarrow> 'a list \<Rightarrow> 's \<Rightarrow> (('e + unit) \<times> 's) option" where
  "eachP f [] = liftP (retE ())"
| "eachP f (x # xs) = bindP (f x) (\<lambda>_. eachP f xs)"

lemmas [effect_simps] = call_def send_http_def reads_def writes_def attempt_def spawn_def
  on_rooms_def on_repairs_def on_sync_def on_log_def

section \<open>An environment for concrete runs\<close>

text \<open>
  A homeserver that answers every request with an empty object, an account without pending
  work, no files. The argument lists the JSON texts that occur. Concrete runs override the
  fields they are about.
\<close>

definition ref_config :: config where
  "ref_config =
     \<lparr>cfg_listen = \<lparr>sa_ip = V4 0x7F000001, sa_port = 8009\<rparr>,
      cfg_homeserver = \<lparr>url_origin = ''https://hs'', url_path = ''/'', url_query = None\<rparr>,
      cfg_store_dir = ''/s'', cfg_log_level = ''info'', cfg_store_passphrase = None,
      cfg_admin_token = None\<rparr>"

definition ref_env :: "(string \<times> json) list \<Rightarrow> 'w env" where
  "ref_env tbl =
     \<lparr>env_codec = ref_codec ((''{}'', JObj []) # tbl), env_config = ref_config,
      set_path = (\<lambda>p. p), set_query = (\<lambda>q. q),
      append_query = (\<lambda>q p. Some (fst p @ ''='' @ snd p)),
      http_send = (\<lambda>rq w. (Inr \<lparr>rs_status = 200, rs_headers = [], rs_body = ''{}''\<rparr>, w)),
      http_body = (\<lambda>resp w. (Inr (rs_body resp), w)),
      now = (\<lambda>w. 0), event_key = (\<lambda>j. 0), parses_as = (\<lambda>t j. True), response_ok = (\<lambda>k j. True),
      header_value_ok = (\<lambda>s. True),
      sdk_open = (\<lambda>dir u d p w. (Inr dir, w)), sdk_identity = (\<lambda>h w. ''key''),
      sdk_outgoing = (\<lambda>h w. (Inr [], w)), sdk_mark_sent = (\<lambda>h i k j w. (Inr (), w)),
      sdk_room_settings = (\<lambda>h r w. (Inr None, w)), sdk_set_room_settings = (\<lambda>h r s w. (Inr (), w)),
      sdk_default_room_settings = \<lparr>st_algorithm = ''m.megolm.v1.aes-sha2'', st_only_trusted = False,
        st_rotation_period_ms = None, st_rotation_msgs = None\<rparr>,
      sdk_default_settings = \<lparr>es_algorithm = ''m.megolm.v1.aes-sha2'', es_rotation_period_ms = 604800000,
        es_rotation_msgs = 100, es_visibility = Shared\<rparr>,
      sdk_update_tracked = (\<lambda>h us w. (Inr (), w)), sdk_missing_sessions = (\<lambda>h us w. (Inr None, w)),
      sdk_share_room_key = (\<lambda>h r us s w. (Inr [], w)), sdk_encrypt = (\<lambda>h r t c w. (Inr ''{}'', w)),
      sdk_receive_sync = (\<lambda>h c w. (Inr [], w)),
      sdk_decrypt = (\<lambda>h e r w. (Inr (SdkUnableToDecrypt ''MissingRoomKey'' None), w)),
      sdk_receive_verification = (\<lambda>h e w. (Inr (), w)),
      sdk_request_room_key = (\<lambda>h e r w. (Inl ''no key request'', w)),
      sdk_backup_enabled = (\<lambda>h w. False), sdk_backup = (\<lambda>h w. (Inr None, w)),
      sdk_own_device_keys = (\<lambda>h w. (Inr None, w)),
      media_info_ok = (\<lambda>j. True), encrypted_file = (\<lambda>j. None),
      encrypt_attachment = (\<lambda>b w. (Inr (rev b, JNull), w)),
      decrypt_attachment = (\<lambda>b i. Inr (rev b)),
      media_open = (\<lambda>p w. (Inr [], w)), media_write = (\<lambda>p r w. (Inr (), w)),
      is_file = (\<lambda>p w. False), subdirs_of = (\<lambda>p w. []), read_file = (\<lambda>p w. None),
      modified = (\<lambda>p w. None), create_dirs = (\<lambda>p w. (Inr (), w)), write_file = (\<lambda>p b w. (Inr (), w))\<rparr>"

definition ref_proxy :: "unit proxy" where
  "ref_proxy = \<lparr>world = (), trace = [], tasks = [], sessions = [], refused = []\<rparr>"

definition ref_account :: account where
  "ref_account =
     \<lparr>user_id = ''@a:hs'', device_id = ''D'', token = ''tok'', olm = ''/s/@a:hs/D'',
      rooms = empty_tracker, media = [], media_path = ''/s/@a:hs/D/media.sqlite'', sync = empty_sync,
      repairs = empty_queue, verifications = empty_log\<rparr>"

definition ref_ctx_at :: "'w \<Rightarrow> 'w ctx" where
  "ref_ctx_at w = \<lparr>world = w, trace = [], tasks = [], sessions = [], refused = [], acct = ref_account\<rparr>"

definition ref_ctx :: "unit ctx" where
  "ref_ctx = ref_ctx_at ()"

end
