(* ===== verification/Routes.thy ===== *)
theory Routes
  imports Http
begin

text \<open>
  Path segments and the classification of requests: \<open>machine::enc\<close>
  (\<open>src/src/crypto/machine.rs\<close>), \<open>routes::dec\<close> and \<open>routes::classify\<close>
  (\<open>src/src/proxy/routes.rs\<close>).
\<close>

section \<open>Encoding a path segment\<close>

text \<open>\<open>NON_ALPHANUMERIC\<close> without \<open>-\<close>, \<open>_\<close>, \<open>.\<close> and \<open>~\<close>.\<close>

definition enc_set :: "char \<Rightarrow> bool" where
  "enc_set c \<longleftrightarrow> is_ascii c \<and> \<not> is_ascii_alphanumeric c \<and> c \<notin> {CHR ''-'', CHR ''_'', CHR ''.'', CHR 0x7E}"

definition enc :: "codec \<Rightarrow> string \<Rightarrow> string" where
  "enc cd s = pct_encode cd enc_set s"

definition dec :: "codec \<Rightarrow> string \<Rightarrow> string" where
  "dec cd s = utf8_lossy cd (pct_decode cd s)"

text \<open>What a segment encoding promises: it is undone, and its output is one segment.\<close>

locale segment_coding =
  fixes e :: "string \<Rightarrow> string" and d :: "string \<Rightarrow> string" and ok :: "string \<Rightarrow> bool"
  assumes decode_encode: "ok s \<Longrightarrow> d (e s) = s"
    and one_segment: "CHR ''/'' \<notin> set (e s)"
    and no_query: "CHR ''?'' \<notin> set (e s)"
begin

lemma encode_inj: "ok s \<Longrightarrow> ok t \<Longrightarrow> e s = e t \<longleftrightarrow> s = t"
  by (metis decode_encode)

lemma split_encoded:
  "split_on (CHR ''/'') (join_with ''/'' (map e ss)) = (if ss = [] then [[]] else map e ss)"
  by (simp add: split_join one_segment)

lemma segments_roundtrip:
  "\<forall>s \<in> set ss. ok s \<Longrightarrow> ss \<noteq> [] \<Longrightarrow>
    map d (split_on (CHR ''/'') (join_with ''/'' (map e ss))) = ss"
  by (simp add: split_encoded decode_encode map_idI)

end

lemma enc_set_percent: "enc_set (CHR ''%'')"
  by code_simp

lemma enc_chars:
  assumes "percent_coding utf8 cd" and "x \<in> set (enc cd s)"
  shows "x = CHR ''%'' \<or> is_ascii_alphanumeric x \<or> x \<in> {CHR ''-'', CHR ''_'', CHR ''.'', CHR 0x7E}"
  using assms by (auto simp: enc_def percent_coding_def enc_set_def dest!: pct_byte_chars)

lemma segment_coding_enc:
  assumes "percent_coding utf8 cd"
  shows "segment_coding (enc cd) (dec cd) utf8"
proof
  fix s
  show "utf8 s \<Longrightarrow> dec cd (enc cd s) = s"
    using assms by (simp add: dec_def enc_def percent_coding_def pct_decode_encode enc_set_percent)
  have "\<not> is_ascii_alphanumeric (CHR ''/'')" "\<not> is_ascii_alphanumeric (CHR ''?'')"
    by code_simp+
  then show "CHR ''/'' \<notin> set (enc cd s)" "CHR ''?'' \<notin> set (enc cd s)"
    using enc_chars [OF assms, of _ s] by fastforce+
qed

interpretation ref_seg: segment_coding "enc (ref_codec tbl)" "dec (ref_codec tbl)" "\<lambda>_. True"
  by (rule segment_coding_enc [OF percent_coding_ref])

section \<open>Classifying a request\<close>

datatype route =
    Login
  | Sync
  | Send (send_room: string) (send_type: string) (send_txn: string)
  | Messages string
  | Context string
  | RoomEvent string
  | Notifications
  | MediaUpload
  | MediaDownload string string bool
  | Admin string
  | Passthrough

text \<open>
  A slice pattern of the source: literals and wildcards; \<open>seg_prefix\<close> is a pattern that ends
  in \<open>..\<close>.
\<close>

datatype seg = Lit string | Any

fun seg_match :: "seg list \<Rightarrow> string list \<Rightarrow> bool" where
  "seg_match [] [] = True"
| "seg_match (Lit l # ps) (s # ss) = (l = s \<and> seg_match ps ss)"
| "seg_match (Any # ps) (s # ss) = seg_match ps ss"
| "seg_match _ _ = False"

fun seg_prefix :: "seg list \<Rightarrow> string list \<Rightarrow> bool" where
  "seg_prefix [] ss = True"
| "seg_prefix (Lit l # ps) (s # ss) = (l = s \<and> seg_prefix ps ss)"
| "seg_prefix (Any # ps) (s # ss) = seg_prefix ps ss"
| "seg_prefix _ _ = False"

definition path_segments :: "string \<Rightarrow> string list" where
  "path_segments path = split_on (CHR ''/'') (trim_start (\<lambda>c. c = CHR ''/'') path)"

definition classify_segments :: "codec \<Rightarrow> string \<Rightarrow> string list \<Rightarrow> route" where
  "classify_segments cd meth segs =
     (if seg_match [Lit ''_matrix'', Lit ''client'', Any, Lit ''login''] segs \<and> meth = ''POST''
      then Login
      else if seg_match [Lit ''_matrix'', Lit ''client'', Any, Lit ''sync''] segs \<and> meth = ''GET''
      then Sync
      else if seg_match [Lit ''_matrix'', Lit ''client'', Any, Lit ''rooms'', Any, Lit ''send'', Any, Any] segs
        \<and> meth = ''PUT''
      then Send (dec cd (segs ! 4)) (dec cd (segs ! 6)) (dec cd (segs ! 7))
      else if seg_match [Lit ''_matrix'', Lit ''client'', Any, Lit ''rooms'', Any, Lit ''messages''] segs
        \<and> meth = ''GET''
      then Messages (dec cd (segs ! 4))
      else if seg_match [Lit ''_matrix'', Lit ''client'', Any, Lit ''rooms'', Any, Lit ''context'', Any] segs
        \<and> meth = ''GET''
      then Context (dec cd (segs ! 4))
      else if seg_match [Lit ''_matrix'', Lit ''client'', Any, Lit ''rooms'', Any, Lit ''event'', Any] segs
        \<and> meth = ''GET''
      then RoomEvent (dec cd (segs ! 4))
      else if seg_match [Lit ''_matrix'', Lit ''client'', Any, Lit ''notifications''] segs \<and> meth = ''GET''
      then Notifications
      else if seg_match [Lit ''_matrix'', Lit ''media'', Any, Lit ''upload''] segs \<and> meth = ''POST''
      then MediaUpload
      else if seg_prefix [Lit ''_matrix'', Lit ''client'', Any, Lit ''media'', Lit ''download'', Any, Any] segs
        \<and> meth = ''GET''
      then MediaDownload (dec cd (segs ! 5)) (dec cd (segs ! 6)) True
      else if seg_prefix [Lit ''_matrix'', Lit ''media'', Any, Lit ''download'', Any, Any] segs
        \<and> meth = ''GET''
      then MediaDownload (dec cd (segs ! 4)) (dec cd (segs ! 5)) False
      else Passthrough)"

definition classify :: "codec \<Rightarrow> string \<Rightarrow> string \<Rightarrow> route" where
  "classify cd meth path =
     (case strip_prefix ''/_ement/'' path of
        Some rest \<Rightarrow> Admin rest
      | None \<Rightarrow>
          if path = ''/_ement'' then Admin []
          else classify_segments cd meth (path_segments path))"

section \<open>Lemmas\<close>

lemma path_segments_join:
  assumes "ss \<noteq> []" and "hd ss \<noteq> []" and "\<forall>s \<in> set ss. CHR ''/'' \<notin> set s"
  shows "path_segments (CHR ''/'' # join_with ''/'' ss) = ss"
proof -
  obtain x xs where ss: "ss = x # xs" using assms(1) by (cases ss) auto
  obtain c cs where x: "x = c # cs" using assms(2) ss by (cases x) auto
  have "c \<noteq> CHR ''/''" using assms(3) ss x by auto
  then have "trim_start (\<lambda>c. c = CHR ''/'') (CHR ''/'' # join_with ''/'' ss) = join_with ''/'' ss"
    by (cases xs) (simp_all add: trim_start_def ss x)
  then show ?thesis
    using split_join [OF assms(1,3)] by (simp add: path_segments_def)
qed

lemma classify_segments_not_Admin: "classify_segments cd meth segs \<noteq> Admin r"
  by (simp add: classify_segments_def)

lemma seg_prefix_length: "seg_prefix ps ss \<Longrightarrow> length ps \<le> length ss"
  by (induction ps ss rule: seg_prefix.induct) auto

lemma seg_match_length: "seg_match ps ss \<Longrightarrow> length ps = length ss"
  by (induction ps ss rule: seg_match.induct) auto

lemma seg_match_head: "seg_match (Lit l # ps) ss \<Longrightarrow> hd ss = l"
  by (cases ss) auto

lemma seg_prefix_head: "seg_prefix (Lit l # ps) ss \<Longrightarrow> hd ss = l"
  by (cases ss) auto

lemma classify_segments_intercepts:
  "classify_segments cd meth segs \<noteq> Passthrough \<Longrightarrow>
    hd segs = ''_matrix'' \<and> meth \<in> {''GET'', ''PUT'', ''POST''}"
  unfolding classify_segments_def by (auto dest: seg_match_head seg_prefix_head split: if_splits)

text \<open>
  C27: a request goes to the admin API exactly when its path is \<open>/_ement\<close> or below it, and
  everything else the proxy intercepts is a GET, PUT or POST under \<open>/_matrix\<close>; no other
  request is touched.
\<close>

theorem classify_admin_exactly:
  "((\<exists>r. classify cd meth path = Admin r) \<longleftrightarrow> path = ''/_ement'' \<or> prefix ''/_ement/'' path) \<and>
   (classify cd meth path \<noteq> Passthrough \<longrightarrow>
      path = ''/_ement'' \<or> prefix ''/_ement/'' path \<or>
      (hd (path_segments path) = ''_matrix'' \<and> meth \<in> {''GET'', ''PUT'', ''POST''}))"
proof (cases "strip_prefix ''/_ement/'' path")
  case None
  have "classify cd meth path \<noteq> Passthrough \<longrightarrow> path = ''/_ement'' \<or>
      (hd (path_segments path) = ''_matrix'' \<and> meth \<in> {''GET'', ''PUT'', ''POST''})"
    using classify_segments_intercepts [of cd meth "path_segments path"] None
    by (auto simp: classify_def)
  moreover have "(\<exists>r. classify cd meth path = Admin r) \<longleftrightarrow> path = ''/_ement''"
    using None by (simp add: classify_def classify_segments_not_Admin)
  ultimately show ?thesis
    using None [unfolded strip_prefix_None] by blast
next
  case (Some r)
  then have "prefix ''/_ement/'' path" "classify cd meth path = Admin r"
    by (auto simp: strip_prefix_Some classify_def)
  then show ?thesis by auto
qed

theorem classify_admin_exactly_witness:
  "classify (ref_codec []) ''GET'' ''/_ement/status'' = Admin ''status'' \<and>
   prefix ''/_ement/'' ''/_ement/status''"
  using classify_admin_exactly [of "ref_codec []" "''GET''" "''/_ement/status''"]
  by (simp add: classify_def)

text \<open>The path the proxy itself builds for sending an event.\<close>

definition send_path :: "codec \<Rightarrow> string \<Rightarrow> string \<Rightarrow> string \<Rightarrow> string" where
  "send_path cd room ty txn =
     ''/_matrix/client/v3/rooms/'' @ enc cd room @ ''/send/'' @ enc cd ty @ ''/'' @ enc cd txn"

lemma send_path_join:
  "send_path cd room ty txn = CHR ''/'' # join_with ''/''
     [''_matrix'', ''client'', ''v3'', ''rooms'', enc cd room, ''send'', enc cd ty, enc cd txn]"
  by (simp add: send_path_def)

lemma send_path_segments:
  assumes "percent_coding utf8 cd"
  shows "path_segments (send_path cd room ty txn) =
    [''_matrix'', ''client'', ''v3'', ''rooms'', enc cd room, ''send'', enc cd ty, enc cd txn]"
  unfolding send_path_join
  using segment_coding.one_segment [OF segment_coding_enc [OF assms]]
  by (intro path_segments_join) auto

text \<open>
  C28: the segments survive the path: a send the proxy addresses to a room, type and
  transaction ID is classified, by the same rules, as the send of that type and transaction
  ID to that room, whatever characters they hold.
\<close>

theorem send_path_roundtrip:
  assumes "percent_coding utf8 cd" and "utf8 room" and "utf8 ty" and "utf8 txn"
  shows "classify cd ''PUT'' (send_path cd room ty txn) = Send room ty txn"
proof -
  have "strip_prefix ''/_ement/'' (send_path cd room ty txn) = None"
    and "send_path cd room ty txn \<noteq> ''/_ement''"
    by (simp_all add: send_path_def)
  moreover have "dec cd (enc cd s) = s" if "utf8 s" for s
    using segment_coding.decode_encode [OF segment_coding_enc [OF assms(1)]] that .
  ultimately show ?thesis
    using assms(2-4)
    by (simp add: classify_def send_path_segments [OF assms(1)] classify_segments_def)
qed

theorem send_path_roundtrip_witness:
  "classify (ref_codec []) ''PUT'' (send_path (ref_codec []) ''!a/b?c:hs'' ''m.room.message'' ''1 2%'') =
    Send ''!a/b?c:hs'' ''m.room.message'' ''1 2%''"
  using send_path_roundtrip [OF percent_coding_ref, of "\<lambda>_. True"] by blast

end
