(* ===== verification/Client.thy ===== *)
theory Client
  imports Env Routes
begin

text \<open>
  Requests to the homeserver (\<open>src/src/upstream.rs\<close>), plain forwarding
  (\<open>src/src/proxy/passthrough.rs\<close>), and the parts of \<open>src/src/proxy/intercept.rs\<close> and
  \<open>src/src/proxy/mod.rs\<close> that read a request or build a response. A request is appended to
  the state's \<open>trace\<close> when it is handed to the HTTP client; what the client does with an answer that is
  a redirect is part of \<open>http_send\<close>.
\<close>

type_synonym ('w, 'z, 'a) any_eff = "('w, 'z) proxy_scheme \<Rightarrow> (error + 'a) \<times> ('w, 'z) proxy_scheme"
type_synonym ('w, 'z, 'a) proxy_eff = "('w, 'z) proxy_scheme \<Rightarrow> (proxy_error + 'a) \<times> ('w, 'z) proxy_scheme"

section \<open>Upstream\<close>

definition upstream_url :: "('w, 'y) env_scheme \<Rightarrow> string \<Rightarrow> url" where
  "upstream_url E pq =
     (let (path, query) = (case split_once (CHR ''?'') pq of
            Some (path, query) \<Rightarrow> (path, Some query)
          | None \<Rightarrow> (pq, None))
      in (cfg_homeserver (env_config E))
           \<lparr>url_path := set_path E path, url_query := map_option (set_query E) query\<rparr>)"

definition bearer_auth :: "string \<Rightarrow> string \<times> string" where
  "bearer_auth tok = (''authorization'', ''Bearer '' @ tok)"

text \<open>The request a JSON call hands to the HTTP client.\<close>

definition json_http :: "('w, 'y) env_scheme \<Rightarrow> string \<Rightarrow> string \<Rightarrow> string \<Rightarrow> json option \<Rightarrow> http_request" where
  "json_http E meth pq tok body =
     \<lparr>hr_method = meth, hr_url = upstream_url E pq,
      hr_headers = bearer_auth tok #
        (case body of None \<Rightarrow> [] | Some _ \<Rightarrow> [(''content-type'', ''application/json'')]),
      hr_body = (case body of None \<Rightarrow> [] | Some b \<Rightarrow> json_print (env_codec E) b)\<rparr>"

definition json_request ::
  "('w, 'y) env_scheme \<Rightarrow> string \<Rightarrow> string \<Rightarrow> string \<Rightarrow> json option \<Rightarrow> ('w, 'z, nat \<times> json) any_eff" where
  "json_request E meth pq tok body =
     bindE (mapErrE (\<lambda>e. Wrap ''upstream request failed'' (Msg e)) (send_http E (json_http E meth pq tok body))) (\<lambda>resp.
     bindE (mapErrE (Wrap ''failed to read upstream body'') (call (http_body E resp))) (\<lambda>bytes.
     if bytes = [] then retE (rs_status resp, JNull)
     else (case json_parse (env_codec E) bytes of
         None \<Rightarrow> failE (Wrap ''upstream returned non-JSON body'' (Msg ''invalid JSON''))
       | Some v \<Rightarrow> retE (rs_status resp, v))))"

section \<open>Forwarding\<close>

definition hop_by_hop :: "string list" where
  "hop_by_hop = [''connection'', ''proxy-authenticate'', ''proxy-authorization'', ''te'', ''trailer'',
     ''transfer-encoding'', ''upgrade'']"

definition is_hop_by_hop :: "string \<Rightarrow> bool" where
  "is_hop_by_hop name \<longleftrightarrow> name \<in> set hop_by_hop \<or> name = ''keep-alive'' \<or> name = ''proxy-connection''"

text \<open>Appending to \<open>dst\<close>, which keeps every value of a repeated header.\<close>

definition copy_headers :: "headers \<Rightarrow> headers \<Rightarrow> headers" where
  "copy_headers src dst =
     fold (\<lambda>(name, v) hs. if \<not> is_hop_by_hop name \<and> name \<noteq> ''host'' then hs @ [(name, v)] else hs) src dst"

definition passthrough :: "('w, 'y) env_scheme \<Rightarrow> client_request \<Rightarrow> ('w, 'z, response) proxy_eff" where
  "passthrough E req =
     (let rq = \<lparr>hr_method = rq_method req, hr_url = upstream_url E (path_and_query req),
            hr_headers = copy_headers (rq_headers req) [], hr_body = rq_body req\<rparr>
      in bindE (mapErrE Upstream (send_http E rq)) (\<lambda>resp.
         retE \<lparr>rs_status = rs_status resp, rs_headers = copy_headers (rs_headers resp) [],
               rs_body = rs_body resp\<rparr>))"

section \<open>Reading a request, building a response\<close>

text \<open>The token of a request: its Authorization header, or the query parameter.\<close>

definition bearer_token :: "client_request \<Rightarrow> string option" where
  "bearer_token req =
     (case Option.bind (Option.bind (header_get ''authorization'' (rq_headers req)) header_to_str)
             (strip_prefix ''Bearer '') of
        Some tok \<Rightarrow> Some tok
      | None \<Rightarrow> Option.bind (rq_query req) (\<lambda>q.
          (case List.map_filter (strip_prefix ''access_token='') (split_on (CHR ''&'') q) of
             [] \<Rightarrow> None
           | tok # _ \<Rightarrow> Some tok)))"

definition raw_response :: "nat \<Rightarrow> string option \<Rightarrow> string \<Rightarrow> response" where
  "raw_response st ct bytes =
     \<lparr>rs_status = st,
      rs_headers = (case ct of None \<Rightarrow> [] | Some c \<Rightarrow> [(''content-type'', c)]),
      rs_body = bytes\<rparr>"

text \<open>An authenticated GET for the client; what failed is relayed as it came.\<close>

definition get_with_token :: "('w, 'y) env_scheme \<Rightarrow> string \<Rightarrow> string \<Rightarrow> http_request" where
  "get_with_token E tok pq =
     \<lparr>hr_method = ''GET'', hr_url = upstream_url E pq,
      hr_headers = [bearer_auth tok], hr_body = []\<rparr>"

text \<open>\<open>Left\<close> is a response to relay, \<open>Right\<close> the content type and the parsed body.\<close>

definition forward_get_json ::
  "('w, 'y) env_scheme \<Rightarrow> string \<Rightarrow> string \<Rightarrow> ('w, 'z, response + (string option \<times> json)) proxy_eff" where
  "forward_get_json E tok pq =
     bindE (mapErrE Upstream (send_http E (get_with_token E tok pq))) (\<lambda>resp.
     bindE (mapErrE (\<lambda>e. Upstream (show_error e)) (call (http_body E resp))) (\<lambda>bytes.
       let ct = header_get ''content-type'' (rs_headers resp) in
       if \<not> is_success (rs_status resp) then retE (Inl (raw_response (rs_status resp) ct bytes))
       else (case json_parse (env_codec E) bytes of
           None \<Rightarrow> failE (Internal (Wrap ''upstream response is not valid JSON'' (Msg ''invalid JSON'')))
         | Some body \<Rightarrow> retE (Inr (ct, body)))))"

text \<open>\<open>?\<close> from an \<open>anyhow\<close> result into \<open>ProxyError\<close>.\<close>

definition internal :: "('s \<Rightarrow> (error + 'a) \<times> 's) \<Rightarrow> 's \<Rightarrow> (proxy_error + 'a) \<times> 's" where
  "internal = mapErrE Internal"

section \<open>Lemmas\<close>

lemma upstream_url_origin [simp]: "url_origin (upstream_url E p) = url_origin (cfg_homeserver (env_config E))"
  by (simp add: upstream_url_def Let_def split: prod.split)

lemma upstream_url_parts:
  "CHR ''?'' \<notin> set (rq_path req) \<Longrightarrow> upstream_url E (path_and_query req) = (cfg_homeserver (env_config E))
    \<lparr>url_path := set_path E (rq_path req), url_query := map_option (set_query E) (rq_query req)\<rparr>"
  using split_once_None [of "CHR ''?''" "rq_path req"]
  by (cases "rq_query req") (simp_all add: upstream_url_def path_and_query_def)

lemma copy_headers_filter:
  "copy_headers src dst = dst @ filter (\<lambda>h. \<not> is_hop_by_hop (fst h) \<and> fst h \<noteq> ''host'') src"
  unfolding copy_headers_def by (induction src arbitrary: dst) auto

lemma send_http_trace:
  "send_http E rq s = (r, t) \<Longrightarrow> trace t = trace s @ [rq]"
  by (auto simp: send_http_def split: prod.splits)

lemma call_trace: "call f s = (r, t) \<Longrightarrow> trace t = trace s"
  by (auto simp: call_def split: prod.splits sum.splits)

lemma passthrough_trace:
  "passthrough E req s = (r, t) \<Longrightarrow> trace t = trace s @
    [\<lparr>hr_method = rq_method req, hr_url = upstream_url E (path_and_query req),
      hr_headers = copy_headers (rq_headers req) [], hr_body = rq_body req\<rparr>]"
  unfolding passthrough_def Let_def bindE_def mapErrE_def retE_def
  by (auto dest!: send_http_trace split: prod.splits sum.splits)

text \<open>
  C26: forwarding hands exactly one request to the HTTP client: the configured homeserver's URL, whatever
  the path says, with the client's path and query and no other (as the URL type writes them), and
  with the client's method, body and headers, each value of a repeated header included, without the
  hop-by-hop headers and Host; the answer goes back with the same headers dropped and status and body
  as the HTTP client gave them. The path of a request has no question mark.
\<close>

theorem passthrough_verbatim:
  assumes "passthrough E req s = (r, t)" and "CHR ''?'' \<notin> set (rq_path req)"
  shows "\<exists>rq. trace t = trace s @ [rq] \<and>
    hr_url rq = (cfg_homeserver (env_config E))
      \<lparr>url_path := set_path E (rq_path req), url_query := map_option (set_query E) (rq_query req)\<rparr> \<and>
    hr_method rq = rq_method req \<and> hr_body rq = rq_body req \<and>
    hr_headers rq = filter (\<lambda>h. \<not> is_hop_by_hop (fst h) \<and> fst h \<noteq> ''host'') (rq_headers req) \<and>
    (case http_send E rq (world s) of
       (Inl e, w) \<Rightarrow> r = Inl (Upstream e)
     | (Inr resp, w) \<Rightarrow> r = Inr (resp\<lparr>rs_headers :=
         filter (\<lambda>h. \<not> is_hop_by_hop (fst h) \<and> fst h \<noteq> ''host'') (rs_headers resp)\<rparr>))"
proof -
  let ?rq = "\<lparr>hr_method = rq_method req, hr_url = upstream_url E (path_and_query req),
      hr_headers = copy_headers (rq_headers req) [], hr_body = rq_body req\<rparr>"
  have "case http_send E ?rq (world s) of
       (Inl e, w) \<Rightarrow> r = Inl (Upstream e)
     | (Inr resp, w) \<Rightarrow> r = Inr (resp\<lparr>rs_headers :=
         filter (\<lambda>h. \<not> is_hop_by_hop (fst h) \<and> fst h \<noteq> ''host'') (rs_headers resp)\<rparr>)"
    using assms(1)
    by (auto simp: passthrough_def Let_def bindE_def mapErrE_def retE_def send_http_def
        copy_headers_filter split: prod.splits sum.splits)
  then show ?thesis
    using passthrough_trace [OF assms(1)]
    by (intro exI [of _ ?rq]) (simp add: copy_headers_filter upstream_url_parts [OF assms(2)])
qed

lemma first_map_filter:
  "(case List.map_filter f xs of [] \<Rightarrow> None | y # _ \<Rightarrow> Some y) = Some z \<longleftrightarrow>
    (\<exists>us x vs. xs = us @ x # vs \<and> f x = Some z \<and> (\<forall>u \<in> set us. f u = None))"
proof (induction xs)
  case (Cons a xs)
  show ?case
  proof (cases "f a")
    case None
    have "(\<exists>us x vs. a # xs = us @ x # vs \<and> f x = Some z \<and> (\<forall>u \<in> set us. f u = None)) \<longleftrightarrow>
        (\<exists>us x vs. xs = us @ x # vs \<and> f x = Some z \<and> (\<forall>u \<in> set us. f u = None))" (is "?l = ?r")
    proof
      assume ?l
      then obtain us x vs where "a # xs = us @ x # vs" "f x = Some z" "\<forall>u \<in> set us. f u = None"
        by blast
      then show ?r using None by (cases us) auto
    next
      assume ?r
      then obtain us x vs where "xs = us @ x # vs" "f x = Some z" "\<forall>u \<in> set us. f u = None"
        by blast
      then show ?l using None by (intro exI [of _ "a # us"]) auto
    qed
    then show ?thesis using Cons.IH None by (simp add: List.map_filter_simps)
  next
    case (Some b)
    have "(\<exists>us x vs. a # xs = us @ x # vs \<and> f x = Some z \<and> (\<forall>u \<in> set us. f u = None)) \<longleftrightarrow> b = z"
      using Some by (auto simp: Cons_eq_append_conv intro!: exI [of _ "[]"])
    then show ?thesis using Some by (simp add: List.map_filter_simps)
  qed
qed (simp add: List.map_filter_simps)

lemma map_filter_None: "\<forall>x \<in> set xs. f x = None \<Longrightarrow> List.map_filter f xs = []"
  by (induction xs) (simp_all add: List.map_filter_simps)

theorem passthrough_verbatim_witness:
  "\<exists>r t rq. passthrough (ref_env []) \<lparr>rq_method = ''GET'', rq_path = ''//evil.example/x'', rq_query = Some ''a=b?c'',
      rq_headers = [(''host'', ''proxy''), (''accept'', ''*'')], rq_body = []\<rparr> ref_proxy = (r, t) \<and>
    trace t = [rq] \<and> hr_headers rq = [(''accept'', ''*'')] \<and>
    hr_url rq = \<lparr>url_origin = ''https://hs'', url_path = ''//evil.example/x'', url_query = Some ''a=b?c''\<rparr>"
proof -
  let ?q = "\<lparr>rq_method = ''GET'', rq_path = ''//evil.example/x'', rq_query = Some ''a=b?c'',
      rq_headers = [(''host'', ''proxy''), (''accept'', ''*'')], rq_body = []\<rparr>"
  obtain r t where p: "passthrough (ref_env []) ?q ref_proxy = (r, t)"
    by fastforce
  show ?thesis
    using passthrough_verbatim [OF p] p
    by (auto simp: ref_proxy_def ref_env_def ref_config_def is_hop_by_hop_def hop_by_hop_def)
qed

text \<open>
  The token of a request is what follows \<open>Bearer\<close> in its Authorization header where it
  has one, whatever the query says; with no such header it is the value of the first
  \<open>access_token\<close> parameter of the query, at whatever place it stands; a request with neither,
  or with a parameter that only ends in that name, has none.
\<close>

theorem bearer_token_source:
  assumes "header_to_str (''Bearer '' @ tok) \<noteq> None"
    and "\<forall>p \<in> set (ps @ [''access_token='' @ tok] @ qs). CHR ''&'' \<notin> set p"
    and "\<forall>p \<in> set ps. \<not> prefix ''access_token='' p"
  shows "bearer_token (req\<lparr>rq_headers := (''authorization'', ''Bearer '' @ tok) # hs\<rparr>) = Some tok \<and>
    (header_get ''authorization'' hs = None \<longrightarrow>
      bearer_token (req\<lparr>rq_headers := hs,
        rq_query := Some (join_with ''&'' (ps @ [''access_token='' @ tok] @ qs))\<rparr>) = Some tok \<and>
      (ps \<noteq> [] \<longrightarrow>
        bearer_token (req\<lparr>rq_headers := hs, rq_query := Some (join_with ''&'' ps)\<rparr>) = None))"
proof (intro conjI impI)
  have none: "\<forall>p \<in> set ps. strip_prefix ''access_token='' p = None"
    using assms(3) by (simp add: strip_prefix_None)
  show "bearer_token (req\<lparr>rq_headers := (''authorization'', ''Bearer '' @ tok) # hs\<rparr>) = Some tok"
    using assms(1) by (simp add: bearer_token_def header_get_def header_to_str_def split: if_splits)
  assume h: "header_get ''authorization'' hs = None"
  have q: "bearer_token (req\<lparr>rq_headers := hs, rq_query := Some q\<rparr>) =
      (case List.map_filter (strip_prefix ''access_token='') (split_on (CHR ''&'') q) of
        [] \<Rightarrow> None | t # _ \<Rightarrow> Some t)" for q
    using h by (simp add: bearer_token_def)
  have "(case List.map_filter (strip_prefix ''access_token='') (ps @ [''access_token='' @ tok] @ qs) of
      [] \<Rightarrow> None | y # _ \<Rightarrow> Some y) = Some tok"
    unfolding first_map_filter using none strip_prefix_append [of "''access_token=''" tok]
    by (intro exI [of _ ps] exI [of _ "''access_token='' @ tok"] exI [of _ qs]) simp
  moreover have "split_on (CHR ''&'') (join_with ''&'' (ps @ [''access_token='' @ tok] @ qs)) =
      ps @ [''access_token='' @ tok] @ qs"
    using assms(2) by (intro split_join) auto
  ultimately show "bearer_token (req\<lparr>rq_headers := hs,
        rq_query := Some (join_with ''&'' (ps @ [''access_token='' @ tok] @ qs))\<rparr>) = Some tok"
    by (simp only: q)
  show "ps \<noteq> [] \<Longrightarrow> bearer_token (req\<lparr>rq_headers := hs, rq_query := Some (join_with ''&'' ps)\<rparr>) = None"
    using split_join [of ps "CHR ''&''"] assms(2) none by (simp add: q map_filter_None)
qed

theorem bearer_token_source_witness:
  "bearer_token \<lparr>rq_method = ''GET'', rq_path = ''/sync'',
     rq_query = Some ''timeout=0&access_token=t'', rq_headers = [], rq_body = []\<rparr> = Some ''t''"
proof -
  have "header_to_str (''Bearer '' @ ''t'') \<noteq> None"
    "\<forall>p \<in> set ([''timeout=0''] @ [''access_token='' @ ''t''] @ []). CHR ''&'' \<notin> set p"
    "\<forall>p \<in> set [''timeout=0'']. \<not> prefix ''access_token='' p"
    by code_simp+
  from bearer_token_source [OF this, where hs = "[]" and req = "\<lparr>rq_method = ''GET'', rq_path = ''/sync'',
     rq_query = None, rq_headers = [], rq_body = []\<rparr>"]
  show ?thesis by (simp add: header_get_def)
qed

end
