(* ===== verification/Rooms.thy ===== *)
theory Rooms
  imports Client
begin

text \<open>
  The functions of \<open>src/src/crypto/rooms.rs\<close> that ask the homeserver or the crypto machine:
  whether a room is encrypted, its members, its history visibility, and the scan of state
  events for what the tracker keeps.
\<close>

type_synonym ('w, 'a) eff = "'w ctx \<Rightarrow> (error + 'a) \<times> 'w ctx"

text \<open>\<open>{status}: {body}\<close> and the like.\<close>

definition show_answer :: "('w, 'y) env_scheme \<Rightarrow> string \<Rightarrow> nat \<times> json \<Rightarrow> string" where
  "show_answer E msg a = msg @ show_status (env_codec E) (fst a) @ '' '' @ json_print (env_codec E) (snd a)"

section \<open>Operations\<close>

definition encryption_path :: "('w, 'y) env_scheme \<Rightarrow> string \<Rightarrow> string" where
  "encryption_path E room =
     ''/_matrix/client/v3/rooms/'' @ enc (env_codec E) room @ ''/state/m.room.encryption''"

definition is_room_encrypted :: "('w, 'y) env_scheme \<Rightarrow> string \<Rightarrow> ('w, bool) eff" where
  "is_room_encrypted E room = look (\<lambda>s.
      if is_known_unencrypted room (rooms (acct s)) then retE False
      else bindE (call (sdk_room_settings E (olm (acct s)) room)) (\<lambda>known.
        if known \<noteq> None then retE True
        else bindE (json_request E ''GET'' (encryption_path E room) (token (acct s)) None) (\<lambda>(status, body).
          if status = 404 then
            bindE (writes (on_rooms (mark_unencrypted room))) (\<lambda>_. retE False)
          else if \<not> is_success status then
            failE (Msg (show_answer E ''failed to fetch m.room.encryption state: '' (status, body)))
          else (case room_settings_from_content body of
              None \<Rightarrow> failE (Msg (''malformed m.room.encryption content: '' @ json_print (env_codec E) body))
            | Some settings \<Rightarrow>
                bindE (writes (on_rooms (mark_encrypted room))) (\<lambda>_.
                bindE (attempt (call (sdk_set_room_settings E (olm (acct s)) room settings))) (\<lambda>_.
                retE True))))))"

definition joined_members :: "('w, 'y) env_scheme \<Rightarrow> string \<Rightarrow> ('w, string list) eff" where
  "joined_members E room = look (\<lambda>s.
      case cached_members (now E (world s)) room (rooms (acct s)) of
        Some ms \<Rightarrow> retE ms
      | None \<Rightarrow>
          bindE (json_request E ''GET''
              (''/_matrix/client/v3/rooms/'' @ enc (env_codec E) room @ ''/joined_members'')
              (token (acct s)) None) (\<lambda>(status, body).
          if \<not> is_success status then failE (Msg (show_answer E ''joined_members failed: '' (status, body)))
          else
            let ms = (case Option.bind (get ''joined'' body) as_object of
                  None \<Rightarrow> []
                | Some j \<Rightarrow> filter (is_user_id (env_codec E)) (map fst j)) in
            if ms = [] then failE (Msg (''joined_members returned no members for '' @ room))
            else bindE (writes (\<lambda>s. on_rooms (cache_members (now E (world s)) room ms) s)) (\<lambda>_. retE ms)))"

text \<open>This one never fails: what cannot be fetched is \<open>Shared\<close>.\<close>

definition history_visibility_or_fetch :: "('w, 'y) env_scheme \<Rightarrow> string \<Rightarrow> ('w, history_visibility) eff" where
  "history_visibility_or_fetch E room = look (\<lambda>s.
      case get_history_visibility room (rooms (acct s)) of
        Some v \<Rightarrow> retE v
      | None \<Rightarrow>
          bindE (attempt (json_request E ''GET''
              (''/_matrix/client/v3/rooms/'' @ enc (env_codec E) room @ ''/state/m.room.history_visibility'')
              (token (acct s)) None)) (\<lambda>r.
            let v = (case r of
                  Inr (status, body) \<Rightarrow>
                    if is_success status
                    then (case Option.bind (get ''history_visibility'' body) as_str of
                        None \<Rightarrow> Shared | Some x \<Rightarrow> history_visibility_from x)
                    else Shared
                | Inl _ \<Rightarrow> Shared)
            in bindE (writes (on_rooms (set_history_visibility room v))) (\<lambda>_. retE v)))"

text \<open>One event of the scan; what is not of interest is skipped.\<close>

definition scan_state_event :: "('w, 'y) env_scheme \<Rightarrow> string \<Rightarrow> json \<Rightarrow> ('w, unit) eff" where
  "scan_state_event E room event = look (\<lambda>s.
      if get_str ''state_key'' event = None then retE ()
      else (case get_str ''type'' event of
        None \<Rightarrow> retE ()
      | Some ty \<Rightarrow>
          if ty = ''m.room.encryption'' then
            (case Option.bind (get ''content'' event) room_settings_from_content of
               None \<Rightarrow> retE ()
             | Some settings \<Rightarrow>
                 bindE (writes (on_rooms (mark_encrypted room))) (\<lambda>_.
                 bindE (attempt (call (sdk_set_room_settings E (olm (acct s)) room settings))) (\<lambda>_.
                 retE ())))
          else if ty = ''m.room.history_visibility'' then
            (case Option.bind (pointer [''content'', ''history_visibility''] event) as_str of
               None \<Rightarrow> retE ()
             | Some v \<Rightarrow> writes (on_rooms (set_history_visibility room (history_visibility_from v))))
          else if ty = ''m.room.member'' then writes (on_rooms (invalidate_members room))
          else retE ()))"

definition scan_state_events :: "('w, 'y) env_scheme \<Rightarrow> string \<Rightarrow> json list \<Rightarrow> ('w, unit) eff" where
  "scan_state_events E room events = each (scan_state_event E room) events"

section \<open>Frames\<close>

text \<open>What a request to the homeserver leaves alone.\<close>

lemma json_request_frame:
  assumes "json_request E m p tok b s = (r, t)"
  shows "acct t = acct s" and "sessions t = sessions s" and "tasks t = tasks s" and "refused t = refused s"
  using assms
  by (auto simp: json_request_def Let_def effect_simps split: prod.splits sum.splits if_splits option.splits)

lemma json_request_trace:
  "json_request E m p tok b s = (r, t) \<Longrightarrow> trace t = trace s @ [json_http E m p tok b]"
  by (auto simp: json_request_def effect_simps split: prod.splits sum.splits if_splits option.splits)

lemma call_frame:
  assumes "call f s = (r, t)"
  shows "acct t = acct s" and "trace t = trace s" and "sessions t = sessions s" and "tasks t = tasks s"
  using assms by (auto simp: effect_simps split: prod.splits sum.splits)

lemma on_rooms_simps [simp]:
  "trace (on_rooms f s) = trace s" "acct (on_rooms f s) = (acct s)\<lparr>rooms := f (rooms (acct s))\<rparr>"
  "world (on_rooms f s) = world s" "tasks (on_rooms f s) = tasks s" "sessions (on_rooms f s) = sessions s"
  by (simp_all add: on_rooms_def)

section \<open>Is a room encrypted?\<close>

text \<open>
  What it takes to call a room unencrypted: the homeserver said, now or at an earlier time
  that is still remembered, that the room has no encryption event.
\<close>

lemma is_room_encrypted_False:
  assumes "is_room_encrypted E room s = (Inr False, t)"
  shows "is_known_unencrypted room (rooms (acct t))"
  using assms
  by (auto simp: is_room_encrypted_def bindE_eq_Inr_iff effect_simps mark_unencrypted_def
      is_known_unencrypted_def split: if_splits prod.splits sum.splits option.splits)

text \<open>
  C5: the answer about a room's encryption is definite only with the homeserver's word for
  it, and everything else is an error. Of a room not remembered as unencrypted, \<open>False\<close> is the answer
  exactly where the crypto store has no settings for it and the homeserver answers 404 for its encryption
  event; \<open>True\<close> exactly where the store has settings, or has none and the homeserver answers with a content that has
  some. In every other case it is an error, and then nothing is remembered about any room: the tracker
  gets the room as unencrypted with a \<open>False\<close>, loses it with a \<open>True\<close> of the homeserver, and stays as it is otherwise.
\<close>

theorem unencrypted_needs_404:
  assumes "is_room_encrypted E room s = (r, t)"
    and "\<not> is_known_unencrypted room (rooms (acct s))"
    and "sdk_room_settings E (olm (acct s)) room (world s) = (k, w)"
    and "json_request E ''GET'' (encryption_path E room) (token (acct s)) None (s\<lparr>world := w\<rparr>) = (answer, s1)"
  shows "(r = Inr False \<longleftrightarrow> k = Inr None \<and> (\<exists>body. answer = Inr (404, body))) \<and>
    (r = Inr True \<longleftrightarrow> (\<exists>settings. k = Inr (Some settings)) \<or>
       k = Inr None \<and> (\<exists>status body. answer = Inr (status, body) \<and> is_success status \<and>
         room_settings_from_content body \<noteq> None)) \<and>
    rooms (acct t) = (if r = Inr False then mark_unencrypted room (rooms (acct s))
      else if r = Inr True \<and> k = Inr None then mark_encrypted room (rooms (acct s))
      else rooms (acct s))"
proof -
  have call: "call (sdk_room_settings E (olm (acct s)) room) s =
      (case k of Inl e \<Rightarrow> Inl (Msg e) | Inr x \<Rightarrow> Inr x, s\<lparr>world := w\<rparr>)"
    using assms(3) by (simp add: call_def split: sum.split)
  have s1: "acct s1 = acct s" using json_request_frame(1) [OF assms(4)] by simp
  note run = assms(1) [unfolded is_room_encrypted_def look_def if_not_P [OF assms(2)] bindE_def call]
  show ?thesis
  proof (cases "k = Inr None")
    case False
    then show ?thesis using run by (cases k) (auto simp: retE_def split: if_splits)
  next
    case True
    show ?thesis
    proof (cases answer)
      case (Inl e)
      then show ?thesis using run True assms(4) s1 by auto
    next
      case (Inr a)
      obtain status body where a: "a = (status, body)" by fastforce
      show ?thesis
      proof (cases "is_success status \<and> room_settings_from_content body \<noteq> None")
        case True
        then obtain settings where set: "room_settings_from_content body = Some settings" "status \<noteq> 404" "is_success status"
          by (auto simp: is_success_def)
        obtain r2 s2 where c: "call (sdk_set_room_settings E (olm (acct s)) room settings)
            (on_rooms (mark_encrypted room) s1) = (r2, s2)" by fastforce
        have "r = Inr True \<and> t = s2"
          using run \<open>k = Inr None\<close> assms(4) Inr a set c by (simp add: writes_def attempt_def retE_def)
        then show ?thesis
          using \<open>k = Inr None\<close> Inr a set call_frame(1) [OF c] s1 by simp
      next
        case False
        then show ?thesis
          using run \<open>k = Inr None\<close> assms(4) Inr a s1
          by (auto simp: writes_def retE_def failE_def split: if_splits option.splits)
      qed
    qed
  qed
qed

text \<open>The homeserver answers 404, and then 500.\<close>

definition answering_env :: "nat \<Rightarrow> unit env" where
  "answering_env status = (ref_env [])\<lparr>http_send := (\<lambda>rq w.
     (Inr \<lparr>rs_status = status, rs_headers = [], rs_body = ''{}''\<rparr>, w))\<rparr>"

theorem unencrypted_needs_404_witness:
  "fst (is_room_encrypted (answering_env 404) ''!r:hs'' ref_ctx) = Inr False \<and>
   (\<exists>e t. is_room_encrypted (answering_env 500) ''!r:hs'' ref_ctx = (Inl e, t) \<and> rooms (acct t) = empty_tracker)"
proof -
  have run: "\<exists>r t s1. is_room_encrypted (answering_env n) ''!r:hs'' ref_ctx = (r, t) \<and>
      (r = Inr False \<longleftrightarrow> n = 404) \<and> (r = Inr True \<longleftrightarrow> False) \<and>
      rooms (acct t) = (if r = Inr False then mark_unencrypted ''!r:hs'' empty_tracker else empty_tracker)"
    if "n = 404 \<or> n = 500" for n
  proof -
    let ?E = "answering_env n"
    obtain r t where r: "is_room_encrypted ?E ''!r:hs'' ref_ctx = (r, t)" by fastforce
    have acct: "olm (acct ref_ctx) = ''/s/@a:hs/D''" "rooms (acct ref_ctx) = empty_tracker" "world ref_ctx = ()"
      by (simp_all add: ref_ctx_def ref_ctx_at_def ref_account_def)
    have known: "\<not> is_known_unencrypted ''!r:hs'' (rooms (acct ref_ctx))"
      by (simp add: acct is_known_unencrypted_def empty_tracker_def)
    have k: "sdk_room_settings ?E (olm (acct ref_ctx)) ''!r:hs'' (world ref_ctx) = (Inr None, ())"
      by (simp add: answering_env_def ref_env_def)
    obtain s1 where a: "json_request ?E ''GET'' (encryption_path ?E ''!r:hs'') (token (acct ref_ctx)) None
        (ref_ctx\<lparr>world := ()\<rparr>) = (Inr (n, JObj []), s1)"
      by (simp add: json_request_def send_http_def call_def bindE_def mapErrE_def retE_def answering_env_def
          ref_env_def ref_codec_def)
    have "\<not> is_success n" using that by (auto simp: is_success_def)
    then show ?thesis
      using unencrypted_needs_404 [OF r known k a] r by (auto simp: acct)
  qed
  from run [of 404] have "fst (is_room_encrypted (answering_env 404) ''!r:hs'' ref_ctx) = Inr False" by auto
  moreover from run [of 500] obtain r t where
    "is_room_encrypted (answering_env 500) ''!r:hs'' ref_ctx = (r, t)" "r \<noteq> Inr False" "r \<noteq> Inr True"
    "rooms (acct t) = empty_tracker" by auto
  moreover from this(2,3) obtain e where "r = Inl e" by (metis (full_types) sum.exhaust)
  ultimately show ?thesis by blast
qed

text \<open>
  C29: an encryption event whose content names an algorithm, in state or timeline, ends the memory of a
  room being unencrypted, whatever the crypto store says about the settings, and no scan of state events
  ever starts such a memory or ends another room's: after the scan a room is remembered as unencrypted exactly if it
  was before and the events bring no such content for it. An encryption event without an algorithm
  that is a string is passed over, and the memory stays.
\<close>

theorem scan_never_forgets_encryption:
  assumes "scan_state_events E room events s = (r, t)"
  shows "unencrypted (rooms (acct t)) =
    (if \<exists>e \<in> set events. get_str ''state_key'' e \<noteq> None \<and> get_str ''type'' e = Some ''m.room.encryption'' \<and>
        Option.bind (get ''content'' e) room_settings_from_content \<noteq> None
     then unencrypted (rooms (acct s)) - {room} else unencrypted (rooms (acct s)))"
  using assms unfolding scan_state_events_def
proof (induction events arbitrary: s)
  case Nil
  then show ?case by (simp add: retE_def)
next
  case (Cons e es)
  obtain r1 s1 where e: "scan_state_event E room e s = (r1, s1)" by fastforce
  have ok: "r1 = Inr ()" and
    un: "unencrypted (rooms (acct s1)) =
      (if get_str ''state_key'' e \<noteq> None \<and> get_str ''type'' e = Some ''m.room.encryption'' \<and>
        Option.bind (get ''content'' e) room_settings_from_content \<noteq> None
       then unencrypted (rooms (acct s)) - {room} else unencrypted (rooms (acct s)))"
    using e by (auto simp: scan_state_event_def effect_simps tracker_defs
        split: if_splits option.splits prod.splits sum.splits)
  have "each (scan_state_event E room) es s1 = (r, t)"
    using Cons.prems e ok by (simp add: bindE_def)
  from Cons.IH [OF this] un show ?case by auto
qed

definition encryption_event :: json where
  "encryption_event = mk_obj [(''state_key'', JStr []), (''type'', JStr ''m.room.encryption''),
     (''content'', mk_obj [(''algorithm'', JStr ''a'')])]"

theorem scan_never_forgets_encryption_witness:
  "unencrypted (rooms (acct (snd (scan_state_events (ref_env []) ''!r'' [encryption_event]
     (on_rooms (mark_unencrypted ''!r'') ref_ctx))))) = {}"
proof -
  let ?s = "on_rooms (mark_unencrypted ''!r'') ref_ctx"
  obtain r t where s: "scan_state_events (ref_env []) ''!r'' [encryption_event] ?s = (r, t)"
    by (meson prod.exhaust)
  have "\<exists>e \<in> set [encryption_event]. get_str ''state_key'' e \<noteq> None \<and> get_str ''type'' e = Some ''m.room.encryption'' \<and>
        Option.bind (get ''content'' e) room_settings_from_content \<noteq> None"
    by code_simp
  moreover have "unencrypted (rooms (acct ?s)) - {''!r''} = {}" by code_simp
  ultimately have "unencrypted (rooms (acct t)) = {}"
    using scan_never_forgets_encryption [OF s] by (simp only: if_True)
  then show ?thesis by (simp only: s snd_conv)
qed

text \<open>
  The history visibility a room key is shared with is the tracked one, and the same on the
  next question: one that had to be fetched is kept, and what cannot be found out is
  \<open>Shared\<close>, the default of the specification.
\<close>

theorem visibility_is_kept:
  assumes "history_visibility_or_fetch E room s = (r, t)"
  shows "\<exists>v. r = Inr v \<and> get_history_visibility room (rooms (acct t)) = Some v \<and>
    (\<forall>u. get_history_visibility room (rooms (acct s)) = Some u \<longrightarrow> v = u \<and> t = s) \<and>
    history_visibility_or_fetch E room t = (Inr v, t)"
proof (cases "get_history_visibility room (rooms (acct s))")
  case (Some v)
  then show ?thesis using assms by (auto simp: history_visibility_or_fetch_def look_def retE_def)
next
  case None
  then have "\<exists>v. r = Inr v \<and> get_history_visibility room (rooms (acct t)) = Some v"
    using assms
    by (auto simp: history_visibility_or_fetch_def effect_simps Let_def tracker_defs update_conv'
        split: prod.splits)
  then show ?thesis
    using None by (auto simp: history_visibility_or_fetch_def look_def retE_def)
qed

theorem visibility_is_kept_witness:
  "\<exists>v t. history_visibility_or_fetch (ref_env []) ''!r'' ref_ctx = (Inr v, t) \<and>
    history_visibility_or_fetch (ref_env []) ''!r'' t = (Inr v, t)"
proof -
  obtain r t where s: "history_visibility_or_fetch (ref_env []) ''!r'' ref_ctx = (r, t)"
    by (meson prod.exhaust)
  show ?thesis using visibility_is_kept [OF s] s by blast
qed

end
