(* ===== verification/Machine.thy ===== *)
theory Machine
  imports Rooms
begin

text \<open>
  The outgoing side of the crypto machine (\<open>src/src/crypto/machine.rs\<close>): draining its request
  queue, uploading room keys to the backup, and sending single requests. The queue loop may
  go on for ever, so \<open>pump\<close> has an optional result, \<open>None\<close> where it does not return.
\<close>

section \<open>Relations the code keeps\<close>

text \<open>Only requests with the property \<open>P\<close> are sent.\<close>

definition sends_only :: "(http_request \<Rightarrow> bool) \<Rightarrow> ('w, 'z) proxy_scheme \<Rightarrow> ('w, 'z) proxy_scheme \<Rightarrow> bool" where
  "sends_only P s t \<longleftrightarrow> (\<exists>rqs. trace t = trace s @ rqs \<and> list_all P rqs)"

interpretation sends: stepwise "sends_only P" for P
proof
  fix s t u :: "('w, 'z) proxy_scheme"
  show "sends_only P s s" by (simp add: sends_only_def)
  show "sends_only P s t \<Longrightarrow> sends_only P t u \<Longrightarrow> sends_only P s u"
    unfolding sends_only_def by force
qed

text \<open>The account stays the same device with the same token, machine and store.\<close>

definition same_account :: "'w ctx \<Rightarrow> 'w ctx \<Rightarrow> bool" where
  "same_account s t \<longleftrightarrow> user_id (acct t) = user_id (acct s) \<and> device_id (acct t) = device_id (acct s) \<and>
     token (acct t) = token (acct s) \<and> olm (acct t) = olm (acct s) \<and> media_path (acct t) = media_path (acct s)"

interpretation same: stepwise same_account
  by unfold_locales (auto simp: same_account_def)

lemma sends_json_request:
  "P (json_http E m p tok b) \<Longrightarrow> does (sends_only P) (json_request E m p tok b)"
  by (rule doesI) (auto simp: sends_only_def dest!: json_request_trace)

lemma sends_call: "does (sends_only P) (call f)"
  by (rule doesI) (auto simp: sends_only_def dest!: call_trace)

lemma sends_reads: "does (sends_only P) (reads f)"
  by (rule doesI) (auto simp: sends_only_def reads_def)

lemma sends_attempt: "does (sends_only P) m \<Longrightarrow> does (sends_only P) (attempt m)"
  unfolding does_def attempt_def by (auto split: prod.splits)

lemma same_json_request: "does same_account (json_request E m p tok b)"
  by (rule doesI) (simp add: same_account_def json_request_frame)

lemma same_call: "does same_account (call f)"
  by (rule doesI) (simp add: same_account_def call_frame)

section \<open>Building a request\<close>

definition to_device_path :: "codec \<Rightarrow> to_device_request \<Rightarrow> string" where
  "to_device_path cd r =
     ''/_matrix/client/v3/sendToDevice/'' @ enc cd (td_event_type r) @ ''/'' @ enc cd (td_txn_id r)"

definition with_timeout :: "u64 option \<Rightarrow> json \<Rightarrow> json" where
  "with_timeout tmo body =
     (case tmo of None \<Rightarrow> body | Some t \<Rightarrow> jput ''timeout'' (JNum (PosInt t)) body)"

text \<open>Method, path and body of each kind of request.\<close>

fun request_parts :: "codec \<Rightarrow> any_request \<Rightarrow> string \<times> string \<times> json" where
  "request_parts cd (KeysUpload device_keys one_time_keys fallback_keys) =
     (''POST'', ''/_matrix/client/v3/keys/upload'', mk_obj (
        (case device_keys of None \<Rightarrow> [] | Some k \<Rightarrow> [(''device_keys'', k)]) @
        (if one_time_keys = [] then [] else [(''one_time_keys'', JObj one_time_keys)]) @
        (if fallback_keys = [] then [] else [(''fallback_keys'', JObj fallback_keys)])))"
| "request_parts cd (KeysQuery device_keys tmo) =
     (''POST'', ''/_matrix/client/v3/keys/query'', with_timeout tmo (mk_obj [(''device_keys'', device_keys)]))"
| "request_parts cd (KeysClaim one_time_keys tmo) =
     (''POST'', ''/_matrix/client/v3/keys/claim'', with_timeout tmo (mk_obj [(''one_time_keys'', one_time_keys)]))"
| "request_parts cd (ToDevice r) =
     (''PUT'', to_device_path cd r, mk_obj [(''messages'', td_messages r)])"
| "request_parts cd (SignatureUpload signed_keys) =
     (''POST'', ''/_matrix/client/v3/keys/signatures/upload'', signed_keys)"
| "request_parts cd (RoomMessage r) =
     (''PUT'', send_path cd (rm_room_id r) (rm_event_type r) (rm_txn_id r), rm_content r)"

fun response_kind_of :: "any_request \<Rightarrow> response_kind" where
  "response_kind_of (KeysUpload _ _ _) = KeysUploadResponse"
| "response_kind_of (KeysQuery _ _) = KeysQueryResponse"
| "response_kind_of (KeysClaim _ _) = KeysClaimResponse"
| "response_kind_of (ToDevice _) = ToDeviceResponse"
| "response_kind_of (SignatureUpload _) = SignatureUploadResponse"
| "response_kind_of (RoomMessage _) = RoomMessageResponse"

section \<open>Sending and marking\<close>

definition parse_response :: "('w, 'y) env_scheme \<Rightarrow> response_kind \<Rightarrow> json \<Rightarrow> ('w, 'z, unit) any_eff" where
  "parse_response E kind body =
     (if response_ok E kind body then retE () else failE (Msg ''unexpected response''))"

text \<open>\<open>parse_response\<close> and then \<open>ctx.olm.mark_request_as_sent\<close>.\<close>

definition mark_sent :: "('w, 'y) env_scheme \<Rightarrow> string \<Rightarrow> response_kind \<Rightarrow> json \<Rightarrow> ('w, unit) eff" where
  "mark_sent E rid kind body = look (\<lambda>s.
     bindE (parse_response E kind body) (\<lambda>_. call (sdk_mark_sent E (olm (acct s)) rid kind body)))"

definition mark_as_sent :: "('w, 'y) env_scheme \<Rightarrow> outgoing_request \<Rightarrow> json \<Rightarrow> ('w, unit) eff" where
  "mark_as_sent E r body = mark_sent E (or_id r) (response_kind_of (or_request r)) body"

definition send_and_mark :: "('w, 'y) env_scheme \<Rightarrow> outgoing_request \<Rightarrow> ('w, unit) eff" where
  "send_and_mark E r = look (\<lambda>s.
      let (meth, path, body) = request_parts (env_codec E) (or_request r) in
      bindE (json_request E meth path (token (acct s)) (Some body)) (\<lambda>(status, answer).
        if \<not> is_success status then failE (Msg (show_answer E ''upstream returned '' (status, answer)))
        else mark_as_sent E r answer))"

text \<open>A POST of the claim for missing one-time keys, and one to-device request.\<close>

definition send_keys_claim :: "('w, 'y) env_scheme \<Rightarrow> claim_request \<Rightarrow> ('w, unit) eff" where
  "send_keys_claim E r = look (\<lambda>s.
     bindE (json_request E ''POST'' ''/_matrix/client/v3/keys/claim'' (token (acct s))
         (Some (with_timeout (cl_timeout r) (mk_obj [(''one_time_keys'', cl_one_time_keys r)])))) (\<lambda>(status, answer).
       if \<not> is_success status then failE (Msg (show_answer E ''keys/claim returned '' (status, answer)))
       else mark_sent E (cl_txn_id r) KeysClaimResponse answer))"

definition send_to_device :: "('w, 'y) env_scheme \<Rightarrow> to_device_request \<Rightarrow> ('w, unit) eff" where
  "send_to_device E r = look (\<lambda>s.
     bindE (json_request E ''PUT'' (to_device_path (env_codec E) r) (token (acct s))
         (Some (mk_obj [(''messages'', td_messages r)]))) (\<lambda>(status, answer).
       if \<not> is_success status then failE (Msg (show_answer E ''sendToDevice returned '' (status, answer)))
       else mark_sent E (td_txn_id r) ToDeviceResponse answer))"

section \<open>The backup and the queue\<close>

text \<open>The bounded loop; the number is how many rounds are left.\<close>

fun backup_rounds :: "('w, 'y) env_scheme \<Rightarrow> nat \<Rightarrow> ('w, unit) eff" where
  "backup_rounds E 0 = retE ()"
| "backup_rounds E (Suc n) = look (\<lambda>s.
     bindE (call (sdk_backup E (olm (acct s)))) (\<lambda>next. (case next of
         None \<Rightarrow> retE ()
       | Some r \<Rightarrow>
           bindE (json_request E ''PUT''
               (''/_matrix/client/v3/room_keys/keys?version='' @ enc (env_codec E) (bk_version r))
               (token (acct s)) (Some (mk_obj [(''rooms'', bk_rooms r)]))) (\<lambda>(status, answer).
             if \<not> is_success status then failE (Msg (show_answer E ''room_keys upload returned '' (status, answer)))
             else bindE (mark_sent E (bk_txn_id r) BackupKeysResponse answer) (\<lambda>_. backup_rounds E n)))))"

definition upload_pending_backups :: "('w, 'y) env_scheme \<Rightarrow> ('w, unit) eff" where
  "upload_pending_backups E = look (\<lambda>s.
     if sdk_backup_enabled E (olm (acct s)) (world s) then backup_rounds E 100 else retE ())"

text \<open>
  The loop that drains the queue: \<open>True\<close> when the queue is empty, \<open>False\<close> when an error ended
  the pump.
\<close>

partial_function (option) pump_loop :: "('w, 'y) env_scheme \<Rightarrow> 'w ctx \<Rightarrow> (bool \<times> 'w ctx) option" where
  "pump_loop E s =
     (case call (sdk_outgoing E (olm (acct s))) s of
        (Inl _, s1) \<Rightarrow> Some (False, s1)
      | (Inr rs, s1) \<Rightarrow>
          if rs = [] then Some (True, s1)
          else (case each (send_and_mark E) rs s1 of
              (Inl _, s2) \<Rightarrow> Some (False, s2)
            | (Inr _, s2) \<Rightarrow> pump_loop E s2))"

definition pump :: "('w, 'y) env_scheme \<Rightarrow> 'w ctx \<Rightarrow> ((error + unit) \<times> 'w ctx) option" where
  "pump E s =
     (case pump_loop E s of
        None \<Rightarrow> None
      | Some (drained, s1) \<Rightarrow>
          if drained then Some (Inr (), snd (upload_pending_backups E s1)) else Some (Inr (), s1))"

section \<open>What is sent\<close>

text \<open>A request to the configured homeserver with this account's token.\<close>

definition own_request :: "('w, 'y) env_scheme \<Rightarrow> string \<Rightarrow> http_request \<Rightarrow> bool" where
  "own_request E tok rq \<longleftrightarrow> url_origin (hr_url rq) = url_origin (cfg_homeserver (env_config E)) \<and>
     bearer_auth tok \<in> set (hr_headers rq)"

lemma own_json_http [simp]: "own_request E tok (json_http E m p tok b)"
  by (simp add: own_request_def json_http_def)

text \<open>
  Started on the account with token \<open>tok\<close>, code keeps the account and sends only requests with
  that token, to the configured homeserver.
\<close>

definition own_step :: "('w, 'y) env_scheme \<Rightarrow> string \<Rightarrow> 'w ctx \<Rightarrow> 'w ctx \<Rightarrow> bool" where
  "own_step E tok s t \<longleftrightarrow>
     (token (acct s) = tok \<longrightarrow> same_account s t \<and> sends_only (own_request E tok) s t)"

interpretation own: stepwise "own_step E tok" for E tok
proof
  fix s t u
  show "own_step E tok s s" by (simp add: own_step_def same.refl sends.refl)
  show "own_step E tok s t \<Longrightarrow> own_step E tok t u \<Longrightarrow> own_step E tok s u"
    unfolding own_step_def by (metis same.trans sends.trans same_account_def)
qed

lemma own_look:
  "(\<And>s. token (acct s) = tok \<Longrightarrow> does (own_step E tok) (f s)) \<Longrightarrow> does (own_step E tok) (look f)"
  unfolding does_def look_def own_step_def by blast

lemma own_json_request [intro]: "does (own_step E tok) (json_request E m p tok b)"
  by (rule doesI) (simp add: own_step_def same_account_def sends_only_def json_request_frame json_request_trace)

lemma own_call [intro]: "does (own_step E tok) (call f)"
  by (rule doesI) (simp add: own_step_def same_account_def sends_only_def call_frame)

lemma own_on_rooms [intro]: "does (own_step E tok) (writes (on_rooms f))"
  by (rule doesI) (auto simp: writes_def own_step_def same_account_def sends_only_def)

lemma own_attempt [intro]: "does (own_step E tok) m \<Longrightarrow> does (own_step E tok) (attempt m)"
  unfolding does_def attempt_def by (auto split: prod.splits)

lemmas own_intros = own_look own_json_request own_call own_on_rooms own_attempt
  own.does_retE own.does_failE own.does_okOr own.does_bindE own.does_mapErrE own.does_if
  own.does_case_option own.does_case_prod own.does_case_sum own.does_Let

lemma own_mark_sent [intro]: "does (own_step E tok) (mark_sent E rid kind body)"
  unfolding mark_sent_def parse_response_def by (intro own_intros)

lemma own_send_and_mark [intro]: "does (own_step E tok) (send_and_mark E r)"
  unfolding send_and_mark_def mark_as_sent_def by (intro own_intros own_mark_sent) auto

lemma own_send_keys_claim [intro]: "does (own_step E tok) (send_keys_claim E r)"
  unfolding send_keys_claim_def by (intro own_intros own_mark_sent) auto

lemma own_send_to_device [intro]: "does (own_step E tok) (send_to_device E r)"
  unfolding send_to_device_def by (intro own_intros own_mark_sent) auto

lemma does_each:
  assumes "stepwise R" and "\<And>x. does R (f x)"
  shows "does R (each f xs)"
  by (induction xs) (auto intro: stepwise.does_retE stepwise.does_bindE assms)

lemma own_each [intro]: "(\<And>x. does (own_step E tok) (f x)) \<Longrightarrow> does (own_step E tok) (each f xs)"
  by (induction xs) (auto intro: own_intros)

lemma own_backup_rounds [intro]: "does (own_step E tok) (backup_rounds E n)"
  by (induction n) (auto intro!: own_intros own_mark_sent)

lemma own_upload_pending_backups [intro]: "does (own_step E tok) (upload_pending_backups E)"
  unfolding upload_pending_backups_def by (intro own_intros own_backup_rounds)

text \<open>What every step of the loop keeps, the loop keeps.\<close>

lemma pump_loop_keeps:
  assumes R: "stepwise R"
  shows "pump_loop E s = Some y \<Longrightarrow> (\<And>h. does R (call (sdk_outgoing E h))) \<Longrightarrow>
    (\<And>r. does R (send_and_mark E r)) \<Longrightarrow> R s (snd y)"
proof (induction E s y rule: pump_loop.raw_induct [rotated, consumes 1, case_names step])
  case (step loop E s y)
  obtain r s1 where q: "call (sdk_outgoing E (olm (acct s))) s = (r, s1)" by fastforce
  have s1: "R s s1" by (rule doesD [OF step.prems(1) q])
  show ?case
  proof (cases r)
    case (Inl e)
    then show ?thesis using step.hyps q s1 by auto
  next
    case (Inr rs)
    obtain r2 s2 where e: "each (send_and_mark E) rs s1 = (r2, s2)" by fastforce
    have "R s1 s2" by (rule doesD [OF does_each [OF R step.prems(2)] e])
    with s1 have s2: "R s s2" by (rule stepwise.trans [OF R])
    show ?thesis
    proof (cases "rs = [] \<or> isl r2")
      case True
      then show ?thesis using step.hyps q e Inr s1 s2 by (cases r2) (auto split: if_splits)
    next
      case False
      then have "loop E s2 = Some y"
        using step.hyps q e Inr by (cases r2) auto
      then have "R s2 (snd y)" by (rule step.IH [OF _ step.prems])
      with s2 show ?thesis by (rule stepwise.trans [OF R])
    qed
  qed
qed

lemma own_pump [intro]: "doesP (own_step E tok) (pump E)"
proof (rule doesPI)
  fix s r t
  assume run: "pump E s = Some (r, t)"
  then obtain b s1 where l: "pump_loop E s = Some (b, s1)"
    and t: "t = (if b then snd (upload_pending_backups E s1) else s1)"
    by (auto simp: pump_def split: option.splits if_splits)
  have "own_step E tok s s1"
    using pump_loop_keeps [OF own.stepwise_axioms l own_call own_send_and_mark] by simp
  moreover have "own_step E tok s1 t"
  proof (cases b)
    case True
    then show ?thesis
      using t own_upload_pending_backups [of E tok]
      by (cases "upload_pending_backups E s1") (auto simp: does_def)
  qed (simp add: t own.refl)
  ultimately show "own_step E tok s t" by (rule own.trans)
qed

text \<open>
  Whatever the crypto machine queues and whatever the homeserver answers, a pump that
  returns reports no error, leaves the account the device it was, and has sent nothing but
  requests to the configured homeserver with this account's token.
\<close>

theorem pump_sends_own_requests:
  assumes "pump E s = Some (r, t)"
  shows "r = Inr () \<and> user_id (acct t) = user_id (acct s) \<and> device_id (acct t) = device_id (acct s) \<and>
    token (acct t) = token (acct s) \<and>
    (\<exists>rqs. trace t = trace s @ rqs \<and> (\<forall>rq \<in> set rqs.
       url_origin (hr_url rq) = url_origin (cfg_homeserver (env_config E)) \<and>
       (''authorization'', ''Bearer '' @ token (acct s)) \<in> set (hr_headers rq)))"
proof -
  have "r = Inr ()" using assms by (auto simp: pump_def split: option.splits if_splits)
  then show ?thesis
    using doesPD [OF own_pump assms, of "token (acct s)"]
    by (auto simp: own_step_def same_account_def sends_only_def own_request_def bearer_auth_def list_all_iff)
qed

text \<open>A homeserver that is down, and a machine with one request for it.\<close>

definition down_env :: "unit env" where
  "down_env = (ref_env [])\<lparr>http_send := (\<lambda>rq w. (Inr \<lparr>rs_status = 503, rs_headers = [], rs_body = ''{}''\<rparr>, w)),
     sdk_outgoing := (\<lambda>h w. (Inr [\<lparr>or_id = ''1'', or_request = KeysQuery (JObj []) None\<rparr>,
       \<lparr>or_id = ''2'', or_request = SignatureUpload (JObj [])\<rparr>], w))\<rparr>"

theorem pump_sends_own_requests_witness:
  "\<exists>t. pump down_env ref_ctx = Some (Inr (), t) \<and> user_id (acct t) = ''@a:hs''"
proof -
  have "(case pump_loop down_env ref_ctx of None \<Rightarrow> False | Some _ \<Rightarrow> True)"
    by (subst pump_loop.simps) code_simp
  then have "pump down_env ref_ctx \<noteq> None" "user_id (acct ref_ctx) = ''@a:hs''"
    by (auto simp: pump_def ref_ctx_def ref_ctx_at_def ref_account_def split: option.splits)
  then obtain r t where p: "pump down_env ref_ctx = Some (r, t)" "user_id (acct ref_ctx) = ''@a:hs''" by auto
  show ?thesis
    using pump_sends_own_requests [OF p(1)] p by (intro exI [of _ t]) simp
qed

section \<open>The drained queue\<close>

text \<open>What is on the wire for a request of the queue.\<close>

definition wire_request :: "('w, 'y) env_scheme \<Rightarrow> string \<Rightarrow> outgoing_request \<Rightarrow> http_request" where
  "wire_request E tok r = (let (m, p, b) = request_parts (env_codec E) (or_request r) in json_http E m p tok (Some b))"

lemma send_and_mark_trace:
  assumes "send_and_mark E r s = (res, t)"
  shows "trace t = trace s @ [wire_request E (token (acct s)) r]" and "acct t = acct s"
proof -
  obtain m p b where p: "request_parts (env_codec E) (or_request r) = (m, p, b)"
    by (rule prod_cases3)
  obtain a s1 where j: "json_request E m p (token (acct s)) (Some b) s = (a, s1)" by fastforce
  have s1: "trace s1 = trace s @ [wire_request E (token (acct s)) r]" "acct s1 = acct s"
    using j by (simp_all add: wire_request_def p json_request_trace json_request_frame)
  have "trace t = trace s1 \<and> acct t = acct s1"
    using assms j
    by (auto simp: send_and_mark_def look_def p bindE_def failE_def mark_as_sent_def mark_sent_def
        parse_response_def retE_def dest: call_frame split: sum.splits prod.splits if_splits)
  with s1 show "trace t = trace s @ [wire_request E (token (acct s)) r]" "acct t = acct s"
    by simp_all
qed

text \<open>A batch is sent in its order, up to and including the first request that fails.\<close>

lemma each_send_trace:
  "each (send_and_mark E) rs s = (res, t) \<Longrightarrow>
    acct t = acct s \<and>
    (\<exists>done rest. rs = done @ rest \<and> trace t = trace s @ map (wire_request E (token (acct s))) done \<and>
       (res = Inr () \<longrightarrow> rest = []) \<and> (isl res \<longrightarrow> done \<noteq> []))"
proof (induction rs arbitrary: s)
  case (Cons r rs)
  obtain res1 s1 where r: "send_and_mark E r s = (res1, s1)" by fastforce
  note s1 = send_and_mark_trace [OF r]
  show ?case
  proof (cases res1)
    case (Inl e)
    then show ?thesis
      using Cons.prems r s1
      by (intro conjI exI [of _ "[r]"] exI [of _ rs]) (auto simp: bindE_def)
  next
    case (Inr u)
    then have "each (send_and_mark E) rs s1 = (res, t)"
      using Cons.prems r by (simp add: bindE_def)
    from Cons.IH [OF this] obtain xs ys where "acct t = acct s1" "rs = xs @ ys"
      "trace t = trace s1 @ map (wire_request E (token (acct s1))) xs" "res = Inr () \<longrightarrow> ys = []"
      by blast
    then show ?thesis
      using s1 by (intro conjI exI [of _ "r # xs"] exI [of _ ys]) simp_all
  qed
qed (auto simp: retE_def)

definition refuses_all :: "('w, 'y) env_scheme \<Rightarrow> bool" where
  "refuses_all E \<longleftrightarrow> (\<forall>rq w resp w'. http_send E rq w = (Inr resp, w') \<longrightarrow> \<not> is_success (rs_status resp))"

lemma refused_json_request:
  "refuses_all E \<Longrightarrow> json_request E m p tok b s = (Inr (st, ans), t) \<Longrightarrow> \<not> is_success st"
  by (auto simp: refuses_all_def json_request_def effect_simps split: prod.splits sum.splits if_splits option.splits)

lemma refused_send:
  assumes "refuses_all E"
  shows "isl (fst (send_and_mark E r s))"
proof -
  obtain m p b where p: "request_parts (env_codec E) (or_request r) = (m, p, b)"
    by (rule prod_cases3)
  obtain a s1 where j: "json_request E m p (token (acct s)) (Some b) s = (a, s1)" by fastforce
  show ?thesis
    using refused_json_request [OF assms, of m p "token (acct s)" "Some b" s] j
    by (cases a) (auto simp: send_and_mark_def look_def p bindE_def failE_def)
qed

text \<open>
  With a homeserver that accepts nothing, a pump sends at most one request of the queue, tells
  the machine of no success, and returns; the requests stay queued for the next pump.
\<close>

theorem pump_gives_up:
  assumes "refuses_all E" and "sdk_outgoing E (olm (acct s)) (world s) = (Inr rs, w)" and "rs \<noteq> []"
  shows "\<exists>t. pump E s = Some (Inr (), t) \<and>
    trace t = trace s @ [wire_request E (token (acct s)) (hd rs)] \<and> acct t = acct s \<and>
    (\<exists>res. send_and_mark E (hd rs) (s\<lparr>world := w\<rparr>) = (Inl res, t))"
proof -
  obtain r rest where rs: "rs = r # rest" using assms(3) by (cases rs) auto
  let ?s1 = "s\<lparr>world := w\<rparr>"
  obtain e t where e: "send_and_mark E r ?s1 = (Inl e, t)"
    using refused_send [OF assms(1), of r ?s1] by (cases "send_and_mark E r ?s1") (auto elim: isl_def [THEN iffD1, THEN exE])
  have "pump_loop E s = Some (False, t)"
    using assms(2) by (subst pump_loop.simps) (simp add: call_def rs bindE_def e)
  then show ?thesis
    using send_and_mark_trace [OF e] e by (simp add: pump_def rs)
qed

theorem pump_gives_up_witness:
  "\<exists>t. pump down_env ref_ctx = Some (Inr (), t) \<and> length (trace t) = 1"
proof -
  let ?rs = "[\<lparr>or_id = ''1'', or_request = KeysQuery (JObj []) None\<rparr>,
       \<lparr>or_id = ''2'', or_request = SignatureUpload (JObj [])\<rparr>]"
  have "refuses_all down_env" "sdk_outgoing down_env (olm (acct ref_ctx)) (world ref_ctx) = (Inr ?rs, ())"
    by (auto simp: refuses_all_def down_env_def is_success_def)
  from pump_gives_up [OF this] show ?thesis
    by (auto simp: ref_ctx_def ref_ctx_at_def)
qed

section \<open>The queue is drained\<close>














end
