(* ===== verification/Media.thy ===== *)
theory Media
  imports Machine
begin

text \<open>
  Encrypted attachments (\<open>src/src/crypto/media.rs\<close>): the cache of attachment keys, the
  rewriting of \<open>url\<close> and \<open>file\<close> in message contents, uploads and downloads. A key
  (\<open>MediaEncryptionInfo\<close>) is its JSON value, an object. The cache's SQLite table is the
  account's \<open>media\<close> list; a write may fail and then changes nothing.
\<close>

type_synonym ('w, 'a) peff = "'w ctx \<Rightarrow> (proxy_error + 'a) \<times> 'w ctx"

section \<open>The cache\<close>

record media_entry =
  me_info :: json
  me_mimetype :: "string option"
  me_filename :: "string option"

definition media_insert ::
  "('w, 'y) env_scheme \<Rightarrow> string \<Rightarrow> json \<Rightarrow> string option \<Rightarrow> string option \<Rightarrow> ('w, unit) eff" where
  "media_insert E mxc info mimetype filename = look (\<lambda>s.
     let row = \<lparr>mk_mxc = mxc, mk_key_json = json_print (env_codec E) info, mk_mimetype = mimetype,
           mk_filename = filename\<rparr>
     in bindE (call (media_write E (media_path (acct s)) row)) (\<lambda>_.
        writes (\<lambda>s. s\<lparr>acct := (acct s)\<lparr>media := row # filter (\<lambda>r. mk_mxc r \<noteq> mxc) (media (acct s))\<rparr>\<rparr>)))"

definition media_get :: "('w, 'y) env_scheme \<Rightarrow> string \<Rightarrow> account \<Rightarrow> media_entry option" where
  "media_get E mxc a =
     (case List.find (\<lambda>r. mk_mxc r = mxc) (media a) of
        None \<Rightarrow> None
      | Some row \<Rightarrow> (case json_parse (env_codec E) (mk_key_json row) of
            None \<Rightarrow> None
          | Some info \<Rightarrow>
              if media_info_ok E info
              then Some \<lparr>me_info = info, me_mimetype = mk_mimetype row, me_filename = mk_filename row\<rparr>
              else None))"

section \<open>Contents that go out\<close>

text \<open>\<open>entry(\"info\").or_insert({})\<close>, and in it \<open>entry(\"mimetype\").or_insert(..)\<close>.\<close>

definition keep_mimetype :: "string option \<Rightarrow> fields \<Rightarrow> fields" where
  "keep_mimetype mimetype content =
     (case mimetype of
        None \<Rightarrow> content
      | Some m \<Rightarrow>
          (let content' = obj_or_insert ''info'' (JObj []) content in
           case map_of content' ''info'' of
             Some (JObj info) \<Rightarrow> obj_put ''info'' (JObj (obj_or_insert ''mimetype'' (JStr m) info)) content'
           | _ \<Rightarrow> content'))"

definition rewrite_content_for_encrypted_room :: "('w, 'y) env_scheme \<Rightarrow> account \<Rightarrow> json \<Rightarrow> json" where
  "rewrite_content_for_encrypted_room E a content =
     (case get_str ''url'' content of
        None \<Rightarrow> content
      | Some mxc \<Rightarrow> (case media_get E mxc a of
            None \<Rightarrow> content
          | Some entry \<Rightarrow>
              (let file = jput ''url'' (JStr mxc) (me_info entry) in
               case content of
                 JObj m \<Rightarrow> JObj (keep_mimetype (me_mimetype entry) (obj_put ''file'' file (obj_del ''url'' m)))
               | _ \<Rightarrow> content)))"

section \<open>Contents that come in\<close>

definition harvest_file ::
  "('w, 'y) env_scheme \<Rightarrow> json \<Rightarrow> string option \<Rightarrow> string option \<Rightarrow> ('w, string option) eff" where
  "harvest_file E file_value mimetype filename =
     (case encrypted_file E file_value of
        None \<Rightarrow> retE None
      | Some (url, info) \<Rightarrow>
          bindE (attempt (media_insert E url info mimetype filename)) (\<lambda>r.
            case r of Inl _ \<Rightarrow> retE None | Inr _ \<Rightarrow> retE (Some url)))"

text \<open>Moving a harvested \<open>file\<close> to a plain \<open>url\<close>, for the file and for the thumbnail.\<close>

definition expose_file ::
  "('w, 'y) env_scheme \<Rightarrow> string \<Rightarrow> string \<Rightarrow> string option \<Rightarrow> string option \<Rightarrow> fields \<Rightarrow> ('w, fields) eff" where
  "expose_file E file_key url_key mimetype filename m =
     (case map_of m file_key of
        None \<Rightarrow> retE m
      | Some file_value \<Rightarrow>
          bindE (harvest_file E file_value mimetype filename) (\<lambda>r. case r of
            None \<Rightarrow> retE m
          | Some url \<Rightarrow> retE (obj_put url_key (JStr url) (obj_del file_key m))))"

definition mimetype_in :: "string \<Rightarrow> fields \<Rightarrow> string option" where
  "mimetype_in k m = Option.bind (Option.bind (map_of m k) (get ''mimetype'')) as_str"

definition harvest_and_rewrite_decrypted :: "('w, 'y) env_scheme \<Rightarrow> json \<Rightarrow> ('w, json) eff" where
  "harvest_and_rewrite_decrypted E event =
     (case Option.bind (get ''content'' event) as_object of
        None \<Rightarrow> retE event
      | Some content \<Rightarrow>
          (let filename_hint = get_str ''body'' (JObj content);
               mimetype_hint = mimetype_in ''info'' content
           in bindE (expose_file E ''file'' ''url'' mimetype_hint filename_hint content) (\<lambda>content1.
              case Option.bind (map_of content1 ''info'') as_object of
                None \<Rightarrow> retE (jput ''content'' (JObj content1) event)
              | Some info \<Rightarrow>
                  (let thumb_mime = mimetype_in ''thumbnail_info'' info
                   in bindE (expose_file E ''thumbnail_file'' ''thumbnail_url'' thumb_mime None info) (\<lambda>info1.
                      retE (jput ''content'' (JObj (obj_put ''info'' (JObj info1) content1)) event))))))"

section \<open>Uploads and downloads\<close>

definition max_upload_bytes :: nat where
  "max_upload_bytes = 512 * 1024 * 1024"

definition query_filename :: "codec \<Rightarrow> string \<Rightarrow> string option" where
  "query_filename cd query =
     (case List.map_filter (strip_prefix ''filename='') (split_on (CHR ''&'') query) of
        [] \<Rightarrow> None
      | v # _ \<Rightarrow> Some (dec cd v))"

definition upload_request :: "('w, 'y) env_scheme \<Rightarrow> string \<Rightarrow> string \<Rightarrow> http_request" where
  "upload_request E tok bytes =
     \<lparr>hr_method = ''POST'', hr_url = upstream_url E ''/_matrix/media/v3/upload'',
      hr_headers = [bearer_auth tok, (''content-type'', ''application/octet-stream'')], hr_body = bytes\<rparr>"

text \<open>What happens with the homeserver's answer.\<close>

definition upload_answer ::
  "('w, 'y) env_scheme \<Rightarrow> json \<Rightarrow> string option \<Rightarrow> string option \<Rightarrow> response \<Rightarrow> ('w, response) peff" where
  "upload_answer E info content_type filename resp =
     bindE (mapErrE (\<lambda>e. Upstream (show_error e)) (call (http_body E resp))) (\<lambda>bytes.
     bindE (case (if is_success (rs_status resp)
               then Option.bind (json_parse (env_codec E) bytes) (get_str ''content_uri'') else None) of
          None \<Rightarrow> retE ()
        | Some mxc \<Rightarrow> internal (media_insert E mxc info content_type filename)) (\<lambda>_.
     retE (raw_response (rs_status resp) (Some ''application/json'') bytes)))"

definition handle_upload :: "('w, 'y) env_scheme \<Rightarrow> client_request \<Rightarrow> ('w, response) peff" where
  "handle_upload E req = look (\<lambda>s.
     let filename = query_filename (env_codec E) (case rq_query req of None \<Rightarrow> [] | Some q \<Rightarrow> q);
         content_type = Option.bind (header_get ''content-type'' (rq_headers req)) header_to_str
     in bindE (okOr (BadRequest ''failed to read upload: length limit exceeded'')
          (to_bytes (rq_body req) max_upload_bytes)) (\<lambda>body.
        bindE (internal (call (encrypt_attachment E body))) (\<lambda>(encrypted, info).
        bindE (mapErrE Upstream (send_http E (upload_request E (token (acct s)) encrypted)))
          (upload_answer E info content_type filename))))"

definition media_download_path :: "codec \<Rightarrow> string \<Rightarrow> string \<Rightarrow> string" where
  "media_download_path cd server media_id =
     ''/_matrix/client/v1/media/download/'' @ enc cd server @ ''/'' @ enc cd media_id"

definition decrypted_response :: "('w, 'y) env_scheme \<Rightarrow> media_entry \<Rightarrow> string \<Rightarrow> response" where
  "decrypted_response E entry plain =
     (let ct = (case me_mimetype entry of
            Some m \<Rightarrow> if header_value_ok E m then m else ''application/octet-stream''
          | None \<Rightarrow> ''application/octet-stream'');
          disposition = (case me_filename entry of
            None \<Rightarrow> []
          | Some f \<Rightarrow> (let v = ''inline; filename='' @ [CHR 0x22] @ f @ [CHR 0x22] in
              if header_value_ok E v then [(''content-disposition'', v)] else []))
      in \<lparr>rs_status = 200, rs_headers = (''content-type'', ct) # disposition, rs_body = plain\<rparr>)"

definition handle_download :: "('w, 'y) env_scheme \<Rightarrow> string \<Rightarrow> string \<Rightarrow> ('w, response) peff" where
  "handle_download E server media_id = look (\<lambda>s.
     let entry = media_get E (''mxc://'' @ server @ ''/'' @ media_id) (acct s) in
     bindE (mapErrE Upstream (send_http E (get_with_token E (token (acct s))
         (media_download_path (env_codec E) server media_id)))) (\<lambda>resp.
     bindE (mapErrE (\<lambda>e. Upstream (show_error e)) (call (http_body E resp))) (\<lambda>bytes.
     let relayed = raw_response (rs_status resp) (header_get ''content-type'' (rs_headers resp)) bytes in
     case entry of
       None \<Rightarrow> retE relayed
     | Some e \<Rightarrow>
         if \<not> is_success (rs_status resp) then retE relayed
         else (case decrypt_attachment E bytes (me_info e) of
             Inl m \<Rightarrow> failE (Internal (Msg m))
           | Inr plain \<Rightarrow> retE (decrypted_response E e plain)))))"

text \<open>Sending previously uploaded, thus encrypted, media into an unencrypted room.\<close>

definition reupload_plaintext_if_needed :: "('w, 'y) env_scheme \<Rightarrow> json \<Rightarrow> ('w, json) eff" where
  "reupload_plaintext_if_needed E content = look (\<lambda>s.
     case get_str ''url'' content of
       None \<Rightarrow> retE content
     | Some mxc \<Rightarrow> (case media_get E mxc (acct s) of
         None \<Rightarrow> retE content
       | Some entry \<Rightarrow>
           bindE (okOr (Msg ''malformed mxc URI'')
               (Option.bind (strip_prefix ''mxc://'' mxc) (split_once (CHR ''/'')))) (\<lambda>(server, media_id).
           bindE (mapErrE Msg (send_http E (get_with_token E (token (acct s))
               (media_download_path (env_codec E) server media_id)))) (\<lambda>resp.
           if \<not> is_success (rs_status resp) then failE (Msg ''download for re-upload failed'')
           else bindE (call (http_body E resp)) (\<lambda>encrypted.
           case decrypt_attachment E encrypted (me_info entry) of
             Inl m \<Rightarrow> failE (Msg m)
           | Inr plain \<Rightarrow>
               (let url = upstream_url E ''/_matrix/media/v3/upload'';
                    url' = (case me_filename entry of
                      None \<Rightarrow> url
                    | Some f \<Rightarrow> url\<lparr>url_query := append_query E (url_query url) (''filename'', f)\<rparr>);
                    ct = (case me_mimetype entry of None \<Rightarrow> ''application/octet-stream'' | Some m \<Rightarrow> m)
                in if \<not> header_value_ok E ct then failE (Msg ''builder error'')
                   else bindE (mapErrE Msg (send_http E
                       \<lparr>hr_method = ''POST'', hr_url = url',
                        hr_headers = [bearer_auth (token (acct s)), (''content-type'', ct)], hr_body = plain\<rparr>)) (\<lambda>resp2.
                   if \<not> is_success (rs_status resp2) then failE (Msg ''plaintext re-upload failed'')
                   else bindE (call (http_body E resp2)) (\<lambda>bytes.
                   bindE (okOr (Msg ''invalid JSON'') (json_parse (env_codec E) bytes)) (\<lambda>body.
                   bindE (okOr (Msg ''upload response missing content_uri'') (get_str ''content_uri'' body)) (\<lambda>new_mxc.
                   retE (jput ''url'' (JStr new_mxc) content))))))))))) "

section \<open>Requests\<close>

lemma own_send_http [intro]:
  "own_request E tok rq \<Longrightarrow> does (own_step E tok) (send_http E rq)"
  by (rule doesI)
    (auto simp: send_http_def own_step_def same_account_def sends_only_def split: prod.splits)

lemma own_get_with_token [simp]: "own_request E tok (get_with_token E tok p)"
  by (simp add: own_request_def get_with_token_def)

lemma own_upload_request [simp]: "own_request E tok (upload_request E tok b)"
  by (simp add: own_request_def upload_request_def)

lemma own_media_insert [intro]: "does (own_step E tok) (media_insert E mxc info mt fn)"
  unfolding media_insert_def Let_def
  by (intro own_intros) (auto simp: does_def writes_def own_step_def same_account_def sends_only_def)

lemma own_harvest [intro]: "does (own_step E tok) (harvest_and_rewrite_decrypted E event)"
  unfolding harvest_and_rewrite_decrypted_def Let_def expose_file_def harvest_file_def
  by (intro own_intros own_media_insert)

lemma own_reupload [intro]: "does (own_step E tok) (reupload_plaintext_if_needed E content)"
  unfolding reupload_plaintext_if_needed_def Let_def
  by (intro own_intros own_send_http) (auto simp: own_request_def get_with_token_def split: option.split)

section \<open>The cache keeps what it is given\<close>

lemma media_insert_spec:
  assumes "media_insert E mxc info mt fn s = (Inr (), t)"
  shows "media (acct t) = \<lparr>mk_mxc = mxc, mk_key_json = json_print (env_codec E) info, mk_mimetype = mt,
      mk_filename = fn\<rparr> # filter (\<lambda>r. mk_mxc r \<noteq> mxc) (media (acct s))"
    and "token (acct t) = token (acct s)" and "trace t = trace s"
  using assms
  by (auto simp: media_insert_def Let_def effect_simps split: prod.splits sum.splits)

text \<open>
  What the library promises of a key: it is an object that survives JSON text, and together
  with a URL it is the \<open>file\<close> object the other side reads.
\<close>

definition media_law :: "('w, 'y) env_scheme \<Rightarrow> bool" where
  "media_law E \<longleftrightarrow> (\<forall>info. media_info_ok E info \<longrightarrow> is_object info \<and>
     json_parse (env_codec E) (json_print (env_codec E) info) = Some info \<and>
     (\<forall>u. encrypted_file E (jput ''url'' (JStr u) info) = Some (u, info)))"

lemma media_get_insert:
  assumes "media_insert E mxc info mt fn s = (Inr (), t)" and "media_law E" and "media_info_ok E info"
  shows "media_get E mxc (acct t) = Some \<lparr>me_info = info, me_mimetype = mt, me_filename = fn\<rparr>"
  using assms(2,3) media_insert_spec(1) [OF assms(1)] by (simp add: media_get_def media_law_def)

lemma find_filter_other: "(\<And>r. P r \<Longrightarrow> Q r) \<Longrightarrow> List.find P (filter Q xs) = List.find P xs"
  by (induction xs) auto

lemma media_get_insert_other:
  assumes "media_insert E mxc info mt fn s = (Inr (), t)" and "other \<noteq> mxc"
  shows "media_get E other (acct t) = media_get E other (acct s)"
  using assms(2) media_insert_spec(1) [OF assms(1)]
  by (simp add: media_get_def find_filter_other)

section \<open>From url to file and back\<close>

lemma keep_mimetype_other: "k \<noteq> ''info'' \<Longrightarrow> map_of (keep_mimetype mt m) k = map_of m k"
  by (auto simp: keep_mimetype_def Let_def split: option.splits json.splits)

lemma keep_mimetype_thumbnail:
  assumes "Option.bind (map_of m ''info'') (get ''thumbnail_file'') = None"
  shows "Option.bind (map_of (keep_mimetype mt m) ''info'') (get ''thumbnail_file'') = None"
  using assms
  by (auto simp: keep_mimetype_def Let_def split: option.splits json.splits)

lemma expose_file_none: "map_of m k = None \<Longrightarrow> expose_file E k uk mt fn m s = (Inr m, s)"
  by (simp add: expose_file_def retE_def)

lemma expose_file_some:
  assumes "map_of m k = Some f" and "encrypted_file E f = Some (u, info)"
    and "media_insert E u info mt fn s = (Inr (), t)"
  shows "expose_file E k uk mt fn m s = (Inr (obj_put uk (JStr u) (obj_del k m)), t)"
  using assms by (simp add: expose_file_def harvest_file_def bindE_def attempt_def retE_def)

lemma rewrite_content_file:
  assumes "map_of m ''url'' = Some (JStr u)" and "media_get E u a = Some entry"
  shows "\<exists>m'. rewrite_content_for_encrypted_room E a (JObj m) = JObj m' \<and> map_of m' ''url'' = None \<and>
    map_of m' ''file'' = Some (jput ''url'' (JStr u) (me_info entry)) \<and>
    (\<forall>k. k \<notin> {''url'', ''file'', ''info''} \<longrightarrow> map_of m' k = map_of m k) \<and>
    (Option.bind (map_of m ''info'') (get ''thumbnail_file'') = None \<longrightarrow>
       Option.bind (map_of m' ''info'') (get ''thumbnail_file'') = None)"
  using assms
  by (auto simp: rewrite_content_for_encrypted_room_def get_str_def Let_def keep_mimetype_other
      intro!: keep_mimetype_thumbnail)

lemma media_insert_ok:
  assumes "\<And>row w. fst (media_write E (media_path (acct s)) row w) = Inr ()"
  shows "\<exists>t. media_insert E u info mt fn s = (Inr (), t)"
proof -
  let ?row = "\<lparr>mk_mxc = u, mk_key_json = json_print (env_codec E) info, mk_mimetype = mt, mk_filename = fn\<rparr>"
  obtain w where "media_write E (media_path (acct s)) ?row (world s) = (Inr (), w)"
    using assms [of ?row "world s"] by (metis prod.collapse)
  then show ?thesis
    by (simp add: media_insert_def look_def Let_def bindE_def call_def writes_def)
qed

lemma harvest_file_content:
  assumes f: "map_of m ''file'' = Some f" and ef: "encrypted_file E f = Some (u, info)"
    and "Option.bind (map_of m ''info'') (get ''thumbnail_file'') = None"
    and ev: "get ''content'' event = Some (JObj m)"
    and ok: "\<And>row w. fst (media_write E (media_path (acct s)) row w) = Inr ()"
  shows "\<exists>mt m' t. harvest_and_rewrite_decrypted E event s = (Inr (jput ''content'' (JObj m') event), t) \<and>
    media_insert E u info mt (get_str ''body'' (JObj m)) s = (Inr (), t) \<and>
    map_of m' ''url'' = Some (JStr u) \<and> map_of m' ''file'' = None \<and>
    (\<forall>k. k \<notin> {''url'', ''file''} \<longrightarrow> map_of m' k = map_of m k)"
proof -
  let ?mt = "mimetype_in ''info'' m"
  let ?fn = "get_str ''body'' (JObj m)"
  let ?m1 = "obj_put ''url'' (JStr u) (obj_del ''file'' m)"
  obtain t where ins: "media_insert E u info ?mt ?fn s = (Inr (), t)"
    using media_insert_ok [OF ok] by blast
  have e1: "expose_file E ''file'' ''url'' ?mt ?fn m s = (Inr ?m1, t)"
    by (rule expose_file_some [OF f ef ins])
  have i1: "map_of ?m1 ''info'' = map_of m ''info''" by simp
  show ?thesis
  proof (cases "Option.bind (map_of m ''info'') as_object")
    case None
    have "harvest_and_rewrite_decrypted E event s = (Inr (jput ''content'' (JObj ?m1) event), t)"
      using None by (simp add: harvest_and_rewrite_decrypted_def ev bindE_def e1 Let_def retE_def i1 del: map_of_obj_put)
    then show ?thesis using ins by (intro exI [of _ ?mt] exI [of _ ?m1] exI [of _ t]) auto
  next
    case (Some im)
    then have im: "map_of m ''info'' = Some (JObj im)" by (auto simp: bind_eq_Some_conv)
    then have "map_of im ''thumbnail_file'' = None" using assms(3) by simp
    then have e2: "expose_file E ''thumbnail_file'' ''thumbnail_url''
        (mimetype_in ''thumbnail_info'' im) None im t = (Inr im, t)"
      by (rule expose_file_none)
    let ?m2 = "obj_put ''info'' (JObj im) ?m1"
    have "harvest_and_rewrite_decrypted E event s = (Inr (jput ''content'' (JObj ?m2) event), t)"
      using Some by (simp add: harvest_and_rewrite_decrypted_def ev bindE_def e1 e2 Let_def retE_def i1 im del: map_of_obj_put)
    then show ?thesis using ins im by (intro exI [of _ ?mt] exI [of _ ?m2] exI [of _ t]) auto
  qed
qed

text \<open>
  C24: what is sent with a \<open>url\<close> into an encrypted room arrives as one. The sender's rewrite
  takes the \<open>url\<close> of a cached upload out of the content and puts a \<open>file\<close> object with the key
  in; the receiver's rewrite puts the same \<open>url\<close> back, removes \<open>file\<close>, leaves everything but
  \<open>info\<close> as the sender's client had it, and has the key of that URL in its cache, under the
  name in \<open>body\<close>.
\<close>

theorem media_url_roundtrip:
  assumes "media_law E" and "media_info_ok E (me_info entry)"
    and "get ''url'' content = Some (JStr u)" and "media_get E u sender = Some entry"
    and "Option.bind (get ''info'' content) (get ''thumbnail_file'') = None"
    and "get ''content'' event = Some (rewrite_content_for_encrypted_room E sender content)"
    and "\<And>row w. fst (media_write E (media_path (acct s)) row w) = Inr ()"
  shows "get ''url'' (rewrite_content_for_encrypted_room E sender content) = None \<and>
    (\<exists>event' t. harvest_and_rewrite_decrypted E event s = (Inr event', t) \<and>
       pointer [''content'', ''url''] event' = Some (JStr u) \<and>
       pointer [''content'', ''file''] event' = None \<and>
       (\<forall>k. k \<notin> {''url'', ''file'', ''info''} \<longrightarrow> pointer [''content'', k] event' = get k content) \<and>
       (\<exists>mt. media_get E u (acct t) = Some \<lparr>me_info = me_info entry, me_mimetype = mt,
          me_filename = get_str ''body'' content\<rparr>))"
proof -
  obtain m where m: "content = JObj m" using assms(3) by (cases content) auto
  have url: "map_of m ''url'' = Some (JStr u)" using assms(3) m by simp
  from rewrite_content_file [OF url assms(4)] obtain m'
    where rw: "rewrite_content_for_encrypted_room E sender content = JObj m'"
      and m': "map_of m' ''url'' = None" "map_of m' ''file'' = Some (jput ''url'' (JStr u) (me_info entry))"
        "\<forall>k. k \<notin> {''url'', ''file'', ''info''} \<longrightarrow> map_of m' k = map_of m k"
        "Option.bind (map_of m' ''info'') (get ''thumbnail_file'') = None"
    using assms(5) m by auto
  have ef: "encrypted_file E (jput ''url'' (JStr u) (me_info entry)) = Some (u, me_info entry)"
    using assms(1,2) by (simp add: media_law_def)
  have ev: "get ''content'' event = Some (JObj m')" using assms(6) rw by simp
  from harvest_file_content [OF m'(2) ef m'(4) ev assms(7)] obtain mt m2 t
    where h: "harvest_and_rewrite_decrypted E event s = (Inr (jput ''content'' (JObj m2) event), t)"
      and ins: "media_insert E u (me_info entry) mt (get_str ''body'' (JObj m')) s = (Inr (), t)"
      and m2: "map_of m2 ''url'' = Some (JStr u)" "map_of m2 ''file'' = None"
        "\<forall>k. k \<notin> {''url'', ''file''} \<longrightarrow> map_of m2 k = map_of m' k"
    by (elim exE conjE) (rule that)
  have obj: "is_object event" using ev by (cases event) (auto simp: is_object_def)
  let ?e = "jput ''content'' (JObj m2) event"
  have p: "pointer [''content'', k] ?e = map_of m2 k" for k
    using obj by (simp add: pointer_obj get_jput)
  have body: "get_str ''body'' (JObj m') = get_str ''body'' content"
    using m'(3) by (simp add: get_str_def m)
  have g1: "get ''url'' (rewrite_content_for_encrypted_room E sender content) = None"
    by (simp add: rw m'(1))
  have g2: "pointer [''content'', ''url''] ?e = Some (JStr u)" "pointer [''content'', ''file''] ?e = None"
    by (simp_all add: p m2)
  have g3: "\<forall>k. k \<notin> {''url'', ''file'', ''info''} \<longrightarrow> pointer [''content'', k] ?e = get k content"
    using m2(3) m'(3) by (simp add: p m)
  have g4: "media_get E u (acct t) = Some \<lparr>me_info = me_info entry, me_mimetype = mt,
      me_filename = get_str ''body'' content\<rparr>"
    using media_get_insert [OF ins assms(1,2)] by (simp only: body)
  show ?thesis
    by (rule conjI [OF g1], rule exI [of _ ?e], rule exI [of _ t], intro conjI h g2 g3, rule exI, rule g4)
qed

text \<open>A machine whose keys are \<open>{"k":"v"}\<close>, for concrete runs.\<close>

definition media_key :: json where
  "media_key = JObj [(''k'', JStr ''v'')]"

definition media_env :: "unit env" where
  "media_env = (ref_env [(''K'', media_key), (''U'', JObj [(''content_uri'', JStr ''mxc://hs/1'')])])\<lparr>
     media_info_ok := (\<lambda>j. j = media_key),
     encrypted_file := (\<lambda>j. Option.bind (get_str ''url'' j) (\<lambda>u. Some (u, media_key))),
     encrypt_attachment := (\<lambda>b w. (Inr (rev b, media_key), w)),
     http_send := (\<lambda>rq w. (Inr \<lparr>rs_status = 200, rs_headers = [],
       rs_body = (if hr_method rq = ''POST'' then ''U'' else ''olleh'')\<rparr>, w))\<rparr>"

lemma media_law_env: "media_law media_env" and media_key_ok: "media_info_ok media_env media_key"
  by (simp_all add: media_law_def media_env_def ref_env_def ref_codec_def media_key_def get_str_def is_object_def)

definition uploaded :: account where
  "uploaded = ref_account\<lparr>media := [\<lparr>mk_mxc = ''mxc://hs/1'', mk_key_json = ''K'', mk_mimetype = Some ''image/png'',
     mk_filename = None\<rparr>]\<rparr>"

definition image_content :: json where
  "image_content = JObj [(''body'', JStr ''cat''), (''url'', JStr ''mxc://hs/1'')]"

theorem media_url_roundtrip_witness:
  "\<exists>e t. harvest_and_rewrite_decrypted media_env
      (JObj [(''content'', rewrite_content_for_encrypted_room media_env uploaded image_content)]) ref_ctx = (Inr e, t) \<and>
    pointer [''content'', ''url''] e = Some (JStr ''mxc://hs/1'')"
proof -
  let ?entry = "\<lparr>me_info = media_key, me_mimetype = Some ''image/png'', me_filename = None\<rparr>"
  let ?ev = "JObj [(''content'', rewrite_content_for_encrypted_room media_env uploaded image_content)]"
  have 1: "media_info_ok media_env (me_info ?entry)" by (simp add: media_key_ok)
  have 2: "get ''url'' image_content = Some (JStr ''mxc://hs/1'')"
    "media_get media_env ''mxc://hs/1'' uploaded = Some ?entry"
    "Option.bind (get ''info'' image_content) (get ''thumbnail_file'') = None"
    by code_simp+
  have 3: "get ''content'' ?ev = Some (rewrite_content_for_encrypted_room media_env uploaded image_content)"
    by simp
  have 4: "\<And>row w. fst (media_write media_env (media_path (acct ref_ctx)) row w) = Inr ()"
    by (simp add: media_env_def ref_env_def)
  from media_url_roundtrip [OF media_law_env 1 2 3 4] show ?thesis
    by (elim exE conjE) (intro exI conjI)
qed

section \<open>Uploads never leave in the clear\<close>

lemma silent: "does (sends_only (\<lambda>_. False)) m \<Longrightarrow> m s = (r, t) \<Longrightarrow> trace t = trace s"
  by (auto simp: does_def sends_only_def list_all_iff)

lemma silent_media_insert: "does (sends_only P) (media_insert E mxc info mt fn)"
  unfolding media_insert_def Let_def
  by (intro sends.does_intros sends_call) (auto simp: does_def writes_def sends_only_def)

lemma silent_upload_answer: "does (sends_only P) (upload_answer E info ct fn resp)"
  unfolding upload_answer_def internal_def
  by (intro sends.does_intros sends_call silent_media_insert)

text \<open>
  C14: an upload puts at most one request on the wire: the ciphertext the attachment
  encryption made of the body, as an opaque octet stream without the file name, with this
  account's token; where the body cannot be read or encrypted, nothing is sent.
\<close>

theorem upload_only_ciphertext:
  assumes "handle_upload E req s = (r, t)"
  shows "trace t = trace s \<or>
    (\<exists>w c info w'. encrypt_attachment E (rq_body req) w = (Inr (c, info), w') \<and>
       trace t = trace s @ [\<lparr>hr_method = ''POST'', hr_url = upstream_url E ''/_matrix/media/v3/upload'',
         hr_headers = [bearer_auth (token (acct s)), (''content-type'', ''application/octet-stream'')],
         hr_body = c\<rparr>])"
proof (cases "length (rq_body req) \<le> max_upload_bytes")
  case False
  then show ?thesis using assms
    by (simp add: handle_upload_def look_def okOr_def to_bytes_def bindE_def Let_def)
next
  case True
  obtain x w' where enc: "encrypt_attachment E (rq_body req) (world s) = (x, w')" by fastforce
  show ?thesis
  proof (cases x)
    case (Inl e)
    then show ?thesis using assms True enc
      by (auto simp: handle_upload_def look_def okOr_def to_bytes_def bindE_def internal_def mapErrE_def call_def Let_def)
  next
    case (Inr ci)
    obtain c info where ci: "ci = (c, info)" by fastforce
    obtain a s2 where h: "send_http E (upload_request E (token (acct s)) c) (s\<lparr>world := w'\<rparr>) = (a, s2)" by fastforce
    have s2: "trace s2 = trace s @ [upload_request E (token (acct s)) c]"
      using send_http_trace [OF h] by simp
    let ?ct = "Option.bind (header_get ''content-type'' (rq_headers req)) header_to_str"
    let ?fn = "query_filename (env_codec E) (case rq_query req of None \<Rightarrow> [] | Some q \<Rightarrow> q)"
    have "(case a of Inl e \<Rightarrow> (Inl (Upstream e), s2) | Inr resp \<Rightarrow> upload_answer E info ?ct ?fn resp s2) = (r, t)"
      using assms True enc h Inr ci
      by (simp add: handle_upload_def look_def okOr_def to_bytes_def bindE_def internal_def mapErrE_def call_def Let_def
          split: sum.splits)
    then have "trace t = trace s2"
      using silent [OF silent_upload_answer] by (auto split: sum.splits)
    then show ?thesis using s2 enc Inr ci by (auto simp: upload_request_def)
  qed
qed

theorem upload_only_ciphertext_witness:
  "\<exists>r t. handle_upload media_env \<lparr>rq_method = ''POST'', rq_path = ''/_matrix/media/v3/upload'',
      rq_query = Some ''filename=cat.png'', rq_headers = [], rq_body = ''hello''\<rparr> ref_ctx = (r, t) \<and>
    (trace t = [] \<or> map hr_body (trace t) = [''olleh''])"
proof -
  let ?q = "\<lparr>rq_method = ''POST'', rq_path = ''/_matrix/media/v3/upload'',
      rq_query = Some ''filename=cat.png'', rq_headers = [], rq_body = ''hello''\<rparr>"
  obtain r t where u: "handle_upload media_env ?q ref_ctx = (r, t)" by (meson prod.exhaust)
  have "rev ''hello'' = ''olleh''" by simp
  with upload_only_ciphertext [OF u] u show ?thesis
    by (intro exI [of _ r] exI [of _ t]) (auto simp: media_env_def ref_ctx_def ref_ctx_at_def)
qed

text \<open>
  C23: an upload can be had back: if the upload succeeded and named its URI, then downloading
  that URI through the proxy, the homeserver handing back the bytes it was sent, answers with
  exactly the bytes the client uploaded, the content type it gave and its file name.
\<close>

theorem upload_download_roundtrip:
  assumes law: "media_law E"
    and crypt: "\<And>b w c i w'. encrypt_attachment E b w = (Inr (c, i), w') \<Longrightarrow>
      media_info_ok E i \<and> decrypt_attachment E c i = Inr b"
    and up: "handle_upload E req s = (Inr resp, t)" and ok: "is_success (rs_status resp)"
    and uri: "Option.bind (json_parse (env_codec E) (rs_body resp)) (get_str ''content_uri'') =
      Some (''mxc://'' @ server @ ''/'' @ media_id)"
    and down: "send_http E (get_with_token E (token (acct t)) (media_download_path (env_codec E) server media_id)) t = (Inr resp2, u)"
    and again: "is_success (rs_status resp2)" "call (http_body E resp2) u = (Inr (hr_body (last (trace t))), v)"
  shows "\<exists>e. handle_download E server media_id t = (Inr (decrypted_response E e (rq_body req)), v) \<and>
    me_mimetype e = Option.bind (header_get ''content-type'' (rq_headers req)) header_to_str \<and>
    me_filename e = query_filename (env_codec E) (case rq_query req of None \<Rightarrow> [] | Some q \<Rightarrow> q)"
proof -
  let ?mxc = "''mxc://'' @ server @ ''/'' @ media_id"
  let ?ct = "Option.bind (header_get ''content-type'' (rq_headers req)) header_to_str"
  let ?fn = "query_filename (env_codec E) (case rq_query req of None \<Rightarrow> [] | Some q \<Rightarrow> q)"
  have "length (rq_body req) \<le> max_upload_bytes"
    using up by (rule contrapos_pp) (simp add: handle_upload_def look_def okOr_def to_bytes_def bindE_def Let_def)
  then obtain c info w' a s2 where enc: "encrypt_attachment E (rq_body req) (world s) = (Inr (c, info), w')"
    and h: "send_http E (upload_request E (token (acct s)) c) (s\<lparr>world := w'\<rparr>) = (Inr a, s2)"
    and ans: "upload_answer E info ?ct ?fn a s2 = (Inr resp, t)"
    using up
    by (auto simp: handle_upload_def look_def okOr_def to_bytes_def bindE_def internal_def mapErrE_def call_def Let_def
        split: sum.splits prod.splits)
  obtain bytes s3 where b: "call (http_body E a) s2 = (Inr bytes, s3)"
    and ans2: "bindE (case (if is_success (rs_status a)
               then Option.bind (json_parse (env_codec E) bytes) (get_str ''content_uri'') else None) of
          None \<Rightarrow> retE ()
        | Some mxc \<Rightarrow> internal (media_insert E mxc info ?ct ?fn)) (\<lambda>_.
     retE (raw_response (rs_status a) (Some ''application/json'') bytes)) s3 = (Inr resp, t)"
    using ans unfolding upload_answer_def bindE_eq_Inr_iff [of "mapErrE _ _"]
    by (auto simp: mapErrE_def split: sum.splits prod.splits)
  have resp: "resp = raw_response (rs_status a) (Some ''application/json'') bytes"
    using ans2 by (auto simp: bindE_eq_Inr_iff retE_def)
  have ins: "media_insert E ?mxc info ?ct ?fn s3 = (Inr (), t)"
    using ans2 ok uri by (auto simp: resp raw_response_def bindE_eq_Inr_iff internal_def mapErrE_def retE_def
        split: sum.splits prod.splits)
  have entry: "media_get E ?mxc (acct t) = Some \<lparr>me_info = info, me_mimetype = ?ct, me_filename = ?fn\<rparr>"
    using media_get_insert [OF ins law] crypt [OF enc] by blast
  have "trace t = trace s @ [upload_request E (token (acct s)) c]"
    using media_insert_spec(3) [OF ins] call_trace [OF b] send_http_trace [OF h] by simp
  then have "hr_body (last (trace t)) = c" by (simp add: upload_request_def)
  then have "handle_download E server media_id t =
      (Inr (decrypted_response E \<lparr>me_info = info, me_mimetype = ?ct, me_filename = ?fn\<rparr> (rq_body req)), v)"
    using down again entry crypt [OF enc]
    by (simp add: handle_download_def look_def Let_def bindE_def mapErrE_def retE_def)
  then show ?thesis
    by (intro exI [of _ "\<lparr>me_info = info, me_mimetype = ?ct, me_filename = ?fn\<rparr>"]) simp
qed

lemmas media_env_defs = media_env_def ref_env_def ref_codec_def ref_config_def ref_ctx_def ref_ctx_at_def ref_account_def

definition sample_upload :: client_request where
  "sample_upload = \<lparr>rq_method = ''POST'', rq_path = ''/_matrix/media/v3/upload'',
      rq_query = None, rq_headers = [], rq_body = ''hello''\<rparr>"

lemma sample_upload_run:
  "\<exists>t. handle_upload media_env sample_upload ref_ctx = (Inr (raw_response 200 (Some ''application/json'') ''U''), t) \<and>
    hr_body (last (trace t)) = ''olleh''"
  by (simp add: handle_upload_def sample_upload_def look_def okOr_def to_bytes_def max_upload_bytes_def Let_def bindE_def
      internal_def mapErrE_def call_def send_http_def upload_answer_def media_insert_def writes_def retE_def
      is_success_def upload_request_def media_env_defs get_str_def)

theorem upload_download_roundtrip_witness:
  "\<exists>t e u v. handle_upload media_env sample_upload ref_ctx =
      (Inr (raw_response 200 (Some ''application/json'') ''U''), t) \<and>
    handle_download media_env ''hs'' ''1'' t = (Inr (decrypted_response media_env e ''hello''), v)"
proof -
  obtain t where up: "handle_upload media_env sample_upload ref_ctx =
      (Inr (raw_response 200 (Some ''application/json'') ''U''), t)" and b: "hr_body (last (trace t)) = ''olleh''"
    using sample_upload_run by blast
  let ?rq = "get_with_token media_env (token (acct t)) (media_download_path (env_codec media_env) ''hs'' ''1'')"
  let ?a = "\<lparr>rs_status = 200, rs_headers = [], rs_body = ''olleh''\<rparr>"
  obtain u where down: "send_http media_env ?rq t = (Inr ?a, u)"
    by (simp add: send_http_def media_env_defs get_with_token_def)
  have crypt: "\<And>b w c i w'. encrypt_attachment media_env b w = (Inr (c, i), w') \<Longrightarrow>
      media_info_ok media_env i \<and> decrypt_attachment media_env c i = Inr b"
    by (auto simp: media_env_defs)
  have ok: "is_success (rs_status (raw_response 200 (Some ''application/json'') ''U''))"
    "Option.bind (json_parse (env_codec media_env) (rs_body (raw_response 200 (Some ''application/json'') ''U'')))
       (get_str ''content_uri'') = Some (''mxc://'' @ ''hs'' @ ''/'' @ ''1'')"
    "is_success (rs_status ?a)"
    by code_simp+
  have again: "call (http_body media_env ?a) u = (Inr (hr_body (last (trace t))), u)"
    by (simp add: b call_def media_env_defs)
  from upload_download_roundtrip [OF media_law_env crypt up ok(1,2) down ok(3) again] up
  show ?thesis by (auto simp: sample_upload_def)
qed

end
