(* ===== verification/Encrypt.thy ===== *)
theory Encrypt
  imports Media
begin

text \<open>
  Sending (\<open>src/src/crypto/encrypt.rs\<close>): the send route, the claiming and sharing of keys
  before an event is encrypted, and the in-room requests of verifications. Encrypting pumps the
  request queue, so what encrypts has an optional result, as \<open>pump\<close> has.
\<close>

type_synonym ('w, 'a) effP = "'w ctx \<Rightarrow> ((error + 'a) \<times> 'w ctx) option"
type_synonym ('w, 'a) peffP = "'w ctx \<Rightarrow> ((proxy_error + 'a) \<times> 'w ctx) option"

section \<open>Operations\<close>

text \<open>The room's own rotation settings over the SDK's defaults.\<close>

definition build_encryption_settings :: "('w, 'y) env_scheme \<Rightarrow> string \<Rightarrow> ('w, encryption_settings) eff" where
  "build_encryption_settings E room = look (\<lambda>s.
     bindE (call (sdk_room_settings E (olm (acct s)) room)) (\<lambda>known.
     let rs = (case known of None \<Rightarrow> sdk_default_room_settings E | Some r \<Rightarrow> r) in
     bindE (history_visibility_or_fetch E room) (\<lambda>v.
     let settings = (sdk_default_settings E)\<lparr>es_algorithm := st_algorithm rs, es_visibility := v\<rparr>;
         settings1 = (case st_rotation_period_ms rs of
             None \<Rightarrow> settings | Some p \<Rightarrow> settings\<lparr>es_rotation_period_ms := p\<rparr>);
         settings2 = (case st_rotation_msgs rs of
             None \<Rightarrow> settings1 | Some n \<Rightarrow> settings1\<lparr>es_rotation_msgs := n\<rparr>)
     in retE settings2)))"

text \<open>
  The first part of \<open>encrypt_content\<close>, up to where the content comes in: everybody in the room
  is tracked and has a session, and holds the room key.
\<close>

definition claim_and_share :: "('w, 'y) env_scheme \<Rightarrow> string \<Rightarrow> string list \<Rightarrow> ('w, unit) eff" where
  "claim_and_share E room us = look (\<lambda>s.
     bindE (mapErrE (Wrap ''get_missing_sessions failed'')
         (call (sdk_missing_sessions E (olm (acct s)) us))) (\<lambda>missing.
     bindE (case missing of
         None \<Rightarrow> retE ()
       | Some r \<Rightarrow> mapErrE (Wrap ''keys/claim for missing sessions failed'') (send_keys_claim E r)) (\<lambda>_.
     bindE (build_encryption_settings E room) (\<lambda>settings.
     bindE (mapErrE (Wrap ''share_room_key failed'')
         (call (sdk_share_room_key E (olm (acct s)) room us settings))) (\<lambda>requests.
     each (\<lambda>r. mapErrE (Wrap ''sending room key share failed'') (send_to_device E r)) requests)))))"

definition prepare_room :: "('w, 'y) env_scheme \<Rightarrow> string \<Rightarrow> ('w, unit) effP" where
  "prepare_room E room = look (\<lambda>s.
     bindP (liftP (joined_members E room)) (\<lambda>us.
     bindP (liftP (mapErrE (Wrap ''update_tracked_users failed'')
         (call (sdk_update_tracked E (olm (acct s)) us)))) (\<lambda>_.
     bindP (pump E) (\<lambda>_.
     liftP (claim_and_share E room us)))))"

definition megolm_encrypt :: "('w, 'y) env_scheme \<Rightarrow> string \<Rightarrow> string \<Rightarrow> json \<Rightarrow> ('w, json) eff" where
  "megolm_encrypt E room event_type content = look (\<lambda>s.
     if \<not> parses_as E ''Raw'' content then failE (Wrap ''invalid event content'' (Msg ''invalid value''))
     else bindE (mapErrE (Wrap ''encrypt_room_event_raw failed'')
         (call (sdk_encrypt E (olm (acct s)) room event_type content))) (\<lambda>encrypted.
       okOr (Wrap ''encrypted content is not valid JSON'' (Msg ''invalid JSON''))
         (json_parse (env_codec E) encrypted)))"

definition encrypt_content :: "('w, 'y) env_scheme \<Rightarrow> string \<Rightarrow> string \<Rightarrow> json \<Rightarrow> ('w, json) effP" where
  "encrypt_content E room event_type content =
     bindP (prepare_room E room) (\<lambda>_. liftP (megolm_encrypt E room event_type content))"

definition max_send_bytes :: nat where
  "max_send_bytes = 4 * 1024 * 1024"

definition encrypted_send_path :: "codec \<Rightarrow> string \<Rightarrow> string \<Rightarrow> string" where
  "encrypted_send_path cd room txn =
     ''/_matrix/client/v3/rooms/'' @ enc cd room @ ''/send/m.room.encrypted/'' @ enc cd txn"

text \<open>What goes on the wire, and where: the path and the content.\<close>

definition wire_content ::
  "('w, 'y) env_scheme \<Rightarrow> client_request \<Rightarrow> string \<Rightarrow> string \<Rightarrow> string \<Rightarrow> bool \<Rightarrow> json \<Rightarrow> ('w, string \<times> json) peffP" where
  "wire_content E req room event_type txn encrypted content =
     (if encrypted then look (\<lambda>s.
        bindP (mapErrP (\<lambda>e. Internal (Wrap ''failed to encrypt event'' e))
            (encrypt_content E room event_type (rewrite_content_for_encrypted_room E (acct s) content))) (\<lambda>c.
        liftP (retE (encrypted_send_path (env_codec E) room txn, c))))
      else bindP (liftP (mapErrE (\<lambda>e. Internal (Wrap ''media fix-up for unencrypted room failed'' e))
            (reupload_plaintext_if_needed E content))) (\<lambda>c.
        liftP (retE (path_and_query req, c))))"

definition forward_send :: "('w, 'y) env_scheme \<Rightarrow> string \<Rightarrow> json \<Rightarrow> ('w, response) peff" where
  "forward_send E path wire = look (\<lambda>s.
     bindE (mapErrE (\<lambda>e. Internal (Wrap ''failed to forward send'' e))
         (json_request E ''PUT'' path (token (acct s)) (Some wire))) (\<lambda>(status, body).
     retE (raw_response status (Some ''application/json'') (json_print (env_codec E) body))))"

definition handle_send ::
  "('w, 'y) env_scheme \<Rightarrow> client_request \<Rightarrow> string \<Rightarrow> string \<Rightarrow> string \<Rightarrow> ('w, response) peffP" where
  "handle_send E req room event_type txn =
     (if \<not> is_room_id (env_codec E) room then liftP (passthrough E req)
      else if event_type = ''m.room.encrypted'' then liftP (passthrough E req)
      else bindP (liftP (mapErrE (\<lambda>e. Internal (Wrap ''could not determine room encryption state'' e))
          (is_room_encrypted E room))) (\<lambda>encrypted.
        bindP (liftP (okOr (BadRequest ''failed to read send body: length limit exceeded'')
          (to_bytes (rq_body req) max_send_bytes))) (\<lambda>bytes.
        bindP (liftP (okOr (BadRequest ''send body is not JSON: invalid JSON'')
          (json_parse (env_codec E) bytes))) (\<lambda>content.
        bindP (wire_content E req room event_type txn encrypted content) (\<lambda>(path, wire).
        liftP (forward_send E path wire))))))"

text \<open>An in-room request of the verification machine, encrypted where the room is.\<close>

definition send_room_message_request ::
  "('w, 'y) env_scheme \<Rightarrow> room_message_request \<Rightarrow> ('w, unit) effP" where
  "send_room_message_request E r =
     bindP (liftP (is_room_encrypted E (rm_room_id r))) (\<lambda>encrypted.
     bindP (if encrypted
         then bindP (encrypt_content E (rm_room_id r) (rm_event_type r) (rm_content r)) (\<lambda>c.
           liftP (retE (''m.room.encrypted'', c)))
         else liftP (retE (rm_event_type r, rm_content r))) (\<lambda>(wire_type, wire).
     liftP (look (\<lambda>s.
       bindE (json_request E ''PUT''
           (send_path (env_codec E) (rm_room_id r) wire_type (rm_txn_id r))
           (token (acct s)) (Some wire)) (\<lambda>(status, body).
       if \<not> is_success status
       then failE (Msg (show_answer E ''in-room verification send failed: '' (status, body)))
       else mark_sent E (rm_txn_id r) RoomMessageResponse body)))))"

section \<open>Requests of the account\<close>

lemma own_is_room_encrypted [intro]: "does (own_step E tok) (is_room_encrypted E room)"
  unfolding is_room_encrypted_def by (intro own_intros) auto

lemma own_writes_rooms: "does (own_step E tok) (writes (\<lambda>s. on_rooms (f s) s))"
  by (rule doesI) (auto simp: writes_def own_step_def same_account_def sends_only_def)

lemma own_joined_members [intro]: "does (own_step E tok) (joined_members E room)"
  unfolding joined_members_def Let_def by (intro own_intros own_writes_rooms) auto

lemma own_history_visibility [intro]: "does (own_step E tok) (history_visibility_or_fetch E room)"
  unfolding history_visibility_or_fetch_def Let_def by (intro own_intros) auto

lemma own_claim_and_share [intro]: "does (own_step E tok) (claim_and_share E room us)"
  unfolding claim_and_share_def build_encryption_settings_def Let_def
  by (intro own_intros own_each own_history_visibility own_send_keys_claim own_send_to_device)

lemmas ownP_intros = own.doesP_bindP own.doesP_liftP own.doesP_mapErrP own.doesP_if
  own.doesP_case_option own.doesP_case_prod own.doesP_case_sum own.doesP_Let

lemma own_lookP:
  "(\<And>s. token (acct s) = tok \<Longrightarrow> doesP (own_step E tok) (f s)) \<Longrightarrow> doesP (own_step E tok) (look f)"
  unfolding doesP_def look_def own_step_def by blast

lemma own_prepare_room [intro]: "doesP (own_step E tok) (prepare_room E room)"
  unfolding prepare_room_def by (intro own_lookP ownP_intros own_intros own_joined_members own_pump own_claim_and_share)

lemma own_encrypt_content [intro]: "doesP (own_step E tok) (encrypt_content E room ty content)"
  unfolding encrypt_content_def megolm_encrypt_def
  by (intro ownP_intros own_prepare_room own_intros)

lemma own_send_room_message_request [intro]: "doesP (own_step E tok) (send_room_message_request E r)"
  unfolding send_room_message_request_def
  by (intro ownP_intros own_encrypt_content own_is_room_encrypted own_intros own_mark_sent)
    auto

section \<open>Nothing in the clear\<close>

lemma forward_send_trace:
  "forward_send E path wire s = (r, t) \<Longrightarrow>
    trace t = trace s @ [json_http E ''PUT'' path (token (acct s)) (Some wire)]"
  by (auto simp: forward_send_def look_def bindE_def mapErrE_def retE_def dest: json_request_trace
      split: prod.splits sum.splits)

text \<open>What the encryption of a content comes to, once the room is prepared.\<close>

lemma megolm_encrypt_cases:
  assumes "megolm_encrypt E room ty content s = (r, t)"
  shows "trace t = trace s \<and> acct t = acct s \<and>
    (\<forall>c. r = Inr c \<longrightarrow> (\<exists>cipher. sdk_encrypt E (olm (acct s)) room ty content (world s) = (Inr cipher, world t) \<and>
       json_parse (env_codec E) cipher = Some c))"
  using assms
  by (auto simp: megolm_encrypt_def effect_simps split: prod.splits sum.splits if_splits option.splits)

lemma encrypted_wire_content:
  assumes "wire_content E req room ty txn True content s = Some (r, t)"
  shows "\<exists>res s1. prepare_room E room s = Some (res, s1) \<and> trace t = trace s1 \<and> acct t = acct s1 \<and>
    (isl res \<longrightarrow> isl r) \<and>
    (\<forall>path wire. r = Inr (path, wire) \<longrightarrow> path = encrypted_send_path (env_codec E) room txn \<and>
      (\<exists>cipher. sdk_encrypt E (olm (acct s1)) room ty (rewrite_content_for_encrypted_room E (acct s) content)
           (world s1) = (Inr cipher, world t) \<and>
         json_parse (env_codec E) cipher = Some wire))"
proof -
  let ?x = "rewrite_content_for_encrypted_room E (acct s) content"
  obtain res s1 where p: "prepare_room E room s = Some (res, s1)"
    using assms
    by (cases "prepare_room E room s")
      (auto simp: wire_content_def look_def encrypt_content_def bindP_def mapErrP_def)
  show ?thesis
  proof (cases res)
    case (Inl e)
    then show ?thesis
      using assms p by (auto simp: wire_content_def look_def encrypt_content_def bindP_def mapErrP_def)
  next
    case (Inr u)
    obtain r2 s2 where m: "megolm_encrypt E room ty ?x s1 = (r2, s2)" by (meson prod.exhaust)
    have "r = (case r2 of Inl e \<Rightarrow> Inl (Internal (Wrap ''failed to encrypt event'' e))
        | Inr c \<Rightarrow> Inr (encrypted_send_path (env_codec E) room txn, c)) \<and> t = s2"
      using assms p m Inr
      by (cases r2) (simp_all add: wire_content_def look_def encrypt_content_def bindP_def mapErrP_def liftP_def retE_def)
    then show ?thesis
      using p m megolm_encrypt_cases [OF m] Inr
      by (intro exI [of _ res] exI [of _ s1]) (auto split: sum.splits)
  qed
qed

lemma send_in_encrypted_room:
  assumes "is_room_id (env_codec E) room" and "ty \<noteq> ''m.room.encrypted''"
    and b: "is_room_encrypted E room s = (Inr True, s0)"
    and "handle_send E req room ty txn s = Some (r, t)"
  shows "(isl r \<and> trace t = trace s0) \<or> (\<exists>res s1. prepare_room E room s0 = Some (res, s1) \<and>
       ((isl r \<and> trace t = trace s1) \<or>
        (\<exists>content cipher w wire. res = Inr () \<and> json_parse (env_codec E) (rq_body req) = Some content \<and>
           sdk_encrypt E (olm (acct s)) room ty (rewrite_content_for_encrypted_room E (acct s0) content)
             (world s1) = (Inr cipher, w) \<and>
           json_parse (env_codec E) cipher = Some wire \<and>
           trace t = trace s1 @ [json_http E ''PUT'' (encrypted_send_path (env_codec E) room txn)
             (token (acct s)) (Some wire)])))"
proof (cases "Option.bind (to_bytes (rq_body req) max_send_bytes) (json_parse (env_codec E))")
  case None
  then show ?thesis
    using assms by (auto simp: handle_send_def bindP_def liftP_def mapErrE_def okOr_def split: option.splits)
next
  case (Some content)
  have h: "handle_send E req room ty txn s =
      bindP (wire_content E req room ty txn True content) (\<lambda>(path, wire). liftP (forward_send E path wire)) s0"
    using assms(1-3) Some
    by (auto simp: handle_send_def bindP_def liftP_def mapErrE_def okOr_def bind_eq_Some_conv)
  obtain r1 s2 where w: "wire_content E req room ty txn True content s0 = Some (r1, s2)"
    using assms(4) h by (cases "wire_content E req room ty txn True content s0") (auto simp: bindP_def)
  obtain res s1 where p: "prepare_room E room s0 = Some (res, s1)" "trace s2 = trace s1" "acct s2 = acct s1"
    "isl res \<longrightarrow> isl r1"
    "\<forall>path wire. r1 = Inr (path, wire) \<longrightarrow> path = encrypted_send_path (env_codec E) room txn \<and>
      (\<exists>cipher. sdk_encrypt E (olm (acct s1)) room ty (rewrite_content_for_encrypted_room E (acct s0) content)
           (world s1) = (Inr cipher, world s2) \<and>
         json_parse (env_codec E) cipher = Some wire)"
    using encrypted_wire_content [OF w] by (elim exE conjE) (rule that)
  have "own_step E (token (acct s)) s s1"
    using own.trans [OF doesD [OF own_is_room_encrypted assms(3)] doesPD [OF own_prepare_room p(1)]] .
  then have same: "olm (acct s1) = olm (acct s)" "token (acct s1) = token (acct s)"
    by (simp_all add: own_step_def same_account_def)
  show ?thesis
  proof (cases r1)
    case (Inl e)
    then have "isl r \<and> trace t = trace s1" using h w assms(4) p(2) by (auto simp: bindP_def)
    with p(1) show ?thesis by blast
  next
    case (Inr pw)
    obtain path wire where pw: "r1 = Inr (path, wire)" using Inr by (cases pw) simp
    obtain cipher where x: "path = encrypted_send_path (env_codec E) room txn"
      "sdk_encrypt E (olm (acct s1)) room ty (rewrite_content_for_encrypted_room E (acct s0) content)
         (world s1) = (Inr cipher, world s2)"
      "json_parse (env_codec E) cipher = Some wire"
      using p(5) pw by blast
    have "forward_send E path wire s2 = (r, t)"
      using h w assms(4) pw by (simp add: bindP_def liftP_def)
    then have "trace t = trace s1 @ [json_http E ''PUT'' (encrypted_send_path (env_codec E) room txn)
           (token (acct s)) (Some wire)]"
      using forward_send_trace p(2,3) same x(1) by fastforce
    moreover have "res = Inr ()" using p(4) pw by (cases res) auto
    moreover have "sdk_encrypt E (olm (acct s)) room ty (rewrite_content_for_encrypted_room E (acct s0) content)
        (world s1) = (Inr cipher, world s2)"
      using x(2) same(1) by simp
    moreover have "json_parse (env_codec E) (rq_body req) = Some content"
      using Some by (auto simp: bind_eq_Some_conv to_bytes_def split: if_splits)
    ultimately show ?thesis using p(1) x(3) by blast
  qed
qed

text \<open>
  C1: a message for a room that is not known to be unencrypted never leaves the proxy in the
  clear. When the room's state cannot be found out, nothing is sent after the question. In an
  encrypted room everything up to the last request is what preparing the room sends, which
  does not depend on the message, and the message itself goes out only as what the crypto machine
  made of the content the client sent (with its media rewritten for an encrypted room), to the
  \<open>m.room.encrypted\<close> path, with the client's transaction ID.
\<close>

theorem send_fails_closed:
  assumes "is_room_id (env_codec E) room" and "ty \<noteq> ''m.room.encrypted''"
    and "is_room_encrypted E room s = (known, s0)" and "known \<noteq> Inr False"
    and "handle_send E req room ty txn s = Some (r, t)"
  shows "(isl r \<and> trace t = trace s0) \<or>
    (known = Inr True \<and> (\<exists>res s1. prepare_room E room s0 = Some (res, s1) \<and>
       ((isl r \<and> trace t = trace s1) \<or>
        (\<exists>content cipher w wire. res = Inr () \<and> json_parse (env_codec E) (rq_body req) = Some content \<and>
           sdk_encrypt E (olm (acct s)) room ty (rewrite_content_for_encrypted_room E (acct s0) content)
             (world s1) = (Inr cipher, w) \<and>
           json_parse (env_codec E) cipher = Some wire \<and>
           trace t = trace s1 @ [json_http E ''PUT'' (encrypted_send_path (env_codec E) room txn)
             (token (acct s)) (Some wire)]))))"
proof (cases known)
  case (Inl e)
  then show ?thesis
    using assms by (auto simp: handle_send_def bindP_def liftP_def mapErrE_def)
next
  case (Inr b)
  then have "known = Inr True" using assms(4) by auto
  then show ?thesis using send_in_encrypted_room [OF assms(1,2) _ assms(5)] assms(3) by simp
qed

text \<open>An encrypted room with one member, and nothing queued.\<close>

definition send_env :: "unit env" where
  "send_env = (ref_env [(''J'', JObj [(''joined'', JObj [(''@a:hs'', JObj [])])]), (''hello'', JObj [(''body'', JStr ''hi'')]),
       (''secret'', JObj [(''ciphertext'', JStr ''x'')])])\<lparr>
     http_send := (\<lambda>rq w. (Inr \<lparr>rs_status = 200, rs_headers = [], rs_body = ''J''\<rparr>, w)),
     sdk_room_settings := (\<lambda>h r w. (Inr (Some \<lparr>st_algorithm = ''m.megolm.v1.aes-sha2'', st_only_trusted = False,
        st_rotation_period_ms = None, st_rotation_msgs = None\<rparr>), w)),
     sdk_encrypt := (\<lambda>h r t c w. (Inr ''secret'', w))\<rparr>"

definition sample_send :: client_request where
  "sample_send = \<lparr>rq_method = ''PUT'', rq_path = ''/_matrix/client/v3/rooms/!r/send/m.room.message/1'',
     rq_query = None, rq_headers = [], rq_body = ''hello''\<rparr>"

lemma pump_idle:
  "sdk_outgoing E (olm (acct s)) (world s) = (Inr [], world s) \<Longrightarrow>
    \<not> sdk_backup_enabled E (olm (acct s)) (world s) \<Longrightarrow> pump E s = Some (Inr (), s)"
  by (simp add: pump_def pump_loop.simps call_def upload_pending_backups_def look_def retE_def)

lemma send_env_idle: "pump send_env s = Some (Inr (), s)"
  by (rule pump_idle) (simp_all add: send_env_def ref_env_def)

lemma sample_send_bytes: "to_bytes (rq_body sample_send) max_send_bytes = Some ''hello''"
  by (simp add: to_bytes_def sample_send_def max_send_bytes_def)

lemma sample_send_run:
  "(case handle_send send_env sample_send ''!r'' ''m.room.message'' ''1'' ref_ctx of
      None \<Rightarrow> [] | Some (r, t) \<Rightarrow> map hr_body (trace t)) = [[], [], ''secret'']"
  unfolding handle_send_def wire_content_def encrypt_content_def prepare_room_def bindP_def mapErrP_def
    look_def send_env_idle sample_send_bytes
  by code_simp

lemma sample_send_known:
  "(case is_room_encrypted send_env ''!r'' ref_ctx of (r, t) \<Rightarrow> r = Inr True \<and> trace t = [])"
  by code_simp

theorem send_fails_closed_witness:
  "\<exists>r t s0 res s1. handle_send send_env sample_send ''!r'' ''m.room.message'' ''1'' ref_ctx = Some (r, t) \<and>
    map hr_body (trace t) = [[], [], ''secret''] \<and>
    (trace t = [] \<or> prepare_room send_env ''!r'' s0 = Some (res, s1) \<and> prefix (trace s1) (trace t))"
proof -
  obtain r t where h: "handle_send send_env sample_send ''!r'' ''m.room.message'' ''1'' ref_ctx = Some (r, t)"
    and bodies: "map hr_body (trace t) = [[], [], ''secret'']"
    using sample_send_run by (auto split: option.splits)
  obtain s0 where k: "is_room_encrypted send_env ''!r'' ref_ctx = (Inr True, s0)" "trace s0 = []"
    using sample_send_known by (auto split: prod.splits)
  have ok: "is_room_id (env_codec send_env) ''!r''" "''m.room.message'' \<noteq> ''m.room.encrypted''" "Inr True \<noteq> Inr False"
    by (simp_all add: send_env_def ref_env_def ref_codec_def)
  show ?thesis
    using send_fails_closed [OF ok(1,2) k(1) ok(3) h] h bodies k(2)
    by (elim disjE exE conjE) (metis prefixI prefix_order.refl)+
qed

end
