(* ===== verification/Verify.thy ===== *)
theory Verify
  imports Encrypt
begin

text \<open>
  Interactive verification (\<open>src/src/crypto/verify.rs\<close>). The flows live in the crypto
  machine; a \<open>VerificationRequest\<close> or a \<open>Sas\<close> is a handle whose state is read afresh each
  time, so the environment of this component, an extension of \<open>env\<close>, answers questions about
  handles. Holding sync processing back is not modelled: functions run without interleaving.
\<close>

section \<open>What the verification machine tells\<close>

datatype outgoing_verification =
    VToDevice to_device_request
  | VInRoom room_message_request

record cancel_info =
  ci_reason :: string
  ci_code :: string
  ci_by_us :: bool

text \<open>A request: \<open>vq_requested\<close> is whether its state is \<open>VerificationRequestState::Requested\<close>.\<close>

record verification_view =
  vq_flow_id :: string
  vq_other_user :: string
  vq_other_device :: "string option"
  vq_we_started :: bool
  vq_ready :: bool
  vq_done :: bool
  vq_passive :: bool
  vq_cancelled :: bool
  vq_cancel_info :: "cancel_info option"
  vq_their_methods :: "string list option"
  vq_state :: string
  vq_requested :: bool

record sas_view =
  sv_emoji :: "(string \<times> string) list option"
  sv_supports_emoji :: bool
  sv_decimals :: "(16 word \<times> 16 word \<times> 16 word) option"
  sv_other_device :: string
  sv_we_started :: bool
  sv_accepted :: bool
  sv_confirmed :: bool
  sv_done :: bool
  sv_cancelled :: bool
  sv_presentable :: bool
  sv_cancel_info :: "cancel_info option"

datatype verification = SasV1 string | OtherVerification

record device =
  dev_id :: string
  dev_display_name :: "string option"
  dev_ed25519 :: "string option"
  dev_verified :: bool
  dev_cross_signed :: bool
  dev_locally_trusted :: bool
  dev_blacklisted :: bool
  dev_keys :: json

record 'w venv = "'w env" +
  \<comment> \<open>the order in which a hash set is iterated over\<close>
  set_order :: "string set \<Rightarrow> string list"
  sdk_requests :: "string \<Rightarrow> string \<Rightarrow> 'w \<Rightarrow> string list"
  sdk_request :: "string \<Rightarrow> string \<Rightarrow> string \<Rightarrow> 'w \<Rightarrow> string option"
  sdk_verification :: "string \<Rightarrow> string \<Rightarrow> string \<Rightarrow> 'w \<Rightarrow> verification option"
  request_view :: "string \<Rightarrow> 'w \<Rightarrow> verification_view"
  sas_state :: "string \<Rightarrow> 'w \<Rightarrow> sas_view"
  request_accept :: "string \<Rightarrow> 'w \<Rightarrow> outgoing_verification option \<times> 'w"
  request_cancel :: "string \<Rightarrow> 'w \<Rightarrow> outgoing_verification option \<times> 'w"
  request_start_sas :: "string \<Rightarrow> ('w, (string \<times> outgoing_verification) option) api"
  sas_do_accept :: "string \<Rightarrow> 'w \<Rightarrow> outgoing_verification option \<times> 'w"
  sas_do_confirm :: "string \<Rightarrow> ('w, outgoing_verification list \<times> json option) api"
  sas_cancel_with :: "string \<Rightarrow> string \<Rightarrow> 'w \<Rightarrow> outgoing_verification option \<times> 'w"
  sdk_device :: "string \<Rightarrow> string \<Rightarrow> string \<Rightarrow> ('w, device option) api"
  sdk_request_verification :: "string \<Rightarrow> string \<Rightarrow> string \<Rightarrow> 'w \<Rightarrow> (string \<times> outgoing_verification) \<times> 'w"
  format_emojis :: "(string \<times> string) list \<Rightarrow> string"
  \<comment> \<open>milliseconds go by\<close>
  sleep :: "nat \<Rightarrow> 'w \<Rightarrow> 'w"

text \<open>A call of the environment that cannot fail.\<close>

definition sdk_step :: "('w \<Rightarrow> 'a \<times> 'w) \<Rightarrow> ('w, 'z) proxy_scheme \<Rightarrow> ('e + 'a) \<times> ('w, 'z) proxy_scheme" where
  "sdk_step f s = (case f (world s) of (x, w) \<Rightarrow> (Inr x, s\<lparr>world := w\<rparr>))"

lemmas [effect_simps] = sdk_step_def

section \<open>Summaries\<close>

definition jopt :: "('a \<Rightarrow> json) \<Rightarrow> 'a option \<Rightarrow> json" where
  "jopt f v = (case v of None \<Rightarrow> JNull | Some x \<Rightarrow> f x)"

definition jnat :: "nat \<Rightarrow> json" where
  "jnat n = JNum (PosInt (of_nat n))"

definition cancel_summary :: "cancel_info \<Rightarrow> json" where
  "cancel_summary i = mk_obj [(''reason'', JStr (ci_reason i)), (''code'', JStr (ci_code i)),
     (''cancelled_by_us'', JBool (ci_by_us i))]"

definition request_summary :: "verification_view \<Rightarrow> json" where
  "request_summary r = mk_obj
     [(''flow_id'', JStr (vq_flow_id r)),
      (''other_user'', JStr (vq_other_user r)),
      (''other_device'', jopt JStr (vq_other_device r)),
      (''we_started'', JBool (vq_we_started r)),
      (''is_ready'', JBool (vq_ready r)),
      (''is_done'', JBool (vq_done r)),
      (''is_passive'', JBool (vq_passive r)),
      (''is_cancelled'', JBool (vq_cancelled r)),
      (''cancel_info'', jopt cancel_summary (vq_cancel_info r)),
      (''their_methods'', jopt (\<lambda>ms. JArr (map JStr ms)) (vq_their_methods r)),
      (''state'', JStr (vq_state r))]"

definition emoji_summary :: "('w, 'y) venv_scheme \<Rightarrow> (string \<times> string) list \<Rightarrow> json" where
  "emoji_summary E es = mk_obj
     [(''symbols'', JArr (map (JStr \<circ> fst) es)), (''descriptions'', JArr (map (JStr \<circ> snd) es)),
      (''formatted'', JStr (format_emojis E es))]"

definition sas_summary :: "('w, 'y) venv_scheme \<Rightarrow> sas_view \<Rightarrow> json" where
  "sas_summary E v =
     (let emoji = (if sv_supports_emoji v then sv_emoji v else None) in
      mk_obj
       [(''emoji'', jopt (emoji_summary E) emoji),
        (''decimals'', jopt (\<lambda>(a, b, c). JArr (map (JNum \<circ> PosInt \<circ> ucast) [a, b, c])) (sv_decimals v)),
        (''other_device'', JStr (sv_other_device v)),
        (''we_started'', JBool (sv_we_started v)),
        (''has_been_accepted'', JBool (sv_accepted v)),
        (''have_we_confirmed'', JBool (sv_confirmed v)),
        (''is_done'', JBool (sv_done v)),
        (''is_cancelled'', JBool (sv_cancelled v)),
        (''can_be_presented'', JBool (sv_presentable v)),
        (''cancel_info'', jopt cancel_summary (sv_cancel_info v))])"

text \<open>Where a flow stands, as one word.\<close>

definition stage :: "verification_view \<Rightarrow> sas_view option \<Rightarrow> string" where
  "stage r sas =
     (if vq_cancelled r \<or> (case sas of None \<Rightarrow> False | Some v \<Rightarrow> sv_cancelled v) then ''cancelled''
      else if vq_done r \<or> (case sas of None \<Rightarrow> False | Some v \<Rightarrow> sv_done v) then ''done''
      else (case sas of
          Some v \<Rightarrow>
            if \<not> sv_we_started v \<and> \<not> sv_accepted v then ''sas_incoming''
            else if sv_confirmed v then ''confirmed''
            else if sv_presentable v then ''compare''
            else ''key_exchange''
        | None \<Rightarrow>
            if vq_ready r then ''ready''
            else if vq_we_started r then ''outgoing''
            else ''incoming''))"

definition active_sas :: "('w, 'y) venv_scheme \<Rightarrow> string \<Rightarrow> 'w ctx \<Rightarrow> string option" where
  "active_sas E request s =
     (let r = request_view E request (world s) in
      case sdk_verification E (olm (acct s)) (vq_other_user r) (vq_flow_id r) (world s) of
        Some (SasV1 sas) \<Rightarrow> Some sas
      | _ \<Rightarrow> None)"

definition flow_summary :: "('w, 'y) venv_scheme \<Rightarrow> string \<Rightarrow> 'w ctx \<Rightarrow> json" where
  "flow_summary E request s =
     (let r = request_view E request (world s);
          sas = map_option (\<lambda>h. sas_state E h (world s)) (active_sas E request s);
          summary = jput ''stage'' (JStr (stage r sas)) (request_summary r)
      in case sas of
           None \<Rightarrow> summary
         | Some v \<Rightarrow>
             (let summary1 = jput ''sas'' (sas_summary E v) summary
              in if idx summary1 ''other_device'' = JNull
                 then jput ''other_device'' (JStr (sv_other_device v)) summary1 else summary1))"

section \<open>Finished flows\<close>

definition note_finished :: "('w, 'y) venv_scheme \<Rightarrow> string \<Rightarrow> ('w, unit) eff" where
  "note_finished E request = look (\<lambda>s.
     let r = request_view E request (world s) in
     if vq_done r \<or> vq_cancelled r then
       writes (on_log (log_record (vq_flow_id r) (jput ''finished'' (JBool True) (flow_summary E request s))))
     else retE ())"

definition record_finished :: "('w, 'y) venv_scheme \<Rightarrow> ('w, unit) eff" where
  "record_finished E = look (\<lambda>s.
     each (\<lambda>user. each (note_finished E) (sdk_requests E (olm (acct s)) user (world s)))
       (set_order E (vl_users (verifications (acct s))) @ [user_id (acct s)]))"

section \<open>Operations\<close>

fun send_verification_request :: "('w, 'y) venv_scheme \<Rightarrow> outgoing_verification \<Rightarrow> ('w, unit) effP" where
  "send_verification_request E (VToDevice r) = liftP (send_to_device E r)"
| "send_verification_request E (VInRoom r) = send_room_message_request E r"

definition send_if_any :: "('w, 'y) venv_scheme \<Rightarrow> outgoing_verification option \<Rightarrow> ('w, unit) effP" where
  "send_if_any E v = (case v of None \<Rightarrow> liftP (retE ()) | Some r \<Rightarrow> send_verification_request E r)"

text \<open>A long dash, in UTF-8.\<close>

definition em_dash :: string where
  "em_dash = [CHR 0xE2, CHR 0x80, CHR 0x94]"

definition no_flow :: "string \<Rightarrow> string \<Rightarrow> error" where
  "no_flow user flow = Msg (''no verification flow '' @ flow @ '' with '' @ user)"

definition get_request :: "('w, 'y) venv_scheme \<Rightarrow> string \<Rightarrow> string \<Rightarrow> ('w, string) eff" where
  "get_request E user flow = look (\<lambda>s.
     okOr (no_flow user flow) (sdk_request E (olm (acct s)) user flow (world s)))"

definition get_sas :: "('w, 'y) venv_scheme \<Rightarrow> string \<Rightarrow> string \<Rightarrow> ('w, string) eff" where
  "get_sas E user flow = look (\<lambda>s.
     case sdk_verification E (olm (acct s)) user flow (world s) of
       Some (SasV1 sas) \<Rightarrow> retE sas
     | Some OtherVerification \<Rightarrow> failE (Msg (''flow '' @ flow @ '' is not a SAS verification''))
     | None \<Rightarrow> failE (Msg (''flow '' @ flow @
         '' has no active SAS yet (accept it first, then start-sas '' @ em_dash @
         '' or wait for the other side to choose emoji verification)'')))"

definition summary_of :: "('w, 'y) venv_scheme \<Rightarrow> string \<Rightarrow> ('w, json) eff" where
  "summary_of E request = look (\<lambda>s. retE (flow_summary E request s))"

definition verify_list :: "('w, 'y) venv_scheme \<Rightarrow> string \<Rightarrow> ('w, json) eff" where
  "verify_list E user =
     bindE (writes (on_log (log_watch user))) (\<lambda>_.
     bindE (record_finished E) (\<lambda>_. look (\<lambda>s.
     retE (mk_obj
       [(''requests'', JArr (map (\<lambda>r. flow_summary E r s) (sdk_requests E (olm (acct s)) user (world s)))),
        (''finished'', JArr (log_all (verifications (acct s))))]))))"

definition verify_start :: "('w, 'y) venv_scheme \<Rightarrow> string \<Rightarrow> ('w, json) effP" where
  "verify_start E dev = look (\<lambda>s.
     bindP (liftP (call (sdk_device E (olm (acct s)) (user_id (acct s)) dev))) (\<lambda>d.
     bindP (liftP (okOr (Msg (''device '' @ dev @ '' not found (has it queried keys yet?)'')) d)) (\<lambda>_.
     bindP (liftP (sdk_step (sdk_request_verification E (olm (acct s)) (user_id (acct s)) dev))) (\<lambda>(request, outgoing).
     bindP (send_verification_request E outgoing) (\<lambda>_.
     liftP (summary_of E request))))))"

text \<open>Holding \<open>done\<close> back until the other device reads as trusted, for forty rounds at most.\<close>

fun settle_rounds :: "('w, 'y) venv_scheme \<Rightarrow> string \<Rightarrow> string \<Rightarrow> nat \<Rightarrow> ('w, unit) eff" where
  "settle_rounds E user dev 0 = retE ()"
| "settle_rounds E user dev (Suc n) = look (\<lambda>s.
     bindE (attempt (call (sdk_device E (olm (acct s)) user dev))) (\<lambda>d.
     if (case d of Inr (Some v) \<Rightarrow> dev_locally_trusted v \<or> dev_verified v | _ \<Rightarrow> False) then retE ()
     else bindE (sdk_step (\<lambda>w. ((), sleep E 50 w))) (\<lambda>_. settle_rounds E user dev n)))"

definition settle :: "('w, 'y) venv_scheme \<Rightarrow> string \<Rightarrow> json \<Rightarrow> ('w, unit) eff" where
  "settle E user summary =
     (if idx summary ''stage'' \<noteq> JStr ''done'' then retE ()
      else (case as_str (idx summary ''other_device'') of
          None \<Rightarrow> retE ()
        | Some dev \<Rightarrow> settle_rounds E user dev 40))"

definition verify_show :: "('w, 'y) venv_scheme \<Rightarrow> string \<Rightarrow> string \<Rightarrow> ('w, json) eff" where
  "verify_show E user flow =
     bindE (writes (on_log (log_watch user))) (\<lambda>_.
     bindE (record_finished E) (\<lambda>_. look (\<lambda>s.
     bindE (case sdk_request E (olm (acct s)) user flow (world s) of
         Some request \<Rightarrow> summary_of E request
       | None \<Rightarrow> okOr (no_flow user flow) (log_get flow (verifications (acct s)))) (\<lambda>summary.
     bindE (settle E user summary) (\<lambda>_.
     retE summary)))))"

text \<open>The step that needs no human, by the stage the flow is in.\<close>

definition advance_step :: "('w, 'y) venv_scheme \<Rightarrow> string \<Rightarrow> bool \<Rightarrow> ('w, unit) effP" where
  "advance_step E request start_sas = look (\<lambda>s.
     let r = request_view E request (world s);
         sas = active_sas E request s;
         st = stage r (map_option (\<lambda>h. sas_state E h (world s)) sas)
     in if st = ''incoming'' then
          (if vq_requested r then bindP (liftP (sdk_step (request_accept E request))) (send_if_any E)
           else liftP (retE ()))
        else if st = ''ready'' \<and> (vq_we_started r \<or> start_sas) then
          bindP (liftP (call (request_start_sas E request))) (\<lambda>v. send_if_any E (map_option snd v))
        else if st = ''sas_incoming'' then
          (case sas of
             None \<Rightarrow> liftP (retE ())
           | Some h \<Rightarrow> bindP (liftP (sdk_step (sas_do_accept E h))) (send_if_any E))
        else liftP (retE ()))"

definition verify_advance :: "('w, 'y) venv_scheme \<Rightarrow> string \<Rightarrow> string \<Rightarrow> bool \<Rightarrow> ('w, json) effP" where
  "verify_advance E user flow start_sas =
     bindP (liftP (writes (on_log (log_watch user)))) (\<lambda>_. look (\<lambda>s.
     case sdk_request E (olm (acct s)) user flow (world s) of
       None \<Rightarrow> liftP (verify_show E user flow)
     | Some request \<Rightarrow>
         bindP (advance_step E request start_sas) (\<lambda>_.
         bindP (liftP (record_finished E)) (\<lambda>_.
         liftP (verify_show E user flow)))))"

definition verify_accept :: "('w, 'y) venv_scheme \<Rightarrow> string \<Rightarrow> string \<Rightarrow> ('w, json) effP" where
  "verify_accept E user flow =
     bindP (liftP (get_request E user flow)) (\<lambda>request.
     bindP (liftP (sdk_step (request_accept E request))) (\<lambda>v.
     bindP (liftP (okOr (Msg ''flow cannot be accepted in its current state'') v)) (\<lambda>outgoing.
     bindP (send_verification_request E outgoing) (\<lambda>_.
     liftP (summary_of E request)))))"

definition verify_start_sas :: "('w, 'y) venv_scheme \<Rightarrow> string \<Rightarrow> string \<Rightarrow> ('w, json) effP" where
  "verify_start_sas E user flow =
     bindP (liftP (get_request E user flow)) (\<lambda>request.
     bindP (liftP (call (request_start_sas E request))) (\<lambda>v.
     bindP (liftP (okOr (Msg ''flow is not ready for SAS (accept it on both sides first)'') v)) (\<lambda>(_, outgoing).
     bindP (send_verification_request E outgoing) (\<lambda>_.
     liftP (summary_of E request)))))"

definition sas_accept :: "('w, 'y) venv_scheme \<Rightarrow> string \<Rightarrow> string \<Rightarrow> ('w, json) effP" where
  "sas_accept E user flow =
     bindP (liftP (get_sas E user flow)) (\<lambda>sas.
     bindP (liftP (sdk_step (sas_do_accept E sas))) (\<lambda>v.
     bindP (send_if_any E v) (\<lambda>_.
     liftP (verify_show E user flow))))"

definition upload_signatures :: "('w, 'y) env_scheme \<Rightarrow> string \<Rightarrow> json \<Rightarrow> ('w, unit) eff" where
  "upload_signatures E failed keys = look (\<lambda>s.
     bindE (json_request E ''POST'' ''/_matrix/client/v3/keys/signatures/upload'' (token (acct s)) (Some keys))
       (\<lambda>(status, body).
         if \<not> is_success status then failE (Msg (show_answer E failed (status, body))) else retE ()))"

definition verify_confirm :: "('w, 'y) venv_scheme \<Rightarrow> string \<Rightarrow> string \<Rightarrow> ('w, json) effP" where
  "verify_confirm E user flow =
     bindP (liftP (get_sas E user flow)) (\<lambda>sas.
     bindP (liftP (call (sas_do_confirm E sas))) (\<lambda>(outgoing, signature_upload).
     bindP (liftP (record_finished E)) (\<lambda>_.
     bindP (eachP (send_verification_request E) outgoing) (\<lambda>_.
     bindP (liftP (case signature_upload of
         None \<Rightarrow> retE ()
       | Some keys \<Rightarrow> upload_signatures E ''signature upload after verification failed: '' keys)) (\<lambda>_.
     bindP (pump E) (\<lambda>_.
     bindP (liftP (record_finished E)) (\<lambda>_.
     liftP (verify_show E user flow))))))))"

definition verify_mismatch :: "('w, 'y) venv_scheme \<Rightarrow> string \<Rightarrow> string \<Rightarrow> ('w, json) effP" where
  "verify_mismatch E user flow =
     bindP (liftP (get_sas E user flow)) (\<lambda>sas.
     bindP (liftP (sdk_step (sas_cancel_with E sas ''m.mismatched_sas''))) (\<lambda>v.
     bindP (liftP (record_finished E)) (\<lambda>_.
     bindP (send_if_any E v) (\<lambda>_.
     liftP (verify_show E user flow)))))"

definition verify_cancel :: "('w, 'y) venv_scheme \<Rightarrow> string \<Rightarrow> string \<Rightarrow> ('w, json) effP" where
  "verify_cancel E user flow =
     bindP (liftP (get_request E user flow)) (\<lambda>request.
     bindP (liftP (sdk_step (request_cancel E request))) (\<lambda>v.
     bindP (liftP (record_finished E)) (\<lambda>_.
     bindP (send_if_any E v) (\<lambda>_.
     liftP (verify_show E user flow)))))"

section \<open>What is noted of finished flows\<close>

lemma on_log_simps [simp]:
  "world (on_log f s) = world s" "trace (on_log f s) = trace s" "tasks (on_log f s) = tasks s"
  "sessions (on_log f s) = sessions s"
  "acct (on_log f s) = (acct s)\<lparr>verifications := f (verifications (acct s))\<rparr>"
  "on_log f (on_log g s) = on_log (f \<circ> g) s" "on_log (\<lambda>l. l) s = s"
  by (simp_all add: on_log_def)

lemma active_sas_on_log [simp]: "active_sas E h (on_log f s) = active_sas E h s"
  by (simp add: active_sas_def)

lemma flow_summary_on_log [simp]: "flow_summary E h (on_log f s) = flow_summary E h s"
  by (simp add: flow_summary_def)

text \<open>The entries \<open>record_finished\<close> makes, in its order.\<close>

definition finished_of :: "('w, 'y) venv_scheme \<Rightarrow> 'w ctx \<Rightarrow> string list \<Rightarrow> (string \<times> json) list" where
  "finished_of E s hs =
     map (\<lambda>h. (vq_flow_id (request_view E h (world s)), jput ''finished'' (JBool True) (flow_summary E h s)))
       (filter (\<lambda>h. vq_done (request_view E h (world s)) \<or> vq_cancelled (request_view E h (world s))) hs)"

definition finished_entries :: "('w, 'y) venv_scheme \<Rightarrow> 'w ctx \<Rightarrow> (string \<times> json) list" where
  "finished_entries E s = finished_of E s
     (concat (map (\<lambda>user. sdk_requests E (olm (acct s)) user (world s))
        (set_order E (vl_users (verifications (acct s))) @ [user_id (acct s)])))"

lemma finished_of_on_log [simp]: "finished_of E (on_log f s) hs = finished_of E s hs"
  by (simp add: finished_of_def)

lemma vl_fill_eq: "vl.fill kvs = fold (\<lambda>(k, v). log_record k v) kvs"
  by (simp add: vl.fill_def fun_eq_iff)

lemma fill_append: "vl.fill (xs @ ys) = vl.fill ys \<circ> vl.fill xs"
  by (simp add: vl_fill_eq)

lemma each_note_finished:
  "each (note_finished E) hs s = (Inr (), on_log (vl.fill (finished_of E s hs)) s)"
proof (induction hs arbitrary: s)
  case (Cons h hs)
  have "note_finished E h s = (Inr (), on_log (vl.fill (finished_of E s [h])) s)"
    by (auto simp: note_finished_def finished_of_def look_def writes_def retE_def Let_def vl_fill_eq id_def comp_def)
  then have "each (note_finished E) (h # hs) s =
      (Inr (), on_log (vl.fill (finished_of E s hs) \<circ> vl.fill (finished_of E s [h])) s)"
    by (simp add: Cons.IH)
  also have "vl.fill (finished_of E s hs) \<circ> vl.fill (finished_of E s [h]) = vl.fill (finished_of E s (h # hs))"
    by (simp add: fill_append [symmetric] finished_of_def)
  finally show ?case .
qed (simp add: retE_def vl_fill_eq finished_of_def id_def)

lemma record_finished_eq:
  fixes s :: "'w ctx"
  shows "record_finished E s = (Inr (), on_log (vl.fill (finished_entries E s)) s)"
proof -
  have "each (\<lambda>user. each (note_finished E) (f user)) us s =
      (Inr (), on_log (vl.fill (finished_of E s (concat (map f us)))) s)" for f us and s :: "'w ctx"
  proof (induction us arbitrary: s)
    case (Cons u us)
    have "each (\<lambda>user. each (note_finished E) (f user)) (u # us) s =
        (Inr (), on_log (vl.fill (finished_of E s (concat (map f us))) \<circ> vl.fill (finished_of E s (f u))) s)"
      by (simp add: each_note_finished Cons.IH)
    also have "vl.fill (finished_of E s (concat (map f us))) \<circ> vl.fill (finished_of E s (f u)) =
        vl.fill (finished_of E s (concat (map f (u # us))))"
      by (simp add: fill_append [symmetric] finished_of_def)
    finally show ?case .
  qed (simp add: retE_def vl_fill_eq finished_of_def id_def)
  from this [of "\<lambda>user. sdk_requests E (olm (acct s)) user (world s)"] show ?thesis
    by (simp only: record_finished_def look_def finished_entries_def)
qed

lemma log_record_sub:
  "log_get j (log_record k v l) = Some x \<Longrightarrow> (j = k \<and> x = v) \<or> log_get j l = Some x"
  by (auto simp: log_record_def log_get_def Let_def update_conv' delete_conv' fun_upd_def
      split: if_splits list.splits)

lemma log_fill_sub:
  "log_get j (vl.fill kvs l) = Some x \<Longrightarrow> (j, x) \<in> set kvs \<or> log_get j l = Some x"
proof (induction kvs arbitrary: l)
  case (Cons kv kvs)
  then show ?case
    by (cases kv) (auto dest!: Cons.IH log_record_sub)
qed simp

lemma log_fill_known:
  assumes ok: "log_ok l" and new: "k \<notin> set (vl_order l)" and few: "length kvs \<le> 32"
    and k: "k \<in> fst ` set kvs"
  shows "\<exists>x. log_get k (vl.fill kvs l) = Some x \<and> (k, x) \<in> set kvs"
proof -
  from k have "\<exists>p \<in> set kvs. fst p = k" by auto
  then obtain xs kv ys where kvs: "kvs = xs @ kv # ys" "fst kv = k" and xs: "\<forall>p \<in> set xs. fst p \<noteq> k"
    by (rule split_list_first_propE)
  obtain v where kv: "kv = (k, v)" using kvs(2) by (cases kv) auto
  let ?l = "vl.fill xs l"
  have okl: "log_ok ?l" by (rule vl.inv_fill [OF ok])
  have "log_get k l = None"
    using log_known [OF ok] new by (simp add: log_get_def)
  then have "log_get k ?l = None"
    using log_fill_sub [of k xs l] xs by (cases "log_get k ?l") auto
  then have "k \<notin> set (vl_order ?l)"
    using log_known [OF okl] by (simp add: log_get_def)
  then have "k \<in> set (vl_order (vl.fill ys (log_record k v ?l)))"
    using vl.recent_kept [OF okl] few by (simp add: kvs max_finished_def)
  moreover have fill: "vl.fill kvs l = vl.fill ys (log_record k v ?l)"
    by (simp add: kvs kv fill_append)
  ultimately have "log_get k (vl.fill kvs l) \<noteq> None"
    using log_known [OF vl.inv_fill [OF ok], of kvs k] by (simp add: log_get_def)
  then show ?thesis
    using log_fill_sub [of k kvs l] \<open>log_get k l = None\<close> by fastforce
qed

lemma flow_summary_id:
  "get ''flow_id'' (flow_summary E h s) = Some (JStr (vq_flow_id (request_view E h (world s))))"
  "is_object (flow_summary E h s)"
proof -
  have base: "get ''flow_id'' (request_summary r) = Some (JStr (vq_flow_id r))" "is_object (request_summary r)" for r
    by (simp_all add: request_summary_def get_mk_obj is_object_iff mk_obj_def)
  have obj: "is_object (jput k x j) = is_object j" for k x j
    by (simp add: is_object_def)
  show "get ''flow_id'' (flow_summary E h s) = Some (JStr (vq_flow_id (request_view E h (world s))))"
    "is_object (flow_summary E h s)"
    by (simp_all add: flow_summary_def Let_def get_jput obj base split: option.split)
qed

text \<open>What a later call does to the log when the machine has no flows any more.\<close>

lemma record_finished_none:
  assumes "\<And>user. sdk_requests E (olm (acct s)) user (world s) = []"
  shows "record_finished E s = (Inr (), s)"
proof -
  have "finished_entries E s = []"
    by (simp add: finished_entries_def finished_of_def filter_empty_conv assms)
  then show ?thesis
    by (simp add: record_finished_eq vl_fill_eq id_def)
qed

text \<open>Steps that neither send nor touch the account.\<close>

definition quiet :: "'w ctx \<Rightarrow> 'w ctx \<Rightarrow> bool" where
  "quiet s t \<longleftrightarrow> trace t = trace s \<and> acct t = acct s"

interpretation quiet: stepwise quiet
  by unfold_locales (simp_all add: quiet_def)

lemma quiet_call: "does quiet (call f)"
  by (rule doesI) (simp add: quiet_def call_frame)

lemma quiet_attempt: "does quiet m \<Longrightarrow> does quiet (attempt m)"
  unfolding does_def attempt_def by (auto split: prod.splits)

lemma quiet_sdk_step: "does quiet (sdk_step f)"
  by (rule doesI) (auto simp: quiet_def sdk_step_def split: prod.splits)

lemma quiet_settle: "does quiet (settle E user summary)"
proof -
  have rounds: "does quiet (settle_rounds E user dev n)" for dev n
    by (induction n)
      (simp_all add: quiet.does_intros quiet_call quiet_attempt quiet_sdk_step)
  show ?thesis unfolding settle_def by (intro quiet.does_intros rounds)
qed

lemma infallible_settle: "\<exists>t. settle E user summary s = (Inr (), t)"
proof -
  have "\<exists>t. settle_rounds E user dev n s = (Inr (), t)" for dev n s
  proof (induction n arbitrary: s)
    case (Suc n)
    obtain d s1 where d: "call (sdk_device E (olm (acct s)) user dev) s = (d, s1)" by fastforce
    show ?case
      using Suc.IH by (auto simp: look_def bindE_def attempt_def d retE_def sdk_step_def)
  qed (simp add: retE_def)
  then show ?thesis by (auto simp: settle_def retE_def split: option.split)
qed

text \<open>
  How a flow ended can still be asked for after the crypto machine has forgotten it: once a
  flow that has just ended was noted, \<open>show\<close> answers with its summary, marked as finished,
  sends nothing, and asks the machine for no flow it no longer has.
\<close>

theorem finished_flow_answered:
  assumes ok: "log_ok (verifications (acct s))"
    and user: "user \<in> set (set_order E (vl_users (verifications (acct s))) @ [user_id (acct s)])"
    and h: "h \<in> set (sdk_requests E (olm (acct s)) user (world s))"
    and ended: "vq_done (request_view E h (world s)) \<or> vq_cancelled (request_view E h (world s))"
    and new: "vq_flow_id (request_view E h (world s)) \<notin> set (vl_order (verifications (acct s)))"
    and few: "length (finished_entries E s) \<le> 32"
    and noted: "record_finished E s = (x, t)" and later: "acct u = acct t"
    and gone: "\<And>user. sdk_requests E (olm (acct u)) user (world u) = []"
      "\<And>user flow. sdk_request E (olm (acct u)) user flow (world u) = None"
  shows "\<exists>summary u'. verify_show E with_user (vq_flow_id (request_view E h (world s))) u = (Inr summary, u') \<and>
    get_str ''flow_id'' summary = Some (vq_flow_id (request_view E h (world s))) \<and>
    get ''finished'' summary = Some (JBool True) \<and> trace u' = trace u"
proof -
  let ?flow = "vq_flow_id (request_view E h (world s))"
  have "?flow \<in> fst ` set (finished_entries E s)"
    using user h ended by (force simp: finished_entries_def finished_of_def)
  then obtain v where v: "log_get ?flow (vl.fill (finished_entries E s) (verifications (acct s))) = Some v"
    "(?flow, v) \<in> set (finished_entries E s)"
    using log_fill_known [OF ok new few] by blast
  then obtain h' where "?flow = vq_flow_id (request_view E h' (world s))"
    "v = jput ''finished'' (JBool True) (flow_summary E h' s)"
    by (auto simp: finished_entries_def finished_of_def)
  then have summary: "get_str ''flow_id'' v = Some ?flow" "get ''finished'' v = Some (JBool True)"
    using flow_summary_id [of E h' s] by (simp_all add: get_str_def get_jput)
  let ?u = "on_log (log_watch with_user) u"
  have "verifications (acct u) = vl.fill (finished_entries E s) (verifications (acct s))"
    using noted later by (auto simp: record_finished_eq)
  then have known: "log_get ?flow (verifications (acct ?u)) = Some v"
    using v(1) by (simp add: log_get_def log_watch_def)
  obtain u' where settled: "settle E with_user v ?u = (Inr (), u')"
    using infallible_settle by blast
  have "record_finished E ?u = (Inr (), ?u)"
    by (rule record_finished_none) (simp add: gone(1))
  then have "verify_show E with_user ?flow u = (Inr v, u')"
    using known settled gone(2)
    by (simp add: verify_show_def bindE_def writes_def look_def okOr_def retE_def)
  moreover have "trace u' = trace u"
    using doesD [OF quiet_settle settled] by (simp add: quiet_def)
  ultimately show ?thesis using summary by blast
qed

section \<open>What advancing does not do\<close>

text \<open>The stage of a flow as it stands.\<close>

definition flow_stage :: "('w, 'y) venv_scheme \<Rightarrow> string \<Rightarrow> 'w ctx \<Rightarrow> string" where
  "flow_stage E h s = stage (request_view E h (world s))
     (map_option (\<lambda>k. sas_state E k (world s)) (active_sas E h s))"

lemma flow_summary_stage: "idx (flow_summary E h s) ''stage'' = JStr (flow_stage E h s)"
proof -
  have obj: "is_object (jput k x j) = is_object j" "is_object (request_summary r)" for k x j r
    by (simp_all add: is_object_def request_summary_def mk_obj_def)
  show ?thesis
    by (simp add: idx_def flow_summary_def flow_stage_def Let_def get_jput obj split: option.split)
qed

lemma flow_stage_on_log [simp]: "flow_stage E h (on_log f s) = flow_stage E h s"
  by (simp add: flow_stage_def)

lemma verify_show_active:
  assumes "sdk_request E (olm (acct s)) user flow (world s) = Some h"
    and "verify_show E user flow s = (r, t)"
  shows "r = Inr (flow_summary E h s) \<and> trace t = trace s \<and>
    (flow_stage E h s \<noteq> ''done'' \<longrightarrow> world t = world s)"
proof -
  obtain f where rf: "record_finished E (on_log (log_watch user) s) = (Inr (), on_log f s)"
    by (simp add: record_finished_eq)
  let ?v = "flow_summary E h s"
  obtain u where u: "settle E user ?v (on_log f s) = (Inr (), u)"
    using infallible_settle by blast
  have "flow_stage E h s \<noteq> ''done'' \<Longrightarrow> u = on_log f s"
    using u by (simp add: settle_def flow_summary_stage retE_def)
  moreover have "trace u = trace s"
    using doesD [OF quiet_settle u] by (simp add: quiet_def)
  moreover have "r = Inr ?v \<and> t = u"
    using assms rf u by (auto simp: verify_show_def bindE_def writes_def look_def summary_of_def retE_def)
  ultimately show ?thesis by auto
qed

lemma advance_step_idle:
  "flow_stage E h s \<notin> {''incoming'', ''ready'', ''sas_incoming''} \<Longrightarrow> advance_step E h start s = Some (Inr (), s)"
  by (auto simp: advance_step_def look_def Let_def flow_stage_def liftP_def retE_def)

text \<open>
  C30: advancing a flow never answers the question whether the emoji match: in every stage but
  \<open>incoming\<close>, \<open>ready\<close> and \<open>sas_incoming\<close> it reports the flow as it stands and sends nothing,
  and while the emoji are to be compared it does not touch the crypto machine at all.
\<close>

theorem advance_waits_for_human:
  assumes "sdk_request E (olm (acct s)) user flow (world s) = Some h"
    and "flow_stage E h s \<notin> {''incoming'', ''ready'', ''sas_incoming''}"
    and "verify_advance E user flow start s = Some (r, t)"
  shows "r = Inr (flow_summary E h s) \<and> trace t = trace s \<and>
    (flow_stage E h s \<noteq> ''done'' \<longrightarrow> world t = world s)"
proof -
  let ?s = "on_log (log_watch user) s"
  have "advance_step E h start ?s = Some (Inr (), ?s)"
    using assms(2) by (intro advance_step_idle) simp
  moreover obtain f where "record_finished E ?s = (Inr (), on_log f s)"
    by (simp add: record_finished_eq)
  ultimately have "verify_show E user flow (on_log f s) = (r, t)"
    using assms(1,3) by (simp add: verify_advance_def bindP_def liftP_def writes_def look_def)
  from verify_show_active [OF _ this, of h] assms(1) show ?thesis by simp
qed

section \<open>Concrete runs\<close>

text \<open>No flows, no devices, nothing to do.\<close>

definition ref_request :: verification_view where
  "ref_request = \<lparr>vq_flow_id = ''f'', vq_other_user = ''@a:hs'', vq_other_device = None, vq_we_started = True,
     vq_ready = False, vq_done = False, vq_passive = False, vq_cancelled = False, vq_cancel_info = None,
     vq_their_methods = None, vq_state = ''Created'', vq_requested = False\<rparr>"

definition ref_sas :: sas_view where
  "ref_sas = \<lparr>sv_emoji = None, sv_supports_emoji = True, sv_decimals = None, sv_other_device = ''E'',
     sv_we_started = True, sv_accepted = True, sv_confirmed = False, sv_done = False, sv_cancelled = False,
     sv_presentable = True, sv_cancel_info = None\<rparr>"

definition ref_venv :: "(string \<times> json) list \<Rightarrow> 'w venv" where
  "ref_venv tbl = env.extend (ref_env tbl) (venv.fields
     sorted_list_of_set (\<lambda>h u w. []) (\<lambda>h u f w. None) (\<lambda>h u f w. None) (\<lambda>r w. ref_request) (\<lambda>r w. ref_sas)
     (\<lambda>r w. (None, w)) (\<lambda>r w. (None, w)) (\<lambda>r w. (Inr None, w)) (\<lambda>r w. (None, w)) (\<lambda>r w. (Inr ([], None), w))
     (\<lambda>r c w. (None, w)) (\<lambda>h u d w. (Inr None, w))
     (\<lambda>h u d w. ((''f'', VToDevice \<lparr>td_event_type = ''t'', td_txn_id = ''1'', td_messages = JObj []\<rparr>), w))
     (\<lambda>es. concat (map snd es)) (\<lambda>n w. w))"

text \<open>A machine with one cancelled flow in the world \<open>True\<close>, which it forgets in the world \<open>False\<close>.\<close>

definition forgetting_env :: "bool venv" where
  "forgetting_env = (ref_venv [])\<lparr>sdk_requests := (\<lambda>h u w. if w \<and> u = ''@a:hs'' then [''r''] else []),
     request_view := (\<lambda>r w. ref_request\<lparr>vq_cancelled := True\<rparr>)\<rparr>"

theorem finished_flow_answered_witness:
  "\<exists>x t. record_finished forgetting_env (ref_ctx_at True) = (x, t) \<and>
    (\<exists>summary u'. verify_show forgetting_env ''@a:hs'' ''f'' (t\<lparr>world := False\<rparr>) = (Inr summary, u') \<and>
      get ''finished'' summary = Some (JBool True))"
proof -
  let ?E = forgetting_env and ?s = "ref_ctx_at True :: bool ctx"
  obtain x t where r: "record_finished ?E ?s = (x, t)" by fastforce
  have acct: "acct (t\<lparr>world := False\<rparr>) = acct t" by simp
  have view: "request_view ?E h w = ref_request\<lparr>vq_cancelled := True\<rparr>" for h w
    by (simp add: forgetting_env_def)
  have reqs: "sdk_requests ?E h u w = (if w \<and> u = ''@a:hs'' then [''r''] else [])" for h u w
    by (simp add: forgetting_env_def)
  have order: "set_order ?E (vl_users (verifications (acct ?s))) = []"
    by (simp add: forgetting_env_def ref_venv_def env.defs venv.defs ref_ctx_at_def ref_account_def empty_log_def)
  have none: "sdk_request ?E h u f w = None" for h u f w
    by (simp add: forgetting_env_def ref_venv_def env.defs venv.defs)
  have acc: "user_id (acct ?s) = ''@a:hs''" "verifications (acct ?s) = empty_log" "world ?s = True"
    "vl_order empty_log = []"
    by (simp_all add: ref_ctx_at_def ref_account_def empty_log_def)
  have entries: "length (finished_entries ?E ?s) \<le> 32"
    unfolding finished_entries_def finished_of_def order by (simp add: acc reqs)
  show ?thesis
    using finished_flow_answered [of ?s "''@a:hs''" ?E "''r''", OF _ _ _ _ _ entries r acct, of "''@a:hs''"] r
    by (simp add: view reqs none acc ref_request_def log_ok_empty) blast
qed

text \<open>A flow whose emoji are on both screens.\<close>

definition comparing_env :: "unit venv" where
  "comparing_env = (ref_venv [])\<lparr>sdk_request := (\<lambda>h u f w. Some ''r''),
     sdk_verification := (\<lambda>h u f w. Some (SasV1 ''sas''))\<rparr>"

theorem advance_waits_for_human_witness:
  "\<exists>t. verify_advance comparing_env ''@a:hs'' ''f'' True ref_ctx =
      Some (Inr (flow_summary comparing_env ''r'' ref_ctx), t) \<and> trace t = []"
proof -
  let ?E = comparing_env
  have ext: "sdk_request ?E h u f w = Some ''r''" "sdk_verification ?E h u f w = Some (SasV1 ''sas'')"
    "sas_state ?E k w = ref_sas" "request_view ?E k w = ref_request" for h u f w k
    by (simp_all add: comparing_env_def ref_venv_def env.defs venv.defs)
  have st: "flow_stage ?E ''r'' s = ''compare''" for s
    by (simp add: flow_stage_def active_sas_def ext stage_def ref_sas_def ref_request_def)
  have "\<exists>r t. verify_advance ?E ''@a:hs'' ''f'' True ref_ctx = Some (r, t)"
    by (simp add: verify_advance_def bindP_def liftP_def writes_def look_def ext advance_step_idle st
        record_finished_eq)
  then obtain r t where run: "verify_advance ?E ''@a:hs'' ''f'' True ref_ctx = Some (r, t)" by blast
  show ?thesis
    using advance_waits_for_human [OF ext(1) _ run] run by (auto simp: st ref_ctx_def ref_ctx_at_def)
qed

end
