(* ===== verification/Decrypt.thy ===== *)
theory Decrypt
  imports Media
begin

text \<open>
  Decrypting what the homeserver delivers (\<open>src/src/crypto/decrypt.rs\<close>) and handing late
  repairs to the client (\<open>inject\<close> of \<open>src/src/crypto/repair.rs\<close>). Functions that rewrite a body
  in place return the new one. Appending a repair may panic on a body of an unexpected
  shape, so what may append one has an optional result.
\<close>

section \<open>One event\<close>

datatype placeholder = Repairable | Final

datatype decryption =
    Decrypted json
  | Undecryptable string "string option" json
  | Untouched

text \<open>The closed lock in front of a placeholder, in UTF-8.\<close>

definition locked :: string where
  "locked = [CHR 0xF0, CHR 0x9F, CHR 0x94, CHR 0x92]"

definition opt_json :: "string option \<Rightarrow> json" where
  "opt_json v = (case v of None \<Rightarrow> JNull | Some s \<Rightarrow> JStr s)"

definition utd_placeholder :: "json \<Rightarrow> string \<Rightarrow> string option \<Rightarrow> bool \<Rightarrow> json" where
  "utd_placeholder original reason session_id repairable =
     (let hint = (if repairable then '' This message will update in place if its key arrives.'' else []);
          p = mk_obj [(''type'', JStr ''m.room.message''),
            (''content'', mk_obj [(''msgtype'', JStr ''m.text''),
               (''body'', JStr (locked @ '' [undecryptable: '' @ reason @ '']'' @ hint))])];
          p1 = copy_keys [''event_id'', ''sender'', ''origin_server_ts'', ''room_id''] original p;
          unsigned = (case Option.bind (get ''unsigned'' original) as_object of None \<Rightarrow> [] | Some u \<Rightarrow> u);
          marker = mk_obj [(''utd'', JBool True), (''session_id'', opt_json session_id)]
      in jput ''unsigned'' (JObj (obj_put ''ement_e2ee'' marker unsigned)) p1)"

text \<open>
  The envelope's \<open>unsigned\<close> merged into the decrypted event: keys already there win, and the
  proxy's marker is added.
\<close>

definition merge_unsigned :: "json \<Rightarrow> json \<Rightarrow> fields \<Rightarrow> fields" where
  "merge_unsigned event encryption_info new_object =
     (let original = (case Option.bind (get ''unsigned'' event) as_object of None \<Rightarrow> [] | Some u \<Rightarrow> u);
          with_unsigned = obj_or_insert ''unsigned'' (JObj []) new_object
      in case map_of with_unsigned ''unsigned'' of
           Some (JObj u) \<Rightarrow>
             (let u1 = fold (\<lambda>(k, v). obj_or_insert k v) original u;
                  marker = mk_obj [(''decrypted'', JBool True), (''encryption_info'', encryption_info)]
              in obj_put ''unsigned'' (JObj (obj_put ''ement_e2ee'' marker u1)) with_unsigned)
         | _ \<Rightarrow> with_unsigned)"

definition maybe_feed_verification :: "('w, 'y) env_scheme \<Rightarrow> json \<Rightarrow> ('w, unit) eff" where
  "maybe_feed_verification E event = look (\<lambda>s.
     let ty = (case get_str ''type'' event of None \<Rightarrow> [] | Some t \<Rightarrow> t);
         is_verification = (prefix ''m.key.verification.'' ty \<or>
           (ty = ''m.room.message'' \<and>
            Option.bind (pointer [''content'', ''msgtype''] event) as_str = Some ''m.key.verification.request''))
     in if \<not> is_verification then retE ()
        else if \<not> parses_as E ''AnyMessageLikeEvent'' event then retE ()
        else bindE (attempt (call (sdk_receive_verification E (olm (acct s)) event))) (\<lambda>_. retE ()))"

definition decrypt :: "('w, 'y) env_scheme \<Rightarrow> string \<Rightarrow> json \<Rightarrow> ('w, decryption) eff" where
  "decrypt E room event = look (\<lambda>s.
     if get_str ''type'' event \<noteq> Some ''m.room.encrypted'' then retE Untouched
     else if \<not> parses_as E ''Raw'' event then retE Untouched
     else bindE (attempt (call (sdk_decrypt E (olm (acct s)) event room))) (\<lambda>r. case r of
         Inl _ \<Rightarrow> retE Untouched
       | Inr (SdkUnableToDecrypt reason session_id) \<Rightarrow> retE (Undecryptable reason session_id event)
       | Inr (SdkDecrypted text encryption_info) \<Rightarrow>
           (case Option.bind (json_parse (env_codec E) text) as_object of
              None \<Rightarrow> retE Untouched
            | Some new_object \<Rightarrow>
                (let new_event = JObj (merge_unsigned event encryption_info new_object)
                 in bindE (maybe_feed_verification E new_event) (\<lambda>_.
                    bindE (harvest_and_rewrite_decrypted E new_event) (\<lambda>e.
                    retE (Decrypted e)))))))"

text \<open>Asking for a missing room key, once per session; the task does the asking.\<close>

definition maybe_request_room_key ::
  "('w, 'y) env_scheme \<Rightarrow> string \<Rightarrow> json \<Rightarrow> string option \<Rightarrow> ('w, unit) eff" where
  "maybe_request_room_key E room raw session_id = look (\<lambda>s.
     case session_id of
       None \<Rightarrow> retE ()
     | Some sid \<Rightarrow>
         if sid \<in> requested_sessions (rooms (acct s)) then retE ()
         else bindE (writes (on_rooms (\<lambda>t. t\<lparr>requested_sessions := insert sid (requested_sessions t)\<rparr>))) (\<lambda>_.
              spawn (RoomKeyRequest (token (acct s)) room raw sid)))"

text \<open>What that task does when it runs; a failure allows a later attempt.\<close>

definition run_room_key_request ::
  "('w, 'y) env_scheme \<Rightarrow> string \<Rightarrow> json \<Rightarrow> string \<Rightarrow> ('w, unit) eff" where
  "run_room_key_request E room raw sid = look (\<lambda>s.
     bindE (attempt
       (bindE (call (sdk_request_room_key E (olm (acct s)) raw room)) (\<lambda>(cancellation, request).
        bindE (case cancellation of None \<Rightarrow> retE () | Some c \<Rightarrow> send_and_mark E c) (\<lambda>_.
        send_and_mark E request)))) (\<lambda>r. case r of
         Inr _ \<Rightarrow> retE ()
       | Inl _ \<Rightarrow> writes (on_rooms (\<lambda>t. t\<lparr>requested_sessions := requested_sessions t - {sid}\<rparr>))))"

definition decrypt_event :: "('w, 'y) env_scheme \<Rightarrow> string \<Rightarrow> placeholder \<Rightarrow> json \<Rightarrow> ('w, json) eff" where
  "decrypt_event E room kind event =
     bindE (decrypt E room event) (\<lambda>d. case d of
       Decrypted new_event \<Rightarrow> retE new_event
     | Untouched \<Rightarrow> retE event
     | Undecryptable reason session_id raw \<Rightarrow>
         bindE (maybe_request_room_key E room raw session_id) (\<lambda>_.
         bindE (if kind = Repairable then writes (on_repairs (track room event session_id)) else retE ()) (\<lambda>_.
         retE (utd_placeholder event reason session_id (kind = Repairable)))))"

fun mapE :: "('a \<Rightarrow> 's \<Rightarrow> ('e + 'b) \<times> 's) \<Rightarrow> 'a list \<Rightarrow> 's \<Rightarrow> ('e + 'b list) \<times> 's" where
  "mapE f [] = retE []"
| "mapE f (x # xs) = bindE (f x) (\<lambda>y. bindE (mapE f xs) (\<lambda>ys. retE (y # ys)))"

definition decrypt_events :: "('w, 'y) env_scheme \<Rightarrow> string \<Rightarrow> json list \<Rightarrow> ('w, json list) eff" where
  "decrypt_events E room events = mapE (decrypt_event E room Repairable) events"

section \<open>Late repairs\<close>

fun inject_loop ::
  "('w, 'y) env_scheme \<Rightarrow> string list \<Rightarrow> pending_repair list \<Rightarrow> nat \<Rightarrow> json \<Rightarrow> 'w ctx \<Rightarrow>
   ((error + nat \<times> json) \<times> 'w ctx) option" where
  "inject_loop E delivered [] repaired body = liftP (retE (repaired, body))"
| "inject_loop E delivered (r # rs) repaired body =
     (if pr_event_id r \<in> set delivered then inject_loop E delivered rs repaired body
      else bindP (liftP (decrypt E (pr_room_id r) (pr_event r))) (\<lambda>d. case d of
          Decrypted plain \<Rightarrow>
            (\<lambda>s. case synthetic_edit plain of
                None \<Rightarrow> None
              | Some None \<Rightarrow> inject_loop E delivered rs repaired body s
              | Some (Some edit) \<Rightarrow>
                  (case push_into_sync (last_unread_notifications (pr_room_id r) (rooms (acct s)))
                      (pr_room_id r) edit body of
                     None \<Rightarrow> None
                   | Some (pushed, body') \<Rightarrow>
                       inject_loop E delivered rs (if pushed then Suc repaired else repaired) body' s))
        | _ \<Rightarrow> bindP (liftP (writes (on_repairs (requeue r)))) (\<lambda>_. inject_loop E delivered rs repaired body)))"

definition inject :: "('w, 'y) env_scheme \<Rightarrow> json \<Rightarrow> 'w ctx \<Rightarrow> ((error + nat \<times> json) \<times> 'w ctx) option" where
  "inject E body s =
     (let (ready, q) = take_ready (repairs (acct s));
          s1 = on_repairs (\<lambda>_. q) s
      in if ready = [] then Some (Inr (0, body), s1)
         else inject_loop E (delivered_event_ids body) ready 0 body s1)"

section \<open>Whole bodies\<close>

definition array_at :: "string list \<Rightarrow> json \<Rightarrow> json list option" where
  "array_at path j = Option.bind (pointer path j) as_array"

definition decrypt_at :: "('w, 'y) env_scheme \<Rightarrow> string \<Rightarrow> string list \<Rightarrow> json \<Rightarrow> ('w, json) eff" where
  "decrypt_at E room path j =
     (case array_at path j of
        None \<Rightarrow> retE j
      | Some events \<Rightarrow> bindE (decrypt_events E room events) (\<lambda>events'. retE (jreplace path (JArr events') j)))"

definition scan_at :: "('w, 'y) env_scheme \<Rightarrow> string \<Rightarrow> string list \<Rightarrow> json \<Rightarrow> ('w, unit) eff" where
  "scan_at E room path j =
     (case array_at path j of None \<Rightarrow> retE () | Some events \<Rightarrow> scan_state_events E room events)"

definition process_room :: "('w, 'y) env_scheme \<Rightarrow> string \<Rightarrow> string \<Rightarrow> json \<Rightarrow> ('w, json) eff" where
  "process_room E sec room_id room =
     bindE (writes (on_rooms (if sec = ''join'' then note_joined room_id (get ''unread_notifications'' room)
                              else note_left room_id))) (\<lambda>_.
     bindE (scan_at E room_id [''state'', ''events''] room) (\<lambda>_.
     bindE (scan_at E room_id [''timeline'', ''events''] room) (\<lambda>_.
     decrypt_at E room_id [''timeline'', ''events''] room)))"

definition process_section :: "('w, 'y) env_scheme \<Rightarrow> string \<Rightarrow> json \<Rightarrow> ('w, json) eff" where
  "process_section E sec rooms_value =
     (case Option.bind (get sec rooms_value) as_object of
        None \<Rightarrow> retE rooms_value
      | Some section_rooms \<Rightarrow>
          bindE (mapE (\<lambda>(room_id, room).
              if is_room_id (env_codec E) room_id
              then bindE (process_room E sec room_id room) (\<lambda>room'. retE (room_id, room'))
              else retE (room_id, room)) section_rooms) (\<lambda>section_rooms'.
          retE (jput sec (JObj section_rooms') rooms_value)))"

definition process_rooms :: "('w, 'y) env_scheme \<Rightarrow> json \<Rightarrow> ('w, json) eff" where
  "process_rooms E body =
     (case get ''rooms'' body of
        None \<Rightarrow> retE body
      | Some rooms_value \<Rightarrow>
          bindE (process_section E ''join'' rooms_value) (\<lambda>v1.
          bindE (process_section E ''leave'' v1) (\<lambda>v2.
          retE (jput ''rooms'' v2 body))))"

definition process_sync_body ::
  "('w, 'y) env_scheme \<Rightarrow> json \<Rightarrow> 'w ctx \<Rightarrow> ((error + json) \<times> 'w ctx) option" where
  "process_sync_body E body =
     bindP (liftP (process_rooms E body)) (\<lambda>body1.
     bindP (inject E body1) (\<lambda>(_, body2). liftP (retE body2)))"

definition process_messages_body :: "('w, 'y) env_scheme \<Rightarrow> string \<Rightarrow> json \<Rightarrow> ('w, json) eff" where
  "process_messages_body E room body =
     bindE (scan_at E room [''state''] body) (\<lambda>_. decrypt_at E room [''chunk''] body)"

definition process_context_body :: "('w, 'y) env_scheme \<Rightarrow> string \<Rightarrow> json \<Rightarrow> ('w, json) eff" where
  "process_context_body E room body =
     bindE (scan_at E room [''state''] body) (\<lambda>_.
     bindE (decrypt_at E room [''events_before''] body) (\<lambda>b1.
     bindE (decrypt_at E room [''events_after''] b1) (\<lambda>b2.
       case get ''event'' b2 of
         None \<Rightarrow> retE b2
       | Some event \<Rightarrow> bindE (decrypt_event E room Repairable event) (\<lambda>e. retE (jput ''event'' e b2)))))"

definition process_event_body :: "('w, 'y) env_scheme \<Rightarrow> string \<Rightarrow> json \<Rightarrow> ('w, json) eff" where
  "process_event_body E room body = decrypt_event E room Repairable body"

definition process_notification :: "('w, 'y) env_scheme \<Rightarrow> json \<Rightarrow> ('w, json) eff" where
  "process_notification E n =
     (case get_str ''room_id'' n of
        None \<Rightarrow> retE n
      | Some room \<Rightarrow>
          if \<not> is_room_id (env_codec E) room then retE n
          else (case get ''event'' n of
              None \<Rightarrow> retE n
            | Some event \<Rightarrow> bindE (decrypt_event E room Final event) (\<lambda>e. retE (jput ''event'' e n))))"

definition process_notifications_body :: "('w, 'y) env_scheme \<Rightarrow> json \<Rightarrow> ('w, json) eff" where
  "process_notifications_body E body =
     (case array_at [''notifications''] body of
        None \<Rightarrow> retE body
      | Some ns \<Rightarrow> bindE (mapE (process_notification E) ns) (\<lambda>ns'. retE (jput ''notifications'' (JArr ns') body)))"

end
