(* ===== verification/Delivery.thy ===== *)
theory Delivery
  imports Decrypt
begin

text \<open>
  What decrypting and repairing keep, whatever the homeserver delivers. The locales state
  the elementary changes the functions of \<open>Decrypt\<close> are made of; a relation that allows them
  holds across every body they process. The interpretations are the relations the properties
  are about: only the account's own requests are sent, a room key is asked for once, the
  queue of placeholders stays well-formed.
\<close>

section \<open>The elementary changes\<close>

locale looking = stepwise R for R :: "'w ctx \<Rightarrow> 'w ctx \<Rightarrow> bool" +
  assumes step_world: "R s (s\<lparr>world := w\<rparr>)"
    and step_rooms: "(\<And>x. requested_sessions (f x) = requested_sessions x) \<Longrightarrow> R s (on_rooms f s)"
    and step_media: "R s (s\<lparr>acct := (acct s)\<lparr>media := m\<rparr>\<rparr>)"
begin

lemma does_call: "does R (call f)"
  by (rule doesI) (auto simp: call_def step_world split: prod.splits sum.splits)

lemma does_writes: "(\<And>s. R s (f s)) \<Longrightarrow> does R (writes f)"
  by (rule doesI) (auto simp: writes_def)

lemma does_attempt: "does R m \<Longrightarrow> does R (attempt m)"
  unfolding does_def attempt_def by (auto split: prod.splits)

lemma does_each_event: "(\<And>x. does R (f x)) \<Longrightarrow> does R (each f xs)"
  by (rule does_each [OF stepwise_axioms])

lemma does_mapE: "(\<And>x. does R (f x)) \<Longrightarrow> does R (mapE f xs)"
  by (induction xs) (auto intro: does_intros)

lemmas does_basic = does_intros does_call does_attempt

lemma does_scan_state_event: "does R (scan_state_event E room event)"
  unfolding scan_state_event_def
  by (intro does_basic does_writes step_rooms) (simp_all add: tracker_defs)

lemma does_scan_at: "does R (scan_at E room path j)"
  unfolding scan_at_def scan_state_events_def
  by (intro does_basic does_each_event does_scan_state_event)

lemma does_harvest: "does R (harvest_and_rewrite_decrypted E event)"
  unfolding harvest_and_rewrite_decrypted_def Let_def expose_file_def harvest_file_def media_insert_def
  by (intro does_basic does_writes step_media)

lemma does_decrypt: "does R (decrypt E room event)"
  unfolding decrypt_def maybe_feed_verification_def Let_def
  by (intro does_basic does_harvest) (auto split: decryption_result.splits sum.splits intro!: does_basic does_harvest)

end

text \<open>What becomes a placeholder is remembered, and its key asked for.\<close>

locale reading = looking R for R :: "'w ctx \<Rightarrow> 'w ctx \<Rightarrow> bool" +
  assumes step_track: "R s (on_repairs (track room event sid) s)"
    and step_request: "key \<notin> requested_sessions (rooms (acct s)) \<Longrightarrow>
      R s ((on_rooms (\<lambda>t. t\<lparr>requested_sessions := insert key (requested_sessions t)\<rparr>) s)
        \<lparr>tasks := tasks s @ [RoomKeyRequest tok room event key]\<rparr>)"
begin

lemma does_request_room_key: "does R (maybe_request_room_key E room raw sid)"
proof (rule doesI)
  fix s r t
  assume run: "maybe_request_room_key E room raw sid s = (r, t)"
  show "R s t"
  proof (cases "\<exists>key. sid = Some key \<and> key \<notin> requested_sessions (rooms (acct s))")
    case True
    then obtain key where k: "sid = Some key" "key \<notin> requested_sessions (rooms (acct s))" by blast
    have "t = (on_rooms (\<lambda>t. t\<lparr>requested_sessions := insert key (requested_sessions t)\<rparr>) s)
        \<lparr>tasks := tasks s @ [RoomKeyRequest (token (acct s)) room raw key]\<rparr>"
      using run k by (simp add: maybe_request_room_key_def look_def bindE_def writes_def spawn_def)
    then show ?thesis using step_request [OF k(2)] by simp
  next
    case False
    then have "t = s"
      using run by (auto simp: maybe_request_room_key_def look_def retE_def split: option.splits if_splits)
    then show ?thesis by (simp add: refl)
  qed
qed

lemma does_decrypt_event: "does R (decrypt_event E room kind event)"
  unfolding decrypt_event_def
  by (intro does_bindE does_decrypt)
    (auto split: decryption.split intro!: does_basic does_request_room_key does_writes step_track)

lemma does_decrypt_at: "does R (decrypt_at E room path j)"
  unfolding decrypt_at_def decrypt_events_def
  by (intro does_basic does_mapE does_decrypt_event)

lemma does_process_room: "does R (process_room E sec room_id room)"
  unfolding process_room_def
  by (intro does_basic does_scan_at does_decrypt_at does_writes step_rooms)
    (simp add: note_joined_def note_left_def Let_def)

lemma does_process_rooms: "does R (process_rooms E body)"
  unfolding process_rooms_def process_section_def
  by (intro does_basic does_mapE does_process_room)

lemma does_process_messages: "does R (process_messages_body E room body)"
  unfolding process_messages_body_def by (intro does_basic does_scan_at does_decrypt_at)

lemma does_process_context: "does R (process_context_body E room body)"
  unfolding process_context_body_def
  by (intro does_basic does_scan_at does_decrypt_at does_decrypt_event)

lemma does_process_event: "does R (process_event_body E room body)"
  unfolding process_event_body_def by (rule does_decrypt_event)

lemma does_process_notifications: "does R (process_notifications_body E body)"
  unfolding process_notifications_body_def process_notification_def
  by (intro does_basic does_mapE does_decrypt_event)

end

text \<open>Repairing also takes placeholders out of the queue and puts some back.\<close>

locale delivery = reading R for R :: "'w ctx \<Rightarrow> 'w ctx \<Rightarrow> bool" +
  assumes step_take: "R s (on_repairs (\<lambda>_. snd (take_ready (repairs (acct s)))) s)"
    and step_requeue: "R s (on_repairs (requeue r) s)"
begin

lemma does_inject_loop: "doesP R (inject_loop E delivered rs n body)"
proof (induction rs arbitrary: n body)
  case (Cons r rs)
  have branch: "doesP R (\<lambda>s. case synthetic_edit plain of
                None \<Rightarrow> None
              | Some None \<Rightarrow> inject_loop E delivered rs n body s
              | Some (Some edit) \<Rightarrow>
                  (case push_into_sync (last_unread_notifications (pr_room_id r) (rooms (acct s)))
                      (pr_room_id r) edit body of
                     None \<Rightarrow> None
                   | Some (pushed, body') \<Rightarrow>
                       inject_loop E delivered rs (if pushed then Suc n else n) body' s))" for plain
    by (rule doesPI) (auto split: option.splits prod.splits dest: doesPD [OF Cons.IH])
  show ?case
    by (auto split: decryption.splits intro!: doesP_bindP doesP_liftP does_decrypt does_writes step_requeue
        Cons.IH branch)
qed (auto intro: doesP_liftP does_retE)

lemma does_inject: "doesP R (inject E body)"
proof (rule doesPI)
  fix s r t
  assume run: "inject E body s = Some (r, t)"
  obtain ready q where q: "take_ready (repairs (acct s)) = (ready, q)" by fastforce
  have "R s (on_repairs (\<lambda>_. q) s)" using step_take [of s] by (simp add: q)
  moreover have "R (on_repairs (\<lambda>_. q) s) t"
    using run doesPD [OF does_inject_loop] by (auto simp: inject_def q refl Let_def split: if_splits)
  ultimately show "R s t" by (rule trans)
qed

lemma does_process_sync: "doesP R (process_sync_body E body)"
  unfolding process_sync_body_def
  by (intro doesP_intros does_process_rooms does_inject does_retE)

end

section \<open>Only the account's own requests\<close>

lemma on_repairs_simps [simp]:
  "trace (on_repairs f s) = trace s" "acct (on_repairs f s) = (acct s)\<lparr>repairs := f (repairs (acct s))\<rparr>"
  "world (on_repairs f s) = world s" "tasks (on_repairs f s) = tasks s" "sessions (on_repairs f s) = sessions s"
  by (simp_all add: on_repairs_def)

interpretation silent: delivery "\<lambda>s t. trace t = trace s \<and> same_account s t"
  by unfold_locales (auto simp: same_account_def)

section \<open>A room key is asked for once\<close>

fun asks_for :: "string \<Rightarrow> task \<Rightarrow> bool" where
  "asks_for sid (RoomKeyRequest _ _ _ key) = (key = sid)"
| "asks_for sid _ = False"

text \<open>How the memory of requested sessions and the started tasks change together.\<close>

definition asks_once :: "string \<Rightarrow> 'w ctx \<Rightarrow> 'w ctx \<Rightarrow> bool" where
  "asks_once sid s t \<longleftrightarrow> (\<exists>ts. tasks t = tasks s @ ts \<and>
     (if sid \<in> requested_sessions (rooms (acct s))
      then sid \<in> requested_sessions (rooms (acct t)) \<and> filter (asks_for sid) ts = []
      else length (filter (asks_for sid) ts) = (if sid \<in> requested_sessions (rooms (acct t)) then 1 else 0)))"

lemma asks_once_refl: "asks_once sid s s"
  by (auto simp: asks_once_def)

lemma asks_once_trans: "asks_once sid s t \<Longrightarrow> asks_once sid t u \<Longrightarrow> asks_once sid s u"
  unfolding asks_once_def by (elim exE conjE) (auto split: if_splits)

lemma asks_once_same:
  "tasks t = tasks s \<Longrightarrow> requested_sessions (rooms (acct t)) = requested_sessions (rooms (acct s)) \<Longrightarrow>
    asks_once sid s t"
  by (auto simp: asks_once_def)

interpretation once: delivery "asks_once sid" for sid
proof
  fix s t u :: "'w ctx"
  show "asks_once sid s s" by (rule asks_once_refl)
  show "asks_once sid s t \<Longrightarrow> asks_once sid t u \<Longrightarrow> asks_once sid s u" by (rule asks_once_trans)
  show "key \<notin> requested_sessions (rooms (acct s)) \<Longrightarrow>
      asks_once sid s ((on_rooms (\<lambda>t. t\<lparr>requested_sessions := insert key (requested_sessions t)\<rparr>) s)
        \<lparr>tasks := tasks s @ [RoomKeyRequest tok room event key]\<rparr>)" for key tok room event
    by (simp add: asks_once_def)
qed (auto intro!: asks_once_same)

section \<open>The queue of placeholders stays well-formed\<close>

interpretation queue: reading "\<lambda>s t. queue_ok (repairs (acct s)) \<longrightarrow> queue_ok (repairs (acct t))"
  by unfold_locales (auto simp: track_ok on_rooms_def)

interpretation unrepaired: looking "\<lambda>s t. repairs (acct t) = repairs (acct s)"
  by unfold_locales (auto simp: on_rooms_def)

section \<open>No error, and nothing but the rooms\<close>

definition infallible :: "('s \<Rightarrow> ('e + 'a) \<times> 's) \<Rightarrow> bool" where
  "infallible m \<longleftrightarrow> (\<forall>s. \<exists>x t. m s = (Inr x, t))"

lemma infallible_intros:
  "infallible (retE x)"
  "infallible m \<Longrightarrow> (\<And>x. infallible (f x)) \<Longrightarrow> infallible (bindE m f)"
  "infallible (attempt n)" "infallible (writes g)" "infallible (spawn tk)"
  "(\<And>s. infallible (h s)) \<Longrightarrow> infallible (look h)"
  "infallible m \<Longrightarrow> infallible m' \<Longrightarrow> infallible (if b then m else m')"
  "infallible m \<Longrightarrow> (\<And>x. infallible (k x)) \<Longrightarrow> infallible (case v of None \<Rightarrow> m | Some x \<Rightarrow> k x)"
  "(\<And>a b. infallible (l a b)) \<Longrightarrow> infallible (case p of (a, b) \<Rightarrow> l a b)"
  "(\<And>a. infallible (i a)) \<Longrightarrow> (\<And>b. infallible (j b)) \<Longrightarrow> infallible (case w of Inl a \<Rightarrow> i a | Inr b \<Rightarrow> j b)"
  unfolding infallible_def
  by (simp_all add: retE_def attempt_def writes_def spawn_def look_def bindE_def split: option.split prod.split sum.split)
    (metis prod.inject sum.simps(4))

lemma infallible_each: "(\<And>x. infallible (f x)) \<Longrightarrow> infallible (each f xs)"
  by (induction xs) (auto intro: infallible_intros)

lemma infallible_mapE: "(\<And>x. infallible (f x)) \<Longrightarrow> infallible (mapE f xs)"
  by (induction xs) (auto intro: infallible_intros)

lemma infallible_scan_at: "infallible (scan_at E room path j)"
  unfolding scan_at_def scan_state_events_def scan_state_event_def
  by (intro infallible_intros infallible_each)

lemma infallible_harvest: "infallible (harvest_and_rewrite_decrypted E event)"
  unfolding harvest_and_rewrite_decrypted_def Let_def expose_file_def harvest_file_def
  by (intro infallible_intros)

lemma infallible_decrypt: "infallible (decrypt E room event)"
  unfolding decrypt_def maybe_feed_verification_def Let_def
  by (auto split: decryption_result.split intro!: infallible_intros infallible_harvest)

lemma infallible_decrypt_event: "infallible (decrypt_event E room kind event)"
  unfolding decrypt_event_def maybe_request_room_key_def
  by (auto split: decryption.split intro!: infallible_intros infallible_decrypt)

lemma infallible_decrypt_at: "infallible (decrypt_at E room path j)"
  unfolding decrypt_at_def decrypt_events_def
  by (intro infallible_intros infallible_mapE infallible_decrypt_event)

lemma infallible_process_rooms: "infallible (process_rooms E body)"
  unfolding process_rooms_def process_section_def process_room_def
  by (intro infallible_intros infallible_mapE infallible_scan_at infallible_decrypt_at)

lemma push_into_sync_keeps:
  assumes "push_into_sync u room ev body = Some (p, body')"
  shows "\<forall>k. k \<noteq> ''rooms'' \<longrightarrow> get k body' = get k body"
proof (intro allI impI)
  fix k :: string assume "k \<noteq> ''rooms''"
  then show "get k body' = get k body"
    using assms jupdate_get_other [of "''rooms''" "[''join'', room]" _ _ _ k]
    by (auto simp: push_into_sync_def Let_def bind_eq_Some_conv jset_def joined_path_def simp del: jupdate.simps
        split: if_splits option.splits)
qed

lemma inject_loop_keeps:
  "inject_loop E delivered rs n body s = Some (r, t) \<Longrightarrow>
    \<exists>m body'. r = Inr (m, body') \<and> (\<forall>k. k \<noteq> ''rooms'' \<longrightarrow> get k body' = get k body)"
proof (induction rs arbitrary: n body s)
  case (Cons rp rs)
  show ?case
  proof (cases "pr_event_id rp \<in> set delivered")
    case True
    then show ?thesis using Cons by simp
  next
    case False
    obtain d s1 where d: "decrypt E (pr_room_id rp) (pr_event rp) s = (Inr d, s1)"
      using infallible_decrypt unfolding infallible_def by blast
    show ?thesis
    proof (cases d)
      case (Decrypted plain)
      then show ?thesis
        using Cons.prems False d
        by (auto simp: bindP_def liftP_def split: option.splits prod.splits
            dest!: Cons.IH push_into_sync_keeps)
    qed (use Cons.prems False d in \<open>auto simp: bindP_def liftP_def writes_def dest!: Cons.IH\<close>)
  qed
qed (auto simp: liftP_def retE_def)

text \<open>
  C22: whatever a sync response holds, the room key of a megolm session is asked for at most
  once, not at all where it was asked for before, and what was asked for is remembered.
\<close>

theorem key_requested_once:
  assumes "process_sync_body E body s = Some (r, t)"
  shows "\<exists>ts. tasks t = tasks s @ ts \<and> length (filter (asks_for sid) ts) \<le> 1 \<and>
    (sid \<in> requested_sessions (rooms (acct s)) \<longrightarrow> filter (asks_for sid) ts = []) \<and>
    (filter (asks_for sid) ts \<noteq> [] \<longrightarrow> sid \<in> requested_sessions (rooms (acct t)))"
  using doesPD [OF once.does_process_sync assms, of sid]
  unfolding asks_once_def by (elim exE conjE) (auto split: if_splits)

text \<open>A response with one undecryptable event, for concrete runs.\<close>

definition sample_sync :: json where
  "sample_sync = JObj [(''next_batch'', JStr ''s1''), (''rooms'', JObj [(''join'', JObj [(''!r:hs'',
     JObj [(''timeline'', JObj [(''events'', JArr [JObj [(''event_id'', JStr ''$1''),
       (''type'', JStr ''m.room.encrypted'')]])])])])])]"

definition missing_key_env :: "unit env" where
  "missing_key_env = (ref_env [])\<lparr>
     sdk_decrypt := (\<lambda>h e r w. (Inr (SdkUnableToDecrypt ''MissingRoomKey'' (Some ''sid'')), w))\<rparr>"

lemma sample_sync_runs: "\<exists>r t. process_sync_body missing_key_env sample_sync ref_ctx = Some (r, t)"
proof -
  have "case process_sync_body missing_key_env sample_sync ref_ctx of None \<Rightarrow> False | Some _ \<Rightarrow> True"
    by code_simp
  then show ?thesis by (auto split: option.splits)
qed

theorem key_requested_once_witness:
  "\<exists>r t. process_sync_body missing_key_env sample_sync ref_ctx = Some (r, t) \<and>
    length (filter (asks_for ''sid'') (tasks t)) \<le> 1"
proof -
  obtain r t where p: "process_sync_body missing_key_env sample_sync ref_ctx = Some (r, t)"
    using sample_sync_runs by blast
  show ?thesis
    using key_requested_once [OF p, of "''sid''"] p by (auto simp: ref_ctx_def ref_ctx_at_def)
qed

end
