(* ===== verification/Placeholders.thy ===== *)
theory Placeholders
  imports Delivery
begin

text \<open>
  What the client is shown for an encrypted event, decrypted or not, and what happens to the
  placeholders that wait for their keys: properties of \<open>Decrypt\<close> over the lemmas of \<open>Delivery\<close>.
\<close>

section \<open>The placeholder\<close>

text \<open>
  The placeholder of an undecryptable event is a readable text message that takes the
  event's place: same ID, sender, time and room, the reason in its body, the promise of an
  update exactly where one can come, the proxy's marker with the session beside the other
  \<open>unsigned\<close> keys of the event, and nothing else of the event.
\<close>

theorem placeholder_shape:
  fixes original reason sid repairable
  defines "p \<equiv> utd_placeholder original reason sid repairable"
  shows "get ''type'' p = Some (JStr ''m.room.message'') \<and>
    pointer [''content'', ''body''] p = Some (JStr (locked @ '' [undecryptable: '' @ reason @ '']'' @
      (if repairable then '' This message will update in place if its key arrives.'' else []))) \<and>
    (\<forall>k. k \<notin> {''type'', ''content'', ''unsigned''} \<longrightarrow> get k p =
       (if k \<in> {''event_id'', ''sender'', ''origin_server_ts'', ''room_id''} then get k original else None)) \<and>
    pointer [''unsigned'', ''ement_e2ee''] p =
      Some (mk_obj [(''utd'', JBool True), (''session_id'', opt_json sid)]) \<and>
    (\<forall>k. k \<noteq> ''ement_e2ee'' \<longrightarrow> pointer [''unsigned'', k] p =
       Option.bind (Option.bind (get ''unsigned'' original) as_object) (\<lambda>u. map_of u k))"
proof -
  define h where "h = (if repairable then '' This message will update in place if its key arrives.'' else [])"
  let ?c = "mk_obj [(''msgtype'', JStr ''m.text''), (''body'', JStr (locked @ '' [undecryptable: '' @ reason @ '']'' @ h))]"
  let ?b = "mk_obj [(''type'', JStr ''m.room.message''), (''content'', ?c)]"
  let ?u = "case Option.bind (get ''unsigned'' original) as_object of None \<Rightarrow> [] | Some u \<Rightarrow> u"
  let ?m = "mk_obj [(''utd'', JBool True), (''session_id'', opt_json sid)]"
  have p: "p = jput ''unsigned'' (JObj (obj_put ''ement_e2ee'' ?m ?u))
      (copy_keys [''event_id'', ''sender'', ''origin_server_ts'', ''room_id''] original ?b)"
    by (simp add: p_def utd_placeholder_def Let_def h_def)
  have b: "get k ?b = (if k = ''type'' then Some (JStr ''m.room.message'')
      else if k = ''content'' then Some ?c else None)" for k
    by (simp add: get_mk_obj)
  have g: "get k p = (if k = ''unsigned'' then Some (JObj (obj_put ''ement_e2ee'' ?m ?u))
      else if k \<in> {''event_id'', ''sender'', ''origin_server_ts'', ''room_id''} \<and> get k original \<noteq> None
      then get k original else get k ?b)" for k
    by (simp add: p get_jput get_copy_keys)
  have o: "is_object p" by (simp add: p)
  have u: "pointer [''unsigned'', k] p = (if k = ''ement_e2ee'' then Some ?m else map_of ?u k)" for k
    using o by (simp add: pointer_obj g)
  show ?thesis
    unfolding h_def [symmetric]
  proof (intro conjI allI impI)
    show "get ''type'' p = Some (JStr ''m.room.message'')" by (simp add: g get_mk_obj)
    show "pointer [''content'', ''body''] p = Some (JStr (locked @ '' [undecryptable: '' @ reason @ '']'' @ h))"
      using o by (simp add: pointer_obj g get_mk_obj)
    show "get k p = (if k \<in> {''event_id'', ''sender'', ''origin_server_ts'', ''room_id''} then get k original else None)"
      if "k \<notin> {''type'', ''content'', ''unsigned''}" for k
      using that by (simp add: g get_mk_obj)
    show "pointer [''unsigned'', ''ement_e2ee''] p = Some ?m" by (simp add: u)
    show "pointer [''unsigned'', k] p =
       Option.bind (Option.bind (get ''unsigned'' original) as_object) (\<lambda>u. map_of u k)" if "k \<noteq> ''ement_e2ee''" for k
      using that by (cases "get ''unsigned'' original") (auto simp: u split: option.split)
  qed
qed

theorem placeholder_shape_witness:
  "pointer [''unsigned'', ''age''] (utd_placeholder (mk_obj [(''event_id'', JStr ''$1''),
      (''unsigned'', mk_obj [(''age'', JBool True)])]) ''MissingRoomKey'' None True) = Some (JBool True)"
proof -
  have "Option.bind (Option.bind (get ''unsigned'' (mk_obj [(''event_id'', JStr ''$1''),
      (''unsigned'', mk_obj [(''age'', JBool True)])])) as_object) (\<lambda>u. map_of u ''age'') = Some (JBool True)"
    by code_simp
  then show ?thesis
    using placeholder_shape [of "mk_obj [(''event_id'', JStr ''$1''), (''unsigned'', mk_obj [(''age'', JBool True)])]"
      "''MissingRoomKey''" None True] by simp
qed

section \<open>The decrypted event\<close>

lemma map_of_fold_or_insert:
  "map_of (fold (\<lambda>(k, v). obj_or_insert k v) xs u) k = (case map_of u k of None \<Rightarrow> map_of xs k | Some v \<Rightarrow> Some v)"
  by (induction xs arbitrary: u) (auto split: option.splits)

lemma merge_unsigned_other: "k \<noteq> ''unsigned'' \<Longrightarrow> map_of (merge_unsigned event info m) k = map_of m k"
  by (auto simp: merge_unsigned_def Let_def split: option.splits json.splits)

lemma merge_unsigned_unsigned:
  assumes "map_of m ''unsigned'' = None \<and> u = [] \<or> map_of m ''unsigned'' = Some (JObj u)"
  shows "\<exists>u'. map_of (merge_unsigned event info m) ''unsigned'' = Some (JObj u') \<and>
    (\<forall>k. map_of u' k = (if k = ''ement_e2ee''
       then Some (mk_obj [(''decrypted'', JBool True), (''encryption_info'', info)])
       else case map_of u k of Some v \<Rightarrow> Some v
         | None \<Rightarrow> Option.bind (Option.bind (get ''unsigned'' event) as_object) (\<lambda>env. map_of env k)))"
  using assms
  by (cases "get ''unsigned'' event")
    (auto simp: merge_unsigned_def Let_def map_of_fold_or_insert split: option.splits)

lemma harvest_keeps:
  assumes "harvest_and_rewrite_decrypted E event s = (Inr e, t)" and "k \<noteq> ''content''"
  shows "get k e = get k event"
  using assms
  by (auto simp: harvest_and_rewrite_decrypted_def Let_def bindE_eq_Inr_iff retE_def get_jput split: option.splits)

lemma decrypt_DecryptedD:
  assumes "decrypt E room event s = (Inr (Decrypted e), t)"
  shows "\<exists>plain info m w s1. get_str ''type'' event = Some ''m.room.encrypted'' \<and>
    sdk_decrypt E (olm (acct s)) event room (world s) = (Inr (SdkDecrypted plain info), w) \<and>
    json_parse (env_codec E) plain = Some (JObj m) \<and>
    harvest_and_rewrite_decrypted E (JObj (merge_unsigned event info m)) s1 = (Inr e, t)"
proof -
  have enc: "get_str ''type'' event = Some ''m.room.encrypted''"
    using assms by (auto simp: decrypt_def look_def retE_def split: if_splits)
  obtain x w where d: "sdk_decrypt E (olm (acct s)) event room (world s) = (x, w)" by fastforce
  have "\<exists>plain info. x = Inr (SdkDecrypted plain info)"
    using assms d
    by (cases x) (auto simp: decrypt_def look_def retE_def bindE_def attempt_def call_def
        split: if_splits decryption_result.splits)
  then obtain plain info where x: "x = Inr (SdkDecrypted plain info)" by blast
  obtain m where m: "json_parse (env_codec E) plain = Some (JObj m)"
    using assms d x
    by (cases "Option.bind (json_parse (env_codec E) plain) as_object")
      (auto simp: decrypt_def look_def retE_def bindE_def attempt_def call_def bind_eq_Some_conv split: if_splits)
  have "\<exists>s1. harvest_and_rewrite_decrypted E (JObj (merge_unsigned event info m)) s1 = (Inr e, t)"
    using assms d x m
    by (auto simp: decrypt_def look_def retE_def bindE_eq_Inr_iff attempt_def call_def Let_def split: if_splits)
  then show ?thesis using enc d x m by blast
qed

text \<open>
  C21: a decrypted event is what the crypto machine made of it, with the envelope's \<open>unsigned\<close>
  merged in: outside \<open>content\<close> (where attachments are exposed) and \<open>unsigned\<close> it is the
  plaintext; in \<open>unsigned\<close> the plaintext's own keys win over the envelope's (so bundled
  relations stay the decrypted ones), the envelope's others are there (so the client finds
  its transaction ID), and the proxy's marker says it was decrypted.
\<close>

theorem decrypted_event_unsigned:
  assumes "decrypt E room event s = (Inr (Decrypted e), t)"
  shows "\<exists>plain info m w. sdk_decrypt E (olm (acct s)) event room (world s) = (Inr (SdkDecrypted plain info), w) \<and>
    json_parse (env_codec E) plain = Some (JObj m) \<and>
    (\<forall>k. k \<noteq> ''content'' \<and> k \<noteq> ''unsigned'' \<longrightarrow> get k e = map_of m k) \<and>
    (\<forall>u. map_of m ''unsigned'' = None \<and> u = [] \<or> map_of m ''unsigned'' = Some (JObj u) \<longrightarrow>
      (\<forall>k. pointer [''unsigned'', k] e = (if k = ''ement_e2ee''
         then Some (mk_obj [(''decrypted'', JBool True), (''encryption_info'', info)])
         else case map_of u k of Some v \<Rightarrow> Some v
           | None \<Rightarrow> Option.bind (Option.bind (get ''unsigned'' event) as_object) (\<lambda>env. map_of env k))))"
proof -
  from decrypt_DecryptedD [OF assms] obtain plain info m w s1 where
    d: "sdk_decrypt E (olm (acct s)) event room (world s) = (Inr (SdkDecrypted plain info), w)"
      "json_parse (env_codec E) plain = Some (JObj m)"
    and h: "harvest_and_rewrite_decrypted E (JObj (merge_unsigned event info m)) s1 = (Inr e, t)"
    by blast
  have k: "get k e = map_of (merge_unsigned event info m) k" if "k \<noteq> ''content''" for k
    using harvest_keeps [OF h that] by simp
  have "pointer [''unsigned'', k] e = (if k = ''ement_e2ee''
         then Some (mk_obj [(''decrypted'', JBool True), (''encryption_info'', info)])
         else case map_of u k of Some v \<Rightarrow> Some v
           | None \<Rightarrow> Option.bind (Option.bind (get ''unsigned'' event) as_object) (\<lambda>env. map_of env k))"
    if "map_of m ''unsigned'' = None \<and> u = [] \<or> map_of m ''unsigned'' = Some (JObj u)" for u k
  proof -
    from merge_unsigned_unsigned [OF that] obtain u' where
      u': "map_of (merge_unsigned event info m) ''unsigned'' = Some (JObj u')"
      "map_of u' k = (if k = ''ement_e2ee''
         then Some (mk_obj [(''decrypted'', JBool True), (''encryption_info'', info)])
         else case map_of u k of Some v \<Rightarrow> Some v
           | None \<Rightarrow> Option.bind (Option.bind (get ''unsigned'' event) as_object) (\<lambda>env. map_of env k))" by blast
    have "get ''unsigned'' e = Some (JObj u')" using k u'(1) by simp
    then have "pointer [''unsigned'', k] e = map_of u' k"
      by (cases e) auto
    then show ?thesis using u'(2) by (simp only:)
  qed
  moreover have "get k e = map_of m k" if "k \<noteq> ''content'' \<and> k \<noteq> ''unsigned''" for k
    using k that by (simp add: merge_unsigned_other)
  ultimately show ?thesis
    using d by (intro exI [of _ plain] exI [of _ info] exI [of _ m] exI [of _ w] conjI allI impI)
qed

text \<open>A machine that decrypts one event, for concrete runs.\<close>

definition encrypted_sample :: json where
  "encrypted_sample = JObj [(''event_id'', JStr ''$1''), (''type'', JStr ''m.room.encrypted''),
     (''unsigned'', JObj [(''transaction_id'', JStr ''t1'')])]"

definition decrypting_env :: "unit env" where
  "decrypting_env = (ref_env [(''P'', JObj [(''event_id'', JStr ''$1''), (''type'', JStr ''m.room.message'')])])\<lparr>
     sdk_decrypt := (\<lambda>h e r w. (Inr (SdkDecrypted ''P'' JNull), w))\<rparr>"

theorem decrypted_event_unsigned_witness:
  "\<exists>e t. decrypt decrypting_env ''!r:hs'' encrypted_sample ref_ctx = (Inr (Decrypted e), t) \<and>
    pointer [''unsigned'', ''transaction_id''] e = Some (JStr ''t1'')"
proof -
  have "case fst (decrypt decrypting_env ''!r:hs'' encrypted_sample ref_ctx) of Inr (Decrypted e) \<Rightarrow> True | _ \<Rightarrow> False"
    by code_simp
  then obtain e t where d: "decrypt decrypting_env ''!r:hs'' encrypted_sample ref_ctx = (Inr (Decrypted e), t)"
    by (cases "decrypt decrypting_env ''!r:hs'' encrypted_sample ref_ctx") (auto split: sum.splits decryption.splits)
  from decrypted_event_unsigned [OF d] obtain plain info m w where
    m: "sdk_decrypt decrypting_env (olm (acct ref_ctx)) encrypted_sample ''!r:hs'' (world ref_ctx) = (Inr (SdkDecrypted plain info), w)"
      "json_parse (env_codec decrypting_env) plain = Some (JObj m)"
    and u: "\<forall>u. map_of m ''unsigned'' = None \<and> u = [] \<or> map_of m ''unsigned'' = Some (JObj u) \<longrightarrow>
      (\<forall>k. pointer [''unsigned'', k] e = (if k = ''ement_e2ee''
         then Some (mk_obj [(''decrypted'', JBool True), (''encryption_info'', info)])
         else case map_of u k of Some v \<Rightarrow> Some v
           | None \<Rightarrow> Option.bind (Option.bind (get ''unsigned'' encrypted_sample) as_object) (\<lambda>env. map_of env k)))"
    by (elim exE conjE) (rule that)
  have "map_of m ''unsigned'' = None"
    using m by (auto simp: decrypting_env_def ref_env_def ref_codec_def)
  then have "pointer [''unsigned'', ''transaction_id''] e = Some (JStr ''t1'')"
    by (simp add: u [THEN spec, of "[]", THEN mp, THEN spec, of "''transaction_id''"]) (simp add: encrypted_sample_def)
  then show ?thesis using d by (intro exI conjI)
qed

section \<open>Traffic without encrypted events\<close>

lemma obj_put_same: "sorted_keys m \<Longrightarrow> map_of m k = Some v \<Longrightarrow> obj_put k v m = m"
proof (induction m)
  case (Cons p m)
  obtain k' v' where p: "p = (k', v')" by fastforce
  show ?case
  proof (cases "k = k'")
    case False
    then have "(k, v) \<in> set m" using Cons.prems(2) by (auto simp: p dest: map_of_SomeD)
    then have "k' < k" using Cons.prems(1) by (force simp: p sorted_keys_Cons)
    then show ?thesis using Cons False by (auto simp: p sorted_keys_Cons)
  qed (use Cons.prems in \<open>simp add: p\<close>)
qed simp

lemma jput_same: "wf_json j \<Longrightarrow> get k j = Some v \<Longrightarrow> jput k v j = j"
  by (cases j) (auto simp: obj_put_same)

lemma jreplace_same: "wf_json j \<Longrightarrow> pointer ks j = Some x \<Longrightarrow> jreplace ks x j = j"
proof (induction ks x j rule: jreplace.induct)
  case (2 k ks x m)
  then show ?case
    by (auto simp del: wf_json.simps simp: bind_eq_Some_conv obj_put_same wf_map_of split: option.split)
      (simp add: obj_put_same)
qed auto

definition encrypted_event :: "json \<Rightarrow> bool" where
  "encrypted_event e \<longleftrightarrow> get_str ''type'' e = Some ''m.room.encrypted''"

lemma decrypt_plain: "\<not> encrypted_event e \<Longrightarrow> decrypt_event E room kind e s = (Inr e, s)"
  by (simp add: decrypt_event_def decrypt_def look_def encrypted_event_def bindE_def retE_def)

lemma decrypt_events_plain:
  "\<forall>e \<in> set es. \<not> encrypted_event e \<Longrightarrow> decrypt_events E room es s = (Inr es, s)"
  unfolding decrypt_events_def
  by (induction es) (auto simp: decrypt_plain bindE_def retE_def)

lemma decrypt_at_plain:
  "wf_json j \<Longrightarrow> \<forall>es. array_at path j = Some es \<longrightarrow> (\<forall>e \<in> set es. \<not> encrypted_event e) \<Longrightarrow>
    decrypt_at E room path j s = (Inr j, s)"
  by (auto simp: decrypt_at_def array_at_def retE_def bindE_def decrypt_events_plain bind_eq_Some_conv
      jreplace_same split: option.split)

text \<open>\<open>leaves m v\<close>: \<open>m\<close> returns \<open>v\<close> from every state and does not touch the placeholders.\<close>

definition leaves :: "('w ctx \<Rightarrow> ('e + 'a) \<times> 'w ctx) \<Rightarrow> 'a \<Rightarrow> bool" where
  "leaves m v \<longleftrightarrow> (\<forall>s. \<exists>t. m s = (Inr v, t) \<and> repairs (acct t) = repairs (acct s))"

lemma leaves_bindE: "leaves m v \<Longrightarrow> leaves (f v) u \<Longrightarrow> leaves (bindE m f) u"
  unfolding leaves_def bindE_def by (metis (no_types, lifting) old.prod.case sum.simps(6))

lemma leaves_retE: "leaves (retE v) v"
  by (simp add: leaves_def retE_def)

lemma leaves_mapE: "(\<And>x. x \<in> set xs \<Longrightarrow> leaves (f x) x) \<Longrightarrow> leaves (mapE f xs) xs"
  by (induction xs) (auto intro!: leaves_bindE leaves_retE)

lemma leaves_scan_at: "leaves (scan_at E room path j) ()"
  using infallible_scan_at [of E room path j] unrepaired.does_scan_at [of E room path j]
  unfolding infallible_def leaves_def does_def by (metis (full_types) old.unit.exhaust)

lemma leaves_on_rooms: "leaves (writes (on_rooms f)) ()"
  by (simp add: leaves_def writes_def)

definition plain_room :: "json \<Rightarrow> bool" where
  "plain_room room \<longleftrightarrow> (\<forall>es. array_at [''timeline'', ''events''] room = Some es \<longrightarrow>
     (\<forall>e \<in> set es. \<not> encrypted_event e))"

definition plain_sync :: "json \<Rightarrow> bool" where
  "plain_sync body \<longleftrightarrow> (\<forall>sec \<in> {''join'', ''leave''}. \<forall>m r room.
     pointer [''rooms'', sec] body = Some (JObj m) \<and> (r, room) \<in> set m \<longrightarrow> plain_room room)"

lemma leaves_process_room:
  assumes "wf_json room" and "plain_room room"
  shows "leaves (process_room E sec rid room) room"
  unfolding process_room_def
proof (intro leaves_bindE)
  show "leaves (decrypt_at E rid [''timeline'', ''events''] room) room"
    by (simp add: leaves_def decrypt_at_plain [OF assms(1) assms(2) [unfolded plain_room_def]])
qed (rule leaves_on_rooms leaves_scan_at)+

lemma leaves_process_section:
  assumes "wf_json v" and "\<And>m r room. get sec v = Some (JObj m) \<Longrightarrow> (r, room) \<in> set m \<Longrightarrow> plain_room room"
  shows "leaves (process_section E sec v) v"
proof (cases "Option.bind (get sec v) as_object")
  case None
  then show ?thesis by (simp add: process_section_def leaves_retE)
next
  case (Some m)
  then have m: "get sec v = Some (JObj m)" by (auto simp: bind_eq_Some_conv)
  then have wf: "wf_json (JObj m)" using assms(1) by (cases v) (auto simp del: wf_json.simps dest: wf_map_of)
  have "leaves (mapE (\<lambda>(room_id, room).
              if is_room_id (env_codec E) room_id
              then bindE (process_room E sec room_id room) (\<lambda>room'. retE (room_id, room'))
              else retE (room_id, room)) m) m"
  proof (rule leaves_mapE, clarify)
    fix rid room assume in_m: "(rid, room) \<in> set m"
    then have "wf_json room" "plain_room room" using wf assms(2) [OF m] by (auto simp: list_all_iff)
    then show "leaves (if is_room_id (env_codec E) rid
          then bindE (process_room E sec rid room) (\<lambda>room'. retE (rid, room')) else retE (rid, room)) (rid, room)"
      by (auto intro: leaves_bindE [OF leaves_process_room] leaves_retE)
  qed
  then show ?thesis
    unfolding process_section_def Some option.case
    by (rule leaves_bindE) (simp add: jput_same [OF assms(1) m] leaves_retE)
qed

lemma take_order_none: "take_order {} ord pend = ([], ord, pend)"
  by (induction ord) auto

lemma take_ready_none: "\<not> any_ready q \<Longrightarrow> fst (take_ready q) = []"
proof -
  assume "\<not> any_ready q"
  then have "filter (is_ready q) (map snd (pending q)) = []"
    by (auto simp: any_ready_def list_ex_iff filter_empty_conv)
  then show ?thesis by (simp add: take_ready_def take_order_none Let_def)
qed

text \<open>
  C18: a sync response whose room timelines hold no encrypted event reaches the client exactly
  as the homeserver sent it, unless a placeholder shown earlier can be repaired.
\<close>

theorem plain_sync_unchanged:
  assumes "wf_json body" and "plain_sync body" and "\<not> any_ready (repairs (acct s))"
  shows "\<exists>t. process_sync_body E body s = Some (Inr body, t)"
proof -
  have "leaves (process_rooms E body) body"
  proof (cases "get ''rooms'' body")
    case None
    then show ?thesis by (simp add: process_rooms_def leaves_retE)
  next
    case (Some v)
    have wf: "wf_json v" using assms(1) Some by (cases body) (auto simp del: wf_json.simps dest: wf_map_of)
    have plain: "plain_room room" if "sec \<in> {''join'', ''leave''}" "get sec v = Some (JObj m)" "(r, room) \<in> set m"
      for sec m r room
    proof -
      have "pointer [''rooms'', sec] body = Some (JObj m)"
        using Some that(2) by (cases body; cases v) auto
      then show ?thesis using assms(2) that by (auto simp: plain_sync_def)
    qed
    show ?thesis
      unfolding process_rooms_def Some option.case
      by (intro leaves_bindE [OF leaves_process_section [OF wf]] plain)
        (auto simp: jput_same [OF assms(1) Some] leaves_retE)
  qed
  then obtain t where "process_rooms E body s = (Inr body, t)" "repairs (acct t) = repairs (acct s)"
    unfolding leaves_def by blast
  then show ?thesis
    using take_ready_none [OF assms(3)]
    by (auto simp: process_sync_body_def bindP_def liftP_def inject_def retE_def Let_def split: prod.split)
qed

theorem plain_sync_unchanged_witness:
  "\<exists>t. process_sync_body (ref_env []) (JObj [(''next_batch'', JStr ''s1''),
      (''rooms'', JObj [(''join'', JObj [(''!r:hs'', JObj [(''timeline'', JObj [(''events'', JArr [JNull])])])])])])
      ref_ctx = Some (Inr (JObj [(''next_batch'', JStr ''s1''),
      (''rooms'', JObj [(''join'', JObj [(''!r:hs'', JObj [(''timeline'', JObj [(''events'', JArr [JNull])])])])])]), t)"
proof -
  have "plain_sync (JObj [(''next_batch'', JStr ''s1''),
      (''rooms'', JObj [(''join'', JObj [(''!r:hs'', JObj [(''timeline'', JObj [(''events'', JArr [JNull])])])])])])"
    by (auto simp: plain_sync_def plain_room_def array_at_def encrypted_event_def get_str_def)
  moreover have "\<not> any_ready (repairs (acct ref_ctx))" by code_simp
  moreover have "wf_json (JObj [(''next_batch'', JStr ''s1''),
      (''rooms'', JObj [(''join'', JObj [(''!r:hs'', JObj [(''timeline'', JObj [(''events'', JArr [JNull])])])])])])"
    by code_simp
  ultimately show ?thesis by (intro plain_sync_unchanged)
qed

section \<open>What becomes of the placeholders that are taken out\<close>

lemma decrypt_repairs: "decrypt E room ev s = (r, t) \<Longrightarrow> repairs (acct t) = repairs (acct s)"
  using unrepaired.does_decrypt [of E room ev] by (simp add: does_def)

lemma requeue_inv: "queue_inv q \<Longrightarrow> pr_event_id r \<notin> set (order q) \<Longrightarrow> queue_inv (requeue r q)"
  using add_pending_inv [of q r] by (simp add: requeue_def queue_inv_def)

lemma order_requeue [simp]: "order (requeue r q) = order q @ [pr_event_id r]"
  by (simp add: requeue_def)

lemma take_ready_ids:
  "queue_inv q \<Longrightarrow> map pr_event_id (fst (take_ready q)) = filter (\<lambda>e. e \<in> ready_ids q) (order q)"
proof -
  assume inv: "queue_inv q"
  have "map pr_event_id (filter (is_ready q) (pending_snapshot q)) =
      map (\<lambda>e. pr_event_id (the (map_of (pending q) e))) (filter (\<lambda>e. e \<in> ready_ids q) (order q))"
    using ready_ids_iff [OF inv] by (simp add: snapshot_map [OF inv] filter_map comp_def cong: filter_cong)
  also have "\<dots> = filter (\<lambda>e. e \<in> ready_ids q) (order q)"
    using pending_entry [OF inv] by (intro map_idI) fastforce
  finally show ?thesis by (simp add: take_ready_eq [OF inv])
qed

end
