(* ===== verification/Sync.thy ===== *)
theory Sync
  imports Verify Placeholders
begin

text \<open>
  The sync route (\<open>src/src/crypto/sync.rs\<close>): forwarding the client's /sync, handing its
  crypto sections to the crypto machine exactly once, and answering with nothing but repairs
  when a placeholder can be repaired while the homeserver keeps the client waiting.
\<close>

section \<open>Reading the request and the answer\<close>

definition query_param :: "codec \<Rightarrow> string \<Rightarrow> string \<Rightarrow> string option" where
  "query_param cd query name =
     (case List.map_filter (\<lambda>pair. case split_once (CHR ''='') pair of
          None \<Rightarrow> None
        | Some (key, value) \<Rightarrow> if key = name then Some (dec cd value) else None) (split_on (CHR ''&'') query) of
        [] \<Rightarrow> None
      | v # _ \<Rightarrow> Some v)"

definition is_unknown_token :: "codec \<Rightarrow> nat \<Rightarrow> string \<Rightarrow> bool" where
  "is_unknown_token cd st body \<longleftrightarrow> st = 401 \<and>
     Option.bind (json_parse cd body) (get_str ''errcode'') = Some ''M_UNKNOWN_TOKEN''"

section \<open>Feeding the crypto machine\<close>

text \<open>An optional field of the response, read as a type of the SDK.\<close>

definition parse_field ::
  "('w, 'y) env_scheme \<Rightarrow> string \<Rightarrow> string \<Rightarrow> json option \<Rightarrow> ('w, json option) eff" where
  "parse_field E ty failed v =
     (case v of
        None \<Rightarrow> retE None
      | Some j \<Rightarrow> if parses_as E ty j then retE (Some j) else failE (Wrap failed (Msg ''invalid value'')))"

text \<open>The changes handed to the machine; a missing field is its type's default.\<close>

definition changes_of :: "json \<Rightarrow> json list \<Rightarrow> json option \<Rightarrow> json option \<Rightarrow> json option \<Rightarrow> sync_changes" where
  "changes_of body events changed counts fallback =
     (let otk = (case Option.bind counts as_object of None \<Rightarrow> [] | Some m \<Rightarrow> m)
      in \<lparr>sc_to_device = events,
          sc_changed_devices = (case changed of None \<Rightarrow> JObj [] | Some v \<Rightarrow> v),
          sc_one_time_keys =
            (if get ''device_one_time_keys_count'' body \<noteq> None
             then obj_or_insert ''signed_curve25519'' (JNum (PosInt 0)) otk else otk),
          sc_unused_fallback = fallback,
          sc_next_batch = get_str ''next_batch'' body\<rparr>)"

definition process_sync_changes :: "('w, 'y) venv_scheme \<Rightarrow> json \<Rightarrow> json list \<Rightarrow> ('w, nat) eff" where
  "process_sync_changes E body events =
     bindE (parse_field E ''DeviceLists'' ''invalid device_lists in sync response''
       (get ''device_lists'' body)) (\<lambda>changed.
     bindE (parse_field E ''OneTimeKeyCounts'' ''invalid device_one_time_keys_count in sync response''
       (get ''device_one_time_keys_count'' body)) (\<lambda>counts.
     bindE (parse_field E ''OneTimeKeyAlgorithms'' ''invalid device_unused_fallback_key_types in sync response''
       (case get ''device_unused_fallback_key_types'' body of
          Some v \<Rightarrow> Some v
        | None \<Rightarrow> get ''org.matrix.msc2732.device_unused_fallback_key_types'' body)) (\<lambda>fallback.
     bindE (mapErrE (Wrap ''receive_sync_changes failed'') (look (\<lambda>s.
         call (sdk_receive_sync E (olm (acct s)) (changes_of body events changed counts fallback))))) (\<lambda>sids.
     bindE (writes (on_repairs (note_room_keys sids))) (\<lambda>_.
     bindE (record_finished E) (\<lambda>_.
     retE (length sids)))))))"

text \<open>The loop over the to-device events: new keys, the events let through, repeats.\<close>

fun admit_events ::
  "('w, 'y) env_scheme \<Rightarrow> json list \<Rightarrow> u64 list \<Rightarrow> json list \<Rightarrow> u64 \<Rightarrow> ('w, u64 list \<times> json list \<times> u64) eff" where
  "admit_events E [] ks evs dups = retE (ks, evs, dups)"
| "admit_events E (e # es) ks evs dups = look (\<lambda>s.
     let (new, seen) = seen_insert (event_key E e) (ss_seen (sync (acct s))) in
     bindE (writes (on_sync (\<lambda>y. y\<lparr>ss_seen := seen\<rparr>))) (\<lambda>_.
     if \<not> new then admit_events E es ks evs (dups + 1)
     else if \<not> parses_as E ''Raw'' e
       then failE (Wrap ''invalid to_device.events in sync response'' (Msg ''invalid value''))
     else admit_events E es (ks @ [event_key E e]) (evs @ [e]) dups))"

definition note_client_sync :: "nat \<Rightarrow> u64 \<Rightarrow> u64 \<Rightarrow> u64 \<Rightarrow> sync_stats \<Rightarrow> sync_stats" where
  "note_client_sync t processed dups keys st = st\<lparr>
     client_syncs := client_syncs st + 1,
     last_client_sync := Some t,
     to_device_events := to_device_events st + processed,
     to_device_duplicates := to_device_duplicates st + dups,
     room_keys_received := room_keys_received st + keys\<rparr>"

definition receive_sync_changes :: "('w, 'y) venv_scheme \<Rightarrow> json \<Rightarrow> ('w, unit) eff" where
  "receive_sync_changes E body =
     bindE (admit_events E (case array_at [''to_device'', ''events''] body of None \<Rightarrow> [] | Some es \<Rightarrow> es) [] [] 0)
       (\<lambda>(ks, evs, dups).
     bindE (attempt (process_sync_changes E body evs)) (\<lambda>result. case result of
         Inr n \<Rightarrow> writes (\<lambda>s. on_sync (\<lambda>y. y\<lparr>ss_stats :=
             note_client_sync (now E (world s)) (of_nat (length ks)) dups (of_nat n) (ss_stats y)\<rparr>) s)
       | Inl e \<Rightarrow>
           bindE (writes (on_sync (\<lambda>y. y\<lparr>ss_seen := fold seen_forget ks (ss_seen y)\<rparr>))) (\<lambda>_. failE e)))"

section \<open>The route\<close>

definition repair_only_response :: "('w, 'y) env_scheme \<Rightarrow> string \<Rightarrow> ('w, response) peffP" where
  "repair_only_response E since =
     bindP (mapErrP Internal (inject E (mk_obj [(''next_batch'', JStr since)]))) (\<lambda>(_, body).
     liftP (retE (raw_response 200 (Some ''application/json'') (json_print (env_codec E) body))))"

definition evict_session :: "('w, unit) peff" where
  "evict_session = look (\<lambda>s. writes (\<lambda>s. s\<lparr>sessions := AList.delete (token (acct s)) (sessions s)\<rparr>))"

definition sync_answer :: "('w, 'y) venv_scheme \<Rightarrow> response \<Rightarrow> ('w, response) peffP" where
  "sync_answer E resp =
     bindP (liftP (mapErrE (\<lambda>e. Upstream (show_error e)) (call (http_body E resp)))) (\<lambda>bytes.
     let ct = header_get ''content-type'' (rs_headers resp) in
     if \<not> is_success (rs_status resp) then
       liftP (bindE (if is_unknown_token (env_codec E) (rs_status resp) bytes then evict_session else retE ()) (\<lambda>_.
         retE (raw_response (rs_status resp) ct bytes)))
     else
       bindP (liftP (okOr (Internal (Wrap ''sync response is not valid JSON'' (Msg ''invalid JSON'')))
         (json_parse (env_codec E) bytes))) (\<lambda>body.
       bindP (liftP (internal (receive_sync_changes E body))) (\<lambda>_.
       bindP (mapErrP Internal (process_sync_body E body)) (\<lambda>body'.
       bindP (liftP (look (\<lambda>s. spawn (PumpTask (token (acct s)))))) (\<lambda>_.
       liftP (retE (raw_response 200 ct (json_print (env_codec E) body'))))))))"

text \<open>
  \<open>wake\<close> is what happens while the homeserver keeps an incremental sync waiting: \<open>None\<close> when its
  answer comes first, \<open>Some q\<close> when another request makes a repair possible before, which
  leaves the queue \<open>q\<close>; the answer of the homeserver is dropped then.
\<close>

definition handle_sync ::
  "('w, 'y) venv_scheme \<Rightarrow> repair_queue option \<Rightarrow> client_request \<Rightarrow> ('w, response) peffP" where
  "handle_sync E wake req = look (\<lambda>s.
     let since = query_param (env_codec E) (case rq_query req of None \<Rightarrow> [] | Some q \<Rightarrow> q) ''since'';
         upstream = get_with_token E (token (acct s)) (path_and_query req)
     in case since of
          None \<Rightarrow> bindP (liftP (mapErrE Upstream (send_http E upstream))) (sync_answer E)
        | Some position \<Rightarrow>
            if any_ready (repairs (acct s)) then repair_only_response E position
            else (case wake of
                None \<Rightarrow> bindP (liftP (mapErrE Upstream (send_http E upstream))) (sync_answer E)
              | Some q \<Rightarrow>
                  bindP (liftP (attempt (send_http E upstream))) (\<lambda>_.
                  bindP (liftP (writes (on_repairs (\<lambda>_. q)))) (\<lambda>_.
                  repair_only_response E position))))"

section \<open>Answers with nothing but repairs\<close>

lemma inject_keeps:
  assumes "inject E body s = Some (r, t)"
  shows "\<exists>n body'. r = Inr (n, body') \<and> (\<forall>k. k \<noteq> ''rooms'' \<longrightarrow> get k body' = get k body) \<and>
    trace t = trace s \<and> same_account s t"
proof -
  have "\<exists>n body'. r = Inr (n, body') \<and> (\<forall>k. k \<noteq> ''rooms'' \<longrightarrow> get k body' = get k body)"
    using assms by (auto simp: inject_def Let_def split: prod.splits if_splits dest!: inject_loop_keeps)
  moreover have "trace t = trace s \<and> same_account s t"
    using doesPD [OF silent.does_inject assms] .
  ultimately show ?thesis by blast
qed

lemma repair_only_response_spec:
  assumes "repair_only_response E p s = Some (r, t)"
  shows "\<exists>body. r = Inr (raw_response 200 (Some ''application/json'') (json_print (env_codec E) body)) \<and>
    get_str ''next_batch'' body = Some p \<and> (\<forall>k. k \<notin> {''next_batch'', ''rooms''} \<longrightarrow> get k body = None) \<and>
    trace t = trace s"
proof -
  obtain x u where i: "inject E (mk_obj [(''next_batch'', JStr p)]) s = Some (x, u)"
    using assms by (auto simp: repair_only_response_def bindP_def mapErrP_def split: option.splits)
  obtain n body where b: "x = Inr (n, body)"
    "\<forall>k. k \<noteq> ''rooms'' \<longrightarrow> get k body = get k (mk_obj [(''next_batch'', JStr p)])" "trace u = trace s"
    using inject_keeps [OF i] by (elim exE conjE) (rule that)
  have "r = Inr (raw_response 200 (Some ''application/json'') (json_print (env_codec E) body)) \<and> t = u"
    using assms i b(1) by (simp add: repair_only_response_def bindP_def mapErrP_def liftP_def retE_def)
  then show ?thesis
    using b(2,3) by (intro exI [of _ body]) (auto simp: get_str_def get_mk_obj)
qed

text \<open>
  C13: when a repair is ready, or becomes ready while the homeserver keeps the client waiting, an
  incremental sync is answered at once with repairs alone: the response has the client's own
  position as \<open>next_batch\<close> and nothing else but \<open>rooms\<close>, so that the next request resumes
  where this one stood; nothing was asked in the first case, and in the second nothing but
  the request that is being given up.
\<close>

theorem repair_only_keeps_position:
  assumes "query_param (env_codec E) (case rq_query req of None \<Rightarrow> [] | Some q \<Rightarrow> q) ''since'' = Some p"
    and "any_ready (repairs (acct s)) \<or> wake \<noteq> None"
    and "handle_sync E wake req s = Some (r, t)"
  shows "\<exists>body. r = Inr (raw_response 200 (Some ''application/json'') (json_print (env_codec E) body)) \<and>
    get_str ''next_batch'' body = Some p \<and> (\<forall>k. k \<notin> {''next_batch'', ''rooms''} \<longrightarrow> get k body = None) \<and>
    trace t = trace s @ (if any_ready (repairs (acct s)) then []
      else [get_with_token E (token (acct s)) (path_and_query req)])"
proof (cases "any_ready (repairs (acct s))")
  case True
  then have "repair_only_response E p s = Some (r, t)"
    using assms(1,3) by (simp add: handle_sync_def look_def)
  from repair_only_response_spec [OF this] show ?thesis using True by simp
next
  case False
  let ?rq = "get_with_token E (token (acct s)) (path_and_query req)"
  obtain q where q: "wake = Some q" using assms(2) False by blast
  obtain x s1 where x: "send_http E ?rq s = (x, s1)" by fastforce
  have "repair_only_response E p (on_repairs (\<lambda>_. q) s1) = Some (r, t)"
    using assms(1,3) False q x by (simp add: handle_sync_def look_def bindP_def liftP_def attempt_def writes_def)
  from repair_only_response_spec [OF this] show ?thesis
    using False send_http_trace [OF x] by simp
qed

section \<open>Each to-device event is handed over once\<close>

lemma on_sync_simps [simp]:
  "world (on_sync f s) = world s" "trace (on_sync f s) = trace s" "tasks (on_sync f s) = tasks s"
  "sessions (on_sync f s) = sessions s" "acct (on_sync f s) = (acct s)\<lparr>sync := f (sync (acct s))\<rparr>"
  "on_sync f (on_sync g s) = on_sync (f \<circ> g) s"
  by (simp_all add: on_sync_def)

text \<open>\<open>Raw\<close> keeps any JSON text as it is.\<close>

definition raw_takes_all :: "('w, 'y) env_scheme \<Rightarrow> bool" where
  "raw_takes_all E \<longleftrightarrow> (\<forall>j. parses_as E ''Raw'' j)"

lemma admit_events_spec:
  assumes "raw_takes_all E"
  shows "\<exists>new seen. subseq new es \<and>
    (map (event_key E) new, seen) = admit (map (event_key E) es) (ss_seen (sync (acct s))) \<and>
    admit_events E es ks evs dups s =
      (Inr (ks @ map (event_key E) new, evs @ new, dups + of_nat (length es - length new)),
       on_sync (\<lambda>y. y\<lparr>ss_seen := seen\<rparr>) s)"
proof (induction es arbitrary: ks evs dups s)
  case Nil
  show ?case by (auto simp: retE_def on_sync_def)
next
  case (Cons e es)
  let ?k = "event_key E e"
  obtain b s1 where i: "seen_insert ?k (ss_seen (sync (acct s))) = (b, s1)" by fastforce
  let ?s = "on_sync (\<lambda>y. y\<lparr>ss_seen := s1\<rparr>) s"
  let ?ks = "if b then ks @ [?k] else ks" and ?evs = "if b then evs @ [e] else evs"
    and ?dups = "if b then dups else dups + 1"
  from Cons.IH [of ?s ?ks ?evs ?dups] obtain new seen where n: "subseq new es"
    "(map (event_key E) new, seen) = admit (map (event_key E) es) s1"
    "admit_events E es ?ks ?evs ?dups ?s =
      (Inr (?ks @ map (event_key E) new, ?evs @ new, ?dups + of_nat (length es - length new)),
       on_sync (\<lambda>y. y\<lparr>ss_seen := seen\<rparr>) ?s)"
    by auto
  have step: "admit_events E (e # es) ks evs dups s = admit_events E es ?ks ?evs ?dups ?s"
    using assms by (simp add: look_def i bindE_def writes_def raw_takes_all_def)
  have a: "admit (map (event_key E) (e # es)) (ss_seen (sync (acct s))) =
      (if b then ?k # map (event_key E) new else map (event_key E) new, seen)"
    by (simp add: Let_def i n(2) [symmetric])
  have len: "length new \<le> length es" using n(1) by (rule list_emb_length)
  show ?case
  proof (cases b)
    case True
    then show ?thesis
      using step a n by (intro exI [of _ "e # new"] exI [of _ seen]) (simp add: comp_def del: admit_events.simps)
  next
    case False
    have "dups + 1 + of_nat (length es - length new) = dups + of_nat (length (e # es) - length new)"
      using len by (simp add: Suc_diff_le)
    with False show ?thesis
      using step a n list_emb_Cons [OF n(1), of e]
      by (intro exI [of _ new] exI [of _ seen]) (simp add: comp_def del: admit_events.simps)
  qed
qed

lemma admit_set: "seen_set (snd (admit ks s)) \<subseteq> seen_set s \<union> set ks"
proof (induction ks arbitrary: s)
  case (Cons k ks)
  have "seen_set (snd (seen_insert k s)) \<subseteq> insert k (seen_set s)"
    by (auto simp: seen_insert_def Let_def split: list.split if_splits)
  then show ?case
    using Cons.IH [of "snd (seen_insert k s)"] by (auto simp: Let_def split: prod.splits)
qed simp

text \<open>A key that is not remembered is let through.\<close>

lemma admit_fresh: "k \<in> set ks \<Longrightarrow> k \<notin> seen_set s \<Longrightarrow> k \<in> set (fst (admit ks s))"
proof -
  assume "k \<in> set ks" and new: "k \<notin> seen_set s"
  then obtain xs ys where "ks = xs @ k # ys" "k \<notin> set xs"
    using split_list_first by fastforce
  moreover from this new have "k \<notin> seen_set (snd (admit xs s))"
    using admit_set [of xs s] by blast
  ultimately show ?thesis unfolding admit_mem by blast
qed

interpretation unsynced: stepwise "\<lambda>s t. sync (acct t) = sync (acct s) \<and> trace t = trace s"
  by unfold_locales auto

lemma process_keeps_sync:
  assumes "process_sync_changes E body evs s = (r, t)"
  shows "sync (acct t) = sync (acct s) \<and> trace t = trace s"
proof -
  have "does (\<lambda>s t. sync (acct t) = sync (acct s) \<and> trace t = trace s) (process_sync_changes E body evs)"
    unfolding process_sync_changes_def parse_field_def
    by (intro unsynced.does_intros)
      (auto intro!: doesI simp: writes_def record_finished_eq dest: call_frame(1) call_trace)
  then show ?thesis using assms by (rule doesD)
qed

text \<open>What the machine is handed when a sync response is processed.\<close>

lemma process_hands_over:
  assumes "process_sync_changes E body evs s = (Inr n, t)"
  shows "\<exists>changes sids w. sc_to_device changes = evs \<and>
    sdk_receive_sync E (olm (acct s)) changes (world s) = (Inr sids, w) \<and> n = length sids"
proof -
  have keep: "u = s" if "parse_field E ty m v s = (x, u)" for ty m v x and u s :: "'a ctx"
    using that by (auto simp: parse_field_def retE_def failE_def split: option.splits if_splits)
  obtain changed counts fallback sids s1 where
    "call (sdk_receive_sync E (olm (acct s)) (changes_of body evs changed counts fallback)) s = (Inr sids, s1)"
    "n = length sids"
    using assms unfolding process_sync_changes_def bindE_eq_Inr_iff
    by (elim exE conjE) (auto simp: mapErrE_def look_def retE_def dest!: keep split: prod.splits sum.splits)
  then show ?thesis
    by (intro exI [of _ "changes_of body evs changed counts fallback"] exI [of _ sids])
      (auto simp: call_def changes_of_def Let_def split: prod.splits sum.splits)
qed

text \<open>
  C12: the crypto machine is handed exactly those to-device events of a response that are not
  remembered, in their order, each once, and handed and dropped events are counted; when the
  machine, or anything before it, fails, every event that was new is new again, the counters
  stand, and nothing was sent: the redelivery is processed.
\<close>

theorem sync_events_exactly_once:
  assumes raw: "raw_takes_all E" and ok: "seen_ok (ss_seen (sync (acct s)))"
    and es: "es = (case array_at [''to_device'', ''events''] body of None \<Rightarrow> [] | Some es \<Rightarrow> es)"
    and run: "receive_sync_changes E body s = (r, t)"
  shows "trace t = trace s \<and>
    (\<forall>e. r = Inl e \<longrightarrow> ss_stats (sync (acct t)) = ss_stats (sync (acct s)) \<and>
       (\<forall>ev \<in> set es. event_key E ev \<notin> seen_set (ss_seen (sync (acct s))) \<longrightarrow>
          event_key E ev \<notin> seen_set (ss_seen (sync (acct t))))) \<and>
    (r = Inr () \<longrightarrow> (\<exists>new changes sids w. subseq new es \<and>
       map (event_key E) new = fst (admit (map (event_key E) es) (ss_seen (sync (acct s)))) \<and>
       sdk_receive_sync E (olm (acct s)) changes (world s) = (Inr sids, w) \<and> sc_to_device changes = new \<and>
       to_device_events (ss_stats (sync (acct t))) =
         to_device_events (ss_stats (sync (acct s))) + of_nat (length new) \<and>
       to_device_duplicates (ss_stats (sync (acct t))) =
         to_device_duplicates (ss_stats (sync (acct s))) + of_nat (length es - length new) \<and>
       ss_seen (sync (acct t)) = snd (admit (map (event_key E) es) (ss_seen (sync (acct s))))))"
proof -
  let ?seen = "ss_seen (sync (acct s))" and ?ks = "map (event_key E) es"
  obtain new seen where n: "subseq new es" "(map (event_key E) new, seen) = admit ?ks ?seen"
    "admit_events E es [] [] 0 s = (Inr (map (event_key E) new, new, of_nat (length es - length new)),
       on_sync (\<lambda>y. y\<lparr>ss_seen := seen\<rparr>) s)"
    using admit_events_spec [OF raw, of es s "[]" "[]" 0] by auto
  have fs: "fst (admit ?ks ?seen) = map (event_key E) new" "snd (admit ?ks ?seen) = seen"
    using n(2) [symmetric] by simp_all
  let ?s = "on_sync (\<lambda>y. y\<lparr>ss_seen := seen\<rparr>) s"
  obtain r1 s1 where p: "process_sync_changes E body new ?s = (r1, s1)" by fastforce
  have s1: "sync (acct s1) = (sync (acct s))\<lparr>ss_seen := seen\<rparr>" "trace s1 = trace s"
    using process_keeps_sync [OF p] by simp_all
  note run' = run [unfolded receive_sync_changes_def es [symmetric]]
  show ?thesis
  proof (cases r1)
    case (Inl e)
    have t: "r = Inl e" "t = on_sync (\<lambda>y. y\<lparr>ss_seen := fold seen_forget (map (event_key E) new) (ss_seen y)\<rparr>) s1"
      using run' n(3) p Inl by (simp_all add: bindE_def attempt_def writes_def failE_def)
    have ok': "seen_ok seen" using admit_ok [OF ok, of ?ks] fs(2) by simp
    have "k \<notin> seen_set (fold seen_forget (map (event_key E) new) seen)"
      if "k \<in> set ?ks" "k \<notin> seen_set ?seen" for k
      using sn.forgotten [OF ok' admit_fresh [OF that, unfolded fs]] sn.inv_fold_del [OF ok']
      by (simp add: seen_set_order)
    then show ?thesis using t s1 by auto
  next
    case (Inr m)
    have t: "r = Inr ()" "t = on_sync (\<lambda>y. y\<lparr>ss_stats := note_client_sync (now E (world s1))
        (of_nat (length new)) (of_nat (length es - length new)) (of_nat m) (ss_stats y)\<rparr>) s1"
      using run' n(3) p Inr by (simp_all add: bindE_def attempt_def writes_def)
    obtain changes sids w where h: "sc_to_device changes = new"
      "sdk_receive_sync E (olm (acct s)) changes (world s) = (Inr sids, w)"
      using process_hands_over [OF p [unfolded Inr]] by auto
    show ?thesis
      using t s1 h n(1) fs by (auto simp: note_client_sync_def)
  qed
qed

section \<open>Concrete runs\<close>

lemma ref_venv_base [simp]: "env.truncate (ref_venv tbl) = ref_env tbl"
  by (simp add: ref_venv_def env.defs ref_env_def)

text \<open>Two to-device events, the second a repeat of the first.\<close>

definition repeating_sync :: json where
  "repeating_sync = JObj [(''to_device'', JObj [(''events'', JArr [JObj [], JObj []])])]"

theorem sync_events_exactly_once_witness:
  "\<exists>t. receive_sync_changes (ref_venv []) repeating_sync ref_ctx = (Inr (), t) \<and>
    to_device_events (ss_stats (sync (acct t))) = 1 \<and> to_device_duplicates (ss_stats (sync (acct t))) = 1"
proof -
  let ?E = "ref_venv [] :: unit venv"
  obtain r t where run: "receive_sync_changes ?E repeating_sync ref_ctx = (r, t)" by fastforce
  have key: "event_key ?E j = 0" and raw: "raw_takes_all ?E" for j
    by (simp_all add: ref_venv_def env.defs ref_env_def raw_takes_all_def)
  have seen: "ss_seen (sync (acct ref_ctx)) = empty_seen" "ss_stats (sync (acct ref_ctx)) = no_stats"
    by (simp_all add: ref_ctx_def ref_ctx_at_def ref_account_def empty_sync_def)
  have es: "[JObj [], JObj []] = (case array_at [''to_device'', ''events''] repeating_sync of None \<Rightarrow> [] | Some es \<Rightarrow> es)"
    by (simp add: repeating_sync_def array_at_def)
  have adm: "fst (admit [0, 0] empty_seen) = [0]"
    by code_simp
  have "r = Inr ()"
  proof -
    have "fst (receive_sync_changes ?E repeating_sync ref_ctx) = Inr ()"
      unfolding receive_sync_changes_def process_sync_changes_def record_finished_def by code_simp
    then show ?thesis using run by simp
  qed
  have len: "length new = 1" if "map (event_key ?E) new = [0]" for new
    using that by (metis length_map length_Cons list.size(3) One_nat_def)
  show ?thesis
    using sync_events_exactly_once [OF raw _ es run] run \<open>r = Inr ()\<close>
    by (auto simp: key seen seen_ok_empty adm no_stats_def simp del: admit.simps dest!: len [unfolded key])
qed

text \<open>An account whose one placeholder can be repaired, and its client's next sync.\<close>

definition ready_ctx :: "unit ctx" where
  "ready_ctx = on_repairs (\<lambda>q. q\<lparr>
     pending := [(''$1'', \<lparr>pr_room_id = ''!r'', pr_event_id = ''$1'', pr_session_id = None,
       pr_event = JObj [(''event_id'', JStr ''$1'')]\<rparr>)],
     order := [''$1''], retry_all := True\<rparr>) ref_ctx"

definition since_request :: client_request where
  "since_request = \<lparr>rq_method = ''GET'', rq_path = ''/sync'', rq_query = Some ''timeout=1&since=s%201'',
     rq_headers = [], rq_body = []\<rparr>"

lemma ready_inject_runs:
  "case inject (ref_venv [] :: unit venv) (mk_obj [(''next_batch'', JStr p)]) ready_ctx of None \<Rightarrow> False | Some _ \<Rightarrow> True"
  by code_simp

theorem repair_only_keeps_position_witness:
  "\<exists>r t. handle_sync (ref_venv []) None since_request ready_ctx = Some (Inr r, t) \<and> trace t = [] \<and> rs_status r = 200"
proof -
  let ?E = "ref_venv [] :: unit venv"
  have since: "query_param (env_codec ?E) (case rq_query since_request of None \<Rightarrow> [] | Some q \<Rightarrow> q) ''since'' = Some ''s 1''"
    by code_simp
  have ready: "any_ready (repairs (acct ready_ctx))" "trace ready_ctx = []"
    by (simp_all add: ready_ctx_def ref_ctx_def ref_ctx_at_def ref_account_def any_ready_def is_ready_def)
  have "\<exists>r t. repair_only_response ?E ''s 1'' ready_ctx = Some (r, t)"
    using ready_inject_runs [of "''s 1''"]
    by (auto simp: repair_only_response_def bindP_def mapErrP_def liftP_def retE_def split: option.splits sum.splits)
  then obtain r t where run: "handle_sync ?E None since_request ready_ctx = Some (r, t)"
    by (simp only: handle_sync_def look_def Let_def since option.case ready(1) if_True) blast
  show ?thesis
    using repair_only_keeps_position [OF since disjI1 [OF ready(1)] run] run
    by (elim exE conjE) (simp add: ready raw_response_def)
qed

end
