(* ===== verification/LateKeys.thy ===== *)
theory LateKeys
  imports Sync
begin

text \<open>
  What the late-key repair is for, end to end: a message that was shown as undecryptable is
  replaced in the client's view as soon as its key has come (\<open>src/src/crypto/repair.rs\<close> through
  \<open>src/src/crypto/sync.rs\<close>). The lemmas say that injecting repairs into a response that can
  take them always returns, and what each turn of its loop keeps.
\<close>

section \<open>Decrypting leaves the rooms alone\<close>

definition same_rooms :: "'w ctx \<Rightarrow> 'w ctx \<Rightarrow> bool" where
  "same_rooms s t \<longleftrightarrow> rooms (acct t) = rooms (acct s) \<and> olm (acct t) = olm (acct s) \<and>
     repairs (acct t) = repairs (acct s)"

interpretation roomless: stepwise same_rooms
  by unfold_locales (auto simp: same_rooms_def)

lemma roomless_call: "does same_rooms (call f)"
  by (rule doesI) (auto simp: call_def same_rooms_def split: prod.splits sum.splits)

lemma roomless_attempt: "does same_rooms m \<Longrightarrow> does same_rooms (attempt m)"
  unfolding does_def attempt_def by (auto split: prod.splits)

lemma roomless_media: "does same_rooms (writes (\<lambda>s. s\<lparr>acct := (acct s)\<lparr>media := f s\<rparr>\<rparr>))"
  by (rule doesI) (auto simp: writes_def same_rooms_def)

lemmas roomless_intros = roomless.does_intros roomless_call roomless_attempt roomless_media

lemma roomless_decrypt: "does same_rooms (decrypt E room event)"
proof -
  have "does same_rooms (harvest_and_rewrite_decrypted E ev)" for ev
    unfolding harvest_and_rewrite_decrypted_def Let_def expose_file_def harvest_file_def media_insert_def
    by (intro roomless_intros)
  then show ?thesis
    unfolding decrypt_def maybe_feed_verification_def Let_def
    by (intro roomless_intros) (auto split: decryption_result.splits sum.splits intro!: roomless_intros)
qed

section \<open>Nothing panics\<close>

text \<open>The marker of a decrypted event can be written into.\<close>

lemma decrypted_marker:
  assumes "decrypt E room event s = (Inr (Decrypted plain), t)"
  shows "pointer [''unsigned'', ''ement_e2ee''] plain = None \<or>
    (\<exists>u. pointer [''unsigned'', ''ement_e2ee''] plain = Some (JObj u))"
proof -
  have idx: "parse_index ''ement_e2ee'' = None" "parse_index ''unsigned'' = None" by code_simp+
  from decrypt_DecryptedD [OF assms] obtain info m s1 where
    h: "harvest_and_rewrite_decrypted E (JObj (merge_unsigned event info m)) s1 = (Inr plain, t)"
    by (elim exE conjE)
  have u: "get ''unsigned'' plain = map_of (merge_unsigned event info m) ''unsigned''"
    using harvest_keeps [OF h] by simp
  let ?w = "obj_or_insert ''unsigned'' (JObj []) m"
  have "map_of (merge_unsigned event info m) ''unsigned'' = map_of ?w ''unsigned'' \<and>
      (\<nexists>u. map_of ?w ''unsigned'' = Some (JObj u)) \<or>
    (\<exists>u info'. map_of (merge_unsigned event info m) ''unsigned'' =
      Some (JObj (obj_put ''ement_e2ee'' (mk_obj [(''decrypted'', JBool True), (''encryption_info'', info')]) u)))"
    by (cases "map_of ?w ''unsigned''")
      (auto simp: merge_unsigned_def Let_def split: json.splits)
  moreover have "pointer [''ement_e2ee''] v = None" if "\<nexists>u. v = JObj u" for v
    using that by (cases v) (auto simp: pointer.simps(2) idx)
  moreover have "pointer [''unsigned'', ''ement_e2ee''] plain =
      Option.bind (get ''unsigned'' plain) (pointer [''ement_e2ee''])"
  proof (cases plain)
    case (JArr xs)
    then show ?thesis by (simp add: pointer.simps(2) idx)
  qed (simp_all add: pointer.simps(2) split: option.split)
  ultimately show ?thesis
    by (auto simp: u mk_obj_def split: option.splits)
qed

lemma synthetic_edit_total:
  assumes "decrypt E room event s = (Inr (Decrypted plain), t)"
  shows "synthetic_edit plain \<noteq> None"
  using decrypted_marker [OF assms]
  by (auto simp: synthetic_edit_def Let_def jset_one split: option.splits)

text \<open>A response that events can be appended to, in whatever room.\<close>

definition pushable :: "json \<Rightarrow> bool" where
  "pushable body \<longleftrightarrow> is_object body \<and>
     (\<forall>room. walkable (joined_path room @ [''timeline'', ''events'']) body)"

definition timeline :: "string \<Rightarrow> json \<Rightarrow> json list" where
  "timeline room body = elements (walk (joined_path room @ [''timeline'', ''events'']) body)"

lemma walkable_joined:
  "walkable (joined_path room @ ls) body \<longleftrightarrow> (body = JNull \<or> is_object body) \<and>
    (idx body ''rooms'' = JNull \<or> is_object (idx body ''rooms'')) \<and>
    (walk [''rooms'', ''join''] body = JNull \<or> is_object (walk [''rooms'', ''join''] body)) \<and>
    walkable ls (idx (walk [''rooms'', ''join''] body) room)"
  by (simp add: joined_path_def)

lemma idx_get: "get k a = get k b \<Longrightarrow> idx a k = idx b k"
  by (simp add: idx_def)

lemma jupdate_pushable:
  assumes "jupdate (joined_path room) f body = Some body'" and "pushable body"
    and "walkable [''timeline'', ''events''] (walk (joined_path room) body')"
  shows "pushable body'"
proof -
  have w: "walkable (joined_path room) body'" and o: "is_object body'"
  proof -
    have obj: "jupdate ks f j = Some j' \<Longrightarrow> walkable ks j'" for ks f j j'
    proof (induction ks arbitrary: j j')
      case (Cons k ks)
      then show ?case by (cases j) (auto simp: is_object_def idx_JObj)
    qed simp
    show "walkable (joined_path room) body'" by (rule obj [OF assms(1)])
    show "is_object body'" using jupdate_is_object assms(1) unfolding joined_path_def by blast
  qed
  have "walkable (joined_path r @ [''timeline'', ''events'']) body'" for r
  proof (cases "r = room")
    case True
    then show ?thesis using w assms(3) by (simp only: walkable_append simp_thms)
  next
    case False
    have "get r (walk [''rooms'', ''join''] body') = get r (walk [''rooms'', ''join''] body)"
      using jupdate_joined(1) [of room "[]" f body body' r] assms(1) False by simp
    then have "idx (walk [''rooms'', ''join''] body') r = idx (walk [''rooms'', ''join''] body) r"
      by (rule idx_get)
    moreover have "walkable (joined_path r @ [''timeline'', ''events'']) body"
      using assms(2) by (simp add: pushable_def)
    moreover have "walkable (joined_path room @ []) body'" using w by simp
    ultimately show ?thesis unfolding walkable_joined by simp
  qed
  then show ?thesis using o by (simp add: pushable_def)
qed

lemma push_event_walkable:
  assumes "push_event ev entry = Some entry'"
  shows "walkable [''timeline'', ''events''] entry'"
  using assms jupdate_is_object [of "''timeline''" "[''events'']" _ entry entry']
  by (cases entry) (auto simp: push_event_def idx_JObj is_object_def split: json.splits)

lemma push_event_total:
  assumes "walkable [''timeline'', ''events''] entry"
  shows "push_event ev entry \<noteq> None"
  using jupdate_Some_iff [OF assms, of "\<lambda>es. Some (JArr (elements es @ [ev]))"]
  by (simp only: push_event_def) blast

text \<open>Appending to such a response works, and leaves one.\<close>

lemma push_total:
  assumes "pushable body"
  shows "\<exists>body'. jupdate (joined_path room) (push_event ev) body = Some body' \<and> pushable body'"
proof -
  have w: "walkable (joined_path room @ [''timeline'', ''events'']) body"
    using assms by (simp add: pushable_def)
  then have "walkable (joined_path room) body" "walkable [''timeline'', ''events''] (walk (joined_path room) body)"
    by (simp_all only: walkable_append)
  then obtain body' where b: "jupdate (joined_path room) (push_event ev) body = Some body'"
    using jupdate_Some_iff push_event_total by blast
  have "walkable [''timeline'', ''events''] (walk (joined_path room) body')"
    using jupdate_walk [OF b] by (rule push_event_walkable)
  with b jupdate_pushable [OF b assms] show ?thesis by blast
qed

lemma push_into_sync_total:
  assumes "pushable body"
  shows "\<exists>pushed body'. push_into_sync u room ev body = Some (pushed, body') \<and> pushable body' \<and>
    (u \<noteq> None \<longrightarrow> pushed)"
proof (cases "has_joined_room body room")
  case True
  then show ?thesis
    using push_total [OF assms, of room ev] assms
    by (auto simp: push_into_sync_def Let_def pushable_def)
next
  case False
  show ?thesis
  proof (cases u)
    case None
    then show ?thesis using False assms by (auto simp: push_into_sync_def Let_def)
  next
    case (Some v)
    have w: "walkable (joined_path room) body"
      using assms by (auto simp: pushable_def walkable_append)
    obtain mid where mid: "jset (joined_path room) (fresh_room v) body = Some mid"
      using jupdate_Some_iff [OF w, of "\<lambda>_. Some (fresh_room v)"] unfolding jset_def by blast
    have "walk (joined_path room) mid = fresh_room v"
      using jupdate_walk [OF mid [unfolded jset_def]] by simp
    moreover have "walkable [''timeline'', ''events''] (fresh_room v)"
      using fresh_room_timeline [of v] by (cases v) (auto simp: fresh_room_def Let_def)
    ultimately have "pushable mid"
      using jupdate_pushable [OF mid [unfolded jset_def] assms] by simp
    from push_total [OF this, of room ev] show ?thesis
      using Some False mid assms by (auto simp: push_into_sync_def Let_def pushable_def)
  qed
qed

section \<open>The loop\<close>

lemma inject_loop_returns:
  "pushable body \<Longrightarrow> \<exists>m body' t. inject_loop E delivered rs n body s = Some (Inr (m, body'), t) \<and> pushable body'"
proof (induction rs arbitrary: n body s)
  case (Cons rp rs)
  show ?case
  proof (cases "pr_event_id rp \<in> set delivered")
    case True
    then show ?thesis using Cons by simp
  next
    case False
    obtain d s1 where d: "decrypt E (pr_room_id rp) (pr_event rp) s = (Inr d, s1)"
      using infallible_decrypt unfolding infallible_def by blast
    show ?thesis
    proof (cases d)
      case (Decrypted plain)
      let ?u = "last_unread_notifications (pr_room_id rp) (rooms (acct s1))"
      obtain v where v: "synthetic_edit plain = Some v"
        using synthetic_edit_total d Decrypted by blast
      show ?thesis
      proof (cases v)
        case None
        then show ?thesis
          using False d Decrypted v Cons.IH [OF Cons.prems, of n s1] by (simp add: bindP_def liftP_def)
      next
        case (Some edit)
        obtain pushed b1 where b: "push_into_sync ?u (pr_room_id rp) edit body = Some (pushed, b1)" "pushable b1"
          using push_into_sync_total [OF Cons.prems] by blast
        then show ?thesis
          using False d Decrypted v Some Cons.IH [OF b(2), of "if pushed then Suc n else n" s1]
          by (simp add: bindP_def liftP_def)
      qed
    qed (use False d Cons.IH [OF Cons.prems, of n "on_repairs (requeue rp) s1"] in
        \<open>simp_all add: bindP_def liftP_def writes_def\<close>)
  qed
qed (auto simp: liftP_def retE_def)

text \<open>One turn for a placeholder, as far as the others are concerned.\<close>

lemma inject_turn:
  assumes "inject_loop E delivered (rp # rs) n body s = Some (Inr (m, body'), t)" and "pushable body"
  shows "\<exists>k b1 s1. inject_loop E delivered rs k b1 s1 = Some (Inr (m, body'), t) \<and> pushable b1 \<and>
    (\<forall>room. set (timeline room body) \<subseteq> set (timeline room b1)) \<and>
    rooms (acct s1) = rooms (acct s) \<and> olm (acct s1) = olm (acct s) \<and>
    set (order (repairs (acct s1))) \<subseteq> insert (pr_event_id rp) (set (order (repairs (acct s)))) \<and>
    (\<forall>plain edit s2. pr_event_id rp \<notin> set delivered \<longrightarrow>
       decrypt E (pr_room_id rp) (pr_event rp) s = (Inr (Decrypted plain), s2) \<longrightarrow> synthetic_edit plain = Some (Some edit) \<longrightarrow>
       last_unread_notifications (pr_room_id rp) (rooms (acct s)) \<noteq> None \<longrightarrow>
       edit \<in> set (timeline (pr_room_id rp) b1) \<and> order (repairs (acct s1)) = order (repairs (acct s)))"
proof (cases "pr_event_id rp \<in> set delivered")
  case True
  then show ?thesis using assms by (intro exI [of _ n] exI [of _ body] exI [of _ s]) auto
next
  case False
  obtain d s1 where d: "decrypt E (pr_room_id rp) (pr_event rp) s = (Inr d, s1)"
    using infallible_decrypt unfolding infallible_def by blast
  have same: "rooms (acct s1) = rooms (acct s)" "olm (acct s1) = olm (acct s)" "repairs (acct s1) = repairs (acct s)"
    using doesD [OF roomless_decrypt d] by (simp_all add: same_rooms_def)
  show ?thesis
  proof (cases "\<exists>plain. d = Decrypted plain")
    case True
    then obtain plain where p: "d = Decrypted plain" by blast
    let ?u = "last_unread_notifications (pr_room_id rp) (rooms (acct s1))"
    obtain v where v: "synthetic_edit plain = Some v"
      using synthetic_edit_total d p by blast
    show ?thesis
    proof (cases v)
      case None
      then have "inject_loop E delivered rs n body s1 = Some (Inr (m, body'), t)"
        using assms(1) False d p v by (simp add: bindP_def liftP_def)
      then show ?thesis
        using assms(2) same d p v None by (intro exI [of _ n] exI [of _ body] exI [of _ s1]) auto
    next
      case (Some edit)
      obtain pushed b1 where b: "push_into_sync ?u (pr_room_id rp) edit body = Some (pushed, b1)" "pushable b1"
        "?u \<noteq> None \<longrightarrow> pushed"
        using push_into_sync_total [OF assms(2)] by blast
      have loop: "inject_loop E delivered rs (if pushed then Suc n else n) b1 s1 = Some (Inr (m, body'), t)"
        using assms(1) False d p v Some b(1) by (simp add: bindP_def liftP_def)
      note eff = push_into_sync_effect [OF b(1)]
      have grow: "timeline room b1 = (if pushed \<and> room = pr_room_id rp then timeline room body @ [edit]
          else timeline room body)" for room
      proof (cases pushed)
        case True
        then have new: "pointer (joined_path (pr_room_id rp) @ [''timeline'', ''events'']) b1 =
            Some (JArr (timeline (pr_room_id rp) body @ [edit]))"
          and other: "\<And>r. r \<noteq> pr_room_id rp \<Longrightarrow> idx (walk [''rooms'', ''join''] b1) r = idx (walk [''rooms'', ''join''] body) r"
          using eff by (auto simp: timeline_def intro!: idx_get)
        have ptr: "pointer ks j = Some x \<Longrightarrow> walkable ks j \<Longrightarrow> walk ks j = x" for ks j x
        proof (induction ks arbitrary: j)
          case (Cons k ks)
          then show ?case by (cases j) (auto simp: pointer.simps(2) idx_JObj is_object_def split: option.splits)
        qed simp
        have "walk (joined_path (pr_room_id rp) @ [''timeline'', ''events'']) b1 =
            JArr (timeline (pr_room_id rp) body @ [edit])"
          by (rule ptr [OF new]) (use b(2) in \<open>simp add: pushable_def\<close>)
        then show ?thesis
          using True other [of room] by (auto simp: timeline_def elements_def walk_append joined_path_def)
      next
        case False
        then show ?thesis using eff by simp
      qed
      show ?thesis
        using loop b(2,3) same d p v Some grow
        by (intro exI [of _ "if pushed then Suc n else n"] exI [of _ b1] exI [of _ s1]) auto
    qed
  next
    case False': False
    then have "inject_loop E delivered rs n body (on_repairs (requeue rp) s1) = Some (Inr (m, body'), t)"
      using assms(1) False d by (cases d) (auto simp: bindP_def liftP_def writes_def)
    then show ?thesis
      using assms(2) same d False' by (intro exI [of _ n] exI [of _ body] exI [of _ "on_repairs (requeue rp) s1"]) auto
  qed
qed

lemma inject_loop_grows:
  "inject_loop E delivered rs n body s = Some (Inr (m, body'), t) \<Longrightarrow> pushable body \<Longrightarrow>
    set (timeline room body) \<subseteq> set (timeline room body') \<and>
    set (order (repairs (acct t))) \<subseteq> set (order (repairs (acct s))) \<union> pr_event_id ` set rs"
proof (induction rs arbitrary: n body s)
  case (Cons rp rs)
  from inject_turn [OF Cons.prems] obtain k b1 s1 where
    "inject_loop E delivered rs k b1 s1 = Some (Inr (m, body'), t)" "pushable b1"
    "set (timeline room body) \<subseteq> set (timeline room b1)"
    "set (order (repairs (acct s1))) \<subseteq> insert (pr_event_id rp) (set (order (repairs (acct s))))"
    by blast
  with Cons.IH [of k b1 s1] show ?case by auto
qed (auto simp: liftP_def retE_def)

text \<open>The machine can decrypt an event: it does so in every state of this account.\<close>

definition holds_key :: "('w, 'y) env_scheme \<Rightarrow> string \<Rightarrow> pending_repair \<Rightarrow> json \<Rightarrow> bool" where
  "holds_key E h r plain \<longleftrightarrow> (\<forall>s. olm (acct s) = h \<longrightarrow>
     fst (decrypt E (pr_room_id r) (pr_event r) s) = Inr (Decrypted plain))"

lemma inject_loop_delivers:
  "inject_loop E delivered rs n body s = Some (Inr (m, body'), t) \<Longrightarrow> pushable body \<Longrightarrow>
    r \<in> set rs \<Longrightarrow> distinct (map pr_event_id rs) \<Longrightarrow> pr_event_id r \<notin> set delivered \<Longrightarrow>
    holds_key E (olm (acct s)) r plain \<Longrightarrow> synthetic_edit plain = Some (Some edit) \<Longrightarrow>
    last_unread_notifications (pr_room_id r) (rooms (acct s)) \<noteq> None \<Longrightarrow>
    pr_event_id r \<notin> set (order (repairs (acct s))) \<Longrightarrow>
    edit \<in> set (timeline (pr_room_id r) body') \<and> pr_event_id r \<notin> set (order (repairs (acct t)))"
proof (induction rs arbitrary: n body s)
  case (Cons rp rs)
  from inject_turn [OF Cons.prems(1,2)] obtain k b1 s1 where
    run: "inject_loop E delivered rs k b1 s1 = Some (Inr (m, body'), t)" and b1: "pushable b1"
    and keep: "rooms (acct s1) = rooms (acct s)" "olm (acct s1) = olm (acct s)"
    and ord: "set (order (repairs (acct s1))) \<subseteq> insert (pr_event_id rp) (set (order (repairs (acct s))))"
    and turn: "\<And>plain edit s2. pr_event_id rp \<notin> set delivered \<Longrightarrow>
       decrypt E (pr_room_id rp) (pr_event rp) s = (Inr (Decrypted plain), s2) \<Longrightarrow> synthetic_edit plain = Some (Some edit) \<Longrightarrow>
       last_unread_notifications (pr_room_id rp) (rooms (acct s)) \<noteq> None \<Longrightarrow>
       edit \<in> set (timeline (pr_room_id rp) b1) \<and> order (repairs (acct s1)) = order (repairs (acct s))"
    by blast
  show ?case
  proof (cases "r = rp")
    case True
    have "fst (decrypt E (pr_room_id rp) (pr_event rp) s) = Inr (Decrypted plain)"
      using Cons.prems(6) True by (simp add: holds_key_def)
    then obtain s2 where "decrypt E (pr_room_id rp) (pr_event rp) s = (Inr (Decrypted plain), s2)"
      by (cases "decrypt E (pr_room_id rp) (pr_event rp) s") auto
    with turn Cons.prems True have "edit \<in> set (timeline (pr_room_id rp) b1)"
      "order (repairs (acct s1)) = order (repairs (acct s))" by blast+
    moreover have "pr_event_id rp \<notin> pr_event_id ` set rs" using Cons.prems(4) by simp
    ultimately show ?thesis
      using inject_loop_grows [OF run b1, of "pr_room_id rp"] Cons.prems(9) True by auto
  next
    case False
    then have "r \<in> set rs" using Cons.prems(3) by simp
    moreover have "pr_event_id r \<noteq> pr_event_id rp"
      using imageI [OF \<open>r \<in> set rs\<close>, of pr_event_id] Cons.prems(4) by auto
    ultimately show ?thesis
      using Cons.IH [OF run b1] Cons.prems ord keep by auto
  qed
qed simp

section \<open>A late key repairs its message\<close>

text \<open>
  C7: when the room key of a waiting placeholder arrives, the client's next incremental sync is
  answered at once, without asking the homeserver, and the answer brings the edit that
  replaces the placeholder, in its room; the placeholder waits no longer. This needs the
  machine to hold the key, the decrypted event to be one an edit can be made of, and the
  client to be in the room.
\<close>

theorem late_key_repairs:
  assumes queue: "queue_ok (repairs (acct s))" and r: "r \<in> set (pending_snapshot (repairs (acct s)))"
    and arrived: "pr_session_id r = Some sid" "sid \<in> set sids"
    and key: "holds_key E (olm (acct s)) r plain" "synthetic_edit plain = Some (Some edit)"
    and joined: "last_unread_notifications (pr_room_id r) (rooms (acct s)) \<noteq> None"
    and since: "query_param (env_codec E) (case rq_query req of None \<Rightarrow> [] | Some q \<Rightarrow> q) ''since'' = Some p"
  shows "\<exists>body t. handle_sync E wake req (on_repairs (note_room_keys sids) s) =
      Some (Inr (raw_response 200 (Some ''application/json'') (json_print (env_codec E) body)), t) \<and>
    edit \<in> set (timeline (pr_room_id r) body) \<and> pr_event_id r \<notin> set (order (repairs (acct t))) \<and>
    trace t = trace s"
proof -
  let ?q = "note_room_keys sids (repairs (acct s))" and ?s1 = "on_repairs (note_room_keys sids) s"
  let ?body = "mk_obj [(''next_batch'', JStr p)]"
  have inv: "queue_inv (repairs (acct s))" by (rule queue_ok_inv [OF queue])
  obtain eid where e: "map_of (pending (repairs (acct s))) eid = Some r"
    using r by (auto simp: pending_snapshot_def map_filter_def)
  let ?q1 = "(repairs (acct s))\<lparr>ready_sessions := ready_sessions (repairs (acct s)) \<union> set sids\<rparr>"
  have ready1: "is_ready ?q1 r" using arrived by (simp add: is_ready_def)
  have any1: "any_ready ?q1"
    using e ready1 by (auto simp: any_ready_def list_ex_iff dest: map_of_SomeD intro: bexI [of _ "(eid, r)"])
  have q: "?q = ?q1\<lparr>wakes := Suc (wakes ?q1)\<rparr>"
    using any1 e by (auto simp: note_room_keys_def Let_def)
  have same: "is_ready ?q = is_ready ?q1"
    by (rule ext) (simp add: q is_ready_def split: option.split)
  have pend: "pending ?q = pending ?q1" by (subst q) simp
  have ready: "is_ready ?q r" using ready1 by (simp only: same)
  have any: "any_ready ?q" using any1 by (simp only: any_ready_def same pend)
  have snap: "pending_snapshot ?q = pending_snapshot (repairs (acct s))"
    by (simp add: q pending_snapshot_def)
  have inv': "queue_inv ?q" using queue_ok_inv [OF note_room_keys_ok [OF queue]] .
  let ?rs = "filter (is_ready ?q) (pending_snapshot ?q)"
  obtain q2 where take: "take_ready ?q = (?rs, q2)" using take_ready_eq [OF inv'] by simp
  have ids: "map pr_event_id ?rs = filter (\<lambda>e. e \<in> ready_ids ?q) (order ?q)"
    using take_ready_ids [OF inv'] by (simp add: take)
  have mem: "r \<in> set ?rs" using r ready snap by simp
  have "pr_event_id r \<in> set (map pr_event_id ?rs)" using mem by (simp only: set_map) (rule imageI)
  then have rid: "pr_event_id r \<in> ready_ids ?q" by (simp only: ids) simp
  have dist: "distinct (map pr_event_id ?rs)"
    unfolding ids using inv' by (simp add: queue_inv_def)
  let ?s2 = "on_repairs (\<lambda>_. q2) ?s1"
  have push: "pushable ?body"
    by (simp add: pushable_def joined_path_def mk_obj_def idx_JObj is_object_def)
  have none: "delivered_event_ids ?body = []"
    by (simp add: delivered_event_ids_def mk_obj_def)
  obtain m body t where loop: "inject_loop E (delivered_event_ids ?body) ?rs 0 ?body ?s2 = Some (Inr (m, body), t)"
    using inject_loop_returns [OF push] by blast
  have "?rs \<noteq> []" using mem by force
  then have inj: "inject E ?body ?s1 = Some (Inr (m, body), t)"
    using loop take by (simp add: inject_def Let_def)
  have out: "pr_event_id r \<notin> set (order (repairs (acct ?s2)))"
    using rid take take_ready_eq [OF inv'] by auto
  have "edit \<in> set (timeline (pr_room_id r) body) \<and> pr_event_id r \<notin> set (order (repairs (acct t)))"
    using inject_loop_delivers [OF loop push mem dist _ _ key(2) _ out] key(1) joined none by simp
  moreover have "trace t = trace ?s1" using doesPD [OF silent.does_inject inj] by simp
  moreover have "handle_sync E wake req ?s1 =
      Some (Inr (raw_response 200 (Some ''application/json'') (json_print (env_codec E) body)), t)"
    using since any inj
    by (simp add: handle_sync_def look_def repair_only_response_def bindP_def mapErrP_def liftP_def retE_def)
  ultimately show ?thesis by auto
qed

text \<open>A message that waits for its key, and a machine that has it by now.\<close>

definition waiting_event :: json where
  "waiting_event = JObj [(''event_id'', JStr ''$1''), (''type'', JStr ''m.room.encrypted'')]"

definition plain_fields :: fields where
  "plain_fields = [(''content'', JObj [(''body'', JStr ''hi'')]), (''event_id'', JStr ''$1''),
     (''type'', JStr ''m.room.message'')]"

definition key_env :: "unit venv" where
  "key_env = (ref_venv [(''plain'', JObj plain_fields)])\<lparr>
     sdk_decrypt := (\<lambda>h e r w. (Inr (SdkDecrypted ''plain'' JNull), w))\<rparr>"

definition waiting_repair :: pending_repair where
  "waiting_repair = \<lparr>pr_room_id = ''!r'', pr_event_id = ''$1'', pr_session_id = Some ''sid'', pr_event = waiting_event\<rparr>"

definition waiting_ctx :: "unit ctx" where
  "waiting_ctx = on_repairs (track ''!r'' waiting_event (Some ''sid'')) (on_rooms (note_joined ''!r'' None) ref_ctx)"

definition decrypted_message :: json where
  "decrypted_message = JObj (merge_unsigned waiting_event JNull plain_fields)"

lemma key_env_holds: "holds_key key_env h waiting_repair decrypted_message"
proof -
  have parts: "get_str ''type'' waiting_event = Some ''m.room.encrypted''" "parses_as key_env ''Raw'' waiting_event"
    "json_parse (env_codec key_env) ''plain'' = Some (JObj plain_fields)"
    "sdk_decrypt key_env k e r w = (Inr (SdkDecrypted ''plain'' JNull), w)" for k e r w
    by (simp_all add: waiting_event_def get_str_def key_env_def ref_venv_def ref_env_def ref_codec_def env.defs venv.defs)
  have feed: "get_str ''type'' decrypted_message = Some ''m.room.message''"
    "Option.bind (pointer [''content'', ''msgtype''] decrypted_message) as_str = None"
    "get ''content'' decrypted_message = Some (JObj [(''body'', JStr ''hi'')])"
    "jput ''content'' (JObj [(''body'', JStr ''hi'')]) decrypted_message = decrypted_message"
    by code_simp+
  have "maybe_feed_verification key_env decrypted_message s = (Inr (), s)" for s
    by (simp add: maybe_feed_verification_def look_def feed retE_def)
  moreover have "harvest_and_rewrite_decrypted key_env decrypted_message s = (Inr decrypted_message, s)" for s
    using feed(3,4) by (simp add: harvest_and_rewrite_decrypted_def Let_def expose_file_def retE_def)
  ultimately show ?thesis
    by (simp add: holds_key_def waiting_repair_def decrypt_def look_def parts attempt_def call_def bindE_def Let_def
        retE_def flip: decrypted_message_def)
qed

definition sync_request :: client_request where
  "sync_request = \<lparr>rq_method = ''GET'', rq_path = ''/sync'', rq_query = Some ''since=p'', rq_headers = [], rq_body = []\<rparr>"

theorem late_key_repairs_witness:
  "\<exists>body t edit. handle_sync key_env None sync_request (on_repairs (note_room_keys [''sid'']) waiting_ctx) =
      Some (Inr (raw_response 200 (Some ''application/json'') (json_print (env_codec key_env) body)), t) \<and>
    edit \<in> set (timeline ''!r'' body) \<and> pointer [''content'', ''body''] edit = Some (JStr ''hi'') \<and>
    trace t = []"
proof -
  have "(case synthetic_edit decrypted_message of
      Some (Some e) \<Rightarrow> pointer [''content'', ''body''] e = Some (JStr ''hi'') | _ \<Rightarrow> False)"
    by code_simp
  then obtain edit where e: "synthetic_edit decrypted_message = Some (Some edit)"
    "pointer [''content'', ''body''] edit = Some (JStr ''hi'')"
    by (auto split: option.splits)
  have pend: "repairs (acct waiting_ctx) = empty_queue\<lparr>pending := [(''$1'', waiting_repair)], order := [''$1'']\<rparr>"
    by (simp add: waiting_ctx_def on_repairs_def on_rooms_def ref_ctx_def ref_ctx_at_def ref_account_def track_def
        track_id_def waiting_event_def get_str_def empty_queue_def waiting_repair_def evict.simps max_pending_def)
  have ok: "queue_ok (repairs (acct waiting_ctx))"
    by (simp add: waiting_ctx_def track_ok queue_ok_empty ref_ctx_def ref_ctx_at_def ref_account_def on_rooms_def)
  have snap: "waiting_repair \<in> set (pending_snapshot (repairs (acct waiting_ctx)))"
    by (simp add: pend pending_snapshot_def List.map_filter_simps)
  have room: "last_unread_notifications (pr_room_id waiting_repair) (rooms (acct waiting_ctx)) \<noteq> None"
    by (simp add: waiting_repair_def waiting_ctx_def on_repairs_def on_rooms_def ref_ctx_def ref_ctx_at_def
        ref_account_def empty_tracker_def tracker_defs Let_def)
  have since: "query_param (env_codec key_env)
      (case rq_query sync_request of None \<Rightarrow> [] | Some q \<Rightarrow> q) ''since'' = Some ''p''"
    by code_simp
  have sid: "pr_session_id waiting_repair = Some ''sid''" "''sid'' \<in> set [''sid'']" "pr_room_id waiting_repair = ''!r''"
    by (simp_all add: waiting_repair_def)
  have tr: "trace waiting_ctx = []"
    by (simp add: waiting_ctx_def on_repairs_def on_rooms_def ref_ctx_def ref_ctx_at_def)
  show ?thesis
    using late_key_repairs [OF ok snap sid(1,2) key_env_holds e(1) room since, of None] e(2)
    unfolding sid(3) tr by blast
qed

end
