(* ===== verification/Config.thy ===== *)
theory Config
  imports Base
begin

text \<open>
  The configuration (\<open>src/src/config.rs\<close>): the file, the command line over it, the
  passphrase command, and what \<open>ctl\<close> needs to reach the proxy. Reading TOML and URLs, the
  directories of the desktop, files and the shell are the fields of \<open>host\<close>; nothing here
  changes them.
\<close>

section \<open>The host\<close>

record file_config =
  fc_listen :: "socket_addr option"
  fc_homeserver :: "string option"
  fc_store_dir :: "string option"
  fc_log_level :: "string option"
  fc_store_passphrase :: "string option"
  fc_store_passphrase_command :: "string option"
  fc_admin_token :: "string option"

definition default_file_config :: file_config where
  "default_file_config =
     \<lparr>fc_listen = None, fc_homeserver = None, fc_store_dir = None, fc_log_level = None,
      fc_store_passphrase = None, fc_store_passphrase_command = None, fc_admin_token = None\<rparr>"

text \<open>How a shell command ended: its exit status succeeded or not, and what it printed.\<close>

record shell_output =
  sh_success :: bool
  sh_status :: string
  sh_stdout :: string

record host =
  config_dir :: "string option"
  data_dir :: "string option"
  home_dir :: "string option"
  path_exists :: "string \<Rightarrow> bool"
  file_text :: "string \<Rightarrow> string + string"
  toml_parse :: "string \<Rightarrow> string + file_config"
  url_parse :: "string \<Rightarrow> string + url"
  url_text :: "url \<Rightarrow> string"
  \<comment> \<open>\<open>Url::set_path\<close> with an empty path\<close>
  url_clear_path :: "url \<Rightarrow> url"
  run_shell :: "string \<Rightarrow> string + shell_output"
  valid_utf8 :: "string \<Rightarrow> bool"
  addr_text :: "socket_addr \<Rightarrow> string"

record serve_args =
  sa_config :: "string option"
  sa_listen :: "socket_addr option"
  sa_homeserver :: "string option"
  sa_store_dir :: "string option"
  sa_log_level :: "string option"

definition bindR :: "'e + 'a \<Rightarrow> ('a \<Rightarrow> 'e + 'b) \<Rightarrow> 'e + 'b" where
  "bindR r f = (case r of Inl e \<Rightarrow> Inl e | Inr x \<Rightarrow> f x)"

text \<open>\<open>.context(..)\<close> on a result and on an option, \<open>Option::or\<close>.\<close>

definition context_err :: "string \<Rightarrow> string + 'a \<Rightarrow> error + 'a" where
  "context_err m r = (case r of Inl e \<Rightarrow> Inl (Wrap m (Msg e)) | Inr x \<Rightarrow> Inr x)"

definition context_none :: "string \<Rightarrow> 'a option \<Rightarrow> error + 'a" where
  "context_none m v = (case v of None \<Rightarrow> Inl (Msg m) | Some x \<Rightarrow> Inr x)"

definition or_else :: "'a option \<Rightarrow> 'a option \<Rightarrow> 'a option" where
  "or_else a b = (case a of Some x \<Rightarrow> Some x | None \<Rightarrow> b)"

section \<open>Reading the file\<close>

definition default_config_path :: "host \<Rightarrow> string option" where
  "default_config_path H = map_option (\<lambda>d. path_join d ''ement-e2ee/config.toml'') (config_dir H)"

definition read_file_config :: "host \<Rightarrow> string option \<Rightarrow> error + file_config" where
  "read_file_config H explicit =
     (case or_else explicit (default_config_path H) of
        None \<Rightarrow> Inr default_file_config
      | Some p \<Rightarrow>
          if path_exists H p then
            bindR (context_err (''failed to read '' @ p) (file_text H p)) (\<lambda>text.
            context_err (''invalid config '' @ p) (toml_parse H text))
          else if explicit \<noteq> None then Inl (Msg (''config file '' @ p @ '' does not exist''))
          else Inr default_file_config)"

section \<open>Single settings\<close>

definition default_listen :: socket_addr where
  "default_listen = \<lparr>sa_ip = V4 0x7F000001, sa_port = 8009\<rparr>"

text \<open>
  A leading component \<open>~\<close> is the home directory. What follows it is taken component by
  component, as \<open>Path::strip_prefix\<close> does, so repeated separators do not count.
\<close>

definition expand_tilde :: "host \<Rightarrow> string \<Rightarrow> string" where
  "expand_tilde H path =
     (case split_on (CHR ''/'') path of
        first # rest \<Rightarrow>
          if first = ''~'' then
            (case home_dir H of
               Some home \<Rightarrow> path_join home (join_with ''/'' (filter (\<lambda>c. c \<noteq> [] \<and> c \<noteq> ''.'') rest))
             | None \<Rightarrow> path)
          else path
      | [] \<Rightarrow> path)"

definition parse_homeserver :: "host \<Rightarrow> string \<Rightarrow> error + url" where
  "parse_homeserver H s =
     bindR (context_err ''homeserver is not a valid URL'' (url_parse H s)) (\<lambda>u.
     if url_path u \<noteq> ''/'' \<and> url_path u \<noteq> [] then
       Inl (Msg (''homeserver URL must not have a path: '' @ url_text H u))
     else Inr (url_clear_path H u))"

definition is_line_end :: "char \<Rightarrow> bool" where
  "is_line_end c \<longleftrightarrow> c = CHR 0x0A \<or> c = CHR 0x0D"

definition passphrase_from_command :: "host \<Rightarrow> string \<Rightarrow> error + string" where
  "passphrase_from_command H command =
     bindR (context_err ''failed to run store_passphrase_command'' (run_shell H command)) (\<lambda>out.
     if \<not> sh_success out then Inl (Msg (''store_passphrase_command failed ('' @ sh_status out @ '')''))
     else if \<not> valid_utf8 H (sh_stdout out) then
       Inl (Wrap ''store_passphrase_command printed invalid UTF-8'' (Msg ''invalid utf-8''))
     else (let passphrase = trim_end is_line_end (sh_stdout out) in
       if passphrase = [] then Inl (Msg ''store_passphrase_command printed nothing'')
       else Inr passphrase))"

definition store_passphrase_of :: "host \<Rightarrow> file_config \<Rightarrow> error + string option" where
  "store_passphrase_of H fc =
     (case (fc_store_passphrase fc, fc_store_passphrase_command fc) of
        (Some _, Some _) \<Rightarrow> Inl (Msg ''set either store_passphrase or store_passphrase_command, not both'')
      | (p, None) \<Rightarrow> Inr p
      | (None, Some command) \<Rightarrow> bindR (passphrase_from_command H command) (\<lambda>p. Inr (Some p)))"

section \<open>Loading\<close>

definition load_config :: "host \<Rightarrow> serve_args \<Rightarrow> error + config" where
  "load_config H args =
     bindR (read_file_config H (sa_config args)) (\<lambda>fc.
     bindR (context_none ''no homeserver configured (set `homeserver` in config.toml or pass --homeserver)''
       (or_else (sa_homeserver args) (fc_homeserver fc))) (\<lambda>hs.
     bindR (parse_homeserver H hs) (\<lambda>homeserver.
     bindR (context_none ''could not determine store directory''
       (or_else (or_else (sa_store_dir args) (map_option (expand_tilde H) (fc_store_dir fc)))
         (map_option (\<lambda>d. path_join d ''ement-e2ee'') (data_dir H)))) (\<lambda>store_dir.
     bindR (store_passphrase_of H fc) (\<lambda>passphrase.
     Inr \<lparr>cfg_listen = (case or_else (sa_listen args) (fc_listen fc) of None \<Rightarrow> default_listen | Some a \<Rightarrow> a),
       cfg_homeserver = homeserver, cfg_store_dir = store_dir,
       cfg_log_level = (case or_else (sa_log_level args) (fc_log_level fc) of None \<Rightarrow> ''info'' | Some l \<Rightarrow> l),
       cfg_store_passphrase = passphrase, cfg_admin_token = fc_admin_token fc\<rparr>)))))"

text \<open>What \<open>ctl\<close> needs: where the proxy is, reached through loopback where it listens everywhere.\<close>

record admin_endpoint =
  ae_url :: string
  ae_admin_token :: "string option"

definition is_unspecified :: "ip_addr \<Rightarrow> bool" where
  "is_unspecified ip = (case ip of V4 w \<Rightarrow> w = 0 | V6 w \<Rightarrow> w = 0)"

definition connect_addr :: "socket_addr \<Rightarrow> socket_addr" where
  "connect_addr listen =
     \<lparr>sa_ip = (if is_unspecified (sa_ip listen)
        then (case sa_ip listen of V4 _ \<Rightarrow> V4 0x7F000001 | V6 _ \<Rightarrow> V6 1) else sa_ip listen),
      sa_port = sa_port listen\<rparr>"

definition listen_or_default :: "file_config \<Rightarrow> socket_addr" where
  "listen_or_default fc = (case fc_listen fc of None \<Rightarrow> default_listen | Some a \<Rightarrow> a)"

definition load_endpoint :: "host \<Rightarrow> string option \<Rightarrow> string option \<Rightarrow> error + admin_endpoint" where
  "load_endpoint H config_path proxy_url =
     bindR (read_file_config H config_path) (\<lambda>fc.
     Inr \<lparr>ae_url = (case proxy_url of
         Some p \<Rightarrow> trim_end (\<lambda>c. c = CHR ''/'') p
       | None \<Rightarrow> ''http://'' @ addr_text H (connect_addr (listen_or_default fc))),
       ae_admin_token = fc_admin_token fc\<rparr>)"

definition endpoint_listen :: "host \<Rightarrow> string \<Rightarrow> error + socket_addr" where
  "endpoint_listen H path = bindR (read_file_config H (Some path)) (\<lambda>fc. Inr (listen_or_default fc))"

section \<open>What a loaded configuration is\<close>

lemma bindR_Inr: "bindR r f = Inr y \<longleftrightarrow> (\<exists>x. r = Inr x \<and> f x = Inr y)"
  by (cases r) (simp_all add: bindR_def)

lemma context_simps:
  "context_err m r = Inr x \<longleftrightarrow> r = Inr x" "context_none m v = Inr x \<longleftrightarrow> v = Some x"
  by (auto simp: context_err_def context_none_def split: sum.splits option.splits)

lemma passphrase_from_command_shape:
  assumes "passphrase_from_command H command = Inr p"
  shows "p \<noteq> [] \<and> \<not> is_line_end (last p) \<and>
    (\<exists>out. run_shell H command = Inr out \<and> sh_success out \<and> prefix p (sh_stdout out))"
  using assms trim_end_last trim_end_prefix
  by (auto simp: passphrase_from_command_def bindR_Inr context_simps Let_def split: if_splits)

text \<open>
  C35: a configuration that loads is well-formed. The homeserver is one the URL library read,
  with an empty path; the command line wins over the file, the file over the defaults; an
  explicitly named file exists; a passphrase has one source, and one that a command printed is
  not empty and ends in no line break; the admin token comes from the file alone.
\<close>

theorem loaded_config_wf:
  assumes "load_config H args = Inr c"
  shows "\<exists>fc u hs. read_file_config H (sa_config args) = Inr fc \<and>
    (\<forall>p. sa_config args = Some p \<longrightarrow> path_exists H p) \<and>
    or_else (sa_homeserver args) (fc_homeserver fc) = Some hs \<and> url_parse H hs = Inr u \<and>
    url_path u \<in> {[], ''/''} \<and> cfg_homeserver c = url_clear_path H u \<and>
    (\<forall>a. sa_listen args = Some a \<longrightarrow> cfg_listen c = a) \<and>
    (sa_listen args = None \<longrightarrow> cfg_listen c = listen_or_default fc) \<and>
    (\<forall>d. sa_store_dir args = Some d \<longrightarrow> cfg_store_dir c = d) \<and>
    (fc_store_passphrase fc = None \<or> fc_store_passphrase_command fc = None) \<and>
    (case fc_store_passphrase_command fc of
       None \<Rightarrow> cfg_store_passphrase c = fc_store_passphrase fc
     | Some command \<Rightarrow> \<exists>p out. cfg_store_passphrase c = Some p \<and> p \<noteq> [] \<and> \<not> is_line_end (last p) \<and>
         run_shell H command = Inr out \<and> sh_success out \<and> prefix p (sh_stdout out)) \<and>
    cfg_admin_token c = fc_admin_token fc"
proof -
  from assms obtain fc hs u dir pass where
    r: "read_file_config H (sa_config args) = Inr fc" "or_else (sa_homeserver args) (fc_homeserver fc) = Some hs"
    "parse_homeserver H hs = Inr u" "store_passphrase_of H fc = Inr pass"
    and dir: "or_else (or_else (sa_store_dir args) (map_option (expand_tilde H) (fc_store_dir fc)))
         (map_option (\<lambda>d. path_join d ''ement-e2ee'') (data_dir H)) = Some dir"
    and c: "c = \<lparr>cfg_listen = (case or_else (sa_listen args) (fc_listen fc) of None \<Rightarrow> default_listen | Some a \<Rightarrow> a),
       cfg_homeserver = u, cfg_store_dir = dir,
       cfg_log_level = (case or_else (sa_log_level args) (fc_log_level fc) of None \<Rightarrow> ''info'' | Some l \<Rightarrow> l),
       cfg_store_passphrase = pass, cfg_admin_token = fc_admin_token fc\<rparr>"
    by (auto simp: load_config_def bindR_Inr context_simps)
  have pass: "cfg_store_passphrase c = pass" and rest: "cfg_homeserver c = u" "cfg_admin_token c = fc_admin_token fc"
    by (simp_all add: c)
  have exists: "\<forall>p. sa_config args = Some p \<longrightarrow> path_exists H p"
    using r(1) by (auto simp: read_file_config_def or_else_def split: if_splits)
  from r(3) obtain v where v: "url_parse H hs = Inr v" "url_path v \<in> {[], ''/''}" "u = url_clear_path H v"
    by (auto simp: parse_homeserver_def bindR_Inr context_simps split: if_splits)
  have "fc_store_passphrase fc = None \<or> fc_store_passphrase_command fc = None"
    using r(4) by (auto simp: store_passphrase_of_def split: option.splits)
  moreover have "case fc_store_passphrase_command fc of
       None \<Rightarrow> cfg_store_passphrase c = fc_store_passphrase fc
     | Some command \<Rightarrow> \<exists>p out. cfg_store_passphrase c = Some p \<and> p \<noteq> [] \<and> \<not> is_line_end (last p) \<and>
         run_shell H command = Inr out \<and> sh_success out \<and> prefix p (sh_stdout out)"
    unfolding pass using r(4) passphrase_from_command_shape
    by (cases "fc_store_passphrase_command fc"; cases "fc_store_passphrase fc")
      (fastforce simp: store_passphrase_of_def bindR_Inr)+
  moreover have "sa_listen args = None \<longrightarrow> cfg_listen c = listen_or_default fc"
    "\<forall>a. sa_listen args = Some a \<longrightarrow> cfg_listen c = a"
    by (auto simp: c or_else_def listen_or_default_def)
  moreover have "\<forall>d. sa_store_dir args = Some d \<longrightarrow> cfg_store_dir c = d"
    using dir by (auto simp: c or_else_def)
  ultimately show ?thesis
    using r(1,2) exists v by (intro exI [of _ fc] exI [of _ v] exI [of _ hs]) (simp add: rest)
qed

text \<open>A host with a config file that names a passphrase command.\<close>

definition ref_host :: host where
  "ref_host =
     \<lparr>config_dir = Some ''/c'', data_dir = Some ''/d'', home_dir = Some ''/home/u'',
      path_exists = (\<lambda>p. p = ''/c/ement-e2ee/config.toml''), file_text = (\<lambda>p. Inr ''file''),
      toml_parse = (\<lambda>t. Inr (default_file_config\<lparr>fc_homeserver := Some ''https://hs'',
        fc_store_dir := Some ''~/store'', fc_store_passphrase_command := Some ''pass''\<rparr>)),
      url_parse = (\<lambda>s. Inr \<lparr>url_origin = s, url_path = ''/'', url_query = None\<rparr>),
      url_text = url_origin, url_clear_path = (\<lambda>u. u),
      run_shell = (\<lambda>c. Inr \<lparr>sh_success = True, sh_status = ''0'', sh_stdout = ''secret'' @ [CHR 0x0A]\<rparr>),
      valid_utf8 = (\<lambda>s. True), addr_text = (\<lambda>a. ''addr'')\<rparr>"

definition no_args :: serve_args where
  "no_args = \<lparr>sa_config = None, sa_listen = None, sa_homeserver = None, sa_store_dir = None, sa_log_level = None\<rparr>"

theorem loaded_config_wf_witness:
  "\<exists>c p. load_config ref_host no_args = Inr c \<and> cfg_store_dir c = ''/home/u/store'' \<and>
    cfg_store_passphrase c = Some p \<and> p \<noteq> [] \<and> \<not> is_line_end (last p)"
proof -
  have "(case load_config ref_host no_args of Inl _ \<Rightarrow> False | Inr c \<Rightarrow> cfg_store_dir c = ''/home/u/store'')"
    by code_simp
  then obtain c where c: "load_config ref_host no_args = Inr c" "cfg_store_dir c = ''/home/u/store''"
    by (auto split: sum.splits)
  from loaded_config_wf [OF c(1)] obtain fc where fc: "read_file_config ref_host (sa_config no_args) = Inr fc"
    "case fc_store_passphrase_command fc of
       None \<Rightarrow> cfg_store_passphrase c = fc_store_passphrase fc
     | Some command \<Rightarrow> \<exists>p out. cfg_store_passphrase c = Some p \<and> p \<noteq> [] \<and> \<not> is_line_end (last p) \<and>
         run_shell ref_host command = Inr out \<and> sh_success out \<and> prefix p (sh_stdout out)"
    by (elim exE conjE)
  have "(case read_file_config ref_host (sa_config no_args) of
      Inr fc \<Rightarrow> fc_store_passphrase_command fc = Some ''pass'' | _ \<Rightarrow> False)"
    by code_simp
  with fc c show ?thesis by auto
qed

end
