(* ===== verification/Terminal.thy ===== *)
theory Terminal
  imports Config Env Routes
begin

text \<open>
  What the command line tools (\<open>ctl\<close>, \<open>setup\<close>) run on: a terminal, a clock, files, the
  proxy at the other end of HTTP. \<open>cenv\<close> is what they call and do not define, over an
  abstract world; \<open>cli\<close> is their state, the world and a journal no code reads: what was
  sent, printed, asked, written and run, in order.
\<close>

section \<open>The terminal and the world\<close>

record ctl_request =
  ct_method :: string
  ct_url :: string
  ct_bearer :: "string option"
  ct_body :: "json option"

datatype cli_event =
    Sent ctl_request
  | Printed string
  | Asked json "error + bool"
  | Wrote string string
  | Ran "string list"

record 'w cli =
  cw :: 'w
  journal :: "cli_event list"

record 'w cenv =
  ce_codec :: codec
  ce_host :: host
  ce_http :: "ctl_request \<Rightarrow> ('w, response) api"
  ce_body :: "response \<Rightarrow> ('w, string) api"
  \<comment> \<open>a monotone clock in nanoseconds, and the largest instant it can represent\<close>
  ce_clock :: "'w \<Rightarrow> nat"
  ce_clock_max :: nat
  ce_sleep :: "nat \<Rightarrow> 'w \<Rightarrow> 'w"
  \<comment> \<open>a line of standard input with its line break, empty at the end of the input\<close>
  ce_read_line :: "('w, string) api"
  ce_flush :: "('w, unit) api"
  ce_password :: "string \<Rightarrow> ('w, string) api"
  ce_read :: "string \<Rightarrow> ('w, string) api"
  ce_write :: "string \<Rightarrow> string \<Rightarrow> ('w, unit) api"
  ce_mkdirs :: "string \<Rightarrow> ('w, unit) api"
  \<comment> \<open>a file opened empty, created with this mode where it does not exist; writing to it\<close>
  ce_open_empty :: "nat \<Rightarrow> string \<Rightarrow> ('w, unit) api"
  ce_write_all :: "string \<Rightarrow> string \<Rightarrow> ('w, unit) api"
  ce_exe :: "('w, string) api"
  \<comment> \<open>\<open>systemctl --user\<close>: whether it succeeded, nothing where there is no such program\<close>
  ce_systemctl :: "string list \<Rightarrow> ('w, bool option) api"
  \<comment> \<open>ruma's user IDs: the server name, with which reason a text is none\<close>
  ce_server_name :: "string \<Rightarrow> string + string"
  \<comment> \<open>\<open>Url::join\<close> with an absolute path, and \<open>{:?}\<close> of a string\<close>
  ce_url_join :: "url \<Rightarrow> string \<Rightarrow> string + url"
  ce_debug :: "string \<Rightarrow> string"

type_synonym ('w, 'a) cli_eff = "'w cli \<Rightarrow> (error + 'a) \<times> 'w cli"

definition tell :: "cli_event \<Rightarrow> ('w, unit) cli_eff" where
  "tell ev = writes (\<lambda>s. s\<lparr>journal := journal s @ [ev]\<rparr>)"

text \<open>\<open>print!\<close> and \<open>println!\<close>.\<close>

definition put_str :: "string \<Rightarrow> ('w, unit) cli_eff" where
  "put_str x = tell (Printed x)"

definition line_break :: string where
  "line_break = [CHR 0x0A]"

definition put_line :: "string \<Rightarrow> ('w, unit) cli_eff" where
  "put_line x = tell (Printed (x @ line_break))"

definition outside :: "('w, 'a) api \<Rightarrow> ('w, 'a) cli_eff" where
  "outside f s = (case f (cw s) of
     (Inl e, w) \<Rightarrow> (Inl (Msg e), s\<lparr>cw := w\<rparr>)
   | (Inr x, w) \<Rightarrow> (Inr x, s\<lparr>cw := w\<rparr>))"

definition wait_for :: "'w cenv \<Rightarrow> nat \<Rightarrow> ('w, unit) cli_eff" where
  "wait_for E d = writes (\<lambda>s. s\<lparr>cw := ce_sleep E d (cw s)\<rparr>)"

lemmas [effect_simps] = tell_def put_str_def put_line_def outside_def wait_for_def

section \<open>Strings\<close>

text \<open>Dropping any of some texts from the front, again and again.\<close>

function strip_any :: "string list \<Rightarrow> string \<Rightarrow> string" where
  "strip_any ws s =
     (case List.find (\<lambda>w. w \<noteq> [] \<and> prefix w s) ws of
        None \<Rightarrow> s
      | Some w \<Rightarrow> strip_any ws (drop (length w) s))"
  by pat_completeness auto
termination
  by (relation "measure (length \<circ> snd)")
    (auto simp: find_Some_iff prefix_def)

declare strip_any.simps [simp del]

text \<open>\<open>s.trim_end_matches(pat)\<close> with a text.\<close>

definition trim_end_str :: "string \<Rightarrow> string \<Rightarrow> string" where
  "trim_end_str pat s = rev (strip_any [rev pat] (rev s))"

text \<open>
  The characters \<open>str::trim\<close> takes away are those with the Unicode property \<open>White_Space\<close>,
  here as their UTF-8 bytes.
\<close>

definition white_space :: "string list" where
  "white_space =
     map (\<lambda>n. [char_of n]) [9, 10, 11, 12, 13, 32 :: nat] @
     [[CHR 0xC2, CHR 0x85], [CHR 0xC2, CHR 0xA0], [CHR 0xE1, CHR 0x9A, CHR 0x80]] @
     map (\<lambda>n. [CHR 0xE2, CHR 0x80, char_of n])
       [0x80, 0x81, 0x82, 0x83, 0x84, 0x85, 0x86, 0x87, 0x88, 0x89, 0x8A, 0xA8, 0xA9, 0xAF :: nat] @
     [[CHR 0xE2, CHR 0x81, CHR 0x9F], [CHR 0xE3, CHR 0x80, CHR 0x80]]"

definition str_trim :: "string \<Rightarrow> string" where
  "str_trim s = rev (strip_any (map rev white_space) (rev (strip_any white_space s)))"

text \<open>The ellipsis, the arrow and the check mark of the messages, in UTF-8.\<close>

definition ellipsis :: string where
  "ellipsis = [CHR 0xE2, CHR 0x80, CHR 0xA6]"

definition arrow :: string where
  "arrow = [CHR 0xE2, CHR 0x86, CHR 0x92]"

definition check_mark :: string where
  "check_mark = [CHR 0xE2, CHR 0x9C, CHR 0x93]"

text \<open>
  The proxy answers in JSON; a body that cannot be read or is none counts as \<open>null\<close>
  (\<open>resp.json().await.unwrap_or_default()\<close>).
\<close>

definition json_body :: "'w cenv \<Rightarrow> response \<Rightarrow> ('w, json option) cli_eff" where
  "json_body E resp = bindE (attempt (outside (ce_body E resp))) (\<lambda>r.
     retE (case r of Inl _ \<Rightarrow> None | Inr b \<Rightarrow> json_parse (ce_codec E) b))"

section \<open>The client of the admin API\<close>

text \<open>\<open>Client\<close> of \<open>src/src/admin/ctl.rs\<close>.\<close>

record admin_client =
  ac_base :: string
  ac_token :: "string option"

definition new_client :: "string \<Rightarrow> string option \<Rightarrow> admin_client" where
  "new_client proxy_url tok = \<lparr>ac_base = trim_end (\<lambda>c. c = CHR ''/'') proxy_url @ ''/_ement'', ac_token = tok\<rparr>"

definition client_send ::
  "'w cenv \<Rightarrow> admin_client \<Rightarrow> string \<Rightarrow> string \<Rightarrow> json option \<Rightarrow> ('w, json) cli_eff" where
  "client_send E c verb url body =
     (let rq = \<lparr>ct_method = verb, ct_url = url, ct_bearer = ac_token c, ct_body = body\<rparr> in
      bindE (tell (Sent rq)) (\<lambda>_.
      bindE (mapErrE (Wrap (''could not reach the proxy at '' @ trim_end_str ''/_ement'' (ac_base c) @
        '' (is `ement-e2ee serve` running?)'')) (outside (ce_http E rq))) (\<lambda>resp.
      bindE (json_body E resp) (\<lambda>r.
      let v = (case r of None \<Rightarrow> JNull | Some v \<Rightarrow> v);
          message = (case get_str ''error'' v of None \<Rightarrow> ''unknown error'' | Some m \<Rightarrow> m) in
      if is_success (rs_status resp) then retE v
      else if rs_status resp = 401 then
        failE (Msg (show_status (ce_codec E) (rs_status resp) @ '': '' @ message @
          '' (ctl reads `admin_token` from the config file; pass --config if the proxy uses a different one)''))
      else failE (Msg (show_status (ce_codec E) (rs_status resp) @ '': '' @ message))))))"

definition client_get :: "'w cenv \<Rightarrow> admin_client \<Rightarrow> string \<Rightarrow> ('w, json) cli_eff" where
  "client_get E c path = client_send E c ''GET'' (ac_base c @ ''/'' @ path) None"

definition client_post :: "'w cenv \<Rightarrow> admin_client \<Rightarrow> string \<Rightarrow> json \<Rightarrow> ('w, json) cli_eff" where
  "client_post E c path body = client_send E c ''POST'' (ac_base c @ ''/'' @ path) (Some body)"


section \<open>What a run leaves in the journal\<close>

definition logs :: "(cli_event \<Rightarrow> bool) \<Rightarrow> 'w cli \<Rightarrow> 'w cli \<Rightarrow> bool" where
  "logs P s t \<longleftrightarrow> (\<exists>evs. journal t = journal s @ evs \<and> list_all P evs)"

interpretation logs: stepwise "logs P" for P
proof
  show "logs P s s" for s :: "'a cli"
    unfolding logs_def by (intro exI [of _ "[]"]) simp
  show "logs P s u" if "logs P s t" "logs P t u" for s t u :: "'a cli"
    using that unfolding logs_def by (metis append.assoc list_all_append)
qed

lemma logs_tell: "P ev \<Longrightarrow> does (logs P) (tell ev)"
  by (auto simp: does_def logs_def effect_simps)

lemma logs_outside: "does (logs P) (outside f)"
  by (auto simp: does_def logs_def outside_def split: prod.splits sum.splits)

lemma logs_wait: "does (logs P) (wait_for E d)"
  by (auto simp: does_def logs_def effect_simps)

lemma logs_attempt: "does (logs P) m \<Longrightarrow> does (logs P) (attempt m)"
  by (auto simp: does_def attempt_def split: prod.splits)

end
