(* ===== verification/GuidedVerify.thy ===== *)
theory GuidedVerify
  imports Terminal
begin

text \<open>
  \<open>ctl verify\<close> without a subcommand (\<open>src/src/admin/verify.rs\<close>): one emoji verification
  from the request to the result. The loops poll the proxy until a flow ends or the time is
  up; they are partial functions, since nothing bounds them but what the proxy answers and
  the clock shows. The theorems are about the one decision that matters, whether the emoji
  match: it is the human's, it is asked for the flow at hand, and without it nothing is
  confirmed.
\<close>

section \<open>The user interface\<close>

text \<open>\<open>trait VerifyUi\<close>; the question is journalled with its answer.\<close>

record 'w verify_ui =
  ui_status :: "string \<Rightarrow> ('w, unit) cli_eff"
  ui_confirm :: "json \<Rightarrow> ('w, bool) cli_eff"

definition ask :: "'w verify_ui \<Rightarrow> json \<Rightarrow> ('w, bool) cli_eff" where
  "ask U sas s = (case ui_confirm U sas s of
     (r, t) \<Rightarrow> (r, t\<lparr>journal := journal t @ [Asked sas r]\<rparr>))"

definition show_number :: "json \<Rightarrow> string option" where
  "show_number j = (case j of
     JNum (PosInt w) \<Rightarrow> Some (show_nat (unat w))
   | JNum (NegInt i) \<Rightarrow> Some (''-'' @ show_nat (nat (- i)))
   | JNum (Float x) \<Rightarrow> Some x
   | _ \<Rightarrow> None)"

text \<open>\<open>Value\<close>'s \<open>Display\<close>: its JSON text.\<close>

definition show_json :: "codec \<Rightarrow> json \<Rightarrow> string" where
  "show_json cd j = (case show_number j of Some x \<Rightarrow> x | None \<Rightarrow> json_print cd j)"

definition render_sas :: "codec \<Rightarrow> json \<Rightarrow> error + string" where
  "render_sas cd sas =
     (case Option.bind (pointer [''emoji'', ''formatted''] sas) as_str of
        Some formatted \<Rightarrow> Inr formatted
      | None \<Rightarrow>
          (let decimals = map (show_json cd) (elements (idx sas ''decimals'')) in
           if length decimals = 3 then Inr (join_with ''   '' decimals)
           else Inl (Msg ''the proxy offered nothing to compare'')))"

text \<open>
  The terminal. Lower-casing turns no other character into a letter of \<open>yes\<close>, so that of
  ASCII decides.
\<close>

definition is_yes :: "string \<Rightarrow> bool" where
  "is_yes answer \<longleftrightarrow> to_ascii_lowercase (str_trim answer) \<in> {''y'', ''yes''}"

definition confirm_on_terminal :: "'w cenv \<Rightarrow> json \<Rightarrow> ('w, bool) cli_eff" where
  "confirm_on_terminal E sas =
     (case render_sas (ce_codec E) sas of
        Inl e \<Rightarrow> failE e
      | Inr shown \<Rightarrow>
          bindE (put_line (line_break @ shown @ line_break)) (\<lambda>_.
          bindE (put_str ''Does the other device show exactly the same? [y/N] '') (\<lambda>_.
          bindE (outside (ce_flush E)) (\<lambda>_.
          bindE (outside (ce_read_line E)) (\<lambda>answer.
          if answer = [] then failE (Msg ''no answer (standard input is closed)'')
          else retE (is_yes answer))))))"

definition terminal_ui :: "'w cenv \<Rightarrow> 'w verify_ui" where
  "terminal_ui E = \<lparr>ui_status = put_line, ui_confirm = confirm_on_terminal E\<rparr>"

section \<open>Options\<close>

text \<open>Times in nanoseconds, like the clock.\<close>

record verify_options =
  vo_device :: "string option"
  vo_user_id :: "string option"
  vo_with_user :: "string option"
  vo_timeout :: nat
  vo_poll :: nat

definition put_opt :: "string \<Rightarrow> string option \<Rightarrow> fields \<Rightarrow> fields" where
  "put_opt k v m = (case v of None \<Rightarrow> m | Some x \<Rightarrow> obj_put k (JStr x) m)"

definition options_params :: "verify_options \<Rightarrow> fields" where
  "options_params opts = put_opt ''with_user'' (vo_with_user opts) (put_opt ''user_id'' (vo_user_id opts) [])"

definition pairs_query :: "string list \<Rightarrow> string" where
  "pairs_query pairs = (if pairs = [] then [] else ''?'' @ join_with ''&'' pairs)"

definition options_query :: "verify_options \<Rightarrow> string" where
  "options_query opts =
     pairs_query (List.map_filter (\<lambda>(k, v). map_option (\<lambda>x. k @ ''='' @ x) v)
       [(''user_id'', vo_user_id opts), (''with_user'', vo_with_user opts)])"

definition start_sas_after :: nat where
  "start_sas_after = 5 * 1000000000"

definition secs :: "nat \<Rightarrow> nat" where
  "secs ns = ns div 1000000000"

definition needs_sync :: string where
  "needs_sync = '' (verification messages only travel while ement is connected and syncing through the proxy)''"

section \<open>Finding the flow\<close>

definition stage_of :: "json \<Rightarrow> string" where
  "stage_of flow = (case as_str (idx flow ''stage'') of None \<Rightarrow> [] | Some x \<Rightarrow> x)"

definition incoming_flow :: "json \<Rightarrow> string option" where
  "incoming_flow answer =
     Option.bind (List.find (\<lambda>flow. as_str (idx flow ''stage'') \<notin> {Some ''done'', Some ''cancelled''})
       (elements (idx answer ''requests''))) (\<lambda>flow. as_str (idx flow ''flow_id''))"

definition poll_requests ::
  "'w cenv \<Rightarrow> admin_client \<Rightarrow> verify_options \<Rightarrow> nat \<Rightarrow> ('w, string option) cli_eff" where
  "poll_requests E c opts deadline =
     bindE (client_get E c (''verify'' @ options_query opts)) (\<lambda>answer.
     case incoming_flow answer of
       Some flow_id \<Rightarrow> retE (Some flow_id)
     | None \<Rightarrow> look (\<lambda>s.
         if deadline \<le> ce_clock E (cw s) then
           failE (Msg (''no verification request arrived within '' @ show_nat (secs (vo_timeout opts)) @ '' s'' @ needs_sync))
         else bindE (wait_for E (vo_poll opts)) (\<lambda>_. retE None)))"

partial_function (option) await_request ::
  "'w cenv \<Rightarrow> admin_client \<Rightarrow> verify_options \<Rightarrow> nat \<Rightarrow> 'w cli \<Rightarrow> ((error + string) \<times> 'w cli) option" where
  "await_request E c opts deadline s =
     (case poll_requests E c opts deadline s of
        (Inl e, t) \<Rightarrow> Some (Inl e, t)
      | (Inr (Some flow_id), t) \<Rightarrow> Some (Inr flow_id, t)
      | (Inr None, t) \<Rightarrow> await_request E c opts deadline t)"

definition request_device ::
  "'w cenv \<Rightarrow> admin_client \<Rightarrow> 'w verify_ui \<Rightarrow> verify_options \<Rightarrow> string \<Rightarrow> ('w, string) cli_eff" where
  "request_device E c U opts device =
     bindE (client_post E c ''verify/start'' (JObj (obj_put ''device_id'' (JStr device) (options_params opts)))) (\<lambda>flow.
     bindE (ui_status U (''Verification requested. Accept it on '' @ device @ '' and choose emoji verification.'')) (\<lambda>_.
     okOr (Msg ''the proxy returned no flow ID'') (as_str (idx flow ''flow_id''))))"

definition waiting_text :: string where
  "waiting_text =
     ''Waiting for a verification request. Start one from your other device (in Element: Settings '' @
     arrow @ '' Sessions '' @ arrow @ '' this session '' @ arrow @ '' Verify).''"

section \<open>One turn of the loop\<close>

definition other_device :: "json \<Rightarrow> string" where
  "other_device flow = (case get_str ''other_device'' flow of None \<Rightarrow> ''the other device'' | Some d \<Rightarrow> d)"

definition cancel_reason :: "json \<Rightarrow> string" where
  "cancel_reason flow =
     (case Option.bind (or_else (pointer [''cancel_info'', ''reason''] flow)
         (pointer [''sas'', ''cancel_info'', ''reason''] flow)) as_str of
        None \<Rightarrow> ''no reason given''
      | Some r \<Rightarrow> r)"

definition flow_path :: "string \<Rightarrow> string \<Rightarrow> string" where
  "flow_path flow_id action = ''verify/'' @ flow_id @ ''/'' @ action"

definition mismatch_text :: string where
  "mismatch_text = ''the emoji did not match, so nothing was verified. If you compared carefully, someone may be interfering with the connection.''"

text \<open>The human's answer becomes the one command to the proxy.\<close>

definition compare_emoji ::
  "'w cenv \<Rightarrow> admin_client \<Rightarrow> 'w verify_ui \<Rightarrow> verify_options \<Rightarrow> string \<Rightarrow> json \<Rightarrow> ('w, unit) cli_eff" where
  "compare_emoji E c U opts flow_id flow =
     bindE (attempt (ask U (idx flow ''sas''))) (\<lambda>answer.
     case answer of
       Inr True \<Rightarrow>
         bindE (client_post E c (flow_path flow_id ''confirm'') (JObj (options_params opts))) (\<lambda>_. retE ())
     | Inr False \<Rightarrow>
         bindE (client_post E c (flow_path flow_id ''mismatch'') (JObj (options_params opts))) (\<lambda>_.
         failE (Msg mismatch_text))
     | Inl e \<Rightarrow>
         bindE (attempt (client_post E c (flow_path flow_id ''cancel'') (JObj (options_params opts)))) (\<lambda>_.
         failE (Wrap ''verification cancelled'' e)))"

definition report_stage ::
  "'w cenv \<Rightarrow> 'w verify_ui \<Rightarrow> json \<Rightarrow> string \<Rightarrow> bool \<Rightarrow> nat option \<Rightarrow> ('w, nat option) cli_eff" where
  "report_stage E U flow stg changed ready_since =
     (if stg = ''incoming'' \<and> changed then
        bindE (ui_status U (''Accepting the request from '' @ other_device flow @ ellipsis)) (\<lambda>_. retE ready_since)
      else if stg = ''ready'' then look (\<lambda>s.
        let since = (case ready_since of None \<Rightarrow> ce_clock E (cw s) | Some t \<Rightarrow> t) in
        bindE (if changed then ui_status U (''Both devices are ready; starting emoji verification'' @ ellipsis)
               else retE ()) (\<lambda>_. retE (Some since)))
      else if stg \<in> {''sas_incoming'', ''key_exchange''} \<and> changed then
        bindE (ui_status U (''Exchanging keys'' @ ellipsis)) (\<lambda>_. retE ready_since)
      else if stg = ''confirmed'' \<and> changed then
        bindE (ui_status U (''Confirmed here. Waiting for the other device to confirm'' @ ellipsis)) (\<lambda>_. retE ready_since)
      else retE ready_since)"

definition wait_or_give_up ::
  "'w cenv \<Rightarrow> admin_client \<Rightarrow> verify_options \<Rightarrow> string \<Rightarrow> nat \<Rightarrow> ('w, unit) cli_eff" where
  "wait_or_give_up E c opts flow_id deadline = look (\<lambda>s.
     if deadline \<le> ce_clock E (cw s) then
       bindE (attempt (client_post E c (flow_path flow_id ''cancel'') (JObj (options_params opts)))) (\<lambda>_.
       failE (Msg (''verification did not complete within '' @ show_nat (secs (vo_timeout opts)) @
         '' s and was cancelled'' @ needs_sync)))
     else wait_for E (vo_poll opts))"

datatype turn = Finished json | Again string "nat option"

definition verify_turn ::
  "'w cenv \<Rightarrow> admin_client \<Rightarrow> 'w verify_ui \<Rightarrow> verify_options \<Rightarrow> string \<Rightarrow> nat \<Rightarrow>
   string \<Rightarrow> nat option \<Rightarrow> ('w, turn) cli_eff" where
  "verify_turn E c U opts flow_id deadline last_stage ready_since = look (\<lambda>s.
     let start_sas = (case ready_since of None \<Rightarrow> False
       | Some since \<Rightarrow> start_sas_after \<le> ce_clock E (cw s) - since) in
     bindE (client_post E c (flow_path flow_id ''advance'')
       (JObj (obj_put ''start_sas'' (JBool start_sas) (options_params opts)))) (\<lambda>flow.
     let stg = stage_of flow in
     if stg = ''done'' then retE (Finished flow)
     else if stg = ''cancelled'' then failE (Msg (''verification was cancelled: '' @ cancel_reason flow))
     else if stg = ''compare'' then
       bindE (compare_emoji E c U opts flow_id flow) (\<lambda>_. retE (Again stg ready_since))
     else
       bindE (report_stage E U flow stg (stg \<noteq> last_stage) ready_since) (\<lambda>since.
       bindE (wait_or_give_up E c opts flow_id deadline) (\<lambda>_.
       retE (Again stg since)))))"

partial_function (option) verify_loop ::
  "'w cenv \<Rightarrow> admin_client \<Rightarrow> 'w verify_ui \<Rightarrow> verify_options \<Rightarrow> string \<Rightarrow> nat \<Rightarrow>
   string \<Rightarrow> nat option \<Rightarrow> 'w cli \<Rightarrow> ((error + json) \<times> 'w cli) option" where
  "verify_loop E c U opts flow_id deadline last_stage ready_since s =
     (case verify_turn E c U opts flow_id deadline last_stage ready_since s of
        (Inl e, t) \<Rightarrow> Some (Inl e, t)
      | (Inr (Finished flow), t) \<Rightarrow> Some (Inr flow, t)
      | (Inr (Again stg since), t) \<Rightarrow> verify_loop E c U opts flow_id deadline stg since t)"

text \<open>
  The whole verification. A deadline that the clock cannot represent is a panic
  (\<open>Instant + Duration\<close>).
\<close>

definition verify_run ::
  "'w cenv \<Rightarrow> admin_client \<Rightarrow> 'w verify_ui \<Rightarrow> verify_options \<Rightarrow> 'w cli \<Rightarrow> ((error + json) \<times> 'w cli) option" where
  "verify_run E c U opts = look (\<lambda>s.
     let deadline = ce_clock E (cw s) + vo_timeout opts in
     if ce_clock_max E < deadline then (\<lambda>_. None)
     else
       bindP (case vo_device opts of
           Some device \<Rightarrow> liftP (request_device E c U opts device)
         | None \<Rightarrow> bindP (liftP (ui_status U waiting_text)) (\<lambda>_. await_request E c opts deadline)) (\<lambda>flow_id.
       verify_loop E c U opts flow_id deadline [] None))"


section \<open>The emoji are judged by the human\<close>

definition is_answer :: "bool \<Rightarrow> cli_event \<Rightarrow> bool" where
  "is_answer yes ev =
     (case ev of
        Sent rq \<Rightarrow> ct_method rq = ''POST'' \<and> suffix (if yes then ''/confirm'' else ''/mismatch'') (ct_url rq)
      | _ \<Rightarrow> False)"

definition was_asked :: "bool \<Rightarrow> cli_event \<Rightarrow> bool" where
  "was_asked yes ev = (case ev of Asked sas (Inr b) \<Rightarrow> b = yes | _ \<Rightarrow> False)"

text \<open>
  What is posted and what the human said go together: an answer to the proxy directly follows
  the same answer of the human, and such an answer is passed on at once.
\<close>

definition justified :: "cli_event list \<Rightarrow> bool" where
  "justified evs \<longleftrightarrow>
     (\<forall>i < length evs. \<forall>yes.
       (is_answer yes (evs ! i) \<longrightarrow> 0 < i \<and> was_asked yes (evs ! (i - 1))) \<and>
       (was_asked yes (evs ! i) \<longrightarrow> Suc i < length evs \<and> is_answer yes (evs ! Suc i)))"

definition calm :: "cli_event list \<Rightarrow> bool" where
  "calm evs \<longleftrightarrow> (\<forall>sas a. Asked sas a \<in> set evs \<longrightarrow> a = Inr True)"

definition neutral :: "cli_event list \<Rightarrow> bool" where
  "neutral evs \<longleftrightarrow> (\<forall>ev \<in> set evs. (\<forall>yes. \<not> is_answer yes ev) \<and> (\<forall>sas a. ev \<noteq> Asked sas a))"

text \<open>A user interface only prints.\<close>

definition plain_ui :: "'w verify_ui \<Rightarrow> bool" where
  "plain_ui U \<longleftrightarrow>
     (\<forall>x s. \<exists>out. journal (snd (ui_status U x s)) = journal s @ map Printed out) \<and>
     (\<forall>x s. \<exists>out. journal (snd (ui_confirm U x s)) = journal s @ map Printed out)"

lemma justified_append:
  assumes "justified xs" and "justified ys"
  shows "justified (xs @ ys)"
  unfolding justified_def
proof (intro allI impI)
  fix i yes
  assume i: "i < length (xs @ ys)"
  show "(is_answer yes ((xs @ ys) ! i) \<longrightarrow> 0 < i \<and> was_asked yes ((xs @ ys) ! (i - 1))) \<and>
    (was_asked yes ((xs @ ys) ! i) \<longrightarrow> Suc i < length (xs @ ys) \<and> is_answer yes ((xs @ ys) ! Suc i))"
  proof (cases "i < length xs")
    case True
    then have "(is_answer yes (xs ! i) \<longrightarrow> 0 < i \<and> was_asked yes (xs ! (i - 1))) \<and>
        (was_asked yes (xs ! i) \<longrightarrow> Suc i < length xs \<and> is_answer yes (xs ! Suc i))"
      using assms(1) unfolding justified_def by blast
    with True show ?thesis
      by (auto simp: nth_append)
  next
    case False
    define j where "j = i - length xs"
    have j: "i = length xs + j" "j < length ys"
      using False i by (auto simp: j_def)
    have "(is_answer yes (ys ! j) \<longrightarrow> 0 < j \<and> was_asked yes (ys ! (j - 1))) \<and>
        (was_asked yes (ys ! j) \<longrightarrow> Suc j < length ys \<and> is_answer yes (ys ! Suc j))"
      using assms(2) j(2) unfolding justified_def by blast
    then show ?thesis
      by (cases j) (auto simp: j(1) nth_append)
  qed
qed

lemma neutral_justified: "neutral evs \<Longrightarrow> justified evs"
  unfolding neutral_def justified_def was_asked_def
  by (auto split: cli_event.splits sum.splits dest!: nth_mem)

lemma neutral_calm: "neutral evs \<Longrightarrow> calm evs"
  by (auto simp: neutral_def calm_def)

lemma neutral_append [simp]: "neutral (xs @ ys) \<longleftrightarrow> neutral xs \<and> neutral ys"
  by (auto simp: neutral_def)

lemma calm_append [simp]: "calm (xs @ ys) \<longleftrightarrow> calm xs \<and> calm ys"
  by (auto simp: calm_def)

lemma neutral_printed: "neutral (map Printed out)"
  by (auto simp: neutral_def is_answer_def)

definition posted :: "admin_client \<Rightarrow> string \<Rightarrow> json \<Rightarrow> cli_event" where
  "posted c path body =
     Sent \<lparr>ct_method = ''POST'', ct_url = ac_base c @ ''/'' @ path, ct_bearer = ac_token c, ct_body = Some body\<rparr>"

lemma client_send_journal:
  "client_send E c verb url body s = (r, t) \<Longrightarrow>
    journal t = journal s @ [Sent \<lparr>ct_method = verb, ct_url = url, ct_bearer = ac_token c, ct_body = body\<rparr>]"
  by (auto simp: client_send_def json_body_def effect_simps Let_def
      split: prod.splits sum.splits option.splits if_splits)

lemma client_post_journal: "client_post E c path body s = (r, t) \<Longrightarrow> journal t = journal s @ [posted c path body]"
  unfolding client_post_def posted_def by (rule client_send_journal)

lemma neutral_posts:
  "neutral [posted c (flow_path f ''advance'') b]" "neutral [posted c (flow_path f ''cancel'') b]"
  "neutral [posted c ''verify/start'' b]"
  by (simp_all add: neutral_def posted_def is_answer_def flow_path_def suffix_to_prefix)

lemma answer_posts:
  "is_answer yes (posted c (flow_path f (if yes' then ''confirm'' else ''mismatch'')) b) \<longleftrightarrow> yes = yes'"
  by (cases yes; cases yes') (simp_all add: posted_def is_answer_def flow_path_def suffix_to_prefix)

definition neutrally :: "'w cli \<Rightarrow> 'w cli \<Rightarrow> bool" where
  "neutrally s t \<longleftrightarrow> (\<exists>evs. journal t = journal s @ evs \<and> neutral evs)"

interpretation neutral_steps: stepwise neutrally
proof
  show "neutrally s s" for s :: "'a cli"
    unfolding neutrally_def by (intro exI [of _ "[]"]) (simp add: neutral_def)
  show "neutrally s u" if "neutrally s t" "neutrally t u" for s t u :: "'a cli"
    using that unfolding neutrally_def by (metis append.assoc neutral_append)
qed


text \<open>A turn, event by event.\<close>

lemma neutral_status: "plain_ui U \<Longrightarrow> does neutrally (ui_status U x)"
  unfolding plain_ui_def
  by (intro doesI) (metis neutral_printed neutrally_def snd_conv)

lemma neutral_post: "neutral [posted c path b] \<Longrightarrow> does neutrally (client_post E c path b)"
  by (intro doesI) (auto simp: neutrally_def dest: client_post_journal)

lemma neutral_wait: "does neutrally (wait_for E d)"
  by (auto simp: does_def neutrally_def wait_for_def writes_def neutral_def)

lemma neutral_attempt: "does neutrally m \<Longrightarrow> does neutrally (attempt m)"
  by (auto simp: does_def attempt_def split: prod.splits)

lemma neutral_report: "plain_ui U \<Longrightarrow> does neutrally (report_stage E U flow stg changed since)"
  unfolding report_stage_def Let_def by (intro neutral_steps.does_intros neutral_status)

lemma neutral_give_up: "does neutrally (wait_or_give_up E c opts flow_id deadline)"
  unfolding wait_or_give_up_def
  by (intro neutral_steps.does_intros neutral_attempt neutral_post neutral_posts neutral_wait)

lemma ask_journal:
  assumes "plain_ui U" and "ask U sas s = (r, t)"
  obtains out where "journal t = journal s @ map Printed out @ [Asked sas r]"
proof -
  obtain t' where t': "ui_confirm U sas s = (r, t')" "t = t'\<lparr>journal := journal t' @ [Asked sas r]\<rparr>"
    using assms(2) by (auto simp: ask_def split: prod.splits)
  obtain out where "journal t' = journal s @ map Printed out"
    using assms(1) t'(1) unfolding plain_ui_def by (metis snd_conv)
  then show thesis
    by (intro that [of out]) (simp add: t'(2))
qed

text \<open>What a part of a run may do: justified events, and only agreement when it goes on.\<close>

definition fair :: "'w cli \<Rightarrow> bool \<Rightarrow> 'w cli \<Rightarrow> bool" where
  "fair s goes_on t \<longleftrightarrow> (\<exists>evs. journal t = journal s @ evs \<and> justified evs \<and> (goes_on \<longrightarrow> calm evs))"

lemma fair_refl: "fair s b s"
  unfolding fair_def by (intro exI [of _ "[]"]) (simp add: justified_def calm_def)

lemma fair_trans: "fair s True t \<Longrightarrow> fair t b u \<Longrightarrow> fair s b u"
  unfolding fair_def by (metis append.assoc calm_append justified_append)

lemma neutrally_fair: "neutrally s t \<Longrightarrow> fair s b t"
  unfolding neutrally_def fair_def using neutral_justified neutral_calm by blast

lemma fair_does: "does neutrally m \<Longrightarrow> m s = (r, t) \<Longrightarrow> fair s b t"
  by (meson doesD neutrally_fair)

lemma justified_answer:
  assumes "\<And>b. is_answer b p \<longleftrightarrow> b = yes" and "\<And>b. \<not> was_asked b p"
  shows "justified (map Printed out @ [Asked sas (Inr yes), p])"
proof -
  have asked: "\<not> is_answer b (Asked sas a)" "was_asked b (Asked sas (Inr yes)) \<longleftrightarrow> b = yes" for b a
    by (auto simp: is_answer_def was_asked_def)
  have "justified [Asked sas (Inr yes), p]"
    unfolding justified_def
  proof (intro allI impI)
    fix i b
    assume "i < length [Asked sas (Inr yes), p]"
    then have "i = 0 \<or> i = 1" by auto
    then show "(is_answer b ([Asked sas (Inr yes), p] ! i) \<longrightarrow> 0 < i \<and> was_asked b ([Asked sas (Inr yes), p] ! (i - 1))) \<and>
        (was_asked b ([Asked sas (Inr yes), p] ! i) \<longrightarrow>
          Suc i < length [Asked sas (Inr yes), p] \<and> is_answer b ([Asked sas (Inr yes), p] ! Suc i))"
      using assms by (elim disjE) (simp_all add: asked)
  qed
  then show ?thesis
    using justified_append [OF neutral_justified [OF neutral_printed]] by blast
qed

lemma justified_no_answer: "justified [Asked sas (Inl e)]"
  by (simp add: justified_def was_asked_def is_answer_def)

lemma compare_fair:
  assumes ui: "plain_ui U" and run: "compare_emoji E c U opts flow_id flow s = (r, t)"
  shows "fair s (\<not> isl r) t"
proof -
  obtain a u where ask: "ask U (idx flow ''sas'') s = (a, u)"
    by fastforce
  obtain out where u: "journal u = journal s @ map Printed out @ [Asked (idx flow ''sas'') a]"
    by (rule ask_journal [OF ui ask])
  show ?thesis
  proof (cases a)
    case (Inl e)
    obtain v where v: "attempt (client_post E c (flow_path flow_id ''cancel'') (JObj (options_params opts))) u = v"
      by blast
    have "fair u True (snd v)"
      by (rule fair_does [OF neutral_attempt [OF neutral_post [OF neutral_posts(2)]], of E c flow_id _ u "fst v"])
        (use v in simp)
    moreover have "fair s False u"
    proof -
      have "justified (map Printed out @ [Asked (idx flow ''sas'') (Inl e)])"
        by (intro justified_append justified_no_answer) (intro neutral_justified neutral_printed)
      then show ?thesis
        unfolding fair_def by (intro exI [of _ "map Printed out @ [Asked (idx flow ''sas'') (Inl e)]"])
          (simp add: u Inl)
    qed
    moreover have "isl r" "t = snd v"
      using run v by (auto simp: compare_emoji_def attempt_def bindE_def ask Inl failE_def split: prod.splits sum.splits)
    ultimately show ?thesis
      unfolding fair_def by (metis append.assoc justified_append)
  next
    case (Inr yes)
    let ?p = "posted c (flow_path flow_id (if yes then ''confirm'' else ''mismatch'')) (JObj (options_params opts))"
    have "journal t = journal u @ [?p]" and r: "yes \<or> isl r"
      using run by (auto simp: compare_emoji_def attempt_def bindE_def retE_def failE_def ask Inr
          dest!: client_post_journal split: prod.splits sum.splits bool.splits)
    moreover have "justified (map Printed out @ [Asked (idx flow ''sas'') (Inr yes), ?p])"
      by (rule justified_answer) (simp_all add: answer_posts, simp add: posted_def was_asked_def)
    moreover have "yes \<Longrightarrow> calm (map Printed out @ [Asked (idx flow ''sas'') (Inr yes), ?p])"
      by (auto simp: calm_def posted_def)
    ultimately show ?thesis
      unfolding fair_def
      by (intro exI [of _ "map Printed out @ [Asked (idx flow ''sas'') (Inr yes), ?p]"]) (auto simp: u Inr)
  qed
qed


lemma turn_fair:
  assumes ui: "plain_ui U"
    and run: "verify_turn E c U opts flow_id deadline last_stage since s = (r, t)"
  shows "fair s (\<not> isl r) t" and "r = Inr (Finished flow) \<Longrightarrow> stage_of flow = ''done''"
proof -
  obtain body where start: "verify_turn E c U opts flow_id deadline last_stage since s =
      bindE (client_post E c (flow_path flow_id ''advance'') body) (\<lambda>flow.
        if stage_of flow = ''done'' then retE (Finished flow)
        else if stage_of flow = ''cancelled'' then failE (Msg (''verification was cancelled: '' @ cancel_reason flow))
        else if stage_of flow = ''compare'' then
          bindE (compare_emoji E c U opts flow_id flow) (\<lambda>_. retE (Again (stage_of flow) since))
        else
          bindE (report_stage E U flow (stage_of flow) (stage_of flow \<noteq> last_stage) since) (\<lambda>since'.
          bindE (wait_or_give_up E c opts flow_id deadline) (\<lambda>_. retE (Again (stage_of flow) since')))) s"
    (is "_ = bindE ?post ?rest s")
    unfolding verify_turn_def look_def Let_def by blast
  obtain a u where post: "?post s = (a, u)"
    by fastforce
  have su: "fair s True u"
    by (rule fair_does [OF neutral_post [OF neutral_posts(1)] post])
  have "fair u (\<not> isl r) t \<and> (\<forall>flow. r = Inr (Finished flow) \<longrightarrow> stage_of flow = ''done'')"
  proof (cases a)
    case (Inl e)
    then have "r = Inl e" "t = u" using run start post by (auto simp: bindE_def)
    then show ?thesis by (simp add: fair_refl)
  next
    case (Inr flow)
    have rest: "?rest flow u = (r, t)"
      using run start post Inr by (simp add: bindE_def)
    consider "stage_of flow = ''done''" | "stage_of flow = ''cancelled''" | "stage_of flow = ''compare''"
      | "stage_of flow \<notin> {''done'', ''cancelled'', ''compare''}" by blast
    then show ?thesis
    proof cases
      case 3
      obtain q v where q: "compare_emoji E c U opts flow_id flow u = (q, v)"
        by fastforce
      have "t = v" "isl r = isl q" "\<forall>flow. r \<noteq> Inr (Finished flow)"
        using rest 3 q by (auto simp: bindE_def retE_def split: sum.splits)
      then show ?thesis
        using compare_fair [OF ui q] by simp
    next
      case 4
      have "does neutrally (bindE (report_stage E U flow (stage_of flow) (stage_of flow \<noteq> last_stage) since) (\<lambda>since'.
          bindE (wait_or_give_up E c opts flow_id deadline) (\<lambda>_. retE (Again (stage_of flow) since'))))"
        by (intro neutral_steps.does_bindE neutral_steps.does_retE neutral_report neutral_give_up ui)
      then show ?thesis
        using rest 4 by (auto simp: bindE_eq_Inr_iff retE_def intro: fair_does)
    qed (use rest in \<open>auto simp: retE_def failE_def fair_refl\<close>)
  qed
  then show "fair s (\<not> isl r) t" and "r = Inr (Finished flow) \<Longrightarrow> stage_of flow = ''done''"
    using fair_trans [OF su] by blast+
qed

lemma loop_fair:
  "verify_loop E c U opts flow_id deadline last_stage since s = Some y \<Longrightarrow> plain_ui U \<Longrightarrow>
    fair s (\<not> isl (fst y)) (snd y) \<and> (\<forall>flow. fst y = Inr flow \<longrightarrow> stage_of flow = ''done'')"
proof (induction E c U opts flow_id deadline last_stage since s y
    rule: verify_loop.raw_induct [rotated, consumes 1, case_names step])
  case (step loop E c U opts flow_id deadline last_stage since s y)
  obtain r t where turn: "verify_turn E c U opts flow_id deadline last_stage since s = (r, t)" by fastforce
  note st = turn_fair [OF step.prems turn]
  show ?case
  proof (cases r)
    case (Inl e)
    then show ?thesis using step.hyps turn st(1) by auto
  next
    case (Inr w)
    show ?thesis
    proof (cases w)
      case (Finished flow)
      then show ?thesis using step.hyps turn st Inr by auto
    next
      case (Again stg since')
      then have "loop E c U opts flow_id deadline stg since' t = Some y"
        using step.hyps turn Inr by simp
      from step.IH [OF this step.prems] show ?thesis
        using st(1) Inr by (auto intro: fair_trans)
    qed
  qed
qed

lemma neutral_poll: "does neutrally (poll_requests E c opts deadline)"
proof -
  have get: "does neutrally (client_get E c path)" for path
    unfolding client_get_def
    by (intro doesI) (auto simp: neutrally_def neutral_def is_answer_def dest: client_send_journal)
  show ?thesis
    unfolding poll_requests_def by (intro neutral_steps.does_intros get neutral_wait)
qed

text \<open>What every turn keeps, the loops keep.\<close>

lemma await_keeps:
  "await_request E c opts deadline s = Some y \<Longrightarrow> stepwise R \<Longrightarrow> does R (poll_requests E c opts deadline) \<Longrightarrow>
    R s (snd y)"
proof (induction E c opts deadline s y
    rule: await_request.raw_induct [rotated, consumes 1, case_names step])
  case (step loop E c opts deadline s y)
  obtain r t where poll: "poll_requests E c opts deadline s = (r, t)" by fastforce
  have st: "R s t" by (rule doesD [OF step.prems(2) poll])
  show ?case
  proof (cases "\<exists>x. r = Inr None")
    case True
    then have "loop E c opts deadline t = Some y" using step.hyps poll by auto
    from step.IH [OF this step.prems] show ?thesis by (rule stepwise.trans [OF step.prems(1) st])
  next
    case False
    then show ?thesis using step.hyps poll st by (auto split: sum.splits option.splits)
  qed
qed

lemma loop_keeps:
  "verify_loop E c U opts flow_id deadline last_stage since s = Some y \<Longrightarrow> stepwise R \<Longrightarrow>
    (\<And>stg since. does R (verify_turn E c U opts flow_id deadline stg since)) \<Longrightarrow> R s (snd y)"
proof (induction E c U opts flow_id deadline last_stage since s y
    rule: verify_loop.raw_induct [rotated, consumes 1, case_names step])
  case (step loop E c U opts flow_id deadline last_stage since s y)
  obtain r t where turn: "verify_turn E c U opts flow_id deadline last_stage since s = (r, t)" by fastforce
  have st: "R s t" by (rule doesD [OF step.prems(2) turn])
  show ?case
  proof (cases "\<exists>stg since. r = Inr (Again stg since)")
    case True
    then obtain stg since' where "loop E c U opts flow_id deadline stg since' t = Some y"
      using step.hyps turn by auto
    from step.IH [OF this step.prems] show ?thesis by (rule stepwise.trans [OF step.prems(1) st])
  next
    case False
    then show ?thesis using step.hyps turn st by (auto split: sum.splits turn.splits)
  qed
qed

lemma verify_run_keeps:
  assumes R: "stepwise R" and get: "\<And>path. does R (client_get E c path)" and post: "\<And>path body. does R (client_post E c path body)"
    and wait: "\<And>d. does R (wait_for E d)" and status: "\<And>x. does R (ui_status U x)" and ask: "\<And>sas. does R (ask U sas)"
    and attempt: "\<And>m :: ('w, json) cli_eff. does R m \<Longrightarrow> does R (attempt m :: ('w, error + json) cli_eff)"
      "\<And>m :: ('w, bool) cli_eff. does R m \<Longrightarrow> does R (attempt m :: ('w, error + bool) cli_eff)"
  shows "doesP R (verify_run E c U opts :: 'w cli \<Rightarrow> _)"
proof -
  note steps = stepwise.does_intros [OF R] stepwise.doesP_intros [OF R]
  have compare: "does R (compare_emoji E c U opts flow_id flow)" for flow_id flow
    unfolding compare_emoji_def
    by (intro steps attempt ask) (auto intro!: steps post attempt split: sum.split bool.split)
  have "does R (verify_turn E c U opts flow_id deadline stg since)" for flow_id deadline stg since
    unfolding verify_turn_def report_stage_def wait_or_give_up_def Let_def
    by (intro steps post attempt wait status compare)
  moreover have "does R (poll_requests E c opts deadline)" for deadline
    unfolding poll_requests_def by (intro steps get wait)
  ultimately have "doesP R (verify_loop E c U opts flow_id deadline stg since)"
      "doesP R (await_request E c opts deadline)" for flow_id deadline stg since
    by (auto simp: doesP_def dest!: loop_keeps [OF _ R] await_keeps [OF _ R])
  moreover have "doesP R (\<lambda>_. None)" by (simp add: doesP_def)
  ultimately show ?thesis
    unfolding verify_run_def request_device_def Let_def by (intro steps post status)
qed

text \<open>
  C15: in a guided verification the emoji are judged by the human alone. Whatever the proxy
  answers, a \<open>confirm\<close> is posted only directly after the human said yes to what was shown, a
  \<open>mismatch\<close> only directly after a no, and either answer is passed on at once; a run succeeds
  only with a flow the proxy calls done, and after anything but yes, a no or no answer at all,
  it is an error.
\<close>

theorem human_judges_emoji:
  assumes "plain_ui U" and "verify_run E c U opts s = Some (r, t)"
  shows "\<exists>evs. journal t = journal s @ evs \<and> justified evs \<and>
    (\<forall>flow. r = Inr flow \<longrightarrow> stage_of flow = ''done'' \<and> calm evs)"
proof -
  let ?deadline = "ce_clock E (cw s) + vo_timeout opts"
  let ?find = "case vo_device opts of
      Some device \<Rightarrow> liftP (request_device E c U opts device)
    | None \<Rightarrow> bindP (liftP (ui_status U waiting_text)) (\<lambda>_. await_request E c opts ?deadline)"
  have find: "doesP neutrally ?find"
    unfolding request_device_def
    by (intro neutral_steps.doesP_intros neutral_steps.does_intros neutral_status neutral_post neutral_posts assms(1))
      (auto simp: doesP_def dest!: await_keeps [OF _ neutral_steps.stepwise_axioms neutral_poll])
  have "bindP ?find (\<lambda>flow_id. verify_loop E c U opts flow_id ?deadline [] None) s = Some (r, t)"
    using assms(2) by (simp add: verify_run_def look_def Let_def split: if_splits)
  then consider (failed) e where "?find s = Some (Inl e, t)" "r = Inl e"
    | (found) flow_id u where "?find s = Some (Inr flow_id, u)"
        "verify_loop E c U opts flow_id ?deadline [] None u = Some (r, t)"
    unfolding bindP_eq_Some_iff by blast
  then have "fair s (\<not> isl r) t \<and> (\<forall>flow. r = Inr flow \<longrightarrow> stage_of flow = ''done'')"
  proof cases
    case failed
    then show ?thesis
      using doesPD [OF find failed(1)] by (simp add: neutrally_fair)
  next
    case found
    then show ?thesis
      using loop_fair [OF found(2) assms(1)] fair_trans [OF neutrally_fair [OF doesPD [OF find found(1)]]]
      by (metis fst_conv snd_conv)
  qed
  then show ?thesis
    unfolding fair_def by (metis sum.disc(2))
qed


section \<open>A run on the terminal\<close>

declare verify_loop.simps [code] await_request.simps [code]

lemma does_put_line: "\<exists>out. journal (snd (put_line x s)) = journal s @ map Printed out"
  by (intro exI [of _ "[x @ line_break]"]) (simp add: effect_simps)

lemma plain_terminal: "plain_ui (terminal_ui E)"
proof -
  have "\<exists>out. journal (snd (confirm_on_terminal E sas s)) = journal s @ map Printed out" for sas s
  proof (cases "render_sas (ce_codec E) sas")
    case (Inl e)
    then show ?thesis
      by (intro exI [of _ "[]"]) (simp add: confirm_on_terminal_def failE_def)
  next
    case (Inr shown)
    then show ?thesis
      by (intro exI [of _ "[line_break @ shown @ line_break @ line_break,
          ''Does the other device show exactly the same? [y/N] '']"])
        (simp add: confirm_on_terminal_def effect_simps split: prod.split sum.split)
  qed
  then show ?thesis
    unfolding plain_ui_def terminal_ui_def by (simp add: does_put_line)
qed


definition ref_cenv :: "(string \<times> json) list \<Rightarrow> 'w cenv" where
  "ref_cenv tbl =
     \<lparr>ce_codec = ref_codec tbl, ce_host = ref_host,
      ce_http = (\<lambda>rq w. (Inr \<lparr>rs_status = 200, rs_headers = [], rs_body = ''{}''\<rparr>, w)),
      ce_body = (\<lambda>resp w. (Inr (rs_body resp), w)),
      ce_clock = (\<lambda>w. 0), ce_clock_max = 1000, ce_sleep = (\<lambda>d w. w),
      ce_read_line = (\<lambda>w. (Inr (''yes'' @ line_break), w)), ce_flush = (\<lambda>w. (Inr (), w)),
      ce_password = (\<lambda>q w. (Inr ''secret'', w)),
      ce_read = (\<lambda>p w. (Inl ''no such file'', w)), ce_write = (\<lambda>p x w. (Inr (), w)),
      ce_mkdirs = (\<lambda>p w. (Inr (), w)), ce_open_empty = (\<lambda>m p w. (Inr (), w)), ce_write_all = (\<lambda>p x w. (Inr (), w)),
      ce_exe = (\<lambda>w. (Inr ''/bin/ement-e2ee'', w)), ce_systemctl = (\<lambda>as w. (Inr None, w)),
      ce_server_name = (\<lambda>u. Inr ''hs''), ce_url_join = (\<lambda>u p. Inr (u\<lparr>url_path := p\<rparr>)),
      ce_debug = (\<lambda>x. x)\<rparr>"

text \<open>The proxy's answers to a verification that goes well, one after the other.\<close>

definition done_flow :: json where
  "done_flow = JObj [(''stage'', JStr ''done'')]"

definition scripted_env :: "nat cenv" where
  "scripted_env =
     (ref_cenv [(''0'', JObj [(''flow_id'', JStr ''f'')]), 
       (''1'', JObj [(''sas'', JObj [(''emoji'', JObj [(''formatted'', JStr ''Dog'')])]), (''stage'', JStr ''compare'')]),
       (''2'', JObj []), (''3'', done_flow)])
       \<lparr>ce_http := (\<lambda>rq w. (Inr \<lparr>rs_status = 200, rs_headers = [], rs_body = show_nat w\<rparr>, Suc w))\<rparr>"

definition device_options :: verify_options where
  "device_options = \<lparr>vo_device = Some ''PHONE'', vo_user_id = None, vo_with_user = None, vo_timeout = 9, vo_poll = 1\<rparr>"

definition local_client :: admin_client where
  "local_client = new_client ''http://h/'' None"

definition first_steps :: "nat cli" where
  "first_steps = \<lparr>cw = 0, journal = []\<rparr>"

theorem human_judges_emoji_witness:
  "\<exists>t. verify_run scripted_env local_client (terminal_ui scripted_env) device_options first_steps =
      Some (Inr done_flow, t) \<and> justified (journal t) \<and> calm (journal t) \<and> length (journal t) = 8"
proof -
  have "map_option (\<lambda>(r, t). (r, length (journal t))) (verify_run scripted_env local_client
      (terminal_ui scripted_env) device_options first_steps) = Some (Inr done_flow, 8)"
    by code_simp
  then obtain t where t: "verify_run scripted_env local_client (terminal_ui scripted_env) device_options
      first_steps = Some (Inr done_flow, t)" "length (journal t) = 8"
    by auto
  have "journal first_steps = []" by (simp add: first_steps_def)
  then show ?thesis
    using human_judges_emoji [OF plain_terminal t(1)] t by auto
qed


section \<open>A verification ends\<close>

definition later :: "('w \<Rightarrow> nat) \<Rightarrow> 'w cenv \<Rightarrow> 'w cli \<Rightarrow> 'w cli \<Rightarrow> bool" where
  "later m E s t \<longleftrightarrow> m (cw t) \<le> m (cw s) \<and> ce_clock E (cw s) \<le> ce_clock E (cw t)"

text \<open>
  Time goes on, sleeping takes its time, and the proxy shows the emoji only finitely often: \<open>m\<close>
  counts how often it still may.
\<close>

definition orderly :: "'w cenv \<Rightarrow> admin_client \<Rightarrow> 'w verify_ui \<Rightarrow> ('w \<Rightarrow> nat) \<Rightarrow> bool" where
  "orderly E c U m \<longleftrightarrow>
     (\<forall>rq. does (later m E) (outside (ce_http E rq))) \<and>
     (\<forall>resp. does (later m E) (outside (ce_body E resp))) \<and>
     (\<forall>x. does (later m E) (ui_status U x)) \<and> (\<forall>x. does (later m E) (ui_confirm U x)) \<and>
     (\<forall>d w. m (ce_sleep E d w) \<le> m w \<and> ce_clock E w + d \<le> ce_clock E (ce_sleep E d w)) \<and>
     (\<forall>path body s flow t. client_post E c path body s = (Inr flow, t) \<longrightarrow> stage_of flow = ''compare'' \<longrightarrow>
        m (cw t) < m (cw s))"

interpretation later: stepwise "later m E" for m E
  by unfold_locales (auto simp: later_def)

lemma later_tell: "does (later m E) (tell ev)"
  by (auto simp: does_def later_def effect_simps)

lemma later_attempt: "does (later m E) f \<Longrightarrow> does (later m E) (attempt f)"
  by (auto simp: does_def attempt_def split: prod.splits)

lemma later_ask: "does (later m E) (ui_confirm U sas) \<Longrightarrow> does (later m E) (ask U sas)"
  by (auto simp: does_def ask_def later_def split: prod.splits)

lemma later_send: "orderly E c U m \<Longrightarrow> does (later m E) (client_send E d verb url body)"
  unfolding client_send_def json_body_def Let_def
  by (intro later.does_intros later_tell later_attempt) (auto simp: orderly_def)

lemma later_post: "orderly E c U m \<Longrightarrow> does (later m E) (client_post E d path body)"
  unfolding client_post_def by (rule later_send)

lemma later_status: "orderly E c U m \<Longrightarrow> does (later m E) (ui_status U x)"
  by (simp add: orderly_def)

lemma later_compare: "orderly E c U m \<Longrightarrow> does (later m E) (compare_emoji E c U opts flow_id flow)"
  unfolding compare_emoji_def
  by (intro later.does_bindE later_attempt later_ask)
    (auto simp: orderly_def intro!: later.does_intros later_post later_attempt split: sum.splits bool.splits)

lemma later_report: "orderly E c U m \<Longrightarrow> does (later m E) (report_stage E U flow stg changed since)"
  unfolding report_stage_def Let_def by (intro later.does_intros later_status)

lemma wait_progress:
  assumes "orderly E c U m" and "0 < vo_poll opts"
    and "wait_or_give_up E c opts flow_id deadline s = (Inr x, t)"
  shows "m (cw t) \<le> m (cw s) \<and> ce_clock E (cw s) < ce_clock E (cw t) \<and> ce_clock E (cw s) < deadline"
proof -
  have "ce_clock E (cw s) < deadline" and t: "t = s\<lparr>cw := ce_sleep E (vo_poll opts) (cw s)\<rparr>"
    using assms(3) by (auto simp: wait_or_give_up_def look_def bindE_def failE_def wait_for_def writes_def
        split: if_splits prod.splits sum.splits)
  moreover have "m (ce_sleep E d w) \<le> m w" "ce_clock E w + d \<le> ce_clock E (ce_sleep E d w)" for d w
    using assms(1) by (simp_all add: orderly_def)
  from this(1) this(2) [of "cw s" "vo_poll opts"] show ?thesis
    using assms(2) calculation by simp
qed

lemma turn_progress:
  assumes ord: "orderly E c U m" and poll: "0 < vo_poll opts"
    and run: "verify_turn E c U opts flow_id deadline last_stage since s = (Inr (Again stg since'), t)"
  shows "m (cw t) < m (cw s) \<or>
    (m (cw t) \<le> m (cw s) \<and> deadline - ce_clock E (cw t) < deadline - ce_clock E (cw s))"
proof -
  obtain body flow u where post: "client_post E c (flow_path flow_id ''advance'') body s = (Inr flow, u)"
    and rest: "(if stage_of flow = ''compare'' then
          bindE (compare_emoji E c U opts flow_id flow) (\<lambda>_. retE (Again (stage_of flow) since))
        else
          bindE (report_stage E U flow (stage_of flow) (stage_of flow \<noteq> last_stage) since) (\<lambda>since'.
          bindE (wait_or_give_up E c opts flow_id deadline) (\<lambda>_. retE (Again (stage_of flow) since')))) u =
        (Inr (Again stg since'), t)"
    using run by (auto simp: verify_turn_def look_def Let_def bindE_eq_Inr_iff retE_def failE_def split: if_splits)
  have su: "later m E s u" by (rule doesD [OF later_post [OF ord] post])
  show ?thesis
  proof (cases "stage_of flow = ''compare''")
    case True
    have "does (later m E) (bindE (compare_emoji E c U opts flow_id flow) (\<lambda>_. retE (Again (stage_of flow) since)))"
      by (intro later.does_bindE later_compare ord later.does_retE)
    then have "later m E u t" using rest True by (auto dest: doesD)
    moreover have "m (cw u) < m (cw s)" using ord post True unfolding orderly_def by blast
    ultimately show ?thesis by (simp add: later_def)
  next
    case False
    then obtain x v y where report: "report_stage E U flow (stage_of flow) (stage_of flow \<noteq> last_stage) since u = (Inr x, v)"
      and wait: "wait_or_give_up E c opts flow_id deadline v = (Inr y, t)"
      using rest by (auto simp: bindE_eq_Inr_iff retE_def)
    have "later m E u v" by (rule doesD [OF later_report [OF ord] report])
    with su wait_progress [OF ord poll wait] show ?thesis
      by (auto simp: later_def)
  qed
qed

lemma loop_returns:
  assumes "orderly E c U m" and "0 < vo_poll opts"
  shows "verify_loop E c U opts flow_id deadline last_stage since s \<noteq> None"
proof (induction s arbitrary: last_stage since
    rule: wf_induct [OF wf_measures [of "[\<lambda>s. m (cw s), \<lambda>s. deadline - ce_clock E (cw s)]"], case_names less])
  case (less s)
  obtain r t where turn: "verify_turn E c U opts flow_id deadline last_stage since s = (r, t)" by fastforce
  show ?case
  proof (cases "\<exists>stg since'. r = Inr (Again stg since')")
    case True
    then obtain stg since' where r: "r = Inr (Again stg since')" by blast
    have "(t, s) \<in> measures [\<lambda>s. m (cw s), \<lambda>s. deadline - ce_clock E (cw s)]"
      using turn_progress [OF assms turn [unfolded r]] by auto
    with less have "verify_loop E c U opts flow_id deadline stg since' t \<noteq> None" by blast
    then show ?thesis
      using turn r by (subst verify_loop.simps) simp
  next
    case False
    then show ?thesis
      using turn by (subst verify_loop.simps) (auto split: sum.splits turn.splits)
  qed
qed

lemma await_returns:
  assumes ord: "orderly E c U m" and "0 < vo_poll opts"
  shows "await_request E c opts deadline s \<noteq> None"
proof (induction s rule: measure_induct_rule [where f = "\<lambda>s. deadline - ce_clock E (cw s)"])
  case (less s)
  obtain r t where poll: "poll_requests E c opts deadline s = (r, t)" by fastforce
  show ?case
  proof (cases "r = Inr None")
    case True
    then obtain answer u where get: "client_get E c (''verify'' @ options_query opts) s = (Inr answer, u)"
      and before: "ce_clock E (cw u) < deadline" and t: "t = u\<lparr>cw := ce_sleep E (vo_poll opts) (cw u)\<rparr>"
      using poll by (auto simp: poll_requests_def bindE_eq_Inr_iff retE_def failE_def look_def wait_for_def writes_def
          split: option.splits if_splits)
    have "later m E s u" by (rule doesD [OF later_send [OF ord] get [unfolded client_get_def]])
    moreover have "ce_clock E w + d \<le> ce_clock E (ce_sleep E d w)" for d w
      using ord by (simp add: orderly_def)
    from this [of "cw u" "vo_poll opts"] have "ce_clock E (cw u) < ce_clock E (cw t)"
      using assms(2) by (simp add: t)
    ultimately have "deadline - ce_clock E (cw t) < deadline - ce_clock E (cw s)"
      using before by (auto simp: later_def)
    from less [OF this] show ?thesis
      using poll True by (subst await_request.simps) simp
  next
    case False
    then show ?thesis
      using poll by (subst await_request.simps) (auto split: sum.splits option.splits)
  qed
qed

text \<open>
  C11: a guided verification ends. With a clock that goes on, and a proxy that shows the emoji only
  finitely often, it returns a result, by its deadline or before, whatever else the proxy answers
  and whatever fails. (The deadline is not looked at between two comparisons, so the bound on
  them is needed.)
\<close>

theorem guided_verification_ends:
  assumes "orderly E c U m" and "0 < vo_poll opts"
    and "ce_clock E (cw s) + vo_timeout opts \<le> ce_clock_max E"
  shows "\<exists>r t. verify_run E c U opts s = Some (r, t)"
proof -
  have "verify_run E c U opts s \<noteq> None"
    using assms(3) loop_returns [OF assms(1, 2)] await_returns [OF assms(1, 2)]
    by (auto simp: verify_run_def look_def Let_def bindP_def liftP_def split: option.splits sum.splits prod.splits)
  then show ?thesis by auto
qed

text \<open>A proxy where nothing moves: the world is the clock.\<close>

definition idle_env :: "nat cenv" where
  "idle_env = (ref_cenv [(''{}'', JObj [(''stage'', JStr ''key_exchange'')])])
     \<lparr>ce_clock := (\<lambda>w. w), ce_sleep := (\<lambda>d w. w + d)\<rparr>"

lemma idle_stage: "client_post idle_env c path body s = (Inr flow, t) \<Longrightarrow> stage_of flow = ''key_exchange''"
  by (auto simp: client_post_def client_send_def json_body_def effect_simps Let_def idle_env_def ref_cenv_def
      ref_codec_def is_success_def stage_of_def idx_def split: if_splits)

theorem guided_verification_ends_witness:
  "\<exists>r t. verify_run idle_env local_client (terminal_ui idle_env) (device_options\<lparr>vo_device := None\<rparr>)
     first_steps = Some (r, t)"
proof (rule guided_verification_ends [where m = "\<lambda>_. 0"])
  have "stage_of flow \<noteq> ''compare''" if "client_post idle_env local_client path body s = (Inr flow, t)" for path body s flow t
    using idle_stage [OF that] by simp
  then show "orderly idle_env local_client (terminal_ui idle_env) (\<lambda>_. 0)"
    unfolding orderly_def
    by (simp add: does_def later_def outside_def idle_env_def ref_cenv_def terminal_ui_def put_line_def tell_def writes_def
        confirm_on_terminal_def put_str_def retE_def failE_def bindE_def split: sum.split prod.split)
qed (simp_all add: device_options_def first_steps_def idle_env_def ref_cenv_def)


text \<open>
  That bound cannot be left out. Against a proxy that shows the emoji again after every yes, the
  timeout is never looked at and the verification does not return.
\<close>

definition compare_env :: "nat cenv" where
  "compare_env = (ref_cenv [(''{}'', JObj [(''stage'', JStr ''compare'')])])
     \<lparr>ce_clock := (\<lambda>w. w), ce_sleep := (\<lambda>d w. w + d)\<rparr>"

definition yes_ui :: "nat verify_ui" where
  "yes_ui = \<lparr>ui_status = put_line, ui_confirm = (\<lambda>sas. retE True)\<rparr>"

lemma compare_post:
  "\<exists>t. client_post compare_env c path body s = (Inr (JObj [(''stage'', JStr ''compare'')]), t)"
  by (simp add: client_post_def client_send_def json_body_def effect_simps Let_def compare_env_def ref_cenv_def
      ref_codec_def is_success_def)

lemma compare_turn:
  "\<exists>t. verify_turn compare_env c yes_ui opts flow_id deadline last_stage since s = (Inr (Again ''compare'' since), t)"
proof -
  let ?flow = "JObj [(''stage'', JStr ''compare'')]"
  obtain body where turn: "verify_turn compare_env c yes_ui opts flow_id deadline last_stage since s =
      bindE (client_post compare_env c (flow_path flow_id ''advance'') body) (\<lambda>flow.
        if stage_of flow = ''done'' then retE (Finished flow)
        else if stage_of flow = ''cancelled'' then failE (Msg (''verification was cancelled: '' @ cancel_reason flow))
        else if stage_of flow = ''compare'' then
          bindE (compare_emoji compare_env c yes_ui opts flow_id flow) (\<lambda>_. retE (Again (stage_of flow) since))
        else
          bindE (report_stage compare_env yes_ui flow (stage_of flow) (stage_of flow \<noteq> last_stage) since) (\<lambda>since'.
          bindE (wait_or_give_up compare_env c opts flow_id deadline) (\<lambda>_. retE (Again (stage_of flow) since')))) s"
    unfolding verify_turn_def look_def Let_def by blast
  obtain u where u: "client_post compare_env c (flow_path flow_id ''advance'') body s = (Inr ?flow, u)"
    using compare_post by blast
  have stage: "stage_of ?flow = ''compare''" by (simp add: stage_of_def idx_def)
  have ask: "ask yes_ui sas v = (Inr True, v\<lparr>journal := journal v @ [Asked sas (Inr True)]\<rparr>)" for sas v
    by (simp add: ask_def yes_ui_def retE_def)
  obtain v where v: "client_post compare_env c (flow_path flow_id ''confirm'') (JObj (options_params opts))
      (u\<lparr>journal := journal u @ [Asked (idx ?flow ''sas'') (Inr True)]\<rparr>) = (Inr ?flow, v)"
    using compare_post by blast
  have "compare_emoji compare_env c yes_ui opts flow_id ?flow u = (Inr (), v)"
    using v by (simp add: compare_emoji_def attempt_def bindE_def ask retE_def)
  then show ?thesis
    unfolding turn using u stage by (simp add: retE_def)
qed

lemma compare_ignores_timeout: "verify_loop compare_env c yes_ui opts flow_id deadline last_stage since s = None"
proof -
  have "verify_loop E c U opts flow_id deadline last_stage since s = Some y \<Longrightarrow> E = compare_env \<Longrightarrow> U = yes_ui \<Longrightarrow> False"
    for E U y
  proof (induction E c U opts flow_id deadline last_stage since s y
      rule: verify_loop.raw_induct [rotated, consumes 1, case_names step])
    case (step loop E c U opts flow_id deadline last_stage since s y)
    obtain t where "verify_turn E c U opts flow_id deadline last_stage since s = (Inr (Again ''compare'' since), t)"
      using compare_turn step.prems by blast
    then have "loop E c U opts flow_id deadline ''compare'' since t = Some y"
      using step.hyps by simp
    from step.IH [OF this step.prems] show ?case .
  qed
  then show ?thesis by (cases "verify_loop compare_env c yes_ui opts flow_id deadline last_stage since s") auto
qed

end
