(* ===== verification/DebugView.thy ===== *)
theory DebugView
  imports GuidedVerify
begin

text \<open>
  \<open>ctl debug\<close> (\<open>src/src/admin/debug.rs\<close>): the requests of its subcommands and the texts
  their answers are shown as. A text is what the code writes line by line; widths count
  characters, as the formatting macros do, and characters are UTF-8 bytes here.
\<close>

section \<open>Formatting\<close>

definition char_count :: "string \<Rightarrow> nat" where
  "char_count s = length (filter (\<lambda>c. (of_char c :: nat) < 0x80 \<or> 0xC0 \<le> (of_char c :: nat)) s)"

text \<open>\<open>{s:<w}\<close> and \<open>{s:>w}\<close>.\<close>

definition pad_right :: "nat \<Rightarrow> string \<Rightarrow> string" where
  "pad_right w s = s @ replicate (w - char_count s) (CHR '' '')"

definition pad_left :: "nat \<Rightarrow> string \<Rightarrow> string" where
  "pad_left w s = replicate (w - char_count s) (CHR '' '') @ s"

definition spaced :: "string \<Rightarrow> string" where
  "spaced s = map (\<lambda>c. if c = CHR ''_'' then CHR '' '' else c) s"

definition human_duration :: "u64 \<Rightarrow> string" where
  "human_duration w =
     (let n = unat w in
      if n < 60 then show_nat n @ '' s''
      else if n < 3600 then show_nat (n div 60) @ '' min''
      else if n < 86400 then show_nat (n div 3600) @ '' h '' @ show_nat (n mod 3600 div 60) @ '' min''
      else show_nat (n div 86400) @ '' d '' @ show_nat (n mod 86400 div 3600) @ '' h'')"

definition plural :: "u64 \<Rightarrow> string \<Rightarrow> string" where
  "plural n singular = (if n = 1 then ''1 '' @ singular else show_nat (unat n) @ '' '' @ singular @ ''s'')"

definition str_or :: "string \<Rightarrow> json \<Rightarrow> string" where
  "str_or d j = (case as_str j of None \<Rightarrow> d | Some x \<Rightarrow> x)"

definition u64_or_zero :: "json \<Rightarrow> u64" where
  "u64_or_zero j = (case as_u64 j of None \<Rightarrow> 0 | Some n \<Rightarrow> n)"

text \<open>An en dash, an em dash and a ballot cross.\<close>

definition en_dash :: string where
  "en_dash = [CHR 0xE2, CHR 0x80, CHR 0x93]"

definition long_dash :: string where
  "long_dash = [CHR 0xE2, CHR 0x80, CHR 0x94]"

definition ballot_x :: string where
  "ballot_x = [CHR 0xE2, CHR 0x9C, CHR 0x97]"

section \<open>The health checks\<close>

definition render_check_line :: "json \<Rightarrow> string" where
  "render_check_line check =
     (let mark = (case as_str (idx check ''status'') of
            None \<Rightarrow> ballot_x
          | Some st \<Rightarrow> if st = ''ok'' then check_mark else if st = ''warn'' then ''!'' else ballot_x) in
      ''  '' @ mark @ '' '' @ pad_right 16 (spaced (str_or ''?'' (idx check ''id''))) @ '' '' @
        str_or [] (idx check ''detail'') @ line_break @
      (case as_str (idx check ''hint'') of
         None \<Rightarrow> []
       | Some hint \<Rightarrow> ''    '' @ pad_right 16 [] @ '' '' @ arrow @ '' '' @ hint @ line_break))"

definition render_section :: "string \<Rightarrow> json \<Rightarrow> string" where
  "render_section title checks =
     title @ line_break @ concat (map render_check_line (elements checks)) @ line_break"

definition render_check :: "json \<Rightarrow> string" where
  "render_check report =
     ''ement-e2ee '' @ str_or ''?'' (idx report ''version'') @ '' '' @ long_dash @ '' up '' @
       human_duration (u64_or_zero (idx report ''uptime_secs'')) @ '', listening on '' @
       str_or ''?'' (idx report ''listen'') @ line_break @ line_break @
     render_section ''Proxy'' (idx report ''proxy'') @
     concat (map (\<lambda>session.
       render_section (str_or ''?'' (idx session ''user_id'') @ '' ('' @ str_or ''?'' (idx session ''device_id'') @ '')'')
         (idx session ''checks'')) (elements (idx report ''sessions''))) @
     (let count = (\<lambda>key. u64_or_zero (idx (idx report ''summary'') key)) in
      show_nat (unat (count ''ok'')) @ '' ok, '' @ plural (count ''warn'') ''warning'' @ '', '' @
        plural (count ''fail'') ''failure'' @ line_break)"

section \<open>Devices\<close>

definition trust_text :: "json \<Rightarrow> string" where
  "trust_text device =
     (if idx device ''blacklisted'' = JBool True then ''blacklisted''
      else if idx device ''cross_signed'' = JBool True then ''verified (cross-signed)''
      else if idx device ''verified'' = JBool True then ''verified (locally)''
      else ''unverified'')"

definition render_device :: "nat \<Rightarrow> json \<Rightarrow> string" where
  "render_device width device =
     ''  '' @ (if idx device ''this_device'' = JBool True then ''*'' else '' '') @ '' '' @
     pad_right width (str_or ''?'' (idx device ''device_id'')) @ ''  '' @ pad_right 23 (trust_text device) @ ''  '' @
     str_or ''(no key)'' (idx device ''ed25519'') @ ''  '' @ str_or [] (idx device ''display_name'') @ line_break"

definition render_devices :: "json \<Rightarrow> string" where
  "render_devices answer =
     (let devices = elements (idx answer ''devices'');
          width = fold max (List.map_filter (\<lambda>d. map_option char_count (as_str (idx d ''device_id''))) devices) 0;
          heading = ''Devices of '' @ str_or ''?'' (idx answer ''user_id'') @ line_break @
            (if idx answer ''tracked'' = JBool False then
               ''  (not tracked: this device shares no encrypted room with them, so it has not asked for their device list)'' @ line_break
             else [])
      in if devices = [] then heading @ ''  none known'' @ line_break
         else heading @ concat (map (render_device width) devices) @ line_break @ ''  * this device'' @ line_break)"

section \<open>An event\<close>

definition ascii_upper_char :: "char \<Rightarrow> char" where
  "ascii_upper_char c = (if is_ascii_lower c then char_of (of_char c - 32 :: nat) else c)"

text \<open>The first character in upper case, where it is an ASCII letter.\<close>

definition capitalized :: "string \<Rightarrow> string" where
  "capitalized s = (case s of [] \<Rightarrow> [] | c # cs \<Rightarrow> ascii_upper_char c # cs)"

definition event_row :: "string \<Rightarrow> string \<Rightarrow> string" where
  "event_row label v = ''  '' @ pad_right 10 label @ '' '' @ v @ line_break"

definition room_key_text :: "json \<Rightarrow> string" where
  "room_key_text key =
     (if idx key ''held'' = JBool True then
        ''held from message index '' @ show_nat (unat (u64_or_zero (idx key ''first_known_index''))) @ '' on ('' @
        (if idx key ''imported'' = JBool True then ''imported'' else ''received directly'') @ '')''
      else ''not held'')"

definition outcome_text :: "json \<Rightarrow> string" where
  "outcome_text report =
     (case (as_str (idx report ''outcome''), as_str (idx report ''reason'')) of
        (Some outcome, Some reason) \<Rightarrow> outcome @ '': '' @ reason
      | (Some outcome, None) \<Rightarrow>
          if outcome = ''decrypted'' then ''decrypted ('' @ str_or en_dash (idx report ''decrypted_type'') @ '')''
          else spaced outcome
      | (None, _) \<Rightarrow> ''?'')"

definition render_event :: "json \<Rightarrow> string" where
  "render_event report =
     (let t = (\<lambda>key. str_or en_dash (idx report key)) in
      t ''event_id'' @ '' in '' @ t ''room_id'' @ line_break @
      event_row ''sender'' (case as_str (idx report ''sender_device'') of
          Some device \<Rightarrow> t ''sender'' @ '' (device '' @ device @ '')''
        | None \<Rightarrow> t ''sender'') @
      event_row ''type'' (case as_str (idx report ''algorithm'') of
          Some algorithm \<Rightarrow> t ''type'' @ '' ('' @ algorithm @ '')''
        | None \<Rightarrow> t ''type'') @
      (if get ''session_id'' report \<noteq> None then event_row ''session'' (t ''session_id'') else []) @
      (case get ''room_key'' report of None \<Rightarrow> [] | Some key \<Rightarrow> event_row ''room key'' (room_key_text key)) @
      (case as_bool (idx report ''key_in_server_backup'') of
         None \<Rightarrow> []
       | Some b \<Rightarrow> event_row ''backup'' (if b then ''has the key'' else ''does not have the key'')) @
      event_row ''outcome'' (outcome_text report) @
      (case as_str (idx report ''explanation'') of
         None \<Rightarrow> []
       | Some explanation \<Rightarrow> line_break @ capitalized explanation @ ''.'' @ line_break) @
      (case as_str (idx report ''hint'') of
         None \<Rightarrow> []
       | Some hint \<Rightarrow> arrow @ '' '' @ hint @ line_break))"

section \<open>Log lines\<close>

definition render_log_line :: "json \<Rightarrow> string" where
  "render_log_line l =
     pad_left 10 (human_duration (u64_or_zero (idx l ''secs_ago''))) @ '' ago  '' @
     pad_right 5 (str_or ''?'' (idx l ''level'')) @ '' '' @ str_or ''?'' (idx l ''target'') @ '': '' @
     str_or [] (idx l ''message'') @ line_break"

definition render_logs :: "json \<Rightarrow> string" where
  "render_logs answer =
     (let ls = elements (idx answer ''lines'') in
      if ls = [] then ''No log lines at this level since the proxy started.'' @ line_break
      else concat (map render_log_line ls))"

section \<open>Any answer, as an outline\<close>

definition scalar :: "json \<Rightarrow> string option" where
  "scalar j = (case j of
     JNull \<Rightarrow> Some en_dash
   | JBool b \<Rightarrow> Some (if b then ''yes'' else ''no'')
   | JNum _ \<Rightarrow> show_number j
   | JStr x \<Rightarrow> Some x
   | JArr xs \<Rightarrow> if xs = [] then Some ''none'' else None
   | JObj _ \<Rightarrow> None)"

definition indent :: "nat \<Rightarrow> string" where
  "indent depth = concat (replicate depth ''  '')"

text \<open>An object with nothing nested in it goes on one line.\<close>

definition flat_item :: "json \<Rightarrow> string option" where
  "flat_item j = (case j of
     JObj m \<Rightarrow>
       if list_all (\<lambda>p. scalar (snd p) \<noteq> None) m then
         Some (join_with '', '' (List.map_filter (\<lambda>p. map_option (\<lambda>x. spaced (fst p) @ '': '' @ x) (scalar (snd p))) m))
       else None
   | _ \<Rightarrow> scalar j)"

fun write_tree :: "nat \<Rightarrow> json \<Rightarrow> string" where
  "write_tree depth (JObj m) =
     concat (map (\<lambda>p. indent depth @ spaced (fst p) @
       (case scalar (snd p) of
          Some x \<Rightarrow> '': '' @ x @ line_break
        | None \<Rightarrow> '':'' @ line_break @ write_tree (depth + 1) (snd p))) m)"
| "write_tree depth (JArr xs) =
     concat (map (\<lambda>item. indent depth @ ''-'' @
       (case flat_item item of
          Some x \<Rightarrow> '' '' @ x @ line_break
        | None \<Rightarrow> line_break @ write_tree (depth + 1) item)) xs)"
| "write_tree depth j =
     indent depth @ (case scalar j of None \<Rightarrow> [] | Some x \<Rightarrow> x) @ line_break"

definition render_tree :: "json \<Rightarrow> string" where
  "render_tree j = write_tree 0 j"

end
