(* ===== verification/Ctl.thy ===== *)
theory Ctl
  imports DebugView
begin

text \<open>
  The \<open>ctl\<close> commands (\<open>src/src/admin/ctl.rs\<close>, and the subcommands of \<open>ctl debug\<close> in
  \<open>src/src/admin/debug.rs\<close>): which request each sends, and what it shows and writes.
  Reading the command line into these commands is left out. A command may not return, since
  \<open>ctl verify\<close> polls.
\<close>

section \<open>\<open>ctl debug\<close>\<close>

datatype debug_command =
    DbgCheck
  | DbgSession
  | DbgDevices "string option"
  | DbgRoom string
  | DbgEvent string string
  | DbgLogs string nat
  | DbgLogLevel string
  | DbgReport "string option"

record debug_args =
  da_json :: bool
  da_user_id :: "string option"
  da_command :: debug_command

definition debug_query :: "codec \<Rightarrow> string option \<Rightarrow> (string \<times> string) list \<Rightarrow> string" where
  "debug_query cd user extra =
     pairs_query (map (\<lambda>(k, v). k @ ''='' @ enc cd v)
       ((case user of None \<Rightarrow> [] | Some u \<Rightarrow> [(''user_id'', u)]) @ extra))"

definition print_answer :: "'w cenv \<Rightarrow> bool \<Rightarrow> (json \<Rightarrow> string) \<Rightarrow> json \<Rightarrow> ('w, unit) cli_eff" where
  "print_answer E raw render answer =
     (if raw then put_line (json_pretty (ce_codec E) answer) else put_str (render answer))"

definition render_log_level :: "json \<Rightarrow> string" where
  "render_log_level answer =
     ''The proxy now logs at: '' @ str_or [] (idx answer ''filter'') @ line_break @
     ''(until it restarts; set `log_level` in the config to keep it)'' @ line_break"

definition write_report :: "'w cenv \<Rightarrow> string \<Rightarrow> string \<Rightarrow> ('w, unit) cli_eff" where
  "write_report E path contents =
     bindE (mapErrE (Wrap (''failed to write '' @ path)) (outside (ce_write E path contents))) (\<lambda>_.
     tell (Wrote path contents))"

definition debug_run :: "'w cenv \<Rightarrow> admin_client \<Rightarrow> debug_args \<Rightarrow> ('w, unit) cli_eff" where
  "debug_run E c args =
     (let cd = ce_codec E; query = debug_query cd (da_user_id args); show = print_answer E (da_json args) in
      case da_command args of
        DbgCheck \<Rightarrow>
          bindE (client_get E c ''debug/check'') (\<lambda>report.
          bindE (show render_check report) (\<lambda>_.
          let failed = u64_or_zero (idx (idx report ''summary'') ''fail'') in
          if failed = 0 then retE () else failE (Msg (show_nat (unat failed) @ '' check(s) failed''))))
      | DbgSession \<Rightarrow>
          bindE (client_get E c (''debug/session'' @ query [])) (show render_tree)
      | DbgDevices user \<Rightarrow>
          bindE (client_get E c (''debug/devices'' @ query (case user of None \<Rightarrow> [] | Some u \<Rightarrow> [(''user'', u)])))
            (show render_devices)
      | DbgRoom room \<Rightarrow>
          bindE (client_get E c (''debug/room/'' @ enc cd room @ query [])) (show render_tree)
      | DbgEvent room event_id \<Rightarrow>
          bindE (client_get E c (''debug/event/'' @ enc cd room @ ''/'' @ enc cd event_id @ query []))
            (show render_event)
      | DbgLogs level limit \<Rightarrow>
          bindE (client_get E c (''debug/logs?level='' @ enc cd level @ ''&limit='' @ show_nat limit)) (show render_logs)
      | DbgLogLevel flt \<Rightarrow>
          bindE (client_post E c ''debug/log-level'' (mk_obj [(''filter'', JStr flt)])) (show render_log_level)
      | DbgReport output \<Rightarrow>
          bindE (client_get E c ''debug/report'') (\<lambda>report.
          let contents = json_pretty cd report in
          case output of
            Some path \<Rightarrow>
              bindE (write_report E path contents) (\<lambda>_.
              put_line (''Wrote '' @ path @ '' (contains Matrix IDs and public keys; no tokens or private keys).''))
          | None \<Rightarrow> put_line contents))"

section \<open>The other commands\<close>

datatype keys_action = KeysExport string "string option" | KeysImport string "string option"

record verify_common =
  vc_user_id :: "string option"
  vc_with_user :: "string option"

datatype verify_command =
    VaList verify_common
  | VaStart string verify_common
  | VaShow string verify_common
  | VaAccept string verify_common
  | VaStartSas string verify_common
  | VaSasAccept string verify_common
  | VaConfirm string verify_common
  | VaCancel string verify_common

record verify_args =
  va_device :: "string option"
  va_common :: verify_common
  va_timeout :: u64
  va_action :: "verify_command option"

datatype ctl_command =
    CtlStatus
  | CtlBootstrap "string option" "string option"
  | CtlVerify verify_args
  | CtlKeys keys_action
  | CtlDebug debug_args

definition common_body :: "verify_common \<Rightarrow> fields" where
  "common_body common = put_opt ''with_user'' (vc_with_user common) (put_opt ''user_id'' (vc_user_id common) [])"

definition common_query :: "verify_common \<Rightarrow> string" where
  "common_query common =
     pairs_query ((case vc_user_id common of None \<Rightarrow> [] | Some u \<Rightarrow> [''user_id='' @ u]) @
       (case vc_with_user common of None \<Rightarrow> [] | Some u \<Rightarrow> [''with_user='' @ u]))"

definition print_pretty :: "'w cenv \<Rightarrow> json \<Rightarrow> ('w, unit) cli_eff" where
  "print_pretty E v = put_line (json_pretty (ce_codec E) v)"

definition print_flow :: "'w cenv \<Rightarrow> json \<Rightarrow> ('w, unit) cli_eff" where
  "print_flow E v =
     bindE (case Option.bind (pointer [''sas'', ''emoji'', ''formatted''] v) as_str of
         None \<Rightarrow> retE ()
       | Some formatted \<Rightarrow>
           bindE (put_line (line_break @ ''Compare these emoji with the other device:'' @ line_break)) (\<lambda>_.
           put_line (formatted @ line_break))) (\<lambda>_.
     print_pretty E v)"

definition read_text :: "'w cenv \<Rightarrow> string \<Rightarrow> ('w, string) cli_eff" where
  "read_text E path = mapErrE (Wrap (''failed to read '' @ path)) (outside (ce_read E path))"

definition run_keys :: "'w cenv \<Rightarrow> admin_client \<Rightarrow> keys_action \<Rightarrow> ('w, unit) cli_eff" where
  "run_keys E c action =
     (case action of
        KeysExport path user \<Rightarrow>
          bindE (outside (ce_password E ''Passphrase to protect the export: '')) (\<lambda>passphrase.
          bindE (client_post E c ''keys/export''
            (JObj (put_opt ''user_id'' user [(''passphrase'', JStr passphrase)]))) (\<lambda>resp.
          bindE (okOr (Msg ''malformed export response'') (get_str ''export'' resp)) (\<lambda>export.
          bindE (write_report E path export) (\<lambda>_.
          put_line (''Exported '' @ show_nat (unat (u64_or_zero (idx resp ''count''))) @ '' room keys to '' @ path)))))
      | KeysImport path user \<Rightarrow>
          bindE (read_text E path) (\<lambda>data.
          bindE (outside (ce_password E ''Export passphrase: '')) (\<lambda>passphrase.
          bindE (client_post E c ''keys/import''
            (JObj (put_opt ''user_id'' user [(''data'', JStr data), (''passphrase'', JStr passphrase)])))
            (print_pretty E))))"

definition flow_post :: "'w cenv \<Rightarrow> admin_client \<Rightarrow> string \<Rightarrow> string \<Rightarrow> verify_common \<Rightarrow> ('w, unit) cli_eff" where
  "flow_post E c flow_id action common =
     bindE (client_post E c (flow_path flow_id action) (JObj (common_body common))) (print_flow E)"

definition run_verify :: "'w cenv \<Rightarrow> admin_client \<Rightarrow> verify_command \<Rightarrow> ('w, unit) cli_eff" where
  "run_verify E c action =
     (case action of
        VaList common \<Rightarrow> bindE (client_get E c (''verify'' @ common_query common)) (print_pretty E)
      | VaStart device common \<Rightarrow>
          bindE (client_post E c ''verify/start''
            (JObj (obj_put ''device_id'' (JStr device) (common_body common)))) (\<lambda>resp.
          bindE (print_flow E resp) (\<lambda>_.
          bindE (put_line (line_break @ ''Now accept the request on the other device, then run:'')) (\<lambda>_.
          case get_str ''flow_id'' resp of
            None \<Rightarrow> retE ()
          | Some flow_id \<Rightarrow> put_line (''  ement-e2ee ctl verify show '' @ flow_id))))
      | VaShow flow_id common \<Rightarrow>
          bindE (client_get E c (''verify/'' @ flow_id @ common_query common)) (print_flow E)
      | VaAccept flow_id common \<Rightarrow> flow_post E c flow_id ''accept'' common
      | VaStartSas flow_id common \<Rightarrow> flow_post E c flow_id ''start-sas'' common
      | VaSasAccept flow_id common \<Rightarrow> flow_post E c flow_id ''sas-accept'' common
      | VaConfirm flow_id common \<Rightarrow> flow_post E c flow_id ''confirm'' common
      | VaCancel flow_id common \<Rightarrow> flow_post E c flow_id ''cancel'' common)"

definition run_bootstrap :: "'w cenv \<Rightarrow> admin_client \<Rightarrow> string option \<Rightarrow> string option \<Rightarrow> ('w, unit) cli_eff" where
  "run_bootstrap E c user key_file =
     bindE (case key_file of
         Some path \<Rightarrow> bindE (read_text E path) (\<lambda>x. retE (str_trim x))
       | None \<Rightarrow> mapErrE (Wrap ''failed to read recovery key'') (outside (ce_password E ''Recovery key (or passphrase): '')))
       (\<lambda>recovery_key.
     bindE (client_post E c ''bootstrap''
       (JObj (put_opt ''user_id'' user [(''recovery_key'', JStr recovery_key)]))) (print_pretty E))"

text \<open>The guided verification gives up after the seconds asked for and polls twice a second.\<close>

definition guided_options :: "verify_args \<Rightarrow> verify_options" where
  "guided_options args =
     \<lparr>vo_device = va_device args, vo_user_id = vc_user_id (va_common args), vo_with_user = vc_with_user (va_common args),
      vo_timeout = unat (va_timeout args) * 1000000000, vo_poll = 500 * 1000000\<rparr>"

definition run_guided :: "'w cenv \<Rightarrow> admin_client \<Rightarrow> verify_args \<Rightarrow> 'w cli \<Rightarrow> ((error + unit) \<times> 'w cli) option" where
  "run_guided E c args =
     bindP (verify_run E c (terminal_ui E) (guided_options args)) (\<lambda>flow.
     liftP (put_line (line_break @ check_mark @ '' Verified: this device and '' @
       str_or ''the other device'' (idx flow ''other_device'') @ '' now trust each other.'')))"

definition run_command ::
  "'w cenv \<Rightarrow> admin_client \<Rightarrow> ctl_command \<Rightarrow> 'w cli \<Rightarrow> ((error + unit) \<times> 'w cli) option" where
  "run_command E c cmd =
     (case cmd of
        CtlStatus \<Rightarrow> liftP (bindE (client_get E c ''status'') (print_pretty E))
      | CtlBootstrap user key_file \<Rightarrow> liftP (run_bootstrap E c user key_file)
      | CtlVerify args \<Rightarrow> (case va_action args of
            Some action \<Rightarrow> liftP (run_verify E c action)
          | None \<Rightarrow> run_guided E c args)
      | CtlKeys action \<Rightarrow> liftP (run_keys E c action)
      | CtlDebug args \<Rightarrow> liftP (debug_run E c args))"

text \<open>\<open>ctl\<close>: the endpoint of the configuration, then the command.\<close>

definition ctl_run ::
  "'w cenv \<Rightarrow> string option \<Rightarrow> string option \<Rightarrow> ctl_command \<Rightarrow> 'w cli \<Rightarrow> ((error + unit) \<times> 'w cli) option" where
  "ctl_run E config_path proxy_url cmd =
     (case load_endpoint (ce_host E) config_path proxy_url of
        Inl e \<Rightarrow> liftP (failE e)
      | Inr ep \<Rightarrow> run_command E (new_client (ae_url ep) (ae_admin_token ep)) cmd)"


section \<open>Only the proxy is asked\<close>

definition to_proxy :: "admin_client \<Rightarrow> cli_event \<Rightarrow> bool" where
  "to_proxy c ev =
     (case ev of
        Sent rq \<Rightarrow> prefix (ac_base c @ ''/'') (ct_url rq) \<and> ct_bearer rq = ac_token c
      | _ \<Rightarrow> True)"

lemma to_proxy_other [simp]: "to_proxy c (Printed x)" "to_proxy c (Asked sas a)" "to_proxy c (Wrote p x)"
  by (simp_all add: to_proxy_def)

lemma logs_put: "does (logs (to_proxy c)) (put_line x)" "does (logs (to_proxy c)) (put_str x)"
  by (simp_all add: put_line_def put_str_def logs_tell)

lemma logs_ask: "does (logs P) (ui_confirm U sas) \<Longrightarrow> (\<And>a. P (Asked sas a)) \<Longrightarrow> does (logs P) (ask U sas)"
  unfolding does_def ask_def logs_def by (fastforce split: prod.splits)

lemma logs_confirm: "does (logs (to_proxy c)) (confirm_on_terminal E sas)"
  unfolding confirm_on_terminal_def by (intro logs.does_intros logs_put logs_outside)

lemma logs_send:
  assumes "prefix (ac_base c @ ''/'') url"
  shows "does (logs (to_proxy c)) (client_send E c verb url body)"
  unfolding client_send_def json_body_def Let_def
  by (intro logs.does_intros logs_tell logs_outside logs_attempt) (simp add: to_proxy_def assms)

lemma logs_get: "does (logs (to_proxy c)) (client_get E c path)"
  unfolding client_get_def by (rule logs_send) simp

lemma logs_post: "does (logs (to_proxy c)) (client_post E c path body)"
  unfolding client_post_def by (rule logs_send) simp

lemmas logs_intros = logs_get logs_post logs_put logs_outside

lemma logs_pretty: "does (logs (to_proxy c)) (print_pretty E v)"
  unfolding print_pretty_def by (rule logs_put)

lemma logs_flow: "does (logs (to_proxy c)) (print_flow E v)"
  unfolding print_flow_def by (intro logs.does_intros logs_pretty logs_put)

lemma logs_write: "does (logs (to_proxy c)) (write_report E path x)"
  unfolding write_report_def by (intro logs.does_intros logs_intros logs_tell) simp

lemma logs_show: "does (logs (to_proxy c)) (print_answer E raw render v)"
  unfolding print_answer_def by (intro logs.does_intros logs_intros)

lemma logs_debug: "does (logs (to_proxy c)) (debug_run E c args)"
  unfolding debug_run_def Let_def
  by (cases "da_command args") (simp_all, (intro logs.does_intros logs_intros logs_show logs_write)+)

lemma logs_keys: "does (logs (to_proxy c)) (run_keys E c action)"
  unfolding run_keys_def read_text_def
  by (cases action) (simp_all, (intro logs.does_intros logs_intros logs_write logs_pretty)+)

lemma logs_verify: "does (logs (to_proxy c)) (run_verify E c action)"
  unfolding run_verify_def flow_post_def
  by (cases action) (simp_all, (intro logs.does_intros logs_intros logs_flow logs_pretty)+)

lemma logs_bootstrap: "does (logs (to_proxy c)) (run_bootstrap E c user key_file)"
  unfolding run_bootstrap_def read_text_def by (intro logs.does_intros logs_intros logs_pretty)

lemma logs_guided: "doesP (logs (to_proxy c)) (run_guided E c args)"
  unfolding run_guided_def terminal_ui_def
  by (intro logs.doesP_intros logs_intros verify_run_keeps logs_wait logs_ask logs_attempt)
    (simp_all add: logs_intros logs_confirm logs.stepwise_axioms)

text \<open>
  C37: \<open>ctl\<close> talks to the proxy and to nobody else. Whatever the command, every request goes to
  a path below the admin API of the proxy that the configuration names, with the admin token
  of the same configuration and no other.
\<close>

theorem ctl_talks_to_proxy:
  assumes "ctl_run E config_path proxy_url cmd s = Some (r, t)"
  shows "\<exists>evs. journal t = journal s @ evs \<and>
    (\<forall>rq. Sent rq \<in> set evs \<longrightarrow>
      (\<exists>ep path. load_endpoint (ce_host E) config_path proxy_url = Inr ep \<and>
        ct_url rq = trim_end (\<lambda>c. c = CHR ''/'') (ae_url ep) @ ''/_ement/'' @ path \<and>
        ct_bearer rq = ae_admin_token ep))"
proof (cases "load_endpoint (ce_host E) config_path proxy_url")
  case (Inl e)
  then show ?thesis
    using assms by (intro exI [of _ "[]"]) (simp add: ctl_run_def liftP_def failE_def)
next
  case (Inr ep)
  let ?c = "new_client (ae_url ep) (ae_admin_token ep)"
  have "doesP (logs (to_proxy ?c)) (run_command E ?c cmd)"
    unfolding run_command_def
    by (cases cmd) (simp_all add: logs.doesP_liftP logs_bootstrap logs_keys logs_debug,
      (intro logs.doesP_intros logs.does_intros logs_get logs_pretty logs_verify logs_guided)+)
  from doesPD [OF this, of s r t] obtain evs where "journal t = journal s @ evs" "list_all (to_proxy ?c) evs"
    using assms Inr by (auto simp: ctl_run_def logs_def)
  then show ?thesis
    by (intro exI [of _ evs]) (auto simp: list_all_iff to_proxy_def new_client_def prefix_def Inr)
qed


definition status_env :: "unit cenv" where
  "status_env = ref_cenv [(''{}'', JObj [])]"

lemma ref_endpoint:
  "load_endpoint (ce_host status_env) None (Some ''http://h/'') = Inr \<lparr>ae_url = ''http://h'', ae_admin_token = None\<rparr>"
  by code_simp

theorem ctl_talks_to_proxy_witness:
  "\<exists>t. ctl_run status_env None (Some ''http://h/'') CtlStatus \<lparr>cw = (), journal = []\<rparr> = Some (Inr (), t) \<and>
    length (journal t) = 2 \<and>
    (\<forall>rq. Sent rq \<in> set (journal t) \<longrightarrow> (\<exists>path. ct_url rq = ''http://h/_ement/'' @ path \<and> ct_bearer rq = None))"
proof -
  obtain t where t: "ctl_run status_env None (Some ''http://h/'') CtlStatus \<lparr>cw = (), journal = []\<rparr> =
      Some (Inr (), t)" "length (journal t) = 2"
    by (simp add: ctl_run_def ref_endpoint)
      (simp add: run_command_def client_get_def client_send_def json_body_def print_pretty_def effect_simps Let_def
        status_env_def ref_cenv_def ref_codec_def is_success_def)
  have "trim_end (\<lambda>c. c = CHR ''/'') ''http://h'' = ''http://h''"
    by (simp add: trim_end_def)
  with ctl_talks_to_proxy [OF t(1)] t show ?thesis
    unfolding ref_endpoint by (intro exI [of _ t]) fastforce
qed

end
