(* ===== verification/Device.thy ===== *)
theory Device
  imports Encrypt
begin

text \<open>
  One device ID, one set of identity keys (\<open>src/src/crypto/device.rs\<close>), and the places of an
  account's files (\<open>sanitize_for_path\<close> of \<open>src/src/session.rs\<close>, \<open>account_store_dir\<close> and
  \<open>open_machine\<close> of \<open>src/src/crypto/machine.rs\<close>): which device a login continues, what is
  noted of a login, which identity key the homeserver publishes, and publishing it again.
\<close>

section \<open>Places\<close>

text \<open>A byte that continues a UTF-8 sequence: the character was counted at its first byte.\<close>

definition utf8_continuation :: "char \<Rightarrow> bool" where
  "utf8_continuation c \<longleftrightarrow> 128 \<le> (of_char c :: nat) \<and> (of_char c :: nat) < 192"

definition path_safe :: "char \<Rightarrow> bool" where
  "path_safe c \<longleftrightarrow> is_ascii_alphanumeric c \<or> c \<in> set ''.-_@:=+''"

definition sanitize_for_path :: "string \<Rightarrow> string" where
  "sanitize_for_path s =
     map (\<lambda>c. if path_safe c then c else CHR ''_'') (filter (\<lambda>c. \<not> utf8_continuation c) s)"

definition account_store_dir :: "config \<Rightarrow> string \<Rightarrow> string \<Rightarrow> string" where
  "account_store_dir cfg user dev =
     path_join (path_join (cfg_store_dir cfg) (sanitize_for_path user)) (sanitize_for_path dev)"

definition open_machine :: "('w, 'y) env_scheme \<Rightarrow> string \<Rightarrow> string \<Rightarrow> ('w, 'z, string) any_eff" where
  "open_machine E user dev =
     (let dir = account_store_dir (env_config E) user dev in
      mapErrE (Wrap (''failed to open crypto store at '' @ dir))
        (call (sdk_open E dir user dev (cfg_store_passphrase (env_config E)))))"

text \<open>\<open>Path::file_name\<close> of a directory entry.\<close>

definition file_name :: "string \<Rightarrow> string option" where
  "file_name p =
     (case filter (\<lambda>x. x \<noteq> []) (split_on (CHR ''/'') p) of
        [] \<Rightarrow> None
      | xs \<Rightarrow> if last xs = ''..'' then None else Some (last xs))"

section \<open>Which device a login continues\<close>

definition store_file :: string where
  "store_file = ''matrix-sdk-crypto.sqlite3''"

definition login_file :: string where
  "login_file = ''login.json''"

record login_record =
  lr_device_id :: string
  lr_requested :: string

text \<open>The derived reading and writing of a record: an object, or the fields as a list.\<close>

definition login_record_of :: "json \<Rightarrow> login_record option" where
  "login_record_of j =
     (case (case j of
         JObj m \<Rightarrow> (map_of m ''device_id'', map_of m ''requested_device_id'')
       | JArr [a, b] \<Rightarrow> (Some a, Some b)
       | _ \<Rightarrow> (None, None)) of
        (Some (JStr a), Some (JStr b)) \<Rightarrow> Some \<lparr>lr_device_id = a, lr_requested = b\<rparr>
      | _ \<Rightarrow> None)"

definition json_of_login_record :: "login_record \<Rightarrow> json" where
  "json_of_login_record r = mk_obj [(''device_id'', JStr (lr_device_id r)),
     (''requested_device_id'', JStr (lr_requested r))]"

definition has_store :: "('w, 'y) env_scheme \<Rightarrow> string \<Rightarrow> 'w \<Rightarrow> bool" where
  "has_store E dir w = is_file E (path_join dir store_file) w"

definition names_user :: "string \<Rightarrow> string \<Rightarrow> bool" where
  "names_user user_dir login =
     (case Option.bind (file_name user_dir) (strip_prefix ''@'') of
        None \<Rightarrow> False
      | Some name \<Rightarrow>
          (let name = to_ascii_lowercase name;
               login = to_ascii_lowercase (sanitize_for_path
                 (case strip_prefix ''@'' login of None \<Rightarrow> login | Some l \<Rightarrow> l))
           in if CHR '':'' \<in> set login then name = login
              else (case split_once (CHR '':'') name of
                  None \<Rightarrow> False
                | Some (local_part, _) \<Rightarrow> local_part = login)))"

definition read_login_record :: "('w, 'y) env_scheme \<Rightarrow> string \<Rightarrow> 'w \<Rightarrow> login_record option" where
  "read_login_record E dir w =
     Option.bind (Option.bind (read_file E (path_join dir login_file) w) (json_parse (env_codec E))) login_record_of"

text \<open>The two loops of \<open>device_id_for_login\<close>; \<open>newest\<close> is the store last used so far.\<close>

fun scan_devices ::
  "('w, 'y) env_scheme \<Rightarrow> 'w \<Rightarrow> string \<Rightarrow> string list \<Rightarrow> (nat \<times> string) option \<Rightarrow> (nat \<times> string) option" where
  "scan_devices E w requested [] newest = newest"
| "scan_devices E w requested (d # ds) newest =
     (if \<not> has_store E d w then scan_devices E w requested ds newest
      else (case read_login_record E d w of
          None \<Rightarrow> scan_devices E w requested ds newest
        | Some r \<Rightarrow>
            if lr_requested r \<noteq> requested then scan_devices E w requested ds newest
            else
              (let used = (case modified E (path_join d store_file) w of None \<Rightarrow> 0 | Some t \<Rightarrow> t) in
               scan_devices E w requested ds
                 (if (case newest of None \<Rightarrow> True | Some (latest, _) \<Rightarrow> latest < used)
                  then Some (used, lr_device_id r) else newest))))"

fun scan_users ::
  "('w, 'y) env_scheme \<Rightarrow> 'w \<Rightarrow> string \<Rightarrow> string \<Rightarrow> string list \<Rightarrow> (nat \<times> string) option \<Rightarrow> string option" where
  "scan_users E w user requested [] newest = map_option snd newest"
| "scan_users E w user requested (u # us) newest =
     (if \<not> names_user u user then scan_users E w user requested us newest
      else if has_store E (path_join u (sanitize_for_path requested)) w then Some requested
      else scan_users E w user requested us (scan_devices E w requested (subdirs_of E u w) newest))"

definition device_id_for_login :: "('w, 'y) env_scheme \<Rightarrow> 'w \<Rightarrow> string \<Rightarrow> string \<Rightarrow> string \<Rightarrow> string option" where
  "device_id_for_login E w store_dir user requested =
     scan_users E w user requested (subdirs_of E store_dir w) None"

record login_plan =
  lp_body :: "string option"
  lp_requested :: "string option"

definition no_plan :: login_plan where
  "no_plan = \<lparr>lp_body = None, lp_requested = None\<rparr>"

definition plan_login :: "('w, 'y) env_scheme \<Rightarrow> 'w \<Rightarrow> string \<Rightarrow> string \<Rightarrow> login_plan" where
  "plan_login E w store_dir body =
     (case json_parse (env_codec E) body of
        None \<Rightarrow> no_plan
      | Some login \<Rightarrow> (case get_str ''device_id'' login of
          None \<Rightarrow> no_plan
        | Some requested \<Rightarrow>
            (case Option.bind (case pointer [''identifier'', ''user''] login of
                Some v \<Rightarrow> Some v | None \<Rightarrow> get ''user'' login) as_str of
               None \<Rightarrow> no_plan
             | Some user \<Rightarrow> (case device_id_for_login E w store_dir user requested of
                 Some dev \<Rightarrow>
                   if dev = requested then \<lparr>lp_body = None, lp_requested = Some requested\<rparr>
                   else \<lparr>lp_body = Some (json_print (env_codec E) (jput ''device_id'' (JStr dev) login)),
                         lp_requested = Some requested\<rparr>
               | None \<Rightarrow> \<lparr>lp_body = Some (json_print (env_codec E) (jdel ''device_id'' login)),
                         lp_requested = Some requested\<rparr>))))"

definition record_login :: "('w, 'y) env_scheme \<Rightarrow> string \<Rightarrow> string \<Rightarrow> string \<Rightarrow> ('w, 'z, unit) any_eff" where
  "record_login E dir dev requested =
     (let path = path_join dir login_file;
          bytes = json_pretty (env_codec E)
            (json_of_login_record \<lparr>lr_device_id = dev, lr_requested = requested\<rparr>)
      in bindE (mapErrE (Wrap (''failed to create '' @ dir)) (call (create_dirs E dir))) (\<lambda>_.
         mapErrE (Wrap (''failed to write '' @ path)) (call (write_file E path bytes))))"

section \<open>Published keys\<close>

definition published_key :: "string \<Rightarrow> string \<Rightarrow> json \<Rightarrow> string option" where
  "published_key user dev response =
     Option.bind (Option.bind (Option.bind (Option.bind (Option.bind
       (get ''device_keys'' response) (get user)) (get dev)) (get ''keys''))
       (get (''ed25519:'' @ dev))) as_str"

definition published_identity ::
  "('w, 'y) env_scheme \<Rightarrow> string \<Rightarrow> string \<Rightarrow> string \<Rightarrow> ('w, 'z, string option) any_eff" where
  "published_identity E tok user dev =
     bindE (mapErrE (Wrap ''keys/query failed'')
       (json_request E ''POST'' ''/_matrix/client/v3/keys/query'' tok
         (Some (mk_obj [(''device_keys'', mk_obj [(user, JArr [JStr dev])])])))) (\<lambda>(status, response).
     if \<not> is_success status then failE (Msg (''keys/query answered '' @ show_status (env_codec E) status))
     else retE (published_key user dev response))"

definition republish :: "('w, 'y) env_scheme \<Rightarrow> ('w, unit) eff" where
  "republish E = look (\<lambda>s.
     bindE (call (sdk_own_device_keys E (olm (acct s)))) (\<lambda>own.
     bindE (okOr (Msg ''this device is missing from its own store'') own) (\<lambda>ks.
     bindE (json_request E ''POST'' ''/_matrix/client/v3/keys/upload'' (token (acct s))
         (Some (mk_obj [(''device_keys'', ks)]))) (\<lambda>(status, response).
     if \<not> is_success status then
       failE (Msg (''keys/upload answered '' @ show_status (env_codec E) status @ '': '' @
         json_print (env_codec E) response))
     else retE ()))))"

section \<open>Places stay inside the store directory\<close>

lemma sanitize_no_slash: "CHR ''/'' \<notin> set (sanitize_for_path s)"
  by (auto simp: sanitize_for_path_def path_safe_def is_ascii_alphanumeric_def is_ascii_digit_def
      is_ascii_upper_def is_ascii_lower_def less_eq_char_def split: if_splits)

lemma sanitize_chars: "c \<in> set (sanitize_for_path s) \<Longrightarrow> path_safe c"
  by (auto simp: sanitize_for_path_def path_safe_def split: if_splits)

lemma sanitize_id: "list_all path_safe s \<Longrightarrow> sanitize_for_path s = s"
proof -
  have "path_safe c \<Longrightarrow> \<not> utf8_continuation c" for c
    by (auto simp: path_safe_def utf8_continuation_def is_ascii_alphanumeric_def is_ascii_digit_def
        is_ascii_upper_def is_ascii_lower_def less_eq_char_def)
  then show "list_all path_safe s \<Longrightarrow> ?thesis"
    by (induction s) (auto simp: sanitize_for_path_def)
qed

text \<open>A device ID of two dots stays what it is: the directory above.\<close>

lemma sanitize_keeps_parent: "sanitize_for_path ''..'' = ''..''"
  by code_simp

lemma sanitize_idem: "sanitize_for_path (sanitize_for_path s) = sanitize_for_path s"
  by (rule sanitize_id) (simp add: list_all_iff sanitize_chars)

section \<open>The choice of a login's device\<close>

text \<open>A store noted for this request, its device and when it was last used.\<close>

definition noted_store :: "('w, 'y) env_scheme \<Rightarrow> 'w \<Rightarrow> string \<Rightarrow> string \<Rightarrow> nat \<Rightarrow> string \<Rightarrow> bool" where
  "noted_store E w requested d used dev \<longleftrightarrow>
     has_store E d w \<and> (\<exists>r. read_login_record E d w = Some r \<and> lr_requested r = requested \<and> lr_device_id r = dev) \<and>
     used = (case modified E (path_join d store_file) w of None \<Rightarrow> 0 | Some t \<Rightarrow> t)"

lemma scan_devices_spec:
  "case scan_devices E w requested ds newest of
     None \<Rightarrow> newest = None \<and> (\<forall>d \<in> set ds. \<forall>u dev. \<not> noted_store E w requested d u dev)
   | Some (t, dev) \<Rightarrow> (newest = Some (t, dev) \<or> (\<exists>d \<in> set ds. noted_store E w requested d t dev)) \<and>
       (\<forall>u v. newest = Some (u, v) \<longrightarrow> u \<le> t) \<and>
       (\<forall>d \<in> set ds. \<forall>u v. noted_store E w requested d u v \<longrightarrow> u \<le> t)"
proof (induction ds arbitrary: newest)
  case (Cons d ds)
  let ?ok = "has_store E d w \<and> (\<exists>r. read_login_record E d w = Some r \<and> lr_requested r = requested)"
  show ?case
  proof (cases ?ok)
    case False
    then have "scan_devices E w requested (d # ds) newest = scan_devices E w requested ds newest"
      and "\<not> noted_store E w requested d u v" for u v
      by (auto simp: noted_store_def split: option.splits)
    then show ?thesis using Cons.IH [of newest] by (auto split: option.splits)
  next
    case True
    then obtain r where r: "has_store E d w" "read_login_record E d w = Some r" "lr_requested r = requested"
      by blast
    define t where "t = (case modified E (path_join d store_file) w of None \<Rightarrow> 0 | Some t \<Rightarrow> t)"
    have n: "noted_store E w requested d u v \<longleftrightarrow> u = t \<and> v = lr_device_id r" for u v
      using r by (auto simp: noted_store_def t_def)
    let ?new = "if (case newest of None \<Rightarrow> True | Some (latest, _) \<Rightarrow> latest < t)
      then Some (t, lr_device_id r) else newest"
    have step: "scan_devices E w requested (d # ds) newest = scan_devices E w requested ds ?new"
      using r by (simp add: t_def [symmetric] Let_def)
    show ?thesis
      using Cons.IH [of ?new] unfolding step
      by (auto simp: n split: option.splits prod.splits if_splits)
  qed
qed (auto split: option.split)

lemma scan_devices_append:
  "scan_devices E w requested (xs @ ys) newest = scan_devices E w requested ys (scan_devices E w requested xs newest)"
  by (induction xs arbitrary: newest) (simp_all add: Let_def split: option.split)

text \<open>The device directories of everybody the login may mean, and a store under the requested ID.\<close>

definition user_stores :: "('w, 'y) env_scheme \<Rightarrow> 'w \<Rightarrow> string \<Rightarrow> string list \<Rightarrow> string list" where
  "user_stores E w user us = concat (map (\<lambda>u. subdirs_of E u w) (filter (\<lambda>u. names_user u user) us))"

definition direct_store :: "('w, 'y) env_scheme \<Rightarrow> 'w \<Rightarrow> string \<Rightarrow> string \<Rightarrow> string list \<Rightarrow> bool" where
  "direct_store E w user requested us \<longleftrightarrow>
     (\<exists>u \<in> set us. names_user u user \<and> has_store E (path_join u (sanitize_for_path requested)) w)"

lemma scan_users_eq:
  "scan_users E w user requested us newest =
     (if direct_store E w user requested us then Some requested
      else map_option snd (scan_devices E w requested (user_stores E w user us) newest))"
  by (induction us arbitrary: newest) (auto simp: direct_store_def user_stores_def scan_devices_append)

text \<open>
  C31: a login that names a device and a user continues the store that is there: left as it is
  where a store lies under the requested ID itself; else it asks for the device of a store
  noted for the same request, one that no other such store was used after; and where there is
  none, the request names no device, so that the homeserver picks a new one. Nothing but
  \<open>device_id\<close> changes in the login, and the requested ID is reported every time.
\<close>

theorem plan_login_continues:
  assumes "json_parse (env_codec E) body = Some login" and "get_str ''device_id'' login = Some requested"
    and "Option.bind (case pointer [''identifier'', ''user''] login of
           Some v \<Rightarrow> Some v | None \<Rightarrow> get ''user'' login) as_str = Some user"
  shows "let us = subdirs_of E dir w; stores = user_stores E w user us; plan = plan_login E w dir body in
    lp_requested plan = Some requested \<and>
    (if direct_store E w user requested us then lp_body plan = None
     else if \<exists>d \<in> set stores. \<exists>t dev. noted_store E w requested d t dev then
       (\<exists>d \<in> set stores. \<exists>t dev. noted_store E w requested d t dev \<and>
          (\<forall>d' \<in> set stores. \<forall>t' dev'. noted_store E w requested d' t' dev' \<longrightarrow> t' \<le> t) \<and>
          lp_body plan = (if dev = requested then None
            else Some (json_print (env_codec E) (jput ''device_id'' (JStr dev) login))))
     else lp_body plan = Some (json_print (env_codec E) (jdel ''device_id'' login)))"
proof -
  let ?us = "subdirs_of E dir w"
  let ?stores = "user_stores E w user ?us"
  have plan: "plan_login E w dir body =
      (case device_id_for_login E w dir user requested of
         Some dev \<Rightarrow> if dev = requested then \<lparr>lp_body = None, lp_requested = Some requested\<rparr>
           else \<lparr>lp_body = Some (json_print (env_codec E) (jput ''device_id'' (JStr dev) login)),
                 lp_requested = Some requested\<rparr>
       | None \<Rightarrow> \<lparr>lp_body = Some (json_print (env_codec E) (jdel ''device_id'' login)),
                 lp_requested = Some requested\<rparr>)"
    using assms by (simp add: plan_login_def)
  show ?thesis
  proof (cases "direct_store E w user requested ?us")
    case True
    then show ?thesis by (simp add: plan device_id_for_login_def scan_users_eq)
  next
    case False
    then have dev: "device_id_for_login E w dir user requested =
        map_option snd (scan_devices E w requested ?stores None)"
      by (simp add: device_id_for_login_def scan_users_eq)
    show ?thesis
    proof (cases "scan_devices E w requested ?stores None")
      case None
      have none: "\<not> (\<exists>d \<in> set ?stores. \<exists>t dev. noted_store E w requested d t dev)"
        using scan_devices_spec [where E = E and w = w and requested = requested and ds = ?stores and newest = None]
          None by auto
      show ?thesis using None False none by (simp add: Let_def plan dev)
    next
      case (Some tv)
      obtain t v where tv: "tv = (t, v)" by fastforce
      have best: "\<exists>d \<in> set ?stores. noted_store E w requested d t v"
        "\<forall>d' \<in> set ?stores. \<forall>t' dev'. noted_store E w requested d' t' dev' \<longrightarrow> t' \<le> t"
        using scan_devices_spec [where E = E and w = w and requested = requested and ds = ?stores and newest = None]
          Some tv by auto
      have "lp_body (plan_login E w dir body) = (if v = requested then None
            else Some (json_print (env_codec E) (jput ''device_id'' (JStr v) login))) \<and>
          lp_requested (plan_login E w dir body) = Some requested"
        by (simp add: plan dev Some tv)
      with best False show ?thesis unfolding Let_def by auto
    qed
  qed
qed

text \<open>Two stores noted for the same request, the second used last.\<close>

definition stores_env :: "unit env" where
  "stores_env = (ref_env [(''in'', JObj [(''device_id'', JStr ''R''), (''user'', JStr ''A'')]),
       (''out'', JObj [(''device_id'', JStr ''NEW''), (''user'', JStr ''A'')]),
       (''old'', JArr [JStr ''OLD'', JStr ''R'']), (''new'', JObj [(''device_id'', JStr ''NEW''), (''requested_device_id'', JStr ''R'')])])\<lparr>
     subdirs_of := (\<lambda>d w. if d = ''/s'' then [''/s/@a:hs'', ''/s/@ab:hs'']
        else if d = ''/s/@a:hs'' then [''/s/@a:hs/OLD'', ''/s/@a:hs/NEW''] else []),
     is_file := (\<lambda>p w. p \<in> {path_join ''/s/@a:hs/OLD'' store_file, path_join ''/s/@a:hs/NEW'' store_file}),
     modified := (\<lambda>p w. if p = path_join ''/s/@a:hs/OLD'' store_file then Some 1 else Some 2),
     read_file := (\<lambda>p w. if p = ''/s/@a:hs/OLD/login.json'' then Some ''old''
        else if p = ''/s/@a:hs/NEW/login.json'' then Some ''new'' else None)\<rparr>"

theorem plan_login_continues_witness:
  "lp_requested (plan_login stores_env () ''/s'' ''in'') = Some ''R'' \<and>
    lp_body (plan_login stores_env () ''/s'' ''in'') = Some ''out''"
proof -
  have in_login: "json_parse (env_codec stores_env) ''in'' = Some (JObj [(''device_id'', JStr ''R''), (''user'', JStr ''A'')])"
    by (simp add: stores_env_def ref_env_def ref_codec_def)
  have run: "lp_body (plan_login stores_env () ''/s'' ''in'') = Some ''out''"
    by code_simp
  show ?thesis
    using plan_login_continues [OF in_login, of "''R''" "''A''" "''/s''" "()"] run
    by (simp add: get_str_def Let_def)
qed

end
