(* ===== verification/Session.thy ===== *)
theory Session
  imports Device Sync
begin

text \<open>
  The sessions (\<open>src/src/session.rs\<close>): one account context per access token, made on first use
  and never replaced; the sessions turned away because of their device's keys; and the tasks a
  new session starts. The hash map of contexts is the \<open>sessions\<close> of the proxy's state.

  A session is made in two steps, the question to the homeserver and then, under the write
  lock, everything else; two requests with one token may interleave between them, which the
  last section models as a step relation.
\<close>

section \<open>The table\<close>

definition session_get :: "string \<Rightarrow> ('w, 'z) proxy_scheme \<Rightarrow> account option" where
  "session_get tok s = map_of (sessions s) tok"

text \<open>
  All sessions, in the order they were made. The hash map gives them in some other order; only which
  session lends its token to a media download without one depends on it.
\<close>

definition session_list :: "('w, 'z) proxy_scheme \<Rightarrow> account list" where
  "session_list s = map snd (sessions s)"

definition session_remove :: "string \<Rightarrow> ('w, 'z) proxy_scheme \<Rightarrow> ('w, 'z) proxy_scheme" where
  "session_remove tok s = s\<lparr>sessions := AList.delete tok (sessions s)\<rparr>"

text \<open>Noting a conflict, the latest per device, and the error it becomes.\<close>

definition refuse :: "device_conflict \<Rightarrow> ('w, 'z, 'a) any_eff" where
  "refuse c =
     bindE (writes (\<lambda>s. s\<lparr>refused := filter (\<lambda>other.
         (dc_user_id other, dc_device_id other) \<noteq> (dc_user_id c, dc_device_id c)) (refused s) @ [c]\<rparr>)) (\<lambda>_.
     failE (ConflictErr c))"

section \<open>Making a session\<close>

definition new_account :: "config \<Rightarrow> string \<Rightarrow> string \<Rightarrow> string \<Rightarrow> string \<Rightarrow> media_row list \<Rightarrow> account" where
  "new_account cfg tok user dev machine rows =
     \<lparr>user_id = user, device_id = dev, token = tok, olm = machine, rooms = empty_tracker, media = rows,
      media_path = path_join (account_store_dir cfg user dev) ''media.sqlite'', sync = empty_sync,
      repairs = empty_queue, verifications = empty_log\<rparr>"

text \<open>Without a store, only a device that has no published keys may get some.\<close>

definition check_new_device ::
  "string \<Rightarrow> string \<Rightarrow> error + string option \<Rightarrow> ('w, 'z, unit) any_eff" where
  "check_new_device user dev published =
     (case published of
        Inr None \<Rightarrow> retE ()
      | Inr (Some _) \<Rightarrow> refuse \<lparr>dc_user_id = user, dc_device_id = dev, dc_store = None\<rparr>
      | Inl e \<Rightarrow> failE (UncheckedErr \<lparr>du_device_id = dev, du_reason = show_chain e\<rparr>))"

text \<open>With a store, its keys must be those published; \<open>True\<close> where they are to be published again.\<close>

definition check_store_keys ::
  "string \<Rightarrow> string \<Rightarrow> string \<Rightarrow> string \<Rightarrow> error + string option \<Rightarrow> ('w, 'z, bool) any_eff" where
  "check_store_keys user dev dir ours published =
     (case published of
        Inr (Some key) \<Rightarrow>
          if key \<noteq> ours then refuse \<lparr>dc_user_id = user, dc_device_id = dev, dc_store = Some dir\<rparr>
          else retE False
      | Inr None \<Rightarrow> retE True
      | Inl _ \<Rightarrow> retE False)"

text \<open>\<open>insert\<close> from where it holds the write lock.\<close>

definition insert_locked ::
  "('w, 'y) env_scheme \<Rightarrow> string \<Rightarrow> string \<Rightarrow> string \<Rightarrow> error + string option \<Rightarrow> ('w, 'z, account) any_eff" where
  "insert_locked E tok user dev published = look (\<lambda>s.
     case session_get tok s of
       Some a \<Rightarrow> retE a
     | None \<Rightarrow>
         (let dir = account_store_dir (env_config E) user dev;
              stored = has_store E dir (world s)
          in bindE (if stored then retE () else check_new_device user dev published) (\<lambda>_.
             bindE (open_machine E user dev) (\<lambda>machine. look (\<lambda>s1.
             bindE (if stored then check_store_keys user dev dir (sdk_identity E machine (world s1)) published
                    else retE False) (\<lambda>publish_again.
             bindE (call (media_open E (path_join dir ''media.sqlite''))) (\<lambda>rows.
             let a = new_account (env_config E) tok user dev machine rows in
             bindE (writes (\<lambda>s. s\<lparr>sessions := AList.update tok a (sessions s),
                 refused := filter (\<lambda>c. dc_user_id c \<noteq> user) (refused s)\<rparr>)) (\<lambda>_.
             bindE (spawn (PeriodicPump tok)) (\<lambda>_.
             bindE (spawn (PublishTask tok publish_again)) (\<lambda>_.
             retE a))))))))))"

definition session_insert ::
  "('w, 'y) env_scheme \<Rightarrow> string \<Rightarrow> string \<Rightarrow> string \<Rightarrow> ('w, 'z, account) any_eff" where
  "session_insert E tok user dev =
     (if \<not> is_user_id (env_codec E) user then failE (Wrap ''invalid user_id'' (Msg ''invalid user ID''))
      else bindE (attempt (published_identity E tok user dev)) (\<lambda>published.
        insert_locked E tok user dev published))"

definition get_or_init :: "('w, 'y) env_scheme \<Rightarrow> string \<Rightarrow> ('w, 'z, account) any_eff" where
  "get_or_init E tok = look (\<lambda>s.
     case session_get tok s of
       Some a \<Rightarrow> retE a
     | None \<Rightarrow>
         bindE (json_request E ''GET'' ''/_matrix/client/v3/account/whoami'' tok None) (\<lambda>(status, body).
         if \<not> is_success status then
           failE (Msg (''whoami failed with '' @ show_status (env_codec E) status @ '': '' @
             json_print (env_codec E) body))
         else
           bindE (okOr (Msg ''whoami response missing user_id'') (as_str (idx body ''user_id''))) (\<lambda>user.
           bindE (okOr (Msg ''whoami response missing device_id (appservice tokens are unsupported)'')
             (as_str (idx body ''device_id''))) (\<lambda>dev.
           session_insert E tok user dev))))"

definition insert_from_login :: "('w, 'y) env_scheme \<Rightarrow> json \<Rightarrow> ('w, 'z, account) any_eff" where
  "insert_from_login E answer =
     bindE (okOr (Msg ''login response missing access_token'') (as_str (idx answer ''access_token''))) (\<lambda>tok.
     bindE (okOr (Msg ''login response missing user_id'') (as_str (idx answer ''user_id''))) (\<lambda>user.
     bindE (okOr (Msg ''login response missing device_id'') (as_str (idx answer ''device_id''))) (\<lambda>dev.
     session_insert E tok user dev)))"

section \<open>Working on a session\<close>

text \<open>
  Code that holds the context of a token works on the context every other holder sees: what it
  changes is in the table afterwards, unless the session was removed meanwhile.
\<close>

definition on_account :: "account \<Rightarrow> 'w proxy \<Rightarrow> 'w ctx" where
  "on_account a s = proxy.extend s (ctx.fields a)"

definition put_account :: "'w ctx \<Rightarrow> 'w proxy" where
  "put_account s =
     (let p = proxy.truncate s; a = acct s in
      if map_of (sessions p) (token a) = None then p
      else p\<lparr>sessions := AList.update (token a) a (sessions p)\<rparr>)"

definition with_account :: "account \<Rightarrow> ('w ctx \<Rightarrow> 'r \<times> 'w ctx) \<Rightarrow> 'w proxy \<Rightarrow> 'r \<times> 'w proxy" where
  "with_account a m s = (case m (on_account a s) of (r, t) \<Rightarrow> (r, put_account t))"

definition with_accountP ::
  "account \<Rightarrow> ('w ctx \<Rightarrow> ('r \<times> 'w ctx) option) \<Rightarrow> 'w proxy \<Rightarrow> ('r \<times> 'w proxy) option" where
  "with_accountP a m s = map_option (\<lambda>(r, t). (r, put_account t)) (m (on_account a s))"

text \<open>
  What the tasks do when they run: the first flush of a new session, one tick of the periodic
  pump (\<open>False\<close>: the session is gone, the task ends), and a pump after a sync.
\<close>

definition run_publish :: "('w, 'y) env_scheme \<Rightarrow> bool \<Rightarrow> ('w, unit) effP" where
  "run_publish E publish_again =
     bindP (liftP (if publish_again then bindE (attempt (republish E)) (\<lambda>_. retE ()) else retE ())) (\<lambda>_. pump E)"

definition periodic_tick :: "('w, 'y) env_scheme \<Rightarrow> string \<Rightarrow> 'w proxy \<Rightarrow> (bool \<times> 'w proxy) option" where
  "periodic_tick E tok s =
     (case session_get tok s of
        None \<Rightarrow> Some (False, s)
      | Some a \<Rightarrow> map_option (\<lambda>(_, t). (True, t)) (with_accountP a (pump E) s))"

section \<open>Whom a session serves\<close>

lemma json_request_scheme:
  assumes "json_request E m p tok b s = (r, t)"
  shows "sessions t = sessions s" and "tasks t = tasks s" and "refused t = refused s"
  using assms
  by (auto simp: json_request_def Let_def effect_simps split: prod.splits sum.splits if_splits option.splits)

lemma published_identity_frame:
  assumes "published_identity E tok user dev s = (r, t)"
  shows "sessions t = sessions s" and "refused t = refused s" and "tasks t = tasks s"
  using assms
  by (auto simp: published_identity_def bindE_def mapErrE_def retE_def failE_def dest: json_request_scheme
      split: prod.splits sum.splits if_splits)

lemma open_machine_cases:
  assumes "open_machine E user dev s = (r, t)"
  shows "\<exists>w. t = s\<lparr>world := w\<rparr> \<and>
    (\<forall>h. r = Inr h \<longrightarrow> sdk_open E (account_store_dir (env_config E) user dev) user dev
       (cfg_store_passphrase (env_config E)) (world s) = (Inr h, w)) \<and>
    (\<forall>e. r = Inl e \<longrightarrow> downcast_conflict e = None)"
  using assms
  by (auto simp: open_machine_def Let_def mapErrE_def call_def split: prod.splits sum.splits)

lemma call_cases:
  assumes "call f s = (r, t)"
  shows "\<exists>w. t = s\<lparr>world := w\<rparr> \<and> (\<forall>x. r = Inr x \<longrightarrow> f (world s) = (Inr x, w)) \<and>
    (\<forall>e. r = Inl e \<longrightarrow> downcast_conflict e = None)"
  using assms by (auto simp: call_def split: prod.splits sum.splits)

definition noted_refusal ::
  "device_conflict list \<Rightarrow> string \<Rightarrow> string \<Rightarrow> error \<Rightarrow> device_conflict list \<Rightarrow> bool" where
  "noted_refusal old user dev e new \<longleftrightarrow>
     (case downcast_conflict e of
        None \<Rightarrow> new = old
      | Some c \<Rightarrow> dc_user_id c = user \<and> dc_device_id c = dev \<and>
          new = filter (\<lambda>x. (dc_user_id x, dc_device_id x) \<noteq> (user, dev)) old @ [c])"

lemma check_new_device_cases:
  assumes "check_new_device user dev published s = (r, t)"
  shows "sessions t = sessions s \<and> trace t = trace s \<and> tasks t = tasks s \<and> world t = world s \<and>
    (r = Inr () \<longrightarrow> published = Inr None \<and> t = s) \<and>
    (\<forall>e. r = Inl e \<longrightarrow> noted_refusal (refused s) user dev e (refused t))"
  using assms
  by (auto simp: check_new_device_def refuse_def effect_simps noted_refusal_def split: sum.splits option.splits)

lemma check_store_keys_cases:
  assumes "check_store_keys user dev dir ours published s = (r, t)"
  shows "sessions t = sessions s \<and> trace t = trace s \<and> tasks t = tasks s \<and> world t = world s \<and>
    (\<forall>b. r = Inr b \<longrightarrow> t = s \<and> b = (published = Inr None) \<and> (\<forall>key. published = Inr (Some key) \<longrightarrow> key = ours)) \<and>
    (\<forall>e. r = Inl e \<longrightarrow> noted_refusal (refused s) user dev e (refused t))"
  using assms
  by (auto simp: check_store_keys_def refuse_def effect_simps noted_refusal_def
      split: sum.splits option.splits if_splits)

lemma new_account_simps [simp]:
  "token (new_account cfg tok user dev h rows) = tok" "user_id (new_account cfg tok user dev h rows) = user"
  "device_id (new_account cfg tok user dev h rows) = dev" "olm (new_account cfg tok user dev h rows) = h"
  by (simp_all add: new_account_def)

text \<open>Everything \<open>insert_locked\<close> may do for a token it does not know yet.\<close>

lemma insert_locked_cases:
  assumes "session_get tok s = None" and "insert_locked E tok user dev published s = (r, t)"
  defines "dir \<equiv> account_store_dir (env_config E) user dev"
  shows "trace t = trace s \<and>
    (\<forall>e. r = Inl e \<longrightarrow> sessions t = sessions s \<and> noted_refusal (refused s) user dev e (refused t)) \<and>
    (\<forall>a. r = Inr a \<longrightarrow> token a = tok \<and> user_id a = user \<and> device_id a = dev \<and>
       (\<exists>w rows again. a = new_account (env_config E) tok user dev (olm a) rows \<and>
         sdk_open E dir user dev (cfg_store_passphrase (env_config E)) (world s) = (Inr (olm a), w) \<and>
         (if has_store E dir (world s)
          then (\<forall>key. published = Inr (Some key) \<longrightarrow> key = sdk_identity E (olm a) w) \<and> again = (published = Inr None)
          else published = Inr None \<and> \<not> again) \<and>
         sessions t = AList.update tok a (sessions s) \<and>
         refused t = filter (\<lambda>c. dc_user_id c \<noteq> user) (refused s) \<and>
         tasks t = tasks s @ [PeriodicPump tok, PublishTask tok again]))"
proof -
  let ?stored = "has_store E dir (world s)"
  obtain r1 s1 where c1: "(if ?stored then retE () else check_new_device user dev published) s = (r1, s1)"
    by fastforce
  have s1: "sessions s1 = sessions s \<and> trace s1 = trace s \<and> tasks s1 = tasks s \<and>
      (r1 = Inr () \<longrightarrow> (\<not> ?stored \<longrightarrow> published = Inr None) \<and> s1 = s) \<and>
      (\<forall>e. r1 = Inl e \<longrightarrow> noted_refusal (refused s) user dev e (refused s1))"
    using c1 check_new_device_cases [of user dev published s r1 s1]
    by (cases ?stored) (simp_all add: retE_def, blast+)
  note run = assms(2) [unfolded insert_locked_def look_def assms(1) option.case Let_def dir_def [symmetric]]
  show ?thesis
  proof (cases r1)
    case (Inl e)
    then have "r = Inl e" "t = s1" using run c1 by (simp_all add: bindE_def)
    then show ?thesis using s1 Inl by simp
  next
    case (Inr u)
    then have s1s: "s1 = s" "\<not> ?stored \<longrightarrow> published = Inr None" using s1 by simp_all
    obtain r2 s2 where o2: "open_machine E user dev s = (r2, s2)" by fastforce
    obtain w where w: "s2 = s\<lparr>world := w\<rparr>"
      "\<And>h. r2 = Inr h \<Longrightarrow> sdk_open E dir user dev (cfg_store_passphrase (env_config E)) (world s) = (Inr h, w)"
      "\<And>e. r2 = Inl e \<Longrightarrow> downcast_conflict e = None"
      using open_machine_cases [OF o2] unfolding dir_def by blast
    show ?thesis
    proof (cases r2)
      case (Inl e)
      then have "r = Inl e" "t = s2" using run c1 o2 Inr s1s by (simp_all add: bindE_def)
      then show ?thesis using w Inl by (simp add: noted_refusal_def)
    next
      case r2: (Inr h)
      let ?check = "if ?stored then check_store_keys user dev dir (sdk_identity E h (world s2)) published else retE False"
      obtain r3 s3 where c3: "?check s2 = (r3, s3)" by fastforce
      have s3: "sessions s3 = sessions s2 \<and> trace s3 = trace s2 \<and> tasks s3 = tasks s2 \<and>
          (\<forall>b. r3 = Inr b \<longrightarrow> s3 = s2 \<and> (if ?stored then b = (published = Inr None) \<and>
             (\<forall>key. published = Inr (Some key) \<longrightarrow> key = sdk_identity E h w) else \<not> b)) \<and>
          (\<forall>e. r3 = Inl e \<longrightarrow> noted_refusal (refused s2) user dev e (refused s3))"
        using c3 check_store_keys_cases [of user dev dir "sdk_identity E h (world s2)" published s2 r3 s3] w(1)
        by (cases ?stored) (simp, auto simp: retE_def)
      show ?thesis
      proof (cases r3)
        case (Inl e)
        then have "r = Inl e" "t = s3" using run c1 o2 Inr s1s r2 c3 by (simp_all add: bindE_def)
        then show ?thesis using s3 w(1) Inl by simp
      next
        case r3: (Inr b)
        then have s3s: "s3 = s2" using s3 by blast
        obtain r4 s4 where c4: "call (media_open E (path_join dir ''media.sqlite'')) s2 = (r4, s4)" by fastforce
        obtain w4 where w4: "s4 = s2\<lparr>world := w4\<rparr>" "\<And>e. r4 = Inl e \<Longrightarrow> downcast_conflict e = None"
          using call_cases [OF c4] by blast
        show ?thesis
        proof (cases r4)
          case (Inl e)
          then have "r = Inl e" "t = s4" using run c1 o2 Inr s1s r2 c3 r3 s3s c4 by (simp_all add: bindE_def)
          then show ?thesis using w w4 Inl by (simp add: noted_refusal_def)
        next
          case r4: (Inr rows)
          let ?a = "new_account (env_config E) tok user dev h rows"
          have t: "r = Inr ?a" "t = s4\<lparr>sessions := AList.update tok ?a (sessions s4),
              refused := filter (\<lambda>c. dc_user_id c \<noteq> user) (refused s4),
              tasks := tasks s4 @ [PeriodicPump tok, PublishTask tok b]\<rparr>"
            using run c1 o2 Inr s1s r2 c3 r3 s3s c4 r4
            by (simp_all add: bindE_def writes_def spawn_def retE_def)
          show ?thesis
            using t w(1) w(2) [OF r2] w4(1) s3 r3 s1s(2)
            by (auto intro!: exI [of _ w] exI [of _ rows] exI [of _ b])
        qed
      qed
    qed
  qed
qed

lemmas insert_locked_trace = insert_locked_cases [THEN conjunct1]
lemmas insert_locked_error = insert_locked_cases [THEN conjunct2, THEN conjunct1, rule_format]
lemmas insert_locked_done = insert_locked_cases [THEN conjunct2, THEN conjunct2, rule_format]

text \<open>
  C6: a session is made only for a device whose keys are this store's to use: where the
  homeserver publishes a key for the device there is a store, and the key of the machine
  opened from it is that key; where there is no store, the homeserver was asked and has none.
  A session that is turned away leaves the table alone and is noted, as the latest of its
  device, exactly when the reason is its keys.
\<close>

theorem session_serves_own_keys:
  assumes new: "session_get tok s = None" and ins: "session_insert E tok user dev s = (r, t)"
    and asked: "published_identity E tok user dev s = (p, s1)"
  shows "(\<forall>a. r = Inr a \<longrightarrow> session_get tok t = Some a \<and> token a = tok \<and>
       (\<forall>key. p = Inr (Some key) \<longrightarrow>
          has_store E (account_store_dir (env_config E) user dev) (world s1) \<and>
          (\<exists>w. sdk_open E (account_store_dir (env_config E) user dev) user dev
             (cfg_store_passphrase (env_config E)) (world s1) = (Inr (olm a), w) \<and> key = sdk_identity E (olm a) w)) \<and>
       (\<not> has_store E (account_store_dir (env_config E) user dev) (world s1) \<longrightarrow> p = Inr None)) \<and>
    (\<forall>e. r = Inl e \<longrightarrow> sessions t = sessions s \<and>
       (case downcast_conflict e of
          None \<Rightarrow> refused t = refused s
        | Some c \<Rightarrow> dc_user_id c = user \<and> dc_device_id c = dev \<and>
            refused t = filter (\<lambda>x. (dc_user_id x, dc_device_id x) \<noteq> (user, dev)) (refused s) @ [c]))"
proof (cases "is_user_id (env_codec E) user")
  case False
  then show ?thesis using ins by (auto simp: session_insert_def failE_def)
next
  case True
  have locked: "insert_locked E tok user dev p s1 = (r, t)"
    using ins asked True by (simp add: session_insert_def bindE_def attempt_def)
  have s1: "sessions s1 = sessions s" "refused s1 = refused s" "session_get tok s1 = None"
    using published_identity_frame [OF asked] new by (simp_all add: session_get_def)
  show ?thesis
    using insert_locked_cases [OF s1(3) locked] s1(1,2)
    by (auto simp: session_get_def noted_refusal_def update_conv' split: if_splits option.splits)
qed

text \<open>A store whose key is not the published one.\<close>

definition conflict_env :: "unit env" where
  "conflict_env = (ref_env [(''keys'', JObj [(''device_keys'', JObj [(''@a:hs'', JObj [(''D'',
       JObj [(''keys'', JObj [(''ed25519:D'', JStr ''other'')])])])])])])\<lparr>
     http_send := (\<lambda>rq w. (Inr \<lparr>rs_status = 200, rs_headers = [], rs_body = ''keys''\<rparr>, w)),
     is_file := (\<lambda>p w. p = ''/s/@a:hs/D/matrix-sdk-crypto.sqlite3'')\<rparr>"

theorem session_serves_own_keys_witness:
  "\<exists>t. session_insert conflict_env ''tok'' ''@a:hs'' ''D'' ref_proxy =
      (Inl (ConflictErr \<lparr>dc_user_id = ''@a:hs'', dc_device_id = ''D'', dc_store = Some ''/s/@a:hs/D''\<rparr>), t) \<and>
    sessions t = [] \<and> length (refused t) = 1"
proof -
  obtain r t where ins: "session_insert conflict_env ''tok'' ''@a:hs'' ''D'' ref_proxy = (r, t)" by fastforce
  obtain p s1 where asked: "published_identity conflict_env ''tok'' ''@a:hs'' ''D'' ref_proxy = (p, s1)" by fastforce
  have new: "session_get ''tok'' ref_proxy = None" by (simp add: session_get_def ref_proxy_def)
  have "fst (session_insert conflict_env ''tok'' ''@a:hs'' ''D'' ref_proxy) =
      Inl (ConflictErr \<lparr>dc_user_id = ''@a:hs'', dc_device_id = ''D'', dc_store = Some ''/s/@a:hs/D''\<rparr>)"
    by code_simp
  with ins have r: "r = Inl (ConflictErr \<lparr>dc_user_id = ''@a:hs'', dc_device_id = ''D'', dc_store = Some ''/s/@a:hs/D''\<rparr>)"
    by simp
  show ?thesis
    using session_serves_own_keys [OF new ins asked] ins r by (simp add: ref_proxy_def)
qed

section \<open>Requests that interleave\<close>

text \<open>
  The table as its users know it: a token is served one user, device and machine. What happens to it
  is a list of events: the homeserver said whose a token is, a request was given a context, a session
  was removed. The events alone determine the table.
\<close>

type_synonym served = "string \<Rightarrow> (string \<times> string \<times> string) option"

datatype session_event =
    Told string string string
  | Served string "string \<times> string \<times> string"
  | Removed string
  | Quiet

fun table_after :: "session_event \<Rightarrow> served \<Rightarrow> served" where
  "table_after (Served tok x) f = (case f tok of None \<Rightarrow> f(tok \<mapsto> x) | Some y \<Rightarrow> f)"
| "table_after (Removed tok) f = f(tok := None)"
| "table_after (Told tok user dev) f = f"
| "table_after Quiet f = f"

definition serves :: "account \<Rightarrow> string \<times> string \<times> string" where
  "serves a = (user_id a, device_id a, olm a)"

definition served_by :: "('w, 'z) proxy_scheme \<Rightarrow> served" where
  "served_by s = (\<lambda>tok. map_option serves (session_get tok s))"

text \<open>
  What the homeserver says of a token: its answer to \<open>whoami\<close>, asked with the token, or the answer to a
  login, which gives the token out.
\<close>

definition names_device :: "json \<Rightarrow> string \<Rightarrow> string \<Rightarrow> bool" where
  "names_device body user dev \<longleftrightarrow>
     as_str (idx body ''user_id'') = Some user \<and> as_str (idx body ''device_id'') = Some dev"

definition whoami_says ::
  "('w, 'y) env_scheme \<Rightarrow> string \<Rightarrow> string \<Rightarrow> string \<Rightarrow> ('w, 'z) proxy_scheme \<Rightarrow> ('w, 'z) proxy_scheme \<Rightarrow> bool" where
  "whoami_says E tok user dev s t \<longleftrightarrow> (\<exists>st body. is_success st \<and> names_device body user dev \<and>
     json_request E ''GET'' ''/_matrix/client/v3/account/whoami'' tok None s = (Inr (st, body), t))"

definition login_says ::
  "('w, 'y) env_scheme \<Rightarrow> string \<Rightarrow> string \<Rightarrow> string \<Rightarrow> ('w, 'z) proxy_scheme \<Rightarrow> ('w, 'z) proxy_scheme \<Rightarrow> bool" where
  "login_says E tok user dev s t \<longleftrightarrow> (\<exists>rq resp bytes answer s1.
     url_origin (hr_url rq) = url_origin (cfg_homeserver (env_config E)) \<and>
     send_http E rq s = (Inr resp, s1) \<and> is_success (rs_status resp) \<and>
     call (http_body E resp) s1 = (Inr bytes, t) \<and> json_parse (env_codec E) bytes = Some answer \<and>
     as_str (idx answer ''access_token'') = Some tok \<and> names_device answer user dev)"

text \<open>
  A request on its way to a context: its token, user and device, and what the homeserver published of
  the device's keys, once it was asked.
\<close>

type_synonym inquiry = "string \<times> string \<times> string \<times> (error + string option) option"

text \<open>
  The steps of the running proxy that bear on the table, in any order and of any number of requests: the
  homeserver tells a request whose its token is, the request asks for the device's keys, gets the
  lock and is given a context or turned away; a session is removed; a request works on
  its session; anything else leaves the table alone.
\<close>

inductive session_step ::
  "('w, 'y) env_scheme \<Rightarrow> 'w proxy \<times> inquiry list \<Rightarrow> session_event \<Rightarrow> 'w proxy \<times> inquiry list \<Rightarrow> bool" for E where
  told: "session_get tok s = None \<and> whoami_says E tok user dev s t \<or> login_says E tok user dev s t \<Longrightarrow>
     session_step E (s, qs) (Told tok user dev) (t, qs @ [(tok, user, dev, None)])"
| asked: "qs = us @ (tok, user, dev, None) # vs \<Longrightarrow> is_user_id (env_codec E) user \<Longrightarrow>
     published_identity E tok user dev s = (p, t) \<Longrightarrow>
     session_step E (s, qs) Quiet (t, us @ (tok, user, dev, Some p) # vs)"
| entered: "qs = us @ (tok, user, dev, Some p) # vs \<Longrightarrow> insert_locked E tok user dev p s = (Inr a, t) \<Longrightarrow>
     session_step E (s, qs) (Served tok (serves a)) (t, us @ vs)"
| turned_away: "qs = us @ (tok, user, dev, Some p) # vs \<Longrightarrow> insert_locked E tok user dev p s = (Inl e, t) \<Longrightarrow>
     session_step E (s, qs) Quiet (t, us @ vs)"
| found: "session_get tok s = Some a \<Longrightarrow> session_step E (s, qs) (Served tok (serves a)) (s, qs)"
| removed: "session_step E (s, qs) (Removed tok) (session_remove tok s, qs)"
| worked: "session_get tok s = Some a \<Longrightarrow> same_account (on_account a s) u \<Longrightarrow> sessions u = sessions s \<Longrightarrow>
     session_step E (s, qs) Quiet (put_account u, qs)"
| elsewhere: "sessions t = sessions s \<Longrightarrow> session_step E (s, qs) Quiet (t, qs)"

inductive session_run ::
  "('w, 'y) env_scheme \<Rightarrow> 'w proxy \<times> inquiry list \<Rightarrow> session_event list \<Rightarrow> 'w proxy \<times> inquiry list \<Rightarrow> bool" for E where
  still: "session_run E x [] x"
| step: "session_run E x es y \<Longrightarrow> session_step E y e z \<Longrightarrow> session_run E x (es @ [e]) z"

lemma session_run_cons: "session_run E y es z \<Longrightarrow> session_step E x e y \<Longrightarrow> session_run E x (e # es) z"
proof (induction rule: session_run.induct)
  case (still y)
  then show ?case using session_run.step [OF session_run.still, of E x e y] by simp
next
  case (step y es z e' z')
  then show ?case using session_run.step [of E x "e # es" z e' z'] by simp
qed

definition table_ok :: "('w, 'z) proxy_scheme \<Rightarrow> bool" where
  "table_ok s \<longleftrightarrow> distinct (map fst (sessions s)) \<and> (\<forall>(tok, a) \<in> set (sessions s). token a = tok)"

lemma table_okD: "table_ok s \<Longrightarrow> session_get tok s = Some a \<Longrightarrow> token a = tok"
  by (auto simp: table_ok_def session_get_def dest: map_of_SomeD)

lemma table_ok_update: "table_ok s \<Longrightarrow> sessions t = AList.update (token a) a (sessions s) \<Longrightarrow> table_ok t"
  by (auto simp: table_ok_def distinct_update dest!: set_update)

lemma served_same: "sessions t = sessions s \<Longrightarrow> served_by t = served_by s"
  by (simp add: served_by_def session_get_def)

lemma table_ok_same: "sessions t = sessions s \<Longrightarrow> table_ok s \<Longrightarrow> table_ok t"
  by (simp add: table_ok_def)

lemma known_inserted:
  "session_get tok s = Some a \<Longrightarrow> insert_locked E tok user dev p s = (Inr a, s)"
  by (simp add: insert_locked_def look_def retE_def)

text \<open>A request that gets the lock: the context of its token, or a new one of the device it names.\<close>

lemma insert_refines:
  assumes "table_ok s" and "insert_locked E tok user dev p s = (r, t)"
  shows "table_ok t \<and> (case r of
      Inl e \<Rightarrow> served_by t = served_by s
    | Inr a \<Rightarrow> served_by t = table_after (Served tok (serves a)) (served_by s) \<and>
        (served_by s tok = Some (serves a) \<or>
         served_by s tok = None \<and> (\<exists>machine. serves a = (user, dev, machine))))"
proof (cases "session_get tok s")
  case (Some a)
  then have "t = s" "r = Inr a" using assms(2) by (simp_all add: known_inserted)
  then show ?thesis using assms(1) Some by (simp add: served_by_def)
next
  case None
  show ?thesis
  proof (cases r)
    case (Inl e)
    have "sessions t = sessions s" using insert_locked_error [OF None assms(2) Inl] by (rule conjunct1)
    from served_same [OF this] table_ok_same [OF this assms(1)] show ?thesis using Inl by simp
  next
    case (Inr a)
    have a: "token a = tok" "user_id a = user" "device_id a = dev" "sessions t = AList.update tok a (sessions s)"
      using insert_locked_done [OF None assms(2) Inr] by blast+
    have "served_by t = (served_by s)(tok \<mapsto> serves a)"
      using a(4) by (auto simp: served_by_def session_get_def update_conv' fun_eq_iff)
    moreover have "served_by s tok = None" using None by (simp add: served_by_def)
    ultimately show ?thesis
      using table_ok_update [OF assms(1), of t a] a Inr by (simp add: serves_def)
  qed
qed

lemma work_refines:
  assumes "table_ok s" and "session_get tok s = Some a" and "same_account (on_account a s) u"
    and "sessions u = sessions s"
  shows "served_by (put_account u) = served_by s \<and> table_ok (put_account u)"
proof -
  have acct: "acct (on_account a s) = a" by (simp add: on_account_def proxy.defs ctx.defs)
  have u: "token (acct u) = tok" "user_id (acct u) = user_id a" "device_id (acct u) = device_id a"
    "olm (acct u) = olm a"
    using assms(3) table_okD [OF assms(1,2)] by (simp_all add: same_account_def acct)
  have put: "sessions (put_account u) = AList.update tok (acct u) (sessions s)"
    using assms(2,4) u(1) by (simp add: put_account_def Let_def proxy.defs session_get_def)
  have "served_by (put_account u) tok' = served_by s tok'" for tok'
    using assms(2) u by (simp add: served_by_def serves_def session_get_def put update_conv')
  moreover have "table_ok (put_account u)"
    using table_ok_update [OF assms(1), of "put_account u" "acct u"] put u(1) by simp
  ultimately show ?thesis by (simp add: fun_eq_iff)
qed

lemma call_sessions: "call f s = (r, t) \<Longrightarrow> sessions t = sessions s"
  by (auto simp: call_def split: prod.splits sum.splits)

lemma send_sessions: "send_http E rq s = (r, t) \<Longrightarrow> sessions t = sessions s"
  by (auto simp: send_http_def split: prod.splits)

lemma told_sessions:
  "whoami_says E tok user dev s t \<or> login_says E tok user dev s t \<Longrightarrow> sessions t = sessions s"
  using call_sessions send_sessions
  by (fastforce simp: whoami_says_def login_says_def dest: json_request_scheme)

text \<open>One step: the table it leaves, and where the context of a served request comes from.\<close>

definition explained :: "session_event list \<Rightarrow> served \<Rightarrow> session_event \<Rightarrow> bool" where
  "explained es f e = (case e of
     Served tok x \<Rightarrow> f tok = Some x \<or> f tok = None \<and>
       (\<exists>user dev machine. x = (user, dev, machine) \<and> Told tok user dev \<in> set es)
   | _ \<Rightarrow> True)"

definition all_told :: "session_event list \<Rightarrow> inquiry list \<Rightarrow> bool" where
  "all_told es qs \<longleftrightarrow> (\<forall>(tok, user, dev, p) \<in> set qs. Told tok user dev \<in> set es)"

lemma all_told_more: "all_told es qs \<Longrightarrow> all_told (es @ [e]) qs"
  by (fastforce simp: all_told_def)

lemma step_refines:
  assumes "session_step E (s, qs) e (t, qs')" and "table_ok s" and "all_told es qs"
  shows "table_ok t \<and> all_told (es @ [e]) qs' \<and> served_by t = table_after e (served_by s) \<and>
    explained es (served_by s) e"
  using assms(1)
proof cases
  case (told tok user dev)
  then have "sessions t = sessions s" using told_sessions by blast
  from served_same [OF this] table_ok_same [OF this assms(2)] show ?thesis
    using told assms(3) by (auto simp: explained_def all_told_def)
next
  case (asked us tok user dev vs p)
  from published_identity_frame(1) [OF this(5)] have "sessions t = sessions s" .
  from served_same [OF this] table_ok_same [OF this assms(2)] show ?thesis
    using asked assms(3) by (auto simp: explained_def all_told_def)
next
  case (entered us tok user dev p vs a)
  show ?thesis
    using insert_refines [OF assms(2) entered(4)] assms(3) entered(1-3)
    by (auto simp: explained_def all_told_def)
next
  case (turned_away us tok user dev p vs e')
  show ?thesis
    using insert_refines [OF assms(2) turned_away(4)] assms(3) turned_away(1-3)
    by (auto simp: explained_def all_told_def)
next
  case (found tok a)
  then show ?thesis using assms(2) all_told_more [OF assms(3)] by (simp add: explained_def served_by_def)
next
  case (removed tok)
  have "served_by (session_remove tok s) = (served_by s)(tok := None)"
    by (auto simp: served_by_def session_get_def session_remove_def delete_conv' fun_eq_iff)
  moreover have "table_ok (session_remove tok s)"
    using assms(2) by (auto simp: table_ok_def session_remove_def distinct_delete set_delete)
  ultimately show ?thesis using removed all_told_more [OF assms(3)] by (simp add: explained_def)
next
  case (worked tok a u)
  then show ?thesis
    using work_refines [OF assms(2) worked(4-6)] all_told_more [OF assms(3)] by (simp add: explained_def)
next
  case elsewhere
  from served_same [OF this(3)] table_ok_same [OF this(3) assms(2)] show ?thesis
    using elsewhere all_told_more [OF assms(3)] by (simp add: explained_def)
qed

lemma run_refines:
  assumes "session_run E (s, []) es y" and "table_ok s"
  shows "table_ok (fst y) \<and> all_told es (snd y) \<and> served_by (fst y) = fold table_after es (served_by s) \<and>
    (\<forall>us e vs. es = us @ e # vs \<longrightarrow> explained us (fold table_after us (served_by s)) e)"
proof -
  have "x = (s, []) \<Longrightarrow> table_ok (fst y) \<and> all_told es (snd y) \<and> served_by (fst y) = fold table_after es (served_by s) \<and>
    (\<forall>us e vs. es = us @ e # vs \<longrightarrow> explained us (fold table_after us (served_by s)) e)"
    if "session_run E x es y" for x
    using that
  proof induction
    case (still x)
    then show ?case using assms(2) by (simp add: all_told_def)
  next
    case (step x es y e z)
    obtain t qs where y: "y = (t, qs)" by fastforce
    obtain u qs' where z: "z = (u, qs')" by fastforce
    note IH = step.IH [OF step.prems, unfolded y fst_conv snd_conv]
    from step_refines [OF step.hyps(2) [unfolded y z], of es] IH have
      now: "table_ok u" "all_told (es @ [e]) qs'" "served_by u = table_after e (served_by t)"
        "explained es (served_by t) e"
      by blast+
    show ?case
      using IH now by (auto simp: z append_eq_append_conv2 Cons_eq_append_conv append_eq_Cons_conv)
  qed
  then show ?thesis using assms(1) by blast
qed

text \<open>A token keeps what it is served while it is not removed.\<close>

lemma table_keeps: "Removed tok \<notin> set es \<Longrightarrow> f tok = Some x \<Longrightarrow> fold table_after es f tok = Some x"
proof (induction es arbitrary: f)
  case (Cons e es)
  have "table_after e f tok = Some x"
    using Cons.prems by (cases e) (auto split: option.splits)
  then show ?case using Cons.IH [of "table_after e f"] Cons.prems(1) by simp
qed simp

text \<open>A request that is alone makes such steps.\<close>

lemma session_insert_run:
  assumes "session_insert E tok user dev s = (Inr a, t)"
  shows "session_run E (s, qs @ [(tok, user, dev, None)]) [Quiet, Served tok (serves a)] (t, qs)"
proof -
  obtain p u where p: "published_identity E tok user dev s = (p, u)" by fastforce
  have u: "is_user_id (env_codec E) user" "insert_locked E tok user dev p u = (Inr a, t)"
    using assms p by (auto simp: session_insert_def attempt_def bindE_def failE_def split: if_splits)
  have "session_step E (s, qs @ [(tok, user, dev, None)]) Quiet (u, qs @ [(tok, user, dev, Some p)])"
    by (rule asked [OF refl u(1) p])
  moreover have "session_step E (u, qs @ [(tok, user, dev, Some p)]) (Served tok (serves a)) (t, qs)"
    using entered [OF refl u(2), of qs "[]"] by simp
  ultimately show ?thesis by (intro session_run_cons [OF session_run_cons [OF still]])
qed

lemma get_or_init_run:
  assumes "get_or_init E tok s = (Inr a, t)"
  shows "\<exists>es. session_run E (s, qs) (es @ [Served tok (serves a)]) (t, qs)"
proof (cases "session_get tok s")
  case (Some b)
  then have "b = a" "t = s" using assms by (simp_all add: get_or_init_def look_def retE_def)
  then have "session_run E (s, qs) ([] @ [Served tok (serves a)]) (t, qs)"
    using Some by (intro session_run.step [OF still]) (simp add: found)
  then show ?thesis by blast
next
  case None
  obtain st body user dev u where u: "json_request E ''GET'' ''/_matrix/client/v3/account/whoami'' tok None s =
      (Inr (st, body), u)" "is_success st" "names_device body user dev" "session_insert E tok user dev u = (Inr a, t)"
    using assms None
    by (auto simp: get_or_init_def look_def bindE_def okOr_def retE_def failE_def names_device_def
        split: prod.splits sum.splits option.splits if_splits)
  then have "session_step E (s, qs) (Told tok user dev) (u, qs @ [(tok, user, dev, None)])"
    using None by (intro told) (auto simp: whoami_says_def)
  from session_run_cons [OF session_insert_run [OF u(4)] this]
  have "session_run E (s, qs) ([Told tok user dev, Quiet] @ [Served tok (serves a)]) (t, qs)" by simp
  then show ?thesis by blast
qed

text \<open>
  C10: however the steps of requests interleave, the table of sessions is the one its abstract
  specification computes from what happened: a request is given the context its token has; where it
  has none, a new one, of the user and device that the homeserver named for this very token, by \<open>whoami\<close>
  or by a login; and of two requests with one token the second is given what the first was, unless
  the session was removed in between: of two that race, both end up with the context that came first. Using
  a token as the proxy does, by \<open>get_or_init\<close>, is such steps and ends with the context it returns.
\<close>

theorem sessions_refine_table:
  assumes "session_run E (s, []) es (t, qs)" and "table_ok s"
  shows "table_ok t \<and> served_by t = fold table_after es (served_by s) \<and>
    (\<forall>us tok x vs. es = us @ Served tok x # vs \<longrightarrow>
       fold table_after us (served_by s) tok = Some x \<or>
       fold table_after us (served_by s) tok = None \<and>
         (\<exists>user dev machine. x = (user, dev, machine) \<and> Told tok user dev \<in> set us)) \<and>
    (\<forall>us tok x vs y ws. es = us @ Served tok x # vs @ Served tok y # ws \<and> Removed tok \<notin> set vs \<longrightarrow> y = x) \<and>
    (\<forall>tok a u. get_or_init E tok t = (Inr a, u) \<longrightarrow>
       (\<exists>fs. session_run E (t, qs) (fs @ [Served tok (serves a)]) (u, qs)))"
proof -
  note run = run_refines [OF assms, unfolded fst_conv snd_conv]
  have from_where: "fold table_after us (served_by s) tok = Some x \<or> fold table_after us (served_by s) tok = None \<and>
      (\<exists>user dev machine. x = (user, dev, machine) \<and> Told tok user dev \<in> set us)"
    if "es = us @ Served tok x # vs" for us tok x vs
    using run that by (fastforce simp: explained_def)
  have same: "y = x" if "es = us @ Served tok x # vs @ Served tok y # ws" "Removed tok \<notin> set vs" for us tok x vs y ws
  proof -
    have "fold table_after (us @ [Served tok x]) (served_by s) tok = Some x"
      using from_where [OF that(1)] by auto
    then have "fold table_after vs (fold table_after (us @ [Served tok x]) (served_by s)) tok = Some x"
      by (rule table_keeps [OF that(2)])
    then have "fold table_after (us @ Served tok x # vs) (served_by s) tok = Some x" by simp
    moreover have "es = (us @ Served tok x # vs) @ Served tok y # ws" using that(1) by simp
    ultimately show ?thesis using from_where [of "us @ Served tok x # vs" tok y ws] by auto
  qed
  show ?thesis
    by (intro conjI allI impI) (use run from_where same get_or_init_run in \<open>simp_all\<close>)
qed

text \<open>Two requests for the same token are told whose it is before either has the lock.\<close>

definition race_env :: "unit env" where
  "race_env = (ref_env [(''who'', JObj [(''user_id'', JStr ''@a:hs''), (''device_id'', JStr ''D'')])])\<lparr>
     http_send := (\<lambda>rq w. (Inr \<lparr>rs_status = 200, rs_headers = [],
       rs_body = (if hr_method rq = ''GET'' then ''who'' else ''{}'')\<rparr>, w))\<rparr>"

lemma race_insert:
  "\<exists>a t. insert_locked race_env ''tok'' ''@a:hs'' ''D'' (Inr None) s = (Inr a, t)"
  if "session_get ''tok'' s = None"
  using that
  by (simp add: insert_locked_def look_def has_store_def check_new_device_def open_machine_def race_env_def ref_env_def
      effect_simps Let_def)

lemma race_told: "\<exists>t. whoami_says race_env ''tok'' ''@a:hs'' ''D'' s t"
proof -
  have "json_parse (env_codec race_env) ''who'' = Some (JObj [(''user_id'', JStr ''@a:hs''), (''device_id'', JStr ''D'')])"
    by code_simp
  then show ?thesis
    by (auto simp: whoami_says_def json_request_def effect_simps json_http_def race_env_def ref_env_def
        is_success_def names_device_def)
qed

lemma race_published: "\<exists>t. published_identity race_env ''tok'' ''@a:hs'' ''D'' s = (Inr None, t)"
proof -
  have "json_parse (env_codec race_env) ''{}'' = Some (JObj [])" by code_simp
  then show ?thesis
    by (auto simp: published_identity_def json_request_def effect_simps json_http_def race_env_def ref_env_def
        is_success_def published_key_def)
qed

theorem sessions_refine_table_witness:
  "\<exists>t x y. session_run race_env (ref_proxy, [])
     [Told ''tok'' ''@a:hs'' ''D'', Told ''tok'' ''@a:hs'' ''D'', Quiet, Quiet, Served ''tok'' x, Served ''tok'' y] (t, []) \<and>
     y = x \<and> served_by t ''tok'' = Some x"
proof -
  let ?E = race_env and ?q = "\<lambda>p. (''tok'', ''@a:hs'', ''D'', p)"
  have user: "is_user_id (env_codec ?E) ''@a:hs''" by code_simp
  have ok: "table_ok ref_proxy" by (simp add: table_ok_def ref_proxy_def)
  have new: "session_get ''tok'' ref_proxy = None" by (simp add: session_get_def ref_proxy_def)
  obtain s1 where s1: "whoami_says ?E ''tok'' ''@a:hs'' ''D'' ref_proxy s1" using race_told by blast
  obtain s2 where s2: "whoami_says ?E ''tok'' ''@a:hs'' ''D'' s1 s2" using race_told by blast
  obtain s3 where s3: "published_identity ?E ''tok'' ''@a:hs'' ''D'' s2 = (Inr None, s3)"
    using race_published by blast
  obtain s4 where s4: "published_identity ?E ''tok'' ''@a:hs'' ''D'' s3 = (Inr None, s4)"
    using race_published by blast
  have fresh: "session_get ''tok'' s1 = None" "session_get ''tok'' s4 = None"
    using new told_sessions [OF disjI1 [OF s1]] told_sessions [OF disjI1 [OF s2]] published_identity_frame(1) [OF s3] published_identity_frame(1) [OF s4]
    by (simp_all add: session_get_def)
  obtain a t where i1: "insert_locked ?E ''tok'' ''@a:hs'' ''D'' (Inr None) s4 = (Inr a, t)"
    using race_insert [OF fresh(2)] by blast
  have "session_get ''tok'' t = Some a"
    using insert_locked_done [OF fresh(2) i1 refl] by (auto simp: session_get_def update_conv')
  note i2 = known_inserted [OF this, of ?E "''@a:hs''" "''D''" "Inr None"]
  let ?x = "serves a"
  have e1: "session_step ?E (ref_proxy, []) (Told ''tok'' ''@a:hs'' ''D'') (s1, [?q None])"
    using told [of "''tok''" ref_proxy ?E "''@a:hs''" "''D''" s1 "[]"] new s1 by simp
  have e2: "session_step ?E (s1, [?q None]) (Told ''tok'' ''@a:hs'' ''D'') (s2, [?q None, ?q None])"
    using told [of "''tok''" s1 ?E "''@a:hs''" "''D''" s2 "[?q None]"] fresh(1) s2 by simp
  have e3: "session_step ?E (s2, [?q None, ?q None]) Quiet (s3, [?q (Some (Inr None)), ?q None])"
    using asked [OF _ user s3, of _ "[]" "[?q None]"] by simp
  have e4: "session_step ?E (s3, [?q (Some (Inr None)), ?q None]) Quiet (s4, [?q (Some (Inr None)), ?q (Some (Inr None))])"
    using asked [OF _ user s4, of _ "[?q (Some (Inr None))]" "[]"] by simp
  have e5: "session_step ?E (s4, [?q (Some (Inr None)), ?q (Some (Inr None))]) (Served ''tok'' ?x) (t, [?q (Some (Inr None))])"
    using entered [OF _ i1, of _ "[]" "[?q (Some (Inr None))]"] by simp
  have e6: "session_step ?E (t, [?q (Some (Inr None))]) (Served ''tok'' ?x) (t, [])"
    using entered [OF _ i2, of _ "[]" "[]"] by simp
  have run: "session_run ?E (ref_proxy, [])
     [Told ''tok'' ''@a:hs'' ''D'', Told ''tok'' ''@a:hs'' ''D'', Quiet, Quiet, Served ''tok'' ?x, Served ''tok'' ?x] (t, [])"
    by (intro session_run_cons [OF _ e1] session_run_cons [OF _ e2] session_run_cons [OF _ e3] session_run_cons [OF _ e4]
        session_run_cons [OF _ e5] session_run_cons [OF still e6])
  have "served_by ref_proxy ''tok'' = None" by (simp add: served_by_def new)
  then show ?thesis
    using sessions_refine_table [OF run ok] run by (intro exI [of _ t] exI [of _ ?x]) simp
qed

end
