(* ===== verification/Login.thy ===== *)
theory Login
  imports Session
begin

text \<open>
  The two routes that are handled around an account's events: \<open>POST /login\<close>
  (\<open>src/src/proxy/login.rs\<close>), which chooses the device a login continues and makes the session,
  and the event-returning GETs (\<open>handle_history_get\<close> of \<open>src/src/proxy/intercept.rs\<close>).
\<close>

section \<open>Login\<close>

definition max_login_bytes :: nat where
  "max_login_bytes = 1024 * 1024"

text \<open>A login that got another device than the client asked for is noted beside its store.\<close>

definition note_device :: "('w, 'y) env_scheme \<Rightarrow> json \<Rightarrow> string \<Rightarrow> ('w, 'z, unit) any_eff" where
  "note_device E answer requested =
     (case (as_str (idx answer ''user_id''), as_str (idx answer ''device_id'')) of
        (Some user, Some dev) \<Rightarrow>
          if \<not> is_user_id (env_codec E) user \<or> dev = requested then retE ()
          else bindE (attempt (record_login E (account_store_dir (env_config E) user dev) dev requested)) (\<lambda>_.
            retE ())
      | _ \<Rightarrow> retE ())"

definition login_http :: "('w, 'y) env_scheme \<Rightarrow> string \<Rightarrow> string \<Rightarrow> http_request" where
  "login_http E pq body =
     \<lparr>hr_method = ''POST'', hr_url = upstream_url E pq,
      hr_headers = [(''content-type'', ''application/json'')], hr_body = body\<rparr>"

text \<open>What a successful answer is used for; nothing of it can fail the login.\<close>

definition login_session :: "('w, 'y) env_scheme \<Rightarrow> string option \<Rightarrow> json \<Rightarrow> ('w, 'z, unit) any_eff" where
  "login_session E requested answer =
     bindE (case requested of None \<Rightarrow> retE () | Some q \<Rightarrow> note_device E answer q) (\<lambda>_.
     bindE (attempt (insert_from_login E answer)) (\<lambda>_. retE ()))"

definition handle_login :: "('w, 'y) env_scheme \<Rightarrow> client_request \<Rightarrow> ('w, 'z, response) proxy_eff" where
  "handle_login E req = look (\<lambda>s.
     bindE (okOr (BadRequest ''failed to read login body: length limit exceeded'')
         (to_bytes (rq_body req) max_login_bytes)) (\<lambda>bytes.
     let plan = plan_login E (world s) (cfg_store_dir (env_config E)) bytes;
         body = (case lp_body plan of Some b \<Rightarrow> b | None \<Rightarrow> bytes)
     in bindE (mapErrE Upstream (send_http E (login_http E (path_and_query req) body))) (\<lambda>resp.
        bindE (mapErrE (\<lambda>e. Upstream (show_error e)) (call (http_body E resp))) (\<lambda>answer.
        bindE (if \<not> is_success (rs_status resp) then retE ()
          else (case json_parse (env_codec E) answer of
              None \<Rightarrow> retE ()
            | Some json \<Rightarrow> internal (login_session E (lp_requested plan) json))) (\<lambda>_.
        retE (raw_response (rs_status resp) (header_get ''content-type'' (rs_headers resp)) answer))))))"

section \<open>Event-returning requests\<close>

definition process_history :: "('w, 'y) env_scheme \<Rightarrow> route \<Rightarrow> json \<Rightarrow> ('w, json) eff" where
  "process_history E route body =
     (case route of
        Notifications \<Rightarrow> process_notifications_body E body
      | Messages room \<Rightarrow>
          if is_room_id (env_codec E) room then process_messages_body E room body else retE body
      | Context room \<Rightarrow>
          if is_room_id (env_codec E) room then process_context_body E room body else retE body
      | RoomEvent room \<Rightarrow>
          if is_room_id (env_codec E) room then process_event_body E room body else retE body
      | _ \<Rightarrow> retE body)"

definition handle_history_get ::
  "('w, 'y) env_scheme \<Rightarrow> client_request \<Rightarrow> route \<Rightarrow> ('w, response) peff" where
  "handle_history_get E req route = look (\<lambda>s.
     bindE (forward_get_json E (token (acct s)) (path_and_query req)) (\<lambda>answer. case answer of
         Inl relay \<Rightarrow> retE relay
       | Inr (ct, body) \<Rightarrow>
           bindE (internal (process_history E route body)) (\<lambda>body'.
           retE (raw_response 200 ct (json_print (env_codec E) body')))))"

section \<open>A login is never spoilt\<close>

lemma attempt_Inr: "\<exists>x t. attempt m s = (Inr x, t)"
  by (simp add: attempt_def split: prod.splits)

lemma note_device_returns: "\<exists>t. note_device E answer q s = (Inr (), t)"
  by (auto simp: note_device_def retE_def bindE_def attempt_def split: option.splits prod.splits)

lemma note_any: "\<exists>t. (case q of None \<Rightarrow> retE () | Some q \<Rightarrow> note_device E answer q) s = (Inr (), t)"
  by (cases q) (simp_all add: note_device_returns retE_def)

lemma login_session_returns: "\<exists>t. login_session E q answer s = (Inr (), t)"
proof -
  obtain t where "(case q of None \<Rightarrow> retE () | Some q \<Rightarrow> note_device E answer q) s = (Inr (), t)"
    using note_any by blast
  then show ?thesis by (simp add: login_session_def bindE_def attempt_def retE_def split: prod.splits)
qed

text \<open>Calls of the environment change the world and nothing else.\<close>

definition only_world :: "('w, 'z) proxy_scheme \<Rightarrow> ('w, 'z) proxy_scheme \<Rightarrow> bool" where
  "only_world s t \<longleftrightarrow> t = s\<lparr>world := world t\<rparr>"

interpretation calls: stepwise only_world
proof
  fix s t u :: "('w, 'z) proxy_scheme"
  show "only_world s s" by (simp add: only_world_def)
  assume "only_world s t" "only_world t u"
  then show "only_world s u" unfolding only_world_def by (metis proxy.surjective proxy.update_convs(1))
qed

lemma only_world_call: "does only_world (call f)"
  by (rule doesI) (auto simp: call_def only_world_def split: prod.splits sum.splits)

lemma only_world_attempt: "does only_world m \<Longrightarrow> does only_world (attempt m)"
  unfolding does_def attempt_def by (fastforce split: prod.splits)

lemma only_world_note_device: "does only_world (note_device E answer q)"
  unfolding note_device_def record_login_def Let_def
  by (intro calls.does_intros only_world_attempt only_world_call)

lemma login_session_runs:
  assumes "login_session E q answer s = (r, t)"
  shows "\<exists>s1 r1. only_world s s1 \<and> insert_from_login E answer s1 = (r1, t)"
proof -
  obtain s1 where s1: "(case q of None \<Rightarrow> retE () | Some q \<Rightarrow> note_device E answer q) s = (Inr (), s1)"
    using note_any by blast
  have "does only_world (case q of None \<Rightarrow> retE () | Some q \<Rightarrow> note_device E answer q)"
    by (intro calls.does_intros only_world_note_device)
  then have "only_world s s1" using s1 by (rule doesD)
  moreover have "\<exists>r1. insert_from_login E answer s1 = (r1, t)"
    using assms s1 by (auto simp: login_session_def bindE_def attempt_def retE_def split: prod.splits)
  ultimately show ?thesis by blast
qed

text \<open>
  C32: a login reaches the client as the homeserver answered it, its status, content type and
  body, whatever becomes of the session it is used for: one request goes to the homeserver
  first, the client's own but for the body the plan may replace and with no other header than
  its content type. On an answer that is no success, or is not JSON, nothing else happens; on
  any other answer the session is made from it, with nothing but the world outside
  changed before.
\<close>

theorem login_relayed:
  assumes "handle_login E req s = (r, t)" and "length (rq_body req) \<le> max_login_bytes"
    and "http_send E (login_http E (path_and_query req) body) (world s) = (Inr resp, w)"
    and "http_body E resp w = (Inr answer, w')"
  defines "plan \<equiv> plan_login E (world s) (cfg_store_dir (env_config E)) (rq_body req)"
  assumes "body = (case lp_body plan of Some b \<Rightarrow> b | None \<Rightarrow> rq_body req)"
  shows "r = Inr (raw_response (rs_status resp) (header_get ''content-type'' (rs_headers resp)) answer) \<and>
    (let s1 = s\<lparr>trace := trace s @ [login_http E (path_and_query req) body], world := w'\<rparr> in
     case (is_success (rs_status resp), json_parse (env_codec E) answer) of
       (True, Some json) \<Rightarrow>
         (\<exists>s2 r2. only_world s1 s2 \<and> insert_from_login E json s2 = (r2, t))
     | _ \<Rightarrow> t = s1)"
proof -
  let ?s1 = "s\<lparr>trace := trace s @ [login_http E (path_and_query req) body], world := w'\<rparr>"
  let ?use = "if \<not> is_success (rs_status resp) then retE ()
    else (case json_parse (env_codec E) answer of
        None \<Rightarrow> retE () | Some json \<Rightarrow> internal (login_session E (lp_requested plan) json))"
  have run: "handle_login E req s = bindE ?use (\<lambda>_. retE (raw_response (rs_status resp)
      (header_get ''content-type'' (rs_headers resp)) answer)) ?s1"
    using assms(2-4) assms(6)
    by (simp add: handle_login_def look_def okOr_def to_bytes_def Let_def bindE_def mapErrE_def send_http_def
        call_def retE_def plan_def split: option.split)
  show ?thesis
  proof (cases "is_success (rs_status resp) \<and> (\<exists>json. json_parse (env_codec E) answer = Some json)")
    case True
    then obtain json where j: "is_success (rs_status resp)" "json_parse (env_codec E) answer = Some json" by blast
    obtain u where u: "login_session E (lp_requested plan) json ?s1 = (Inr (), u)"
      using login_session_returns by blast
    from login_session_runs [OF u] obtain s2 r2 where
      "only_world ?s1 s2" "insert_from_login E json s2 = (r2, u)"
      by blast
    moreover have "r = Inr (raw_response (rs_status resp) (header_get ''content-type'' (rs_headers resp)) answer) \<and> t = u"
      using run assms(1) u j by (simp add: internal_def mapErrE_def bindE_def retE_def)
    ultimately show ?thesis using j by (auto simp: Let_def)
  next
    case False
    then have "r = Inr (raw_response (rs_status resp) (header_get ''content-type'' (rs_headers resp)) answer) \<and> t = ?s1"
      using run assms(1) by (auto simp: bindE_def retE_def split: option.splits if_splits)
    with False show ?thesis by (auto simp: Let_def split: option.splits bool.splits)
  qed
qed

text \<open>A login answered with an account's token.\<close>

definition login_answer :: json where
  "login_answer = JObj [(''access_token'', JStr ''tok''), (''device_id'', JStr ''D''), (''user_id'', JStr ''@a:hs'')]"

definition login_env :: "unit env" where
  "login_env = (ref_env [(''ok'', login_answer)])\<lparr>
     http_send := (\<lambda>rq w. (Inr \<lparr>rs_status = 200, rs_headers = [],
       rs_body = (if url_path (hr_url rq) = ''/login'' then ''ok'' else ''{}'')\<rparr>, w))\<rparr>"

definition login_req :: client_request where
  "login_req = \<lparr>rq_method = ''POST'', rq_path = ''/login'', rq_query = None, rq_headers = [], rq_body = ''{}''\<rparr>"

theorem login_relayed_witness:
  "\<exists>t. handle_login login_env login_req ref_proxy = (Inr (raw_response 200 None ''ok''), t)"
proof -
  let ?h = "login_http login_env ''/login'' ''{}''"
  let ?resp = "\<lparr>rs_status = 200, rs_headers = [], rs_body = ''ok''\<rparr> :: response"
  obtain r t where run: "handle_login login_env login_req ref_proxy = (r, t)" by fastforce
  have len: "length (rq_body login_req) \<le> max_login_bytes"
    by (simp add: login_req_def max_login_bytes_def)
  have pq: "path_and_query login_req = ''/login''" by code_simp
  have send: "http_send login_env (login_http login_env (path_and_query login_req) ''{}'') (world ref_proxy) = (Inr ?resp, ())"
    unfolding pq by code_simp
  have body: "http_body login_env ?resp () = (Inr ''ok'', ())" by code_simp
  have plan: "''{}'' = (case lp_body (plan_login login_env (world ref_proxy)
      (cfg_store_dir (env_config login_env)) (rq_body login_req)) of Some b \<Rightarrow> b | None \<Rightarrow> rq_body login_req)"
    by code_simp
  from login_relayed [OF run len send body plan]
  have "r = Inr (raw_response 200 None ''ok'')" by (simp add: header_get_def)
  with run show ?thesis by blast
qed

end
