(* ===== verification/Secrets.thy ===== *)
theory Secrets
  imports Login
begin

text \<open>
  Recovering an account on a new device: the secret storage (\<open>src/src/crypto/ssss.rs\<close>) and the
  room-key backup (\<open>src/src/crypto/backup.rs\<close>). What the SDK does with a key or a secret is in
  \<open>senv\<close>; keys are named by handles, as the machine is.
\<close>

section \<open>What the SDK is asked to do\<close>

record cross_signing_export =
  cs_master :: "string option"
  cs_self_signing :: "string option"
  cs_user_signing :: "string option"

record cross_signing_status =
  has_master :: bool
  has_self_signing :: bool
  has_user_signing :: bool

record exported_key =
  ek_room :: string
  ek_session :: string
  ek_key :: string

record 'w senv = "'w venv" +
  \<comment> \<open>\<open>BackupDecryptionKey\<close>: from base64, against a backup's description, on one session's data\<close>
  backup_key_from :: "string \<Rightarrow> string option"
  backup_key_matches :: "string \<Rightarrow> json \<Rightarrow> bool"
  decrypt_session_data :: "string \<Rightarrow> json \<Rightarrow> string option"
  \<comment> \<open>reading the answer with the keys, room by room, and the \<open>session_data\<close> of one\<close>
  read_backup_keys :: "json \<Rightarrow> (string \<times> (string \<times> json) list) list option"
  read_session_data :: "json \<Rightarrow> json option"
  sdk_backup_version :: "string \<Rightarrow> ('w, string option) api"
  sdk_disable_backup :: "string \<Rightarrow> ('w, unit) api"
  sdk_save_backup_key :: "string \<Rightarrow> string \<Rightarrow> string \<Rightarrow> ('w, unit) api"
  sdk_enable_backup :: "string \<Rightarrow> string \<Rightarrow> string \<Rightarrow> ('w, unit) api"
  sdk_import_room_keys :: "string \<Rightarrow> exported_key list \<Rightarrow> string option \<Rightarrow> ('w, nat) api"
  \<comment> \<open>\<open>SecretStorageKey\<close>: from a recovery key and its description; its ID; a secret under it\<close>
  open_secret_key :: "string \<Rightarrow> string \<Rightarrow> json \<Rightarrow> string option"
  secret_key_id :: "string \<Rightarrow> string"
  decrypt_secret :: "string \<Rightarrow> json \<Rightarrow> string \<Rightarrow> string option"
  is_utf8 :: "string \<Rightarrow> bool"
  sdk_query_users :: "string \<Rightarrow> string list \<Rightarrow> 'w \<Rightarrow> (string \<times> json) \<times> 'w"
  sdk_import_cross_signing :: "string \<Rightarrow> cross_signing_export \<Rightarrow> ('w, cross_signing_status) api"
  sdk_sign_device :: "string \<Rightarrow> string \<Rightarrow> string \<Rightarrow> ('w, json) api"

section \<open>The backup\<close>

record backup_restore_report =
  br_version :: "string option"
  br_enabled :: bool
  br_total :: nat
  br_imported :: nat

definition no_restore :: backup_restore_report where
  "no_restore = \<lparr>br_version = None, br_enabled = False, br_total = 0, br_imported = 0\<rparr>"

record backup_version_info =
  bv_version :: string
  bv_algorithm :: string
  bv_auth_data :: json

definition backup_version_of :: "json \<Rightarrow> backup_version_info option" where
  "backup_version_of j =
     (case (case j of
         JObj m \<Rightarrow> (map_of m ''version'', map_of m ''algorithm'', map_of m ''auth_data'')
       | JArr [a, b, c] \<Rightarrow> (Some a, Some b, Some c)
       | _ \<Rightarrow> (None, None, None)) of
        (Some (JStr v), Some (JStr a), Some d) \<Rightarrow> Some \<lparr>bv_version = v, bv_algorithm = a, bv_auth_data = d\<rparr>
      | _ \<Rightarrow> None)"

definition current_backup_version :: "('w, 'y) env_scheme \<Rightarrow> ('w, backup_version_info option) eff" where
  "current_backup_version E = look (\<lambda>s.
     bindE (json_request E ''GET'' ''/_matrix/client/v3/room_keys/version'' (token (acct s)) None) (\<lambda>(status, body).
     if status = 404 then retE None
     else if \<not> is_success status then failE (Msg (show_answer E ''room_keys/version failed: '' (status, body)))
     else bindE (okOr (Wrap ''malformed room_keys/version response'' (Msg ''invalid value'')) (backup_version_of body))
       (\<lambda>v. retE (Some v))))"

definition backup_info :: "backup_version_info \<Rightarrow> json" where
  "backup_info v = mk_obj [(''algorithm'', JStr (bv_algorithm v)), (''auth_data'', bv_auth_data v)]"

text \<open>A backup that is not the stored one replaces it: key and version are saved, then enabled.\<close>

definition enable_backup :: "('w, 'y) senv_scheme \<Rightarrow> string \<Rightarrow> string \<Rightarrow> ('w, unit) eff" where
  "enable_backup E key version = look (\<lambda>s.
     bindE (call (sdk_backup_version E (olm (acct s)))) (\<lambda>stored.
     if stored = Some version then retE ()
     else bindE (call (sdk_disable_backup E (olm (acct s)))) (\<lambda>_.
       bindE (call (sdk_save_backup_key E (olm (acct s)) key version)) (\<lambda>_.
       call (sdk_enable_backup E (olm (acct s)) key version)))))"

definition download_backup :: "('w, 'y) senv_scheme \<Rightarrow> string \<Rightarrow> ('w, (string \<times> (string \<times> json) list) list) eff" where
  "download_backup E version = look (\<lambda>s.
     bindE (json_request E ''GET'' (''/_matrix/client/v3/room_keys/keys?version='' @ enc (env_codec E) version)
         (token (acct s)) None) (\<lambda>(status, body).
     if \<not> is_success status then failE (Msg (show_answer E ''downloading room keys failed: '' (status, body)))
     else okOr (Wrap ''malformed room_keys/keys response'' (Msg ''unexpected response'')) (read_backup_keys E body)))"

text \<open>What can be read is imported; \<open>total\<close> counts everything that is in the backup.\<close>

definition backup_sessions :: "(string \<times> (string \<times> json) list) list \<Rightarrow> (string \<times> string \<times> json) list" where
  "backup_sessions rs = concat (map (\<lambda>(room, ss). map (\<lambda>(sid, k). (room, sid, k)) ss) rs)"

definition decrypt_backup_key :: "('w, 'y) senv_scheme \<Rightarrow> string \<Rightarrow> string \<times> string \<times> json \<Rightarrow> exported_key option" where
  "decrypt_backup_key E key b =
     (case b of (room, sid, k) \<Rightarrow>
        map_option (\<lambda>p. \<lparr>ek_room = room, ek_session = sid, ek_key = p\<rparr>)
          (Option.bind (read_session_data E k) (decrypt_session_data E key)))"

definition restore_from_backup :: "('w, 'y) senv_scheme \<Rightarrow> string \<Rightarrow> ('w, backup_restore_report) eff" where
  "restore_from_backup E secret =
     bindE (okOr (Wrap ''m.megolm_backup.v1 secret is not a valid backup key'' (Msg ''invalid key''))
       (backup_key_from E secret)) (\<lambda>key.
     bindE (current_backup_version E) (\<lambda>current. case current of
         None \<Rightarrow> retE no_restore
       | Some v \<Rightarrow>
           if \<not> parses_as E ''RoomKeyBackupInfo'' (backup_info v) then
             failE (Wrap ''malformed backup auth_data'' (Msg ''invalid value''))
           else if \<not> backup_key_matches E key (backup_info v) then
             failE (Msg (''the recovered backup key does not match the active server-side backup (version '' @
               bv_version v @ ''); was the backup reset after the recovery key was created?''))
           else
             bindE (enable_backup E key (bv_version v)) (\<lambda>_.
             bindE (download_backup E (bv_version v)) (\<lambda>downloaded. look (\<lambda>s.
             let all = backup_sessions downloaded;
                 ks = List.map_filter (decrypt_backup_key E key) all
             in bindE (mapErrE (Wrap ''importing room keys failed'')
                  (call (sdk_import_room_keys E (olm (acct s)) ks (Some (bv_version v))))) (\<lambda>n.
                retE \<lparr>br_version = Some (bv_version v), br_enabled = True,
                  br_total = length all, br_imported = n\<rparr>))))))"

section \<open>Secret storage\<close>

definition account_data_path :: "codec \<Rightarrow> string \<Rightarrow> string \<Rightarrow> string" where
  "account_data_path cd user event_type =
     ''/_matrix/client/v3/user/'' @ enc cd user @ ''/account_data/'' @ enc cd event_type"

definition fetch_account_data :: "('w, 'y) env_scheme \<Rightarrow> string \<Rightarrow> ('w, json option) eff" where
  "fetch_account_data E event_type = look (\<lambda>s.
     bindE (json_request E ''GET'' (account_data_path (env_codec E) (user_id (acct s)) event_type)
         (token (acct s)) None) (\<lambda>(status, body).
     if status = 404 then retE None
     else if \<not> is_success status then
       failE (Msg (show_answer E (''fetching account data '' @ event_type @ '' failed: '') (status, body)))
     else retE (Some body)))"

definition open_secret_storage_key :: "('w, 'y) senv_scheme \<Rightarrow> string \<Rightarrow> ('w, string) eff" where
  "open_secret_storage_key E recovery_key =
     bindE (fetch_account_data E ''m.secret_storage.default_key'') (\<lambda>data.
     bindE (okOr (Msg ''no m.secret_storage.default_key account data: secret storage is not set up'') data) (\<lambda>default_key.
     bindE (okOr (Msg ''malformed m.secret_storage.default_key content'') (get_str ''key'' default_key)) (\<lambda>kid.
     let event_type = ''m.secret_storage.key.'' @ kid in
     bindE (fetch_account_data E event_type) (\<lambda>kdata.
     bindE (okOr (Msg (''missing account data '' @ event_type)) kdata) (\<lambda>content.
     if \<not> parses_as E ''SecretStorageKeyEventContent'' content then
       failE (Wrap ''malformed secret storage key description'' (Msg ''invalid value''))
     else okOr (Wrap ''recovery key/passphrase does not match the secret storage key'' (Msg ''invalid key''))
       (open_secret_key E recovery_key kid content))))))"

definition get_secret :: "('w, 'y) senv_scheme \<Rightarrow> string \<Rightarrow> string \<Rightarrow> ('w, string option) eff" where
  "get_secret E key name =
     bindE (fetch_account_data E name) (\<lambda>data. case data of
         None \<Rightarrow> retE None
       | Some content \<Rightarrow> (case pointer_str (''/encrypted/'' @ secret_key_id E key) content of
           None \<Rightarrow> retE None
         | Some encrypted \<Rightarrow>
             if \<not> parses_as E ''AesHmacSha2EncryptedData'' encrypted then
               failE (Wrap (''malformed encrypted data for '' @ name) (Msg ''invalid value''))
             else bindE (okOr (Wrap (''MAC check failed decrypting '' @ name) (Msg ''invalid MAC''))
                 (decrypt_secret E key encrypted name)) (\<lambda>plain.
               if is_utf8 E plain then retE (Some plain)
               else failE (Wrap (''secret '' @ name @ '' is not valid UTF-8'') (Msg ''invalid utf-8'')))))"

definition query_own_keys :: "('w, 'y) senv_scheme \<Rightarrow> ('w, unit) eff" where
  "query_own_keys E = look (\<lambda>s.
     bindE (sdk_step (sdk_query_users E (olm (acct s)) [user_id (acct s)])) (\<lambda>(rid, ks).
     bindE (json_request E ''POST'' ''/_matrix/client/v3/keys/query'' (token (acct s))
         (Some (mk_obj [(''device_keys'', ks)]))) (\<lambda>(status, body).
     if \<not> is_success status then failE (Msg (show_answer E ''keys/query failed: '' (status, body)))
     else mark_sent E rid KeysQueryResponse body)))"

section \<open>The bootstrap\<close>

record bootstrap_report =
  bo_master :: bool
  bo_self_signing :: bool
  bo_user_signing :: bool
  bo_own_device_signed :: bool
  bo_backup :: backup_restore_report

definition get_cross_signing :: "('w, 'y) senv_scheme \<Rightarrow> string \<Rightarrow> ('w, cross_signing_export) eff" where
  "get_cross_signing E key =
     bindE (get_secret E key ''m.cross_signing.master'') (\<lambda>m.
     bindE (get_secret E key ''m.cross_signing.self_signing'') (\<lambda>ss.
     bindE (get_secret E key ''m.cross_signing.user_signing'') (\<lambda>us.
     retE \<lparr>cs_master = m, cs_self_signing = ss, cs_user_signing = us\<rparr>)))"

text \<open>With the self-signing key in the machine, this device is signed; \<open>True\<close> where it was.\<close>

definition sign_own_device :: "('w, 'y) senv_scheme \<Rightarrow> ('w, bool) eff" where
  "sign_own_device E = look (\<lambda>s.
     bindE (call (sdk_device E (olm (acct s)) (user_id (acct s)) (device_id (acct s)))) (\<lambda>d.
     bindE (okOr (Msg ''own device not found in store'') d) (\<lambda>_.
     bindE (mapErrE (Wrap ''self-signing device failed'')
       (call (sdk_sign_device E (olm (acct s)) (user_id (acct s)) (device_id (acct s))))) (\<lambda>signed.
     bindE (upload_signatures E ''signature upload failed: '' signed) (\<lambda>_.
     bindE (query_own_keys E) (\<lambda>_.
     retE True))))))"

definition bootstrap :: "('w, 'y) senv_scheme \<Rightarrow> string \<Rightarrow> ('w, bootstrap_report) effP" where
  "bootstrap E recovery_key =
     bindP (liftP (
       bindE (open_secret_storage_key E recovery_key) (\<lambda>key.
       bindE (get_cross_signing E key) (\<lambda>export.
       bindE (query_own_keys E) (\<lambda>_. look (\<lambda>s.
       bindE (mapErrE (Wrap ''importing cross-signing keys failed (do they match the server identity?)'')
         (call (sdk_import_cross_signing E (olm (acct s)) export))) (\<lambda>status.
       bindE (if has_self_signing status then sign_own_device E else retE False) (\<lambda>signed.
       bindE (get_secret E key ''m.megolm_backup.v1'') (\<lambda>secret.
       bindE (case secret of Some x \<Rightarrow> restore_from_backup E x | None \<Rightarrow> retE no_restore) (\<lambda>restored.
       retE \<lparr>bo_master = cs_master export \<noteq> None, bo_self_signing = cs_self_signing export \<noteq> None,
         bo_user_signing = cs_user_signing export \<noteq> None, bo_own_device_signed = signed,
         bo_backup = restored\<rparr>)))))))))) (\<lambda>report.
     bindP (pump E) (\<lambda>_.
     liftP (retE report)))"

section \<open>A backup is enabled with its own key only\<close>

lemma current_backup_version_frame:
  assumes "current_backup_version E s = (r, t)"
  shows "same_account s t \<and> trace t = trace s @
    [json_http E ''GET'' ''/_matrix/client/v3/room_keys/version'' (token (acct s)) None]"
  using assms
  by (auto simp: current_backup_version_def json_request_def same_account_def effect_simps okOr_def
      split: prod.splits sum.splits if_splits option.splits)

text \<open>
  C33: a secret that is no backup key changes and asks nothing. With a key, the homeserver is
  asked for its backup; where there is none, or its description does not match the key,
  nothing is changed: not the machine's stored backup, no key is downloaded or imported. A
  report of an enabled backup names a version whose description the key matched, and the keys
  imported are those of the downloaded sessions that the key decrypts, no other.
\<close>

theorem backup_needs_matching_key:
  assumes "restore_from_backup E secret s = (r, t)"
  shows "case backup_key_from E secret of
      None \<Rightarrow> t = s \<and> (\<exists>e. r = Inl e)
    | Some key \<Rightarrow> (case current_backup_version E s of
        (Inl e, s1) \<Rightarrow> r = Inl e \<and> t = s1
      | (Inr None, s1) \<Rightarrow> r = Inr no_restore \<and> t = s1
      | (Inr (Some v), s1) \<Rightarrow>
          trace s1 = trace s @ [json_http E ''GET'' ''/_matrix/client/v3/room_keys/version'' (token (acct s)) None] \<and>
          (if \<not> parses_as E ''RoomKeyBackupInfo'' (backup_info v) \<or> \<not> backup_key_matches E key (backup_info v)
           then t = s1 \<and> (\<exists>e. r = Inl e)
           else \<forall>report. r = Inr report \<longrightarrow> br_enabled report \<and> br_version report = Some (bv_version v) \<and>
             (\<exists>rooms s2 w. download_backup E (bv_version v) (snd (enable_backup E key (bv_version v) s1)) = (Inr rooms, s2) \<and>
                br_total report = length (backup_sessions rooms) \<and>
                sdk_import_room_keys E (olm (acct s2))
                  (List.map_filter (decrypt_backup_key E key) (backup_sessions rooms)) (Some (bv_version v)) (world s2) =
                    (Inr (br_imported report), w))))"
proof (cases "backup_key_from E secret")
  case None
  then show ?thesis using assms by (auto simp: restore_from_backup_def bindE_def okOr_def)
next
  case (Some key)
  obtain c s1 where c: "current_backup_version E s = (c, s1)" by fastforce
  note frame = current_backup_version_frame [OF c]
  show ?thesis
  proof (cases "\<exists>v. c = Inr (Some v)")
    case False
    then show ?thesis
      using assms c Some by (cases c) (auto simp: restore_from_backup_def bindE_def okOr_def retE_def split: option.splits)
  next
    case True
    then obtain v where v: "c = Inr (Some v)" by blast
    let ?bad = "\<not> parses_as E ''RoomKeyBackupInfo'' (backup_info v) \<or> \<not> backup_key_matches E key (backup_info v)"
    show ?thesis
    proof (cases ?bad)
      case True
      then show ?thesis
        using assms c v Some frame
        by (auto simp: restore_from_backup_def bindE_def okOr_def failE_def split: if_splits)
    next
      case False
      then have run: "bindE (enable_backup E key (bv_version v)) (\<lambda>_.
          bindE (download_backup E (bv_version v)) (\<lambda>downloaded. look (\<lambda>s.
          let all = backup_sessions downloaded; ks = List.map_filter (decrypt_backup_key E key) all
          in bindE (mapErrE (Wrap ''importing room keys failed'')
               (call (sdk_import_room_keys E (olm (acct s)) ks (Some (bv_version v))))) (\<lambda>n.
             retE \<lparr>br_version = Some (bv_version v), br_enabled = True,
               br_total = length all, br_imported = n\<rparr>)))) s1 = (r, t)"
        using assms c v Some by (simp add: restore_from_backup_def bindE_def okOr_def)
      have "\<forall>report. r = Inr report \<longrightarrow> br_enabled report \<and> br_version report = Some (bv_version v) \<and>
             (\<exists>rooms s2 w. download_backup E (bv_version v) (snd (enable_backup E key (bv_version v) s1)) = (Inr rooms, s2) \<and>
                br_total report = length (backup_sessions rooms) \<and>
                sdk_import_room_keys E (olm (acct s2))
                  (List.map_filter (decrypt_backup_key E key) (backup_sessions rooms)) (Some (bv_version v)) (world s2) =
                    (Inr (br_imported report), w))"
      proof (intro allI impI)
        fix report
        assume r: "r = Inr report"
        from run [unfolded r bindE_eq_Inr_iff] obtain u rooms s2 s3 where
          e: "enable_backup E key (bv_version v) s1 = (Inr u, s3)"
          and d: "download_backup E (bv_version v) s3 = (Inr rooms, s2)"
          and m: "look (\<lambda>s. let all = backup_sessions rooms; ks = List.map_filter (decrypt_backup_key E key) all
            in bindE (mapErrE (Wrap ''importing room keys failed'')
                 (call (sdk_import_room_keys E (olm (acct s)) ks (Some (bv_version v))))) (\<lambda>n.
               retE \<lparr>br_version = Some (bv_version v), br_enabled = True,
                 br_total = length all, br_imported = n\<rparr>)) s2 = (Inr report, t)"
          by blast
        show "br_enabled report \<and> br_version report = Some (bv_version v) \<and>
             (\<exists>rooms s2 w. download_backup E (bv_version v) (snd (enable_backup E key (bv_version v) s1)) = (Inr rooms, s2) \<and>
                br_total report = length (backup_sessions rooms) \<and>
                sdk_import_room_keys E (olm (acct s2))
                  (List.map_filter (decrypt_backup_key E key) (backup_sessions rooms)) (Some (bv_version v)) (world s2) =
                    (Inr (br_imported report), w))"
          using e d m
          by (auto simp: look_def Let_def bindE_def mapErrE_def call_def retE_def split: prod.splits sum.splits)
      qed
      then show ?thesis using False Some c v frame by simp
    qed
  qed
qed

text \<open>A homeserver with a backup, and a secret that is another backup's key.\<close>

definition ref_senv :: "(string \<times> json) list \<Rightarrow> unit senv" where
  "ref_senv tbl = venv.extend (ref_venv tbl) (senv.fields
     (\<lambda>b. if b = ''secret'' then Some ''key'' else None) (\<lambda>k i. idx i ''auth_data'' = JStr k) (\<lambda>k d. as_str d)
     (\<lambda>j. Some []) (\<lambda>j. Some j) (\<lambda>h w. (Inr None, w)) (\<lambda>h w. (Inr (), w))
     (\<lambda>h k v w. (Inr (), w)) (\<lambda>h k v w. (Inr (), w)) (\<lambda>h ks v w. (Inr (length ks), w))
     (\<lambda>r kid c. if r = ''recovery'' then Some kid else None) (\<lambda>k. k) (\<lambda>k d n. as_str d) (\<lambda>s. True)
     (\<lambda>h us w. ((''q'', JObj []), w))
     (\<lambda>h x w. (Inr \<lparr>has_master = cs_master x \<noteq> None, has_self_signing = cs_self_signing x \<noteq> None,
        has_user_signing = cs_user_signing x \<noteq> None\<rparr>, w))
     (\<lambda>h u d w. (Inr (JObj []), w)))"

definition other_backup :: json where
  "other_backup = JObj [(''algorithm'', JStr ''a''), (''auth_data'', JStr ''other''), (''version'', JStr ''1'')]"

definition backup_env :: "unit senv" where
  "backup_env = (ref_senv [(''version'', other_backup)])\<lparr>
     http_send := (\<lambda>rq w. (Inr \<lparr>rs_status = 200, rs_headers = [], rs_body = ''version''\<rparr>, w))\<rparr>"

theorem backup_needs_matching_key_witness:
  "\<exists>e t. restore_from_backup backup_env ''secret'' ref_ctx = (Inl e, t) \<and>
    trace t = [json_http backup_env ''GET'' ''/_matrix/client/v3/room_keys/version'' ''tok'' None]"
proof -
  obtain r t where run: "restore_from_backup backup_env ''secret'' ref_ctx = (r, t)" by fastforce
  have key: "backup_key_from backup_env ''secret'' = Some ''key''" by code_simp
  let ?s1 = "ref_ctx\<lparr>trace := [json_http backup_env ''GET'' ''/_matrix/client/v3/room_keys/version'' ''tok'' None]\<rparr>"
  let ?v = "\<lparr>bv_version = ''1'', bv_algorithm = ''a'', bv_auth_data = JStr ''other''\<rparr>"
  have version: "current_backup_version backup_env ref_ctx = (Inr (Some ?v), ?s1)" by code_simp
  have no: "\<not> backup_key_matches backup_env ''key'' (backup_info ?v)" by code_simp
  from backup_needs_matching_key [OF run, unfolded key version option.case sum.case prod.case] no
  have "t = ?s1" "\<exists>e. r = Inl e" by simp_all
  with run show ?thesis by auto
qed

end
