(* ===== verification/Diagnose.thy ===== *)
theory Diagnose
  imports Secrets LogBuf
begin

text \<open>
  The health checks behind \<open>ctl debug check\<close> (the first half of \<open>src/src/admin/diagnose.rs\<close>):
  each names what it looked at, how that stands, and what to do about it. The checks ask the
  homeserver and the machine; they keep nothing.
\<close>

section \<open>What the checks look at\<close>

datatype path_kind = IsDirectory | NotFound | OtherPath

record inbound_session =
  ig_first_known_index :: nat
  ig_imported :: bool
  ig_backed_up :: bool

record 'w denv = "'w senv" +
  \<comment> \<open>\<open>AppState\<close>: when the process started, the log buffer, the control of the log filter\<close>
  app_started :: nat
  app_logs :: "'w \<Rightarrow> log_buffer"
  app_log_control :: "(string \<Rightarrow> ('w, unit) api) option"
  \<comment> \<open>what libraries print and read\<close>
  show_url :: "url \<Rightarrow> string"
  show_addr :: "socket_addr \<Rightarrow> string"
  show_debug :: "string \<Rightarrow> string"
  parse_http_date :: "string \<Rightarrow> nat option"
  parse_level :: "string \<Rightarrow> level option"
  path_kind_of :: "string \<Rightarrow> 'w \<Rightarrow> path_kind"
  \<comment> \<open>the account's machine\<close>
  sdk_curve25519 :: "string \<Rightarrow> 'w \<Rightarrow> string"
  sdk_cross_signing :: "string \<Rightarrow> 'w \<Rightarrow> cross_signing_status"
  sdk_key_counts :: "string \<Rightarrow> ('w, nat \<times> nat) api"
  sdk_tracked_users :: "string \<Rightarrow> ('w, string list) api"
  sdk_user_devices :: "string \<Rightarrow> string \<Rightarrow> ('w, device list) api"
  sdk_self_signing_key :: "string \<Rightarrow> string \<Rightarrow> ('w, string option) api"
  sdk_inbound_session :: "string \<Rightarrow> string \<Rightarrow> string \<Rightarrow> ('w, inbound_session option) api"
  sdk_export_room_keys :: "string \<Rightarrow> ('w, exported_key list) api"
  sdk_import_exported :: "string \<Rightarrow> exported_key list \<Rightarrow> ('w, nat \<times> nat) api"
  encrypt_key_export :: "exported_key list \<Rightarrow> string \<Rightarrow> nat \<Rightarrow> ('w, string) api"
  decrypt_key_export :: "string \<Rightarrow> string \<Rightarrow> string + exported_key list"

definition pkg_version :: string where
  "pkg_version = ''0.1.0''"

section \<open>Checks\<close>

datatype status = Ok | Warn | Fail

record check =
  ck_id :: string
  ck_status :: status
  ck_detail :: string
  ck_hint :: "string option"

definition check_ok :: "string \<Rightarrow> string \<Rightarrow> check" where
  "check_ok i d = \<lparr>ck_id = i, ck_status = Ok, ck_detail = d, ck_hint = None\<rparr>"

definition check_warn :: "string \<Rightarrow> string \<Rightarrow> string \<Rightarrow> check" where
  "check_warn i d h = \<lparr>ck_id = i, ck_status = Warn, ck_detail = d, ck_hint = Some h\<rparr>"

definition check_fail :: "string \<Rightarrow> string \<Rightarrow> string \<Rightarrow> check" where
  "check_fail i d h = \<lparr>ck_id = i, ck_status = Fail, ck_detail = d, ck_hint = Some h\<rparr>"

lemmas check_makers = check_ok_def check_warn_def check_fail_def

fun status_name :: "status \<Rightarrow> string" where
  "status_name Ok = ''ok''"
| "status_name Warn = ''warn''"
| "status_name Fail = ''fail''"

definition check_json :: "check \<Rightarrow> json" where
  "check_json c = mk_obj ([(''id'', JStr (ck_id c)), (''status'', JStr (status_name (ck_status c))),
     (''detail'', JStr (ck_detail c))] @
     (case ck_hint c of None \<Rightarrow> [] | Some h \<Rightarrow> [(''hint'', JStr h)]))"

section \<open>Times\<close>

text \<open>Nanoseconds; a time that is still to come has age zero.\<close>

definition unix_secs :: "nat \<Rightarrow> nat" where
  "unix_secs t = t div 10 ^ 9"

definition age_secs :: "nat \<Rightarrow> nat option \<Rightarrow> nat option" where
  "age_secs current t = map_option (\<lambda>x. (current - x) div 10 ^ 9) t"

definition client_sync_stale :: nat where
  "client_sync_stale = 120"

definition clock_skew_warn :: nat where
  "clock_skew_warn = 30 * 10 ^ 9"

definition clock_skew_fail :: nat where
  "clock_skew_fail = 300 * 10 ^ 9"

definition clock_check :: "nat \<Rightarrow> nat \<Rightarrow> nat \<Rightarrow> check" where
  "clock_check current server_time round_trip =
     (let skew = (if server_time \<le> current then current - server_time else server_time - current);
          skew = skew - (round_trip + 10 ^ 9);
          hint = ''sync the system clock (on WSL2: `sudo hwclock -s`, or restart WSL)'';
          detail = show_nat (skew div 10 ^ 9) @ '' s off the homeserver's clock''
      in if clock_skew_fail \<le> skew then check_fail ''clock'' detail hint
         else if clock_skew_warn \<le> skew then check_warn ''clock'' detail hint
         else check_ok ''clock'' ''agrees with the homeserver's'')"

section \<open>The proxy's own checks\<close>

definition versions_request :: "('w, 'y) env_scheme \<Rightarrow> http_request" where
  "versions_request E =
     \<lparr>hr_method = ''GET'', hr_url = upstream_url E ''/_matrix/client/versions'', hr_headers = [], hr_body = []\<rparr>"

text \<open>The request has a timeout of ten seconds, whose expiry is an error of \<open>http_send\<close>.\<close>

definition check_homeserver :: "('w, 'y) denv_scheme \<Rightarrow> ('w, 'z, check list) any_eff" where
  "check_homeserver E = look (\<lambda>s.
     let homeserver = show_url E (cfg_homeserver (env_config E)) in
     bindE (attempt (send_http E (versions_request E))) (\<lambda>r. look (\<lambda>t. case r of
         Inl e \<Rightarrow> retE [check_fail ''homeserver'' (homeserver @ '' is unreachable: '' @ e)
           ''check the network and the `homeserver` setting'']
       | Inr resp \<Rightarrow>
           (let elapsed = now E (world t) - now E (world s);
                first = (if is_success (rs_status resp)
                  then check_ok ''homeserver'' (homeserver @ '' answers in '' @ show_nat (elapsed div 10 ^ 6) @ '' ms'')
                  else check_fail ''homeserver'' (homeserver @ '' answered '' @ show_status (env_codec E) (rs_status resp) @
                    '' to /_matrix/client/versions'') ''is `homeserver` the client-server API base URL?'')
            in retE (first #
                 (case Option.bind (Option.bind (header_get ''date'' (rs_headers resp)) header_to_str) (parse_http_date E) of
                    None \<Rightarrow> []
                  | Some server_time \<Rightarrow> [clock_check (now E (world t)) server_time elapsed]))))))"

definition check_store :: "('w, 'y) denv_scheme \<Rightarrow> 'w \<Rightarrow> check" where
  "check_store E w =
     (let dir = cfg_store_dir (env_config E);
          at_rest = (if cfg_store_passphrase (env_config E) \<noteq> None then ''encrypted with the store passphrase''
            else ''not encrypted at rest'')
      in case path_kind_of E dir w of
           IsDirectory \<Rightarrow> check_ok ''store'' (dir @ '' ('' @ at_rest @ '')'')
         | NotFound \<Rightarrow> check_ok ''store'' (dir @ '' (not created yet)'')
         | OtherPath \<Rightarrow> check_fail ''store'' (dir @ '' is not a usable directory'')
             ''check `store_dir` and its permissions'')"

definition check_log :: "('w, 'y) denv_scheme \<Rightarrow> 'w \<Rightarrow> check" where
  "check_log E w =
     (let win = 600 * 10 ^ 9;
          errors = count_since (now E w) ERROR win (app_logs E w);
          warnings = count_since (now E w) WARN win (app_logs E w) - errors
      in if 0 < errors
         then check_warn ''log'' (show_nat errors @ '' error(s) and '' @ show_nat warnings @
           '' warning(s) in the last 10 minutes'') ''see `ement-e2ee ctl debug logs --level warn`''
         else check_ok ''log'' (''no errors in the last 10 minutes ('' @ show_nat warnings @ '' warning(s))''))"

section \<open>The checks of a session\<close>

definition check_token :: "('w, 'y) denv_scheme \<Rightarrow> ('w, check) eff" where
  "check_token E = look (\<lambda>s.
     bindE (attempt (json_request E ''GET'' ''/_matrix/client/v3/account/whoami'' (token (acct s)) None)) (\<lambda>r.
     retE (case r of
         Inr (st, body) \<Rightarrow>
           if is_success st then
             (if idx body ''device_id'' = JStr (device_id (acct s)) then check_ok ''token'' ''access token is valid''
              else check_fail ''token'' (''the token now belongs to device '' @
                json_print (env_codec E) (idx body ''device_id'')) ''restart the proxy and reconnect ement'')
           else check_fail ''token'' (''the homeserver rejects the access token ('' @ show_status (env_codec E) st @
             '' '' @ json_print (env_codec E) (idx body ''errcode'') @ '')'')
             ''log in again from ement (through the proxy)''
       | Inl e \<Rightarrow> check_fail ''token'' (''could not ask the homeserver: '' @ show_chain e) ''check the network'')))"

definition new_device_hint :: "('w, 'y) env_scheme \<Rightarrow> account \<Rightarrow> string" where
  "new_device_hint E a =
     ''sign this session out from another client, delete '' @
     account_store_dir (env_config E) (user_id a) (device_id a) @
     '' and log in again from ement to continue as a new device''"

definition check_device_keys :: "('w, 'y) denv_scheme \<Rightarrow> ('w, check) eff" where
  "check_device_keys E = look (\<lambda>s. let a = acct s in
     bindE (attempt (published_identity E (token a) (user_id a) (device_id a))) (\<lambda>published. look (\<lambda>t.
     let ours = sdk_identity E (olm a) (world t) in
     retE (case published of
         Inr (Some key) \<Rightarrow>
           if key = ours then check_ok ''device_keys'' (''published (ed25519 '' @ ours @ '')'')
           else check_fail ''device_keys''
             ''the homeserver has other keys on record for this device ID than this device holds''
             (''a device's keys cannot be replaced: '' @ new_device_hint E a)
       | Inr None \<Rightarrow> check_fail ''device_keys'' ''this device's keys are not on the homeserver''
           (''they are published when a session starts: reconnect ement (M-x ement-disconnect, '' @
            ''M-x ement-connect); if they stay missing see `ement-e2ee ctl debug logs --level warn`'')
       | Inl e \<Rightarrow> check_warn ''device_keys'' (''could not ask the homeserver: '' @ show_chain e) ''retry later''))))"

definition check_one_time_keys :: "('w, 'y) denv_scheme \<Rightarrow> ('w, check) eff" where
  "check_one_time_keys E = look (\<lambda>s.
     bindE (attempt (json_request E ''POST'' ''/_matrix/client/v3/keys/upload'' (token (acct s)) (Some (JObj [])))) (\<lambda>r.
     retE (case r of
         Inr (st, body) \<Rightarrow>
           if is_success st then
             (let count = (case Option.bind (pointer_str ''/one_time_key_counts/signed_curve25519'' body) as_u64 of
                    None \<Rightarrow> 0 | Some n \<Rightarrow> unat n)
              in if count = 0 then check_warn ''one_time_keys'' ''no one-time keys left on the homeserver''
                   (''others cannot open new sessions with this device until they are '' @
                    ''replenished, which happens on the next sync; if it stays at 0 see the logs'')
                 else check_ok ''one_time_keys'' (show_nat count @ '' on the homeserver''))
           else check_warn ''one_time_keys'' (''keys/upload answered '' @ show_status (env_codec E) st) ''retry later''
       | Inl e \<Rightarrow> check_warn ''one_time_keys'' (''keys/upload failed: '' @ show_chain e) ''retry later'')))"

definition show_bool :: "bool \<Rightarrow> string" where
  "show_bool b = (if b then ''true'' else ''false'')"

definition check_cross_signing :: "('w, 'y) denv_scheme \<Rightarrow> ('w, check) eff" where
  "check_cross_signing E = look (\<lambda>s.
     let st = sdk_cross_signing E (olm (acct s)) (world s) in
     retE (case (has_master st, has_self_signing st, has_user_signing st) of
         (True, True, True) \<Rightarrow> check_ok ''cross_signing'' ''all three private keys are on this device''
       | (False, False, False) \<Rightarrow> check_warn ''cross_signing'' ''this device has no cross-signing keys''
           ''run `ement-e2ee ctl bootstrap` with your recovery key''
       | (m, ss, us) \<Rightarrow> check_warn ''cross_signing''
           (''only some private keys are here (master: '' @ show_bool m @ '', self-signing: '' @ show_bool ss @
            '', user-signing: '' @ show_bool us @ '')'') ''run `ement-e2ee ctl bootstrap` again''))"

definition has_stale_cross_signature :: "('w, 'y) denv_scheme \<Rightarrow> device \<Rightarrow> ('w, bool) eff" where
  "has_stale_cross_signature E d = look (\<lambda>s.
     if dev_cross_signed d then retE False
     else bindE (attempt (call (sdk_self_signing_key E (olm (acct s)) (user_id (acct s))))) (\<lambda>r.
       retE (case r of
           Inr (Some key) \<Rightarrow>
             get (''ed25519:'' @ key) (idx (idx (dev_keys d) ''signatures'') (user_id (acct s))) \<noteq> None
         | _ \<Rightarrow> False)))"

definition check_device_verified :: "('w, 'y) denv_scheme \<Rightarrow> ('w, check) eff" where
  "check_device_verified E = look (\<lambda>s.
     bindE (attempt (call (sdk_device E (olm (acct s)) (user_id (acct s)) (device_id (acct s))))) (\<lambda>r. case r of
         Inr (Some d) \<Rightarrow>
           if dev_cross_signed d then
             retE (check_ok ''device_verified'' ''cross-signed: other clients show it as verified'')
           else bindE (has_stale_cross_signature E d) (\<lambda>stale.
             retE (if stale then check_fail ''device_verified''
                 (''the homeserver holds a cross-signing signature for this device ID that does not '' @
                  ''match the device's keys, and keeps it whatever is signed anew: other clients show '' @
                  ''this device as unverified, and verifying it again changes nothing'')
                 (''this device ID had other keys once: '' @ new_device_hint E (acct s))
               else check_warn ''device_verified''
                 ''not cross-signed: other clients show this device as unverified''
                 ''run `ement-e2ee ctl bootstrap`, or `ement-e2ee ctl verify` against a verified device''))
       | Inr None \<Rightarrow> retE (check_warn ''device_verified'' ''this device is not in its own device list yet''
           ''it appears after the first key query; retry in a moment'')
       | Inl e \<Rightarrow> retE (check_fail ''device_verified'' (''store error: '' @ show_error e) ''see the logs'')))"

text \<open>\<open>get_backup_keys().ok().and_then(|keys| keys.backup_version)\<close>.\<close>

definition local_backup_version :: "('w, 'y) denv_scheme \<Rightarrow> ('w, string option) eff" where
  "local_backup_version E = look (\<lambda>s.
     bindE (attempt (call (sdk_backup_version E (olm (acct s))))) (\<lambda>r.
     retE (case r of Inr v \<Rightarrow> v | Inl _ \<Rightarrow> None)))"

text \<open>What is said of the backup once the version of the account's backup is known.\<close>

definition judge_backup ::
  "('w, 'y) denv_scheme \<Rightarrow> bool \<Rightarrow> string option \<Rightarrow> string option \<Rightarrow> ('w, check) eff" where
  "judge_backup E enabled local_version server_version = look (\<lambda>s.
     case server_version of
       None \<Rightarrow>
         retE (if enabled then check_warn ''backup''
             ''this device has a backup key but the account has no backup any more''
             ''set up key backup again in another client, then `ement-e2ee ctl bootstrap`''
           else check_ok ''backup'' ''the account has no key backup'')
     | Some server \<Rightarrow>
         if \<not> enabled then
           retE (check_warn ''backup'' (''the account has a key backup (version '' @ server @
             '') this device does not use'') ''run `ement-e2ee ctl bootstrap` to restore from it and back up new keys'')
         else if local_version = Some server then
           bindE (attempt (call (sdk_key_counts E (olm (acct s))))) (\<lambda>r.
           retE (check_ok ''backup'' (''version '' @ server @ (case r of
               Inl _ \<Rightarrow> []
             | Inr (all_keys, backed_up) \<Rightarrow> '', '' @ show_nat backed_up @ '' of '' @ show_nat all_keys @ '' room keys uploaded''))))
         else
           retE (check_warn ''backup'' (''this device backs up to version '' @
             (case local_version of None \<Rightarrow> ''?'' | Some v \<Rightarrow> v) @ '', the account is now on version '' @ server)
             ''the backup was reset elsewhere: run `ement-e2ee ctl bootstrap` again''))"

definition check_backup :: "('w, 'y) denv_scheme \<Rightarrow> ('w, check) eff" where
  "check_backup E = look (\<lambda>s.
     let enabled = sdk_backup_enabled E (olm (acct s)) (world s) in
     bindE (local_backup_version E) (\<lambda>local_version.
     bindE (attempt (json_request E ''GET'' ''/_matrix/client/v3/room_keys/version'' (token (acct s)) None)) (\<lambda>r. case r of
         Inr (st, body) \<Rightarrow>
           if is_success st then judge_backup E enabled local_version (as_str (idx body ''version''))
           else if st = 404 then judge_backup E enabled local_version None
           else retE (check_warn ''backup'' (''room_keys/version answered '' @ show_status (env_codec E) st) ''retry later'')
       | Inl e \<Rightarrow> retE (check_warn ''backup'' (''could not ask the homeserver: '' @ show_chain e) ''retry later''))))"

definition check_client_sync :: "nat \<Rightarrow> account \<Rightarrow> check" where
  "check_client_sync current a =
     (let hint = ''keys and verification only move while ement is connected and syncing'' in
      case age_secs current (last_client_sync (ss_stats (sync a))) of
        None \<Rightarrow> check_warn ''client_sync'' ''ement has not synced since the proxy started'' hint
      | Some age \<Rightarrow>
          if age \<le> client_sync_stale then check_ok ''client_sync'' (''ement synced '' @ show_nat age @ '' s ago'')
          else check_warn ''client_sync'' (''ement last synced '' @ show_nat age @ '' s ago'') hint)"

definition check_placeholders :: "account \<Rightarrow> check" where
  "check_placeholders a =
     (let waiting = pending_snapshot (repairs a) in
      if waiting = [] then check_ok ''placeholders'' ''no message is waiting for a key''
      else check_warn ''placeholders'' (show_nat (length waiting) @ '' message(s) in '' @
        show_nat (length (remdups (map pr_room_id waiting))) @ '' room(s) are shown as undecryptable'')
        (''they repair themselves when a key arrives; `ement-e2ee ctl debug room ROOM` lists '' @
         ''them and `ement-e2ee ctl debug event ROOM EVENT` says what each is missing''))"

text \<open>With a dead token nothing below it can be judged.\<close>

definition check_session :: "('w, 'y) denv_scheme \<Rightarrow> ('w, check list) eff" where
  "check_session E =
     bindE (check_token E) (\<lambda>c1.
     if ck_status c1 = Fail then retE [c1]
     else bindE (check_device_keys E) (\<lambda>c2.
       bindE (check_one_time_keys E) (\<lambda>c3.
       bindE (check_cross_signing E) (\<lambda>c4.
       bindE (check_device_verified E) (\<lambda>c5.
       bindE (check_backup E) (\<lambda>c6. look (\<lambda>s.
       retE [c1, c2, c3, c4, c5, c6, check_client_sync (now E (world s)) (acct s), check_placeholders (acct s)])))))))"

section \<open>The whole report\<close>

definition count_status :: "status \<Rightarrow> check list \<Rightarrow> nat" where
  "count_status st cs = length (filter (\<lambda>c. ck_status c = st) cs)"

text \<open>The checks of the proxy; a refused session is a failure of its own.\<close>

definition proxy_checks ::
  "('w, 'y) denv_scheme \<Rightarrow> check list \<Rightarrow> account list \<Rightarrow> device_conflict list \<Rightarrow> 'w \<Rightarrow> check list" where
  "proxy_checks E homeserver accounts conflicts w =
     homeserver @
     (if accounts \<noteq> [] then [check_ok ''sessions'' (show_nat (length accounts) @ '' connected'')]
      else if conflicts = [] then [check_warn ''sessions'' ''no session yet''
        ''connect ement through the proxy (`ement-e2ee setup` prints how)'']
      else []) @
     map (\<lambda>c. check_fail ''refused_session'' (conflict_detail c) (conflict_hint c)) conflicts @
     [check_store E w, check_log E w]"

fun session_checks ::
  "('w, 'y) denv_scheme \<Rightarrow> account list \<Rightarrow> 'w proxy \<Rightarrow> (error + (account \<times> check list) list) \<times> 'w proxy" where
  "session_checks E [] = retE []"
| "session_checks E (a # as) =
     bindE (with_account a (check_session E)) (\<lambda>cs. bindE (session_checks E as) (\<lambda>rest. retE ((a, cs) # rest)))"

definition session_check_json :: "account \<times> check list \<Rightarrow> json" where
  "session_check_json r = mk_obj [(''user_id'', JStr (user_id (fst r))), (''device_id'', JStr (device_id (fst r))),
     (''checks'', JArr (map check_json (snd r)))]"

definition check_report ::
  "('w, 'y) denv_scheme \<Rightarrow> nat \<Rightarrow> check list \<Rightarrow> (account \<times> check list) list \<Rightarrow> json" where
  "check_report E current proxy_list reports =
     (let all = proxy_list @ concat (map snd reports) in
      mk_obj
       [(''version'', JStr pkg_version),
        (''homeserver'', JStr (show_url E (cfg_homeserver (env_config E)))),
        (''listen'', JStr (show_addr E (cfg_listen (env_config E)))),
        (''uptime_secs'', jnat ((current - app_started E) div 10 ^ 9)),
        (''proxy'', JArr (map check_json proxy_list)),
        (''sessions'', JArr (map session_check_json reports)),
        (''summary'', mk_obj [(''ok'', jnat (count_status Ok all)), (''warn'', jnat (count_status Warn all)),
           (''fail'', jnat (count_status Fail all))])])"

definition check_all :: "('w, 'y) denv_scheme \<Rightarrow> 'w proxy \<Rightarrow> (error + json) \<times> 'w proxy" where
  "check_all E =
     bindE (check_homeserver E) (\<lambda>homeserver. look (\<lambda>s.
     let accounts = session_list s;
         proxy_list = proxy_checks E homeserver accounts (refused s) (world s)
     in bindE (session_checks E accounts) (\<lambda>reports. look (\<lambda>t.
        retE (check_report E (now E (world t)) proxy_list reports)))))"

end
