(* ===== verification/Inspect.thy ===== *)
theory Inspect
  imports Diagnose
begin

text \<open>
  The inspectors behind \<open>ctl debug\<close> (the second half of \<open>src/src/admin/diagnose.rs\<close>): one
  session, a user's devices, a room, one event and why it can or cannot be decrypted, the
  tail of the log, and everything in one document.
\<close>

section \<open>A session\<close>

definition ok_of :: "'e + 'a \<Rightarrow> 'a option" where
  "ok_of r = (case r of Inr x \<Rightarrow> Some x | Inl _ \<Rightarrow> None)"

definition cross_signing_json :: "cross_signing_status \<Rightarrow> json" where
  "cross_signing_json st = mk_obj [(''has_master'', JBool (has_master st)),
     (''has_self_signing'', JBool (has_self_signing st)), (''has_user_signing'', JBool (has_user_signing st))]"

definition identity_json :: "('w, 'y) denv_scheme \<Rightarrow> 'w ctx \<Rightarrow> json" where
  "identity_json E s = mk_obj [(''ed25519'', JStr (sdk_identity E (olm (acct s)) (world s))),
     (''curve25519'', JStr (sdk_curve25519 E (olm (acct s)) (world s)))]"

definition ju64 :: "u64 \<Rightarrow> json" where
  "ju64 n = JNum (PosInt n)"

definition session_info :: "('w, 'y) denv_scheme \<Rightarrow> ('w, json) eff" where
  "session_info E = look (\<lambda>s. let a = acct s; stats = ss_stats (sync a) in
     bindE (attempt (call (sdk_key_counts E (olm a)))) (\<lambda>counts.
     bindE (attempt (call (sdk_tracked_users E (olm a)))) (\<lambda>tracked. look (\<lambda>s1.
     bindE (local_backup_version E) (\<lambda>version. look (\<lambda>t.
     retE (mk_obj
       [(''user_id'', JStr (user_id a)),
        (''device_id'', JStr (device_id a)),
        (''identity_keys'', identity_json E s),
        (''store'', JStr (account_store_dir (env_config E) (user_id a) (device_id a))),
        (''cross_signing'', cross_signing_json (sdk_cross_signing E (olm a) (world s))),
        (''backup'', mk_obj
          [(''enabled'', JBool (sdk_backup_enabled E (olm a) (world s1))),
           (''version'', jopt JStr version),
           (''room_keys'', jopt (jnat \<circ> fst) (ok_of counts)),
           (''room_keys_backed_up'', jopt (jnat \<circ> snd) (ok_of counts))]),
        (''client_sync'', mk_obj
          [(''count'', ju64 (client_syncs stats)),
           (''last_secs_ago'', jopt jnat (age_secs (now E (world t)) (last_client_sync stats)))]),
        (''to_device'', mk_obj
          [(''processed'', ju64 (to_device_events stats)),
           (''duplicates_dropped'', ju64 (to_device_duplicates stats)),
           (''room_keys_received'', ju64 (room_keys_received stats))]),
        (''tracked_users'', jopt (jnat \<circ> length) (ok_of tracked)),
        (''pending_placeholders'', jnat (length (pending_snapshot (repairs a)))),
        (''room_keys_requested'', jnat (card (requested_sessions (rooms a)))),
        (''active_verifications'', jnat (length (sdk_requests E (olm a) (user_id a) (world s1))))])))))))"

section \<open>Devices\<close>

definition device_json :: "account \<Rightarrow> string \<Rightarrow> device \<Rightarrow> json" where
  "device_json a user d = mk_obj
     [(''device_id'', JStr (dev_id d)),
      (''display_name'', jopt JStr (dev_display_name d)),
      (''ed25519'', jopt JStr (dev_ed25519 d)),
      (''this_device'', JBool (user = user_id a \<and> dev_id d = device_id a)),
      (''verified'', JBool (dev_verified d)),
      (''cross_signed'', JBool (dev_cross_signed d)),
      (''locally_trusted'', JBool (dev_locally_trusted d)),
      (''blacklisted'', JBool (dev_blacklisted d))]"

text \<open>\<open>sort_by\<close> on an optional string: bytewise, stable, a missing one first.\<close>

definition str_key :: "string \<Rightarrow> json \<Rightarrow> string list" where
  "str_key k j = (case as_str (idx j k) of None \<Rightarrow> [] | Some s \<Rightarrow> [s])"

definition devices_info :: "('w, 'y) denv_scheme \<Rightarrow> string \<Rightarrow> ('w, json) eff" where
  "devices_info E user = look (\<lambda>s.
     bindE (call (sdk_user_devices E (olm (acct s)) user)) (\<lambda>known.
     let devices = sort_key (str_key ''device_id'') (map (device_json (acct s) user) known) in
     bindE (call (sdk_tracked_users E (olm (acct s)))) (\<lambda>tracked.
     retE (mk_obj [(''user_id'', JStr user), (''tracked'', JBool (user \<in> set tracked)), (''devices'', JArr devices)]))))"

section \<open>A room\<close>

fun show_visibility :: "history_visibility \<Rightarrow> string" where
  "show_visibility Invited = ''invited''"
| "show_visibility Joined = ''joined''"
| "show_visibility Shared = ''shared''"
| "show_visibility WorldReadable = ''world_readable''"
| "show_visibility (CustomVisibility s) = s"

fun member_rows :: "('w, 'y) denv_scheme \<Rightarrow> string list \<Rightarrow> ('w, json list) eff" where
  "member_rows E [] = retE []"
| "member_rows E (m # ms) = look (\<lambda>s.
     bindE (call (sdk_user_devices E (olm (acct s)) m)) (\<lambda>ds.
     bindE (member_rows E ms) (\<lambda>rows.
     retE (mk_obj [(''user_id'', JStr m), (''devices'', jnat (length ds)),
       (''verified_devices'', jnat (length (filter dev_verified ds)))] # rows))))"

definition room_encryption_json :: "string \<Rightarrow> room_settings option \<Rightarrow> room_tracker \<Rightarrow> json" where
  "room_encryption_json room settings t =
     (case settings of
        Some st \<Rightarrow> mk_obj
          [(''encrypted'', JBool True), (''algorithm'', JStr (st_algorithm st)),
           (''rotation_period_secs'', jopt (\<lambda>p. jnat (unat p div 1000)) (st_rotation_period_ms st)),
           (''rotation_period_messages'', jopt ju64 (st_rotation_msgs st))]
      | None \<Rightarrow> mk_obj [(''encrypted'', if is_known_unencrypted room t then JBool False else JNull)])"

definition placeholder_json :: "pending_repair \<Rightarrow> json" where
  "placeholder_json p = mk_obj [(''event_id'', JStr (pr_event_id p)), (''session_id'', jopt JStr (pr_session_id p))]"

definition room_members_json :: "('w, 'y) denv_scheme \<Rightarrow> string \<Rightarrow> ('w, json) eff" where
  "room_members_json E room =
     bindE (attempt (joined_members E room)) (\<lambda>r. case r of
         Inl e \<Rightarrow> retE (mk_obj [(''error'', JStr (show_chain e))])
       | Inr ms \<Rightarrow> bindE (member_rows E ms) (\<lambda>rows. retE (JArr (sort_key (str_key ''user_id'') rows))))"

definition room_info :: "('w, 'y) denv_scheme \<Rightarrow> string \<Rightarrow> ('w, json) eff" where
  "room_info E room = look (\<lambda>s.
     bindE (call (sdk_room_settings E (olm (acct s)) room)) (\<lambda>settings.
     let encryption = room_encryption_json room settings (rooms (acct s)) in
     bindE (room_members_json E room) (\<lambda>ms. look (\<lambda>t. let a = acct t in
     retE (mk_obj
       [(''room_id'', JStr room),
        (''joined_per_client_sync'', JBool (last_unread_notifications room (rooms a) \<noteq> None)),
        (''encryption'', encryption),
        (''history_visibility'', jopt (JStr \<circ> show_visibility) (get_history_visibility room (rooms a))),
        (''members'', ms),
        (''pending_placeholders'', JArr (map placeholder_json
           (filter (\<lambda>p. pr_room_id p = room) (pending_snapshot (repairs a)))))])))))"

section \<open>One event\<close>

text \<open>\<open>Some True\<close>: the key is in the account's backup; \<open>None\<close>: there is none, or it cannot be said.\<close>

definition key_in_backup :: "('w, 'y) env_scheme \<Rightarrow> string \<Rightarrow> string \<Rightarrow> ('w, bool option) eff" where
  "key_in_backup E room sid = look (\<lambda>s. let cd = env_codec E in
     bindE (attempt (json_request E ''GET'' ''/_matrix/client/v3/room_keys/version'' (token (acct s)) None)) (\<lambda>r. case r of
         Inl _ \<Rightarrow> retE None
       | Inr (st, backup) \<Rightarrow>
           if \<not> is_success st then retE None
           else (case as_str (idx backup ''version'') of
               None \<Rightarrow> retE None
             | Some version \<Rightarrow>
                 bindE (attempt (json_request E ''GET'' (''/_matrix/client/v3/room_keys/keys/'' @ enc cd room @ ''/'' @
                     enc cd sid @ ''?version='' @ enc cd version) (token (acct s)) None)) (\<lambda>r2. case r2 of
                     Inl _ \<Rightarrow> retE None
                   | Inr (st2, _) \<Rightarrow> retE (if is_success st2 then Some True else if st2 = 404 then Some False else None)))))"

definition str_contains :: "string \<Rightarrow> string \<Rightarrow> bool" where
  "str_contains pat s \<longleftrightarrow> list_ex (prefix pat) (suffixes s)"

definition explain_undecryptable :: "string \<Rightarrow> bool \<Rightarrow> bool option \<Rightarrow> string \<times> string" where
  "explain_undecryptable reason key_held in_backup =
     (if key_held then
        (''this device has the room key, but only from a later point in the session than '' @
         ''this message (or the message is corrupt)'',
         ''import a key export from a device that can read it (`ement-e2ee ctl keys import`)'')
      else if in_backup = Some True then
        (''this device was never given the room key, but the key is in your server-side backup'',
         ''run `ement-e2ee ctl bootstrap`: it restores the backup and repairs the message'')
      else if str_contains ''Malformed'' reason \<or> str_contains ''Deserialization'' reason then
        (''the event is not a well-formed encrypted message'',
         ''nothing can decrypt it; the sender's client produced it this way'')
      else
        (''this device was never given the room key for this message: it was sent before the '' @
         ''device existed, or the sender's client did not share the key with it'',
         ''a key request has gone to your other devices. Otherwise: `ement-e2ee ctl bootstrap` '' @
         ''(restores your backup), `ement-e2ee ctl keys import` (from an export made on a device '' @
         ''that can read it), or ask the sender to send it again''))"

definition jputs :: "(string \<times> json) list \<Rightarrow> json \<Rightarrow> json" where
  "jputs kvs j = fold (\<lambda>(k, v). jput k v) kvs j"

definition room_key_json :: "inbound_session option \<Rightarrow> json" where
  "room_key_json v =
     (case v of
        None \<Rightarrow> mk_obj [(''held'', JBool False)]
      | Some g \<Rightarrow> mk_obj [(''held'', JBool True), (''first_known_index'', jnat (ig_first_known_index g)),
          (''imported'', JBool (ig_imported g)), (''backed_up'', JBool (ig_backed_up g))])"

definition inbound_for :: "('w, 'y) denv_scheme \<Rightarrow> string \<Rightarrow> json \<Rightarrow> ('w, inbound_session option) eff" where
  "inbound_for E room content = look (\<lambda>s.
     case as_str (idx content ''session_id'') of
       None \<Rightarrow> retE None
     | Some sid \<Rightarrow> call (sdk_inbound_session E (olm (acct s)) room sid))"

text \<open>What is added for the outcome of decrypting; \<open>held\<close> is whether the room key is here.\<close>

definition undecryptable_fields ::
  "('w, 'y) denv_scheme \<Rightarrow> string \<Rightarrow> string \<Rightarrow> string option \<Rightarrow> bool \<Rightarrow> ('w, (string \<times> json) list) eff" where
  "undecryptable_fields E room reason sid held = look (\<lambda>s.
     let requested = (case sid of None \<Rightarrow> False | Some i \<Rightarrow> i \<in> requested_sessions (rooms (acct s))) in
     bindE (case sid of None \<Rightarrow> retE None | Some i \<Rightarrow> key_in_backup E room i) (\<lambda>in_backup.
     let (explanation, hint) = explain_undecryptable reason held in_backup in
     retE [(''outcome'', JStr ''undecryptable''), (''reason'', JStr reason), (''key_requested'', JBool requested),
       (''key_in_server_backup'', jopt JBool in_backup), (''explanation'', JStr explanation), (''hint'', JStr hint)]))"

definition outcome_fields ::
  "('w, 'y) denv_scheme \<Rightarrow> string \<Rightarrow> bool \<Rightarrow> decryption \<Rightarrow> ('w, (string \<times> json) list) eff" where
  "outcome_fields E room held d =
     (case d of
        Decrypted plain \<Rightarrow>
          retE [(''outcome'', JStr ''decrypted''), (''decrypted_type'', idx plain ''type''),
            (''encryption_info'', idx (idx (idx plain ''unsigned'') ''ement_e2ee'') ''encryption_info''),
            (''explanation'', JStr ''the event decrypts'')]
      | Undecryptable reason sid _ \<Rightarrow> undecryptable_fields E room reason sid held
      | Untouched \<Rightarrow>
          retE [(''outcome'', JStr ''error''),
            (''explanation'', JStr ''the event is malformed or the store failed; see `ement-e2ee ctl debug logs`'')])"

definition inspect_encrypted :: "('w, 'y) denv_scheme \<Rightarrow> string \<Rightarrow> json \<Rightarrow> json \<Rightarrow> ('w, json) eff" where
  "inspect_encrypted E room raw report =
     (let content = idx raw ''content'' in
      bindE (inbound_for E room content) (\<lambda>group.
      bindE (decrypt E room raw) (\<lambda>d.
      bindE (outcome_fields E room (group \<noteq> None) d) (\<lambda>fs.
      retE (jputs ([(''algorithm'', idx content ''algorithm''), (''session_id'', idx content ''session_id''),
        (''sender_device'', idx content ''device_id''), (''room_key'', room_key_json group)] @ fs) report)))))"

definition event_info :: "('w, 'y) denv_scheme \<Rightarrow> string \<Rightarrow> string \<Rightarrow> ('w, json) eff" where
  "event_info E room event_id = look (\<lambda>s. let cd = env_codec E in
     bindE (json_request E ''GET'' (''/_matrix/client/v3/rooms/'' @ enc cd room @ ''/event/'' @ enc cd event_id)
         (token (acct s)) None) (\<lambda>(st, raw).
     if \<not> is_success st then
       failE (Msg (''the homeserver does not hand out this event ('' @ show_status cd st @ '' '' @
         (case as_str (idx raw ''errcode'') of None \<Rightarrow> [] | Some c \<Rightarrow> c) @ '')''))
     else
       (let report = mk_obj [(''room_id'', JStr room), (''event_id'', JStr event_id),
              (''sender'', idx raw ''sender''), (''type'', idx raw ''type'')]
        in if idx raw ''type'' \<noteq> JStr ''m.room.encrypted'' then
             retE (jputs [(''outcome'', JStr ''not_encrypted''),
               (''explanation'', JStr ''this event was sent in the clear; there is nothing to decrypt'')] report)
           else inspect_encrypted E room raw report)))"

section \<open>The log and the whole report\<close>

fun level_name :: "level \<Rightarrow> string" where
  "level_name ERROR = ''ERROR''"
| "level_name WARN = ''WARN''"
| "level_name INFO = ''INFO''"
| "level_name DEBUG = ''DEBUG''"
| "level_name TRACE = ''TRACE''"

definition log_line_json :: "nat \<Rightarrow> log_line \<Rightarrow> json" where
  "log_line_json current l = mk_obj
     [(''time'', jnat (unix_secs (ll_time l))), (''secs_ago'', jnat ((current - ll_time l) div 10 ^ 9)),
      (''level'', JStr (level_name (ll_level l))), (''target'', JStr (ll_target l)), (''message'', JStr (ll_message l))]"

definition logs_info :: "('w, 'y) denv_scheme \<Rightarrow> level \<Rightarrow> nat \<Rightarrow> 'w \<Rightarrow> json" where
  "logs_info E lvl limit w =
     mk_obj [(''lines'', JArr (map (log_line_json (now E w)) (log_tail lvl limit (app_logs E w))))]"

definition report_placeholder_json :: "pending_repair \<Rightarrow> json" where
  "report_placeholder_json p = mk_obj [(''room_id'', JStr (pr_room_id p)), (''event_id'', JStr (pr_event_id p)),
     (''session_id'', jopt JStr (pr_session_id p))]"

definition report_session :: "('w, 'y) denv_scheme \<Rightarrow> ('w, json) eff" where
  "report_session E = look (\<lambda>s.
     bindE (attempt (devices_info E (user_id (acct s)))) (\<lambda>r. look (\<lambda>t.
     let own_devices = (case r of Inr v \<Rightarrow> v | Inl e \<Rightarrow> mk_obj [(''error'', JStr (show_chain e))]);
         placeholders = map report_placeholder_json (pending_snapshot (repairs (acct t)))
     in bindE (session_info E) (\<lambda>info.
        retE (mk_obj [(''session'', info), (''devices'', own_devices), (''pending_placeholders'', JArr placeholders)])))))"

fun report_sessions :: "('w, 'y) denv_scheme \<Rightarrow> account list \<Rightarrow> 'w proxy \<Rightarrow> (error + json list) \<times> 'w proxy" where
  "report_sessions E [] = retE []"
| "report_sessions E (a # as) =
     bindE (with_account a (report_session E)) (\<lambda>r. bindE (report_sessions E as) (\<lambda>rs. retE (r # rs)))"

definition report_all :: "('w, 'y) denv_scheme \<Rightarrow> 'w proxy \<Rightarrow> (error + json) \<times> 'w proxy" where
  "report_all E = look (\<lambda>s.
     bindE (report_sessions E (session_list s)) (\<lambda>rs. look (\<lambda>t.
     bindE (check_all E) (\<lambda>c. look (\<lambda>u.
     retE (mk_obj [(''generated_at'', jnat (unix_secs (now E (world t)))), (''check'', c), (''sessions'', JArr rs),
       (''logs'', logs_info E INFO 200 (world u))]))))))"

definition parse_user :: "('w, 'y) denv_scheme \<Rightarrow> string \<Rightarrow> error + string" where
  "parse_user E user =
     (if is_user_id (env_codec E) user then Inr user else Inl (Msg (show_debug E user @ '' is not a Matrix user ID'')))"

end
