(* ===== verification/Admin.thy ===== *)
theory Admin
  imports Inspect
begin

text \<open>
  The admin API under \<open>/_ement\<close> (\<open>src/src/admin/mod.rs\<close>): the token that guards it, the choice of
  the session a command is for, and every route, down to the operations of the other
  theories. An answer is JSON; what a command cannot do is an error status with its reason.
\<close>

type_synonym ('w, 'a) admin_eff = "'w proxy \<Rightarrow> ((proxy_error + 'a) \<times> 'w proxy) option"

section \<open>Answers and parameters\<close>

definition json_response :: "codec \<Rightarrow> json \<Rightarrow> response" where
  "json_response cd v = raw_response 200 (Some ''application/json'') (json_print cd v)"

definition json_error :: "codec \<Rightarrow> nat \<Rightarrow> string \<Rightarrow> response" where
  "json_error cd st msg = raw_response st (Some ''application/json'') (json_print cd (mk_obj [(''error'', JStr msg)]))"

text \<open>A query's parameters, as they stand: the last of a repeated key counts.\<close>

definition parse_query :: "string option \<Rightarrow> (string \<times> string) list" where
  "parse_query query =
     fold (\<lambda>(k, v). AList.update k v)
       (List.map_filter (split_once (CHR ''='')) (split_on (CHR ''&'') (case query of None \<Rightarrow> [] | Some q \<Rightarrow> q))) []"

definition json_params :: "json \<Rightarrow> (string \<times> string) list" where
  "json_params body =
     (case as_object body of
        None \<Rightarrow> []
      | Some m \<Rightarrow> List.map_filter (\<lambda>(k, v). map_option (Pair k) (as_str v)) m)"

definition decode_segment :: "codec \<Rightarrow> string \<Rightarrow> string" where
  "decode_segment cd s = utf8_lossy cd (pct_decode cd s)"

definition max_admin_bytes :: nat where
  "max_admin_bytes = 1024 * 1024"

definition read_json_body :: "('w, 'y) env_scheme \<Rightarrow> client_request \<Rightarrow> proxy_error + json" where
  "read_json_body E req =
     (case to_bytes (rq_body req) max_admin_bytes of
        None \<Rightarrow> Inl (BadRequest ''failed to read body: length limit exceeded'')
      | Some bytes \<Rightarrow>
          if bytes = [] then Inr JNull
          else (case json_parse (env_codec E) bytes of
              None \<Rightarrow> Inl (BadRequest ''body is not JSON: invalid JSON'')
            | Some v \<Rightarrow> Inr v))"

section \<open>The session of a command\<close>

definition resolve_session :: "codec \<Rightarrow> string option \<Rightarrow> 'w proxy \<Rightarrow> response + account" where
  "resolve_session cd user s =
     (case user of
        Some u \<Rightarrow> (case List.find (\<lambda>a. user_id a = u) (session_list s) of
            Some a \<Rightarrow> Inr a
          | None \<Rightarrow> Inl (json_error cd 404 (''no active session for '' @ u)))
      | None \<Rightarrow> (case session_list s of
            [] \<Rightarrow> Inl (json_error cd 409 (case refused s of
                c # _ \<Rightarrow> ''no active sessions: '' @ show_conflict c
              | [] \<Rightarrow> ''no active sessions '' @ em_dash @ '' connect ement through the proxy first''))
          | [a] \<Rightarrow> Inr a
          | as \<Rightarrow> Inl (json_error cd 409 (''multiple sessions active, pass user_id: '' @
              join_with '', '' (map user_id as)))))"

definition verify_target :: "codec \<Rightarrow> (string \<times> string) list \<Rightarrow> 'w proxy \<Rightarrow> response + account \<times> string" where
  "verify_target cd params s =
     (case resolve_session cd (map_of params ''user_id'') s of
        Inl r \<Rightarrow> Inl r
      | Inr a \<Rightarrow> (case map_of params ''with_user'' of
            None \<Rightarrow> Inr (a, user_id a)
          | Some u \<Rightarrow>
              if is_user_id cd u then Inr (a, u)
              else Inl (json_error cd 400 (''invalid with_user: '' @ u))))"

text \<open>Running an operation on a session, and making its outcome the answer.\<close>

definition verify_result :: "codec \<Rightarrow> error + json \<Rightarrow> proxy_error + response" where
  "verify_result cd r =
     (case r of Inr v \<Rightarrow> Inr (json_response cd v) | Inl e \<Rightarrow> Inr (json_error cd 409 (show_chain e)))"

definition on_session ::
  "account \<Rightarrow> ('w ctx \<Rightarrow> ('r \<times> 'w ctx) option) \<Rightarrow> ('r \<Rightarrow> proxy_error + response) \<Rightarrow> ('w, response) admin_eff" where
  "on_session a m k s = map_option (\<lambda>(r, t). (k r, t)) (with_accountP a m s)"

definition answers :: "response \<Rightarrow> ('w, response) admin_eff" where
  "answers r = liftP (retE r)"

text \<open>Where a step has an answer of its own, that is the answer; else the command goes on.\<close>

definition or_answer :: "response + 'a \<Rightarrow> ('a \<Rightarrow> ('w, response) admin_eff) \<Rightarrow> ('w, response) admin_eff" where
  "or_answer v f = (case v of Inl r \<Rightarrow> answers r | Inr x \<Rightarrow> f x)"

definition with_body ::
  "('w, 'y) env_scheme \<Rightarrow> client_request \<Rightarrow> (json \<Rightarrow> ('w, response) admin_eff) \<Rightarrow> ('w, response) admin_eff" where
  "with_body E req f = (case read_json_body E req of Inl e \<Rightarrow> liftP (failE e) | Inr v \<Rightarrow> f v)"

section \<open>Status, keys, bootstrap\<close>

definition session_status :: "('w, 'y) denv_scheme \<Rightarrow> ('w, json) eff" where
  "session_status E = look (\<lambda>s. let a = acct s in
     bindE (local_backup_version E) (\<lambda>version. look (\<lambda>t.
     retE (mk_obj
       [(''user_id'', JStr (user_id a)),
        (''device_id'', JStr (device_id a)),
        (''identity_keys'', identity_json E t),
        (''cross_signing'', cross_signing_json (sdk_cross_signing E (olm a) (world s))),
        (''backup'', mk_obj [(''enabled'', JBool (sdk_backup_enabled E (olm a) (world t))),
           (''version'', jopt JStr version)])]))))"

fun session_statuses :: "('w, 'y) denv_scheme \<Rightarrow> account list \<Rightarrow> 'w proxy \<Rightarrow> (error + json list) \<times> 'w proxy" where
  "session_statuses E [] = retE []"
| "session_statuses E (a # as) =
     bindE (with_account a (session_status E)) (\<lambda>r. bindE (session_statuses E as) (\<lambda>rs. retE (r # rs)))"

definition admin_status :: "('w, 'y) denv_scheme \<Rightarrow> ('w, response) admin_eff" where
  "admin_status E = liftP (look (\<lambda>s.
     bindE (internal (session_statuses E (session_list s))) (\<lambda>rs.
     retE (json_response (env_codec E) (mk_obj
       [(''version'', JStr pkg_version), (''homeserver'', JStr (show_url E (cfg_homeserver (env_config E)))),
        (''sessions'', JArr rs)])))))"

definition export_keys :: "('w, 'y) denv_scheme \<Rightarrow> string \<Rightarrow> ('w, json) eff" where
  "export_keys E passphrase = look (\<lambda>s.
     bindE (call (sdk_export_room_keys E (olm (acct s)))) (\<lambda>ks.
     bindE (call (encrypt_key_export E ks passphrase 100000)) (\<lambda>export.
     retE (mk_obj [(''count'', jnat (length ks)), (''export'', JStr export)]))))"

definition to_internal :: "codec \<Rightarrow> error + json \<Rightarrow> proxy_error + response" where
  "to_internal cd r = (case r of Inr v \<Rightarrow> Inr (json_response cd v) | Inl e \<Rightarrow> Inl (Internal e))"

definition keys_export :: "('w, 'y) denv_scheme \<Rightarrow> json \<Rightarrow> ('w, response) admin_eff" where
  "keys_export E body = (let cd = env_codec E in
     case get_str ''passphrase'' body of
       None \<Rightarrow> answers (json_error cd 400 ''missing passphrase'')
     | Some passphrase \<Rightarrow> look (\<lambda>s.
         or_answer (resolve_session cd (get_str ''user_id'' body) s) (\<lambda>a.
         on_session a (liftP (export_keys E passphrase)) (to_internal cd))))"

definition import_keys :: "('w, 'y) denv_scheme \<Rightarrow> exported_key list \<Rightarrow> ('w, json) eff" where
  "import_keys E ks = look (\<lambda>s.
     bindE (call (sdk_import_exported E (olm (acct s)) ks)) (\<lambda>(imported, total_count).
     bindE (writes (on_repairs note_bulk_import)) (\<lambda>_.
     retE (mk_obj [(''imported'', jnat imported), (''total'', jnat total_count)]))))"

definition keys_import :: "('w, 'y) denv_scheme \<Rightarrow> json \<Rightarrow> ('w, response) admin_eff" where
  "keys_import E body = (let cd = env_codec E in
     case (get_str ''passphrase'' body, get_str ''data'' body) of
       (Some passphrase, Some data) \<Rightarrow> look (\<lambda>s.
         or_answer (resolve_session cd (get_str ''user_id'' body) s) (\<lambda>a.
         case decrypt_key_export E data passphrase of
           Inl e \<Rightarrow> answers (json_error cd 400 (''could not decrypt export: '' @ e))
         | Inr ks \<Rightarrow> on_session a (liftP (import_keys E ks)) (to_internal cd)))
     | _ \<Rightarrow> answers (json_error cd 400 ''missing passphrase or data''))"

definition backup_report_json :: "backup_restore_report \<Rightarrow> json" where
  "backup_report_json r = mk_obj
     [(''backup_version'', jopt JStr (br_version r)), (''enabled'', JBool (br_enabled r)),
      (''total_keys_in_backup'', jnat (br_total r)), (''imported_keys'', jnat (br_imported r))]"

definition bootstrap_report_json :: "bootstrap_report \<Rightarrow> json" where
  "bootstrap_report_json r = mk_obj
     [(''imported_master_key'', JBool (bo_master r)), (''imported_self_signing_key'', JBool (bo_self_signing r)),
      (''imported_user_signing_key'', JBool (bo_user_signing r)), (''own_device_signed'', JBool (bo_own_device_signed r)),
      (''backup'', backup_report_json (bo_backup r))]"

text \<open>Placeholders the client shows may be repaired with keys the backup brought.\<close>

definition admin_bootstrap :: "('w, 'y) denv_scheme \<Rightarrow> json \<Rightarrow> ('w, response) admin_eff" where
  "admin_bootstrap E body = (let cd = env_codec E in
     case get_str ''recovery_key'' body of
       None \<Rightarrow> liftP (failE (BadRequest ''missing recovery_key''))
     | Some recovery_key \<Rightarrow> look (\<lambda>s.
         or_answer (resolve_session cd (get_str ''user_id'' body) s) (\<lambda>a.
         on_session a
           (bindP (bootstrap E recovery_key) (\<lambda>report.
            bindP (liftP (writes (on_repairs note_bulk_import))) (\<lambda>_.
            liftP (retE report))))
           (\<lambda>r. case r of
               Inr report \<Rightarrow> Inr (json_response cd (bootstrap_report_json report))
             | Inl e \<Rightarrow> Inr (json_error cd 500 (show_chain e))))))"

section \<open>Verification routes\<close>

definition verify_action ::
  "('w, 'y) venv_scheme \<Rightarrow> json \<Rightarrow> string \<Rightarrow> string \<Rightarrow> string \<Rightarrow> ('w, json) effP option" where
  "verify_action E body with_user flow action =
     (if action = ''advance'' then
        Some (verify_advance E with_user flow (Option.bind (get ''start_sas'' body) as_bool = Some True))
      else if action = ''mismatch'' then Some (verify_mismatch E with_user flow)
      else if action = ''accept'' then Some (verify_accept E with_user flow)
      else if action = ''start-sas'' then Some (verify_start_sas E with_user flow)
      else if action = ''sas-accept'' then Some (sas_accept E with_user flow)
      else if action = ''confirm'' then Some (verify_confirm E with_user flow)
      else if action = ''cancel'' then Some (verify_cancel E with_user flow)
      else None)"

definition admin_verify_start :: "('w, 'y) venv_scheme \<Rightarrow> json \<Rightarrow> ('w, response) admin_eff" where
  "admin_verify_start E body = (let cd = env_codec E; params = json_params body in look (\<lambda>s.
     or_answer (verify_target cd params s) (\<lambda>(a, _).
     case map_of params ''device_id'' of
       None \<Rightarrow> answers (json_error cd 400 ''missing device_id'')
     | Some dev \<Rightarrow> on_session a (verify_start E dev) (verify_result cd))))"

definition admin_verify_action ::
  "('w, 'y) venv_scheme \<Rightarrow> string \<Rightarrow> string \<Rightarrow> json \<Rightarrow> ('w, response) admin_eff" where
  "admin_verify_action E flow action body = (let cd = env_codec E in look (\<lambda>s.
     or_answer (verify_target cd (json_params body) s) (\<lambda>(a, with_user).
     case verify_action E body with_user flow action of
       None \<Rightarrow> answers (json_error cd 404 (''unknown verify action: '' @ action))
     | Some m \<Rightarrow> on_session a m (verify_result cd))))"

section \<open>Debug routes\<close>

definition debug_devices :: "('w, 'y) denv_scheme \<Rightarrow> (string \<times> string) list \<Rightarrow> account \<Rightarrow> ('w, response) admin_eff" where
  "debug_devices E query a = (let cd = env_codec E in
     case (case map_of query ''user'' of
         None \<Rightarrow> Inr (user_id a)
       | Some u \<Rightarrow> parse_user E (decode_segment cd u)) of
       Inl e \<Rightarrow> answers (json_error cd 400 (show_error e))
     | Inr user \<Rightarrow> on_session a (liftP (devices_info E user)) (verify_result cd))"

definition debug_logs :: "('w, 'y) denv_scheme \<Rightarrow> (string \<times> string) list \<Rightarrow> ('w, response) admin_eff" where
  "debug_logs E query = (let cd = env_codec E;
       level = (case map_of query ''level'' of None \<Rightarrow> ''info'' | Some l \<Rightarrow> l) in
     case parse_level E level of
       None \<Rightarrow> answers (json_error cd 400 (show_debug E level @ '' is not a log level (error, warn, info)''))
     | Some lvl \<Rightarrow>
         (let limit = (case Option.bind (map_of query ''limit'') parse_usize of None \<Rightarrow> 50 | Some n \<Rightarrow> n)
          in look (\<lambda>s. answers (json_response cd (logs_info E lvl limit (world s))))))"

definition debug_log_level :: "('w, 'y) denv_scheme \<Rightarrow> json \<Rightarrow> ('w, response) admin_eff" where
  "debug_log_level E body = (let cd = env_codec E in
     case get_str ''filter'' body of
       None \<Rightarrow> answers (json_error cd 400 ''missing filter'')
     | Some flt \<Rightarrow> (case app_log_control E of
           None \<Rightarrow> answers (json_error cd 409 ''this proxy does not control its own logging'')
         | Some control \<Rightarrow> liftP (bindE (attempt (call (control flt))) (\<lambda>r.
             retE (case r of
                 Inr _ \<Rightarrow> json_response cd (mk_obj [(''filter'', JStr flt)])
               | Inl e \<Rightarrow> json_error cd 400 (show_chain e))))))"

definition debug_room ::
  "('w, 'y) denv_scheme \<Rightarrow> string option \<Rightarrow> string \<Rightarrow> (string \<Rightarrow> ('w, json) eff) \<Rightarrow> ('w, response) admin_eff" where
  "debug_room E user room f = (let cd = env_codec E in
     if \<not> is_room_id cd room then answers (json_error cd 400 (show_debug E room @ '' is not a room ID''))
     else look (\<lambda>s. or_answer (resolve_session cd user s) (\<lambda>a.
       on_session a (liftP (f room)) (verify_result cd))))"

definition admin_debug ::
  "('w, 'y) denv_scheme \<Rightarrow> string \<Rightarrow> string list \<Rightarrow> (string \<times> string) list \<Rightarrow> json \<Rightarrow> ('w, response) admin_eff" where
  "admin_debug E meth path query body =
     (let cd = env_codec E; user = map_option (decode_segment cd) (map_of query ''user_id'') in
      if meth = ''GET'' \<and> path = [''check''] then
        liftP (bindE (internal (check_all E)) (\<lambda>v. retE (json_response cd v)))
      else if meth = ''GET'' \<and> path = [''report''] then
        liftP (bindE (internal (report_all E)) (\<lambda>v. retE (json_response cd v)))
      else if meth = ''GET'' \<and> path = [''session''] then look (\<lambda>s.
        or_answer (resolve_session cd user s) (\<lambda>a. on_session a (liftP (session_info E)) (to_internal cd)))
      else if meth = ''GET'' \<and> path = [''devices''] then look (\<lambda>s.
        or_answer (resolve_session cd user s) (debug_devices E query))
      else if meth = ''GET'' \<and> path = [''logs''] then debug_logs E query
      else if meth = ''POST'' \<and> path = [''log-level''] then debug_log_level E body
      else (case path of
          [kind, room] \<Rightarrow>
            if meth = ''GET'' \<and> kind = ''room'' then debug_room E user room (room_info E)
            else answers (json_error cd 404 (''unknown debug route: '' @ meth @ '' '' @ join_with ''/'' path))
        | [kind, room, event_id] \<Rightarrow>
            if meth = ''GET'' \<and> kind = ''event'' then debug_room E user room (\<lambda>r. event_info E r event_id)
            else answers (json_error cd 404 (''unknown debug route: '' @ meth @ '' '' @ join_with ''/'' path))
        | _ \<Rightarrow> answers (json_error cd 404 (''unknown debug route: '' @ meth @ '' '' @ join_with ''/'' path))))"

section \<open>The routes\<close>

definition admin_authorized :: "('w, 'y) env_scheme \<Rightarrow> client_request \<Rightarrow> bool" where
  "admin_authorized E req =
     (case cfg_admin_token (env_config E) of
        None \<Rightarrow> True
      | Some expected \<Rightarrow>
          Option.bind (Option.bind (header_get ''authorization'' (rq_headers req)) header_to_str)
            (strip_prefix ''Bearer '') = Some expected)"

definition admin_route ::
  "('w, 'y) denv_scheme \<Rightarrow> string \<Rightarrow> string list \<Rightarrow> client_request \<Rightarrow> ('w, response) admin_eff" where
  "admin_route E sub parts req =
     (let cd = env_codec E; meth = rq_method req; query = parse_query (rq_query req);
          unknown = answers (json_error cd 404 (''unknown admin route: '' @ meth @ '' '' @ sub))
      in if meth = ''GET'' \<and> parts = [''status''] then admin_status E
         else if meth = ''POST'' \<and> parts = [''bootstrap''] then with_body E req (admin_bootstrap E)
         else if meth = ''POST'' \<and> parts = [''keys'', ''export''] then with_body E req (keys_export E)
         else if meth = ''POST'' \<and> parts = [''keys'', ''import''] then with_body E req (keys_import E)
         else if meth = ''GET'' \<and> parts = [''verify''] then look (\<lambda>s.
           or_answer (verify_target cd query s) (\<lambda>(a, with_user).
             on_session a (liftP (verify_list E with_user)) (to_internal cd)))
         else if meth = ''POST'' \<and> parts = [''verify'', ''start''] then with_body E req (admin_verify_start E)
         else if parts \<noteq> [] \<and> hd parts = ''debug'' then
           (if meth = ''POST'' then with_body E req (admin_debug E meth (map (decode_segment cd) (tl parts)) query)
            else admin_debug E meth (map (decode_segment cd) (tl parts)) query JNull)
         else (case parts of
             [v, flow] \<Rightarrow>
               if meth = ''GET'' \<and> v = ''verify'' then look (\<lambda>s.
                 or_answer (verify_target cd query s) (\<lambda>(a, with_user).
                   on_session a (liftP (verify_show E with_user flow)) (verify_result cd)))
               else unknown
           | [v, flow, action] \<Rightarrow>
               if meth = ''POST'' \<and> v = ''verify'' then with_body E req (admin_verify_action E flow action)
               else unknown
           | _ \<Rightarrow> unknown))"

definition admin_handle :: "('w, 'y) denv_scheme \<Rightarrow> string \<Rightarrow> client_request \<Rightarrow> ('w, response) admin_eff" where
  "admin_handle E sub req =
     (if \<not> admin_authorized E req then answers (json_error (env_codec E) 401 ''missing or invalid admin token'')
      else admin_route E sub (filter (\<lambda>p. p \<noteq> []) (split_on (CHR ''/'') sub)) req)"

end
