(* ===== verification/Homeward.thy ===== *)
theory Homeward
  imports Admin
begin

text \<open>
  Where the proxy's requests go. \<open>at_home\<close> is a request to the configured homeserver; every
  operation of every component sends such requests only. The lemmas follow the components and
  say this of each operation by the sequencing rules of \<open>stepwise\<close>.
\<close>

definition at_home :: "('w, 'y) env_scheme \<Rightarrow> http_request \<Rightarrow> bool" where
  "at_home E rq \<longleftrightarrow> url_origin (hr_url rq) = url_origin (cfg_homeserver (env_config E))"

abbreviation home :: "('w, 'y) env_scheme \<Rightarrow> ('w, 'z) proxy_scheme \<Rightarrow> ('w, 'z) proxy_scheme \<Rightarrow> bool" where
  "home E \<equiv> sends_only (at_home E)"

lemma at_home_simps [simp]:
  "at_home E (json_http E m p tok b)" "at_home E (get_with_token E tok p)" "at_home E (upload_request E tok bytes)"
  "at_home E (login_http E p bytes)" "at_home E (versions_request E)"
  by (simp_all add: at_home_def json_http_def get_with_token_def upload_request_def login_http_def versions_request_def)

section \<open>Basic steps\<close>

lemma home_send: "at_home E rq \<Longrightarrow> does (home E) (send_http E rq)"
  by (rule doesI) (auto simp: sends_only_def dest!: send_http_trace)

lemma home_json: "does (home E) (json_request E m p tok b)"
  by (rule sends_json_request) simp

lemma home_quiet: "(\<And>s. trace (f s) = trace s) \<Longrightarrow> does (home E) (writes f)"
  by (rule doesI) (simp add: writes_def sends_only_def)

lemma home_on [simp]:
  "trace (on_rooms f1 s) = trace s" "trace (on_repairs f2 s) = trace s" "trace (on_sync f3 s) = trace s"
  "trace (on_log f4 s) = trace s"
  by (simp_all add: on_rooms_def on_repairs_def on_sync_def on_log_def)

lemma home_spawn: "does (home E) (spawn x)"
  unfolding spawn_def by (rule home_quiet) simp

lemma home_sdk_step: "does (home E) (sdk_step f)"
  by (rule doesI) (auto simp: sdk_step_def sends_only_def split: prod.splits)

lemma home_of_own: "(\<And>tok. does (own_step E tok) m) \<Longrightarrow> does (home E) m"
proof (rule doesI)
  fix s r t
  assume "\<And>tok. does (own_step E tok) m" "m s = (r, t)"
  then have "own_step E (token (acct s)) s t" by (blast dest: doesD)
  then have "sends_only (own_request E (token (acct s))) s t" by (simp add: own_step_def)
  then show "sends_only (at_home E) s t"
    by (auto simp: sends_only_def own_request_def at_home_def list_all_iff)
qed

lemma homeP_of_own: "(\<And>tok. doesP (own_step E tok) m) \<Longrightarrow> doesP (home E) m"
proof (rule doesPI)
  fix s r t
  assume "\<And>tok. doesP (own_step E tok) m" "m s = Some (r, t)"
  then have "own_step E (token (acct s)) s t" by (blast dest: doesPD)
  then have "sends_only (own_request E (token (acct s))) s t" by (simp add: own_step_def)
  then show "sends_only (at_home E) s t"
    by (auto simp: sends_only_def own_request_def at_home_def list_all_iff)
qed

lemmas home_intros = sends.does_intros sends_call sends_attempt home_json home_send home_spawn home_sdk_step sends_reads
lemmas homeP_intros = sends.doesP_intros

lemma home_each: "(\<And>x. does (home E) (f x)) \<Longrightarrow> does (home E) (each f xs)"
  by (induction xs) (auto intro: home_intros)

lemma home_eachP: "(\<And>x. doesP (home E) (f x)) \<Longrightarrow> doesP (home E) (eachP f xs)"
  by (induction xs) (auto intro: homeP_intros home_intros)

text \<open>Every body the proxy rewrites is rewritten without a request.\<close>

interpretation home_delivery: delivery "sends_only P :: 'w ctx \<Rightarrow> 'w ctx \<Rightarrow> bool" for P
  by unfold_locales (auto simp: sends_only_def)

section \<open>One account\<close>

lemmas home_pump = homeP_of_own [OF own_pump]
lemmas home_send_to_device = home_of_own [OF own_send_to_device]
lemmas home_mark_sent = home_of_own [OF own_mark_sent]
lemmas home_encrypt_content = homeP_of_own [OF own_encrypt_content]
lemmas home_room_message = homeP_of_own [OF own_send_room_message_request]

lemma home_internal: "does (home E) m \<Longrightarrow> does (home E) (internal m)"
  unfolding internal_def by (rule home_intros)

lemma home_passthrough: "does (home E) (passthrough E req)"
  unfolding passthrough_def Let_def by (intro home_intros) (simp add: at_home_def)

lemma home_handle_send: "doesP (home E) (handle_send E req room ty txn)"
  unfolding handle_send_def wire_content_def forward_send_def
  by (intro homeP_intros home_intros home_passthrough home_encrypt_content
      home_of_own [OF own_is_room_encrypted] home_of_own [OF own_reupload])

lemma home_handle_upload: "does (home E) (handle_upload E req)"
  unfolding handle_upload_def Let_def
  by (intro home_intros home_internal silent_upload_answer) simp

lemma home_handle_download: "does (home E) (handle_download E server media_id)"
  unfolding handle_download_def Let_def by (intro home_intros) simp

lemma home_handle_history: "does (home E) (handle_history_get E req route)"
proof -
  have "does (home E) (process_history E route body)" for body
    unfolding process_history_def
    by (cases route)
      (simp_all add: home_intros home_delivery.does_process_messages home_delivery.does_process_context
        home_delivery.does_process_event home_delivery.does_process_notifications)
  then show ?thesis
    unfolding handle_history_get_def forward_get_json_def Let_def
    by (intro home_intros home_internal) simp_all
qed

lemma home_admit: "does (home E) (admit_events E evs ks acc n)"
  by (induction evs arbitrary: ks acc n) (auto simp: Let_def intro!: home_intros home_quiet)

lemma home_record_finished: "does (home E) (record_finished E)"
  unfolding record_finished_def note_finished_def Let_def
  by (intro home_intros home_each home_quiet) simp

lemma home_process_sync_changes: "does (home E) (process_sync_changes E body evs)"
  unfolding process_sync_changes_def parse_field_def Let_def
  by (intro home_intros home_record_finished home_quiet) (auto split: option.split intro!: home_intros)

lemma home_receive_sync: "does (home E) (receive_sync_changes E body)"
  unfolding receive_sync_changes_def
  by (intro home_intros home_admit home_process_sync_changes home_quiet) simp_all

lemma home_sync_answer: "doesP (home E) (sync_answer E resp)"
  unfolding sync_answer_def evict_session_def Let_def
  by (intro homeP_intros home_intros home_internal home_receive_sync home_delivery.does_process_sync home_quiet) simp

lemma home_repair_only: "doesP (home E) (repair_only_response E since)"
  unfolding repair_only_response_def
  by (intro homeP_intros home_intros home_delivery.does_inject)

lemma home_handle_sync: "doesP (home E) (handle_sync E wake req)"
  unfolding handle_sync_def Let_def
  by (intro homeP_intros home_intros home_sync_answer home_repair_only home_quiet) simp_all

section \<open>Verifications\<close>

lemma home_send_verification: "doesP (home E) (send_verification_request E r)"
  by (cases r) (simp_all add: homeP_intros home_send_to_device home_room_message)

lemma home_send_if_any: "doesP (home E) (send_if_any E v)"
  unfolding send_if_any_def by (intro homeP_intros home_intros home_send_verification)

lemma home_summary_of: "does (home E) (summary_of E r)"
  unfolding summary_of_def by (intro home_intros)

lemma home_settle: "does (home E) (settle E user summary)"
proof -
  have "does (home E) (settle_rounds E user dev n)" for dev n
    by (induction n) (auto intro!: home_intros)
  then show ?thesis unfolding settle_def by (intro home_intros)
qed

lemma home_verify_show: "does (home E) (verify_show E user flow)"
  unfolding verify_show_def
  by (intro home_intros home_quiet home_record_finished home_summary_of home_settle) simp

lemma home_get: "does (home E) (get_request E user flow)" "does (home E) (get_sas E user flow)"
proof -
  show "does (home E) (get_request E user flow)" unfolding get_request_def by (intro home_intros)
  show "does (home E) (get_sas E user flow)"
    unfolding get_sas_def by (intro sends.does_look) (auto split: option.split verification.split intro!: home_intros)
qed

lemma home_upload_signatures: "does (home E) (upload_signatures E msg ks)"
  unfolding upload_signatures_def by (intro home_intros)

lemmas home_verify = homeP_intros home_intros home_quiet home_get home_record_finished home_summary_of
  home_send_verification home_send_if_any home_verify_show home_pump home_upload_signatures home_eachP

lemma home_verify_list: "does (home E) (verify_list E user)"
  unfolding verify_list_def by (intro home_verify) simp

lemma home_verify_start: "doesP (home E) (verify_start E dev)"
  unfolding verify_start_def by (intro home_verify)

lemma home_advance_step: "doesP (home E) (advance_step E request start)"
  unfolding advance_step_def Let_def by (intro home_verify)

lemma home_verify_advance: "doesP (home E) (verify_advance E user flow start)"
  unfolding verify_advance_def by (intro home_verify home_advance_step) simp

lemma home_verify_action:
  assumes "verify_action E body user flow action = Some m"
  shows "doesP (home E) m"
proof -
  have "doesP (home E) (verify_accept E user flow)" "doesP (home E) (verify_start_sas E user flow)"
    "doesP (home E) (sas_accept E user flow)" "doesP (home E) (verify_confirm E user flow)"
    "doesP (home E) (verify_mismatch E user flow)" "doesP (home E) (verify_cancel E user flow)"
    unfolding verify_accept_def verify_start_sas_def sas_accept_def verify_confirm_def verify_mismatch_def
      verify_cancel_def
    by (intro home_verify)+
  then show ?thesis
    using assms by (auto simp: verify_action_def home_verify_advance split: if_splits)
qed

section \<open>Sessions, logins and secrets\<close>

lemma home_refuse: "does (home E) (refuse c)"
  unfolding refuse_def by (intro home_intros home_quiet) simp

lemma home_session_insert: "does (home E) (session_insert E tok user dev)"
  unfolding session_insert_def insert_locked_def published_identity_def open_machine_def check_new_device_def
    check_store_keys_def Let_def
  by (intro home_intros home_quiet home_refuse) simp_all

lemma home_get_or_init: "does (home E) (get_or_init E tok)"
  unfolding get_or_init_def by (intro home_intros home_session_insert)

lemma home_handle_login: "does (home E) (handle_login E req)"
  unfolding handle_login_def login_session_def insert_from_login_def note_device_def record_login_def Let_def
  by (intro home_intros home_internal home_session_insert) simp

lemma home_fetch_account_data: "does (home E) (fetch_account_data E ty)"
  unfolding fetch_account_data_def by (intro home_intros)

lemma home_restore: "does (home E) (restore_from_backup E secret)"
  unfolding restore_from_backup_def current_backup_version_def enable_backup_def download_backup_def Let_def
  by (intro home_intros)

lemma home_query_own_keys: "does (home E) (query_own_keys E)"
  unfolding query_own_keys_def by (intro home_intros home_mark_sent)

lemma home_get_secret: "does (home E) (get_secret E key name)"
  unfolding get_secret_def by (intro home_intros home_fetch_account_data)

lemma home_bootstrap: "doesP (home E) (bootstrap E key)"
  unfolding bootstrap_def open_secret_storage_key_def get_cross_signing_def sign_own_device_def Let_def
  by (intro homeP_intros home_intros home_fetch_account_data home_get_secret home_query_own_keys home_restore
      home_upload_signatures home_pump)

section \<open>The admin API\<close>

lemma trace_put_account [simp]: "trace (put_account t) = trace t"
  by (simp add: put_account_def Let_def proxy.defs)

lemma trace_on_account [simp]: "trace (on_account a s) = trace s"
  by (simp add: on_account_def proxy.defs)

lemma home_with_account: "does (home E) m \<Longrightarrow> does (home E) (with_account a m)"
  by (rule doesI) (auto simp: with_account_def sends_only_def dest!: doesD split: prod.splits)

lemma home_with_accountP: "doesP (home E) m \<Longrightarrow> doesP (home E) (with_accountP a m)"
  by (rule doesPI) (auto simp: with_accountP_def sends_only_def dest!: doesPD split: prod.splits)

lemma home_on_session: "doesP (home E) m \<Longrightarrow> doesP (home E) (on_session a m k)"
  unfolding on_session_def
  by (rule doesPI) (auto dest: doesPD [OF home_with_accountP])

lemma home_local_version: "does (home E) (local_backup_version E)"
  unfolding local_backup_version_def by (intro home_intros)

lemma home_check_session: "does (home E) (check_session E)"
proof -
  have judge: "does (home E) (judge_backup E b l v)" for b l v
    unfolding judge_backup_def by (intro home_intros)
  have "does (home E) (check_token E)" "does (home E) (check_device_keys E)" "does (home E) (check_one_time_keys E)"
    "does (home E) (check_cross_signing E)" "does (home E) (check_device_verified E)" "does (home E) (check_backup E)"
    unfolding check_token_def check_device_keys_def check_one_time_keys_def check_cross_signing_def
      check_device_verified_def has_stale_cross_signature_def check_backup_def published_identity_def Let_def
    by (intro home_intros judge home_local_version)+
  then show ?thesis
    unfolding check_session_def by (intro home_intros)
qed

lemma home_session_checks: "does (home E) (session_checks E as)"
  by (induction as) (auto intro!: home_intros home_with_account home_check_session)

lemma home_check_all: "does (home E) (check_all E)"
proof -
  have "does (home E) (check_homeserver E)"
    unfolding check_homeserver_def Let_def by (intro home_intros) simp
  then show ?thesis
    unfolding check_all_def Let_def by (intro home_intros home_session_checks)
qed

lemma home_session_info: "does (home E) (session_info E)"
  unfolding session_info_def Let_def by (intro home_intros home_local_version)

lemma home_devices_info: "does (home E) (devices_info E user)"
  unfolding devices_info_def Let_def by (intro home_intros)

lemma home_room_info: "does (home E) (room_info E room)"
proof -
  have "does (home E) (member_rows E ms)" for ms
    by (induction ms) (auto intro!: home_intros)
  then show ?thesis
    unfolding room_info_def room_members_json_def Let_def
    by (intro home_intros home_of_own [OF own_joined_members])
qed

lemma home_event_info: "does (home E) (event_info E room event_id)"
proof -
  have "does (home E) (key_in_backup E room sid)" for sid
    unfolding key_in_backup_def Let_def by (intro home_intros)
  then have "does (home E) (outcome_fields E room held d)" for held d
    unfolding outcome_fields_def undecryptable_fields_def Let_def
    by (cases d) (auto intro!: home_intros)
  then show ?thesis
    unfolding event_info_def inspect_encrypted_def inbound_for_def Let_def
    by (intro home_intros home_delivery.does_decrypt)
qed

lemma home_report_all: "does (home E) (report_all E)"
proof -
  have "does (home E) (report_session E)"
    unfolding report_session_def Let_def by (intro home_intros home_devices_info home_session_info)
  then have "does (home E) (report_sessions E as)" for as
    by (induction as) (auto intro!: home_intros home_with_account)
  then show ?thesis
    unfolding report_all_def by (intro home_intros home_check_all)
qed

lemma home_answers: "doesP (home E) (answers r)"
  unfolding answers_def by (intro homeP_intros home_intros)

lemma home_or_answer: "(\<And>x. doesP (home E) (f x)) \<Longrightarrow> doesP (home E) (or_answer v f)"
  unfolding or_answer_def by (intro homeP_intros home_answers)

lemma home_with_body: "(\<And>x. doesP (home E) (f x)) \<Longrightarrow> doesP (home E) (with_body E req f)"
  unfolding with_body_def by (intro homeP_intros home_intros)

lemmas home_admin = homeP_intros home_answers home_or_answer home_with_body home_on_session

lemma home_keys_export: "doesP (home E) (keys_export E body)"
proof -
  have "does (home E) (export_keys E p)" for p
    unfolding export_keys_def by (intro home_intros)
  then show ?thesis
    unfolding keys_export_def Let_def by (intro home_admin)
qed

lemma home_keys_import: "doesP (home E) (keys_import E body)"
proof -
  have step: "does (home E) (import_keys E ks)" for ks
    unfolding import_keys_def by (intro home_intros home_quiet) simp
  show ?thesis
    unfolding keys_import_def Let_def
    by (cases "get_str ''passphrase'' body"; cases "get_str ''data'' body")
      (simp_all add: home_answers, intro home_admin step)
qed

lemma home_admin_bootstrap: "doesP (home E) (admin_bootstrap E body)"
  unfolding admin_bootstrap_def Let_def
  by (intro home_admin home_intros home_bootstrap home_quiet) simp

lemma home_admin_status: "doesP (home E) (admin_status E)"
proof -
  have "does (home E) (session_status E)"
    unfolding session_status_def Let_def by (intro home_intros home_local_version)
  then have "does (home E) (session_statuses E as)" for as
    by (induction as) (auto intro!: home_intros home_with_account)
  then show ?thesis
    unfolding admin_status_def by (intro homeP_intros home_intros home_internal)
qed

lemma home_admin_verify: "doesP (home E) (admin_verify_start E body)"
  "doesP (home E) (admin_verify_action E flow action body)"
proof -
  show "doesP (home E) (admin_verify_start E body)"
    unfolding admin_verify_start_def Let_def by (intro home_admin home_verify_start)
  have step: "doesP (home E) (case verify_action E body user flow action of
      None \<Rightarrow> answers r | Some m \<Rightarrow> on_session a m k)" for user r a k
    by (cases "verify_action E body user flow action")
      (simp_all add: home_answers home_on_session home_verify_action)
  show "doesP (home E) (admin_verify_action E flow action body)"
    unfolding admin_verify_action_def Let_def
    by (intro sends.doesP_look home_or_answer sends.doesP_case_prod step)
qed

lemma home_admin_debug: "doesP (home E) (admin_debug E meth path query body)"
proof -
  have devices: "doesP (home E) (debug_devices E q a)" for q a
    unfolding debug_devices_def Let_def by (intro home_admin home_devices_info)
  have logs: "doesP (home E) (debug_logs E q)" for q
    unfolding debug_logs_def Let_def by (intro home_admin)
  have level: "doesP (home E) (debug_log_level E b)" for b
    unfolding debug_log_level_def Let_def by (intro home_admin home_intros)
  have room: "(\<And>r. does (home E) (f r)) \<Longrightarrow> doesP (home E) (debug_room E user room f)" for user room f
    unfolding debug_room_def Let_def by (intro home_admin)
  show ?thesis
    unfolding admin_debug_def Let_def
    by (intro home_admin home_intros home_internal home_check_all home_report_all home_session_info devices logs level)
      (auto split: list.split intro!: home_answers room home_room_info home_event_info)
qed

lemma home_admin_handle: "doesP (home E) (admin_handle E sub req)"
  unfolding admin_handle_def admin_route_def Let_def
  by (auto split: list.split prod.split
      intro!: home_admin home_admin_status home_admin_bootstrap home_keys_export home_keys_import home_admin_verify home_admin_debug
        home_verify_list home_verify_show)

end
