(* ===== verification/Proxy.thy ===== *)
theory Proxy
  imports Homeward
begin

text \<open>
  The proxy as a whole (\<open>src/src/proxy/mod.rs\<close>): which session a request is served with, and
  which handler serves it. Errors of the handlers become the answers of \<open>src/src/error.rs\<close>.
\<close>

section \<open>Dispatch\<close>

text \<open>
  The context of a token. A session that is held back over its device's keys is an error;
  whatever else keeps it from being made is logged, and the request is passed through.
\<close>

definition context_for ::
  "('w, 'y) env_scheme \<Rightarrow> string option \<Rightarrow> 'w proxy \<Rightarrow> (proxy_error + account option) \<times> 'w proxy" where
  "context_for E tok =
     (case tok of
        None \<Rightarrow> retE None
      | Some t \<Rightarrow>
          bindE (attempt (get_or_init E t)) (\<lambda>r. case r of
              Inr a \<Rightarrow> retE (Some a)
            | Inl e \<Rightarrow> (case downcast_conflict e of
                Some c \<Rightarrow> failE (DeviceConflict c)
              | None \<Rightarrow> (case downcast_unchecked e of
                  Some u \<Rightarrow> failE (DeviceUnchecked u)
                | None \<Rightarrow> retE None))))"

text \<open>Serving with the context where there is one.\<close>

definition served_with ::
  "('w, 'y) env_scheme \<Rightarrow> client_request \<Rightarrow> account option \<Rightarrow> ('w, response) peffP \<Rightarrow> ('w, response) admin_eff" where
  "served_with E req a m = (case a of None \<Rightarrow> liftP (passthrough E req) | Some a \<Rightarrow> with_accountP a m)"

definition with_context ::
  "('w, 'y) env_scheme \<Rightarrow> client_request \<Rightarrow> ('w, response) peffP \<Rightarrow> ('w, response) admin_eff" where
  "with_context E req m = bindP (liftP (context_for E (bearer_token req))) (\<lambda>a. served_with E req a m)"

definition handle ::
  "('w, 'y) denv_scheme \<Rightarrow> repair_queue option \<Rightarrow> client_request \<Rightarrow> ('w, response) admin_eff" where
  "handle E wake req =
     (let route = classify (env_codec E) (rq_method req) (rq_path req) in
      case route of
        Admin sub \<Rightarrow> admin_handle E sub req
      | Login \<Rightarrow> liftP (handle_login E req)
      | Sync \<Rightarrow> with_context E req (handle_sync E wake req)
      | Messages _ \<Rightarrow> with_context E req (liftP (handle_history_get E req route))
      | Context _ \<Rightarrow> with_context E req (liftP (handle_history_get E req route))
      | RoomEvent _ \<Rightarrow> with_context E req (liftP (handle_history_get E req route))
      | Notifications \<Rightarrow> with_context E req (liftP (handle_history_get E req route))
      | Send room event_type txn \<Rightarrow> with_context E req (handle_send E req room event_type txn)
      | MediaUpload \<Rightarrow> with_context E req (liftP (handle_upload E req))
      | MediaDownload server media_id authenticated \<Rightarrow>
          bindP (if authenticated then liftP (context_for E (bearer_token req))
            else liftP (reads (\<lambda>s. case session_list s of [] \<Rightarrow> None | a # _ \<Rightarrow> Some a))) (\<lambda>a.
          served_with E req a (liftP (handle_download E server media_id)))
      | Passthrough \<Rightarrow> liftP (passthrough E req))"

text \<open>What the client gets.\<close>

definition serve ::
  "('w, 'y) denv_scheme \<Rightarrow> repair_queue option \<Rightarrow> client_request \<Rightarrow> 'w proxy \<Rightarrow> (response \<times> 'w proxy) option" where
  "serve E wake req s = map_option (\<lambda>(r, t).
     (case r of Inr resp \<Rightarrow> resp | Inl e \<Rightarrow> error_response (env_codec E) e, t)) (handle E wake req s)"

section \<open>Where requests go\<close>

lemma home_context_for: "does (home E) (context_for E tok)"
  unfolding context_for_def by (intro home_intros home_get_or_init)

lemma home_served_with: "doesP (home E) m \<Longrightarrow> doesP (home E) (served_with E req a m)"
  unfolding served_with_def by (intro homeP_intros home_passthrough home_with_accountP)

lemma home_with_context: "doesP (home E) m \<Longrightarrow> doesP (home E) (with_context E req m)"
  unfolding with_context_def by (intro homeP_intros home_context_for home_served_with)

lemma home_handle: "doesP (home E) (handle E wake req)"
proof -
  have download: "doesP (home E) (bindP (if authenticated then liftP (context_for E (bearer_token req))
            else liftP (reads (\<lambda>s. case session_list s of [] \<Rightarrow> None | a # _ \<Rightarrow> Some a))) (\<lambda>a.
          served_with E req a (liftP (handle_download E server media_id))))" for authenticated server media_id
    by (intro homeP_intros home_intros home_context_for home_served_with home_handle_download)
  show ?thesis
    unfolding handle_def Let_def
    by (auto split: route.split
        intro!: home_admin_handle home_with_context home_handle_sync home_handle_send sends.doesP_liftP
          home_handle_history home_handle_upload home_handle_login home_passthrough
          download [of True, simplified] download [of False, simplified])
qed

section \<open>Requests without a session\<close>

text \<open>
  C34: a message for which no session could be made, for any reason but its device's keys, is
  not held back: the client's own request, its content in the clear, is forwarded as it
  came, whatever the room. Only a device conflict, or a device that could not be checked, is an
  error that sends nothing.
\<close>

theorem send_without_session:
  assumes route: "classify (env_codec E) (rq_method req) (rq_path req) = Send room event_type txn"
    and tok: "bearer_token req = Some tok" and failed: "get_or_init E tok s = (Inl e, s1)"
    and run: "handle E wake req s = Some (r, t)"
  shows "case (downcast_conflict e, downcast_unchecked e) of
      (Some c, _) \<Rightarrow> r = Inl (DeviceConflict c) \<and> t = s1
    | (None, Some u) \<Rightarrow> r = Inl (DeviceUnchecked u) \<and> t = s1
    | (None, None) \<Rightarrow> \<exists>rq. trace t = trace s1 @ [rq] \<and> hr_method rq = rq_method req \<and>
        hr_url rq = upstream_url E (path_and_query req) \<and> hr_body rq = rq_body req"
proof -
  have "handle E wake req s = with_context E req (handle_send E req room event_type txn) s"
    by (simp add: handle_def Let_def route)
  then have *: "with_context E req (handle_send E req room event_type txn) s = Some (r, t)"
    using run by simp
  consider c where "downcast_conflict e = Some c"
    | u where "downcast_conflict e = None" "downcast_unchecked e = Some u"
    | "downcast_conflict e = None" "downcast_unchecked e = None"
    by (meson option.exhaust)
  then show ?thesis
  proof cases
    case 1
    then show ?thesis
      using * failed tok
      by (simp add: with_context_def context_for_def bindP_def liftP_def bindE_def attempt_def failE_def
          split: option.splits)
  next
    case 2
    then show ?thesis
      using * failed tok
      by (simp add: with_context_def context_for_def bindP_def liftP_def bindE_def attempt_def failE_def)
  next
    case 3
    then have "passthrough E req s1 = (r, t)"
      using * failed tok
      by (simp add: with_context_def context_for_def bindP_def liftP_def bindE_def attempt_def retE_def served_with_def)
    from passthrough_trace [OF this] 3 show ?thesis by auto
  qed
qed

section \<open>Concrete requests\<close>

definition ref_denv :: "(string \<times> json) list \<Rightarrow> unit denv" where
  "ref_denv tbl = senv.extend (ref_senv tbl) (denv.fields
     0 (\<lambda>w. []) None (\<lambda>u. url_origin u) (\<lambda>a. ''127.0.0.1:8009'') (\<lambda>s. s) (\<lambda>s. None)
     (\<lambda>s. if s = ''info'' then Some INFO else None) (\<lambda>p w. NotFound) (\<lambda>h w. ''curve'')
     (\<lambda>h w. \<lparr>has_master = False, has_self_signing = False, has_user_signing = False\<rparr>)
     (\<lambda>h w. (Inr (0, 0), w)) (\<lambda>h w. (Inr [], w)) (\<lambda>h u w. (Inr [], w)) (\<lambda>h u w. (Inr None, w))
     (\<lambda>h r i w. (Inr None, w)) (\<lambda>h w. (Inr [], w)) (\<lambda>h ks w. (Inr (0, 0), w))
     (\<lambda>ks p n w. (Inr [], w)) (\<lambda>d p. Inr []))"

definition evil_request :: client_request where
  "evil_request = \<lparr>rq_method = ''GET'', rq_path = ''//evil.example/x'', rq_query = None, rq_headers = [], rq_body = []\<rparr>"

text \<open>A homeserver that has trouble with \<open>whoami\<close>, and a message for some room.\<close>

definition trouble_env :: "unit denv" where
  "trouble_env = (ref_denv [])\<lparr>http_send := (\<lambda>rq w.
     (Inr \<lparr>rs_status = (if hr_method rq = ''GET'' then 500 else 200), rs_headers = [], rs_body = ''{}''\<rparr>, w))\<rparr>"

definition secret_message :: client_request where
  "secret_message = \<lparr>rq_method = ''PUT'', rq_path = ''/_matrix/client/v3/rooms/!r/send/m.room.message/1'',
     rq_query = None, rq_headers = [(''authorization'', ''Bearer tok'')], rq_body = ''in the clear''\<rparr>"

theorem send_without_session_witness:
  "\<exists>r t rq. handle trouble_env None secret_message ref_proxy = Some (r, t) \<and> rq \<in> set (trace t) \<and>
    hr_body rq = ''in the clear''"
proof -
  have route: "classify (env_codec trouble_env) (rq_method secret_message) (rq_path secret_message) =
      Send ''!r'' ''m.room.message'' ''1''"
    and tok: "bearer_token secret_message = Some ''tok''" by code_simp+
  have "(case get_or_init trouble_env ''tok'' ref_proxy of (Inl e, s1) \<Rightarrow>
      downcast_conflict e = None \<and> downcast_unchecked e = None | _ \<Rightarrow> False)"
    by code_simp
  then obtain e s1 where e: "get_or_init trouble_env ''tok'' ref_proxy = (Inl e, s1)"
    "downcast_conflict e = None" "downcast_unchecked e = None"
    by (auto split: prod.splits sum.splits)
  obtain r t where p: "passthrough trouble_env secret_message s1 = (r, t)" by fastforce
  have run: "handle trouble_env None secret_message ref_proxy = Some (r, t)"
    using route tok e p
    by (simp add: handle_def with_context_def context_for_def served_with_def bindP_def liftP_def bindE_def
        attempt_def retE_def)
  from send_without_session [OF route tok e(1) run] e(2,3) run show ?thesis
    by (auto simp: secret_message_def)
qed

end
