(* ===== verification/CtlProxy.thy ===== *)
theory CtlProxy
  imports Ctl Proxy
begin

text \<open>
  The two ends of the admin API together: what \<open>ctl\<close> sends is what the proxy reads, and what
  the proxy found is what \<open>ctl\<close> exits with.
\<close>

section \<open>Parameters of a query\<close>

lemma map_of_fold_update:
  "distinct (map fst ps) \<Longrightarrow>
    map_of (fold (\<lambda>(k, v). AList.update k v) ps m) k = (case map_of ps k of Some v \<Rightarrow> Some v | None \<Rightarrow> map_of m k)"
proof (induction ps arbitrary: m)
  case (Cons p ps)
  obtain k' v where p: "p = (k', v)" by fastforce
  have "map_of ps k' = None"
    using Cons.prems by (simp add: p map_of_eq_None_iff)
  with Cons show ?case
    by (auto simp: p update_conv' split: option.splits)
qed simp

lemma enc_plain:
  assumes "percent_coding utf8 cd" and "x \<in> set (enc cd s)"
  shows "x = CHR ''%'' \<or> is_ascii_alphanumeric x \<or> x \<in> {CHR ''-'', CHR ''_'', CHR ''.'', CHR 0x7E}"
  using assms pct_byte_chars [of x enc_set]
  by (auto simp: enc_def percent_coding_def enc_set_def)

lemma enc_free:
  assumes "percent_coding utf8 cd"
  shows "CHR ''&'' \<notin> set (enc cd s)"
  using enc_plain [OF assms, of "CHR ''&''" s]
  by (auto simp: is_ascii_alphanumeric_def is_ascii_digit_def is_ascii_upper_def is_ascii_lower_def less_eq_char_def)

lemma decode_enc:
  "percent_coding utf8 cd \<Longrightarrow> utf8 s \<Longrightarrow> decode_segment cd (enc cd s) = s"
  by (simp add: decode_segment_def enc_def percent_coding_def pct_decode_encode enc_set_def is_ascii_def
      is_ascii_alphanumeric_def is_ascii_digit_def is_ascii_upper_def is_ascii_lower_def less_eq_char_def)

lemma parse_pairs:
  assumes "distinct (map fst ps)" and "\<forall>(k, v) \<in> set ps. CHR ''='' \<notin> set k \<and> CHR ''&'' \<notin> set k \<and> CHR ''&'' \<notin> set v"
  shows "map_of (parse_query (Some (drop 1 (pairs_query (map (\<lambda>(k, v). k @ ''='' @ v) ps))))) = map_of ps"
proof (cases "ps = []")
  case False
  let ?rows = "map (\<lambda>(k, v). k @ ''='' @ v) ps"
  have "split_on (CHR ''&'') (join_with ''&'' ?rows) = ?rows"
    using assms(2) False by (intro split_join) auto
  moreover have "List.map_filter (split_once (CHR ''='')) ?rows = ps"
    using assms(2) by (induction ps) (auto simp: List.map_filter_def)
  ultimately show ?thesis
    using False assms(1) by (simp add: parse_query_def pairs_query_def map_of_fold_update fun_eq_iff split: option.split)
qed (simp add: parse_query_def pairs_query_def List.map_filter_def)

text \<open>
  The parameters \<open>ctl debug\<close> puts into a query are the ones the proxy takes out of it: the
  session's user and the others, whatever characters they contain, and no more.
\<close>

theorem debug_query_roundtrip:
  assumes "percent_coding utf8 cd" and "list_all (\<lambda>p. utf8 (snd p)) extra" and "\<forall>u. user = Some u \<longrightarrow> utf8 u"
    and "distinct (map fst extra)" and "list_all (\<lambda>p. fst p \<noteq> ''user_id'' \<and> CHR ''='' \<notin> set (fst p) \<and> CHR ''&'' \<notin> set (fst p)) extra"
  shows "map_option (decode_segment cd) (map_of (parse_query (Some (drop 1 (debug_query cd user extra)))) k) =
    (if k = ''user_id'' then user else map_of extra k)"
proof -
  define ps where "ps = (case user of None \<Rightarrow> [] | Some u \<Rightarrow> [(''user_id'', u)]) @ extra"
  have keys: "distinct (map fst ps)" "\<forall>(k, v) \<in> set ps. CHR ''='' \<notin> set k \<and> CHR ''&'' \<notin> set k \<and> utf8 v"
    using assms(2-5) by (auto simp: ps_def list_all_iff split: option.splits)
  have rows: "map (\<lambda>(k, v). k @ ''='' @ enc cd v) ps = map (\<lambda>(k, v). k @ ''='' @ v) (map (apsnd (enc cd)) ps)"
    by (simp add: case_prod_beta)
  have "map_of (parse_query (Some (drop 1 (debug_query cd user extra)))) = map_of (map (apsnd (enc cd)) ps)"
    unfolding debug_query_def ps_def [symmetric] rows
    using keys enc_free [OF assms(1)] by (intro parse_pairs) (auto simp: comp_def)
  then have "map_option (decode_segment cd) (map_of (parse_query (Some (drop 1 (debug_query cd user extra)))) k) =
      map_of (map (apsnd (\<lambda>v. decode_segment cd (enc cd v))) ps) k"
    by (simp add: map_of_map apsnd_def map_prod_def option.map_comp comp_def)
  also have "map (apsnd (\<lambda>v. decode_segment cd (enc cd v))) ps = ps"
    using keys(2) by (intro map_idI) (auto simp: decode_enc [OF assms(1)])
  also have "map_of ps k = (if k = ''user_id'' then user else map_of extra k)"
  proof -
    have "map_of extra ''user_id'' = None"
      using assms(5) by (auto simp: list_all_iff map_of_eq_None_iff)
    then show ?thesis
      by (cases user) (auto simp: ps_def)
  qed
  finally show ?thesis .
qed


theorem debug_query_roundtrip_witness:
  "map_option (decode_segment (ref_codec [])) (map_of (parse_query (Some (drop 1
     (debug_query (ref_codec []) (Some ''@a&b=c:hs'') [(''user'', ''@x y:hs'')])))) ''user'') = Some ''@x y:hs''"
  using debug_query_roundtrip [OF percent_coding_ref [of "\<lambda>_. True"], of "[(''user'', ''@x y:hs'')]"
      "Some ''@a&b=c:hs''" "[]" "''user''"]
  by simp

section \<open>Health checks\<close>

text \<open>The status of every check in the report.\<close>

definition reported_statuses :: "json \<Rightarrow> json list" where
  "reported_statuses report =
     map (\<lambda>c. idx c ''status'') (elements (idx report ''proxy'') @
       concat (map (\<lambda>session. elements (idx session ''checks'')) (elements (idx report ''sessions''))))"

lemma check_status: "idx (check_json ck) ''status'' = JStr (status_name (ck_status ck))"
  by (simp add: check_json_def mk_obj_def idx_def split: option.split)

lemma status_name_fail: "status_name st = ''fail'' \<longleftrightarrow> st = Fail"
  by (cases st) simp_all

lemma session_checks_of: "elements (idx (session_check_json r) ''checks'') = map check_json (snd r)"
  by (simp add: session_check_json_def mk_obj_def idx_def elements_def)

lemma check_report_parts:
  "elements (idx (check_report E cur pl rs) ''proxy'') = map check_json pl"
  "elements (idx (check_report E cur pl rs) ''sessions'') = map session_check_json rs"
  "idx (idx (check_report E cur pl rs) ''summary'') ''fail'' = jnat (count_status Fail (pl @ concat (map snd rs)))"
  by (simp_all add: check_report_def Let_def mk_obj_def idx_def elements_def)

lemma check_report_statuses:
  "reported_statuses (check_report E cur pl rs) =
    map (\<lambda>ck. JStr (status_name (ck_status ck))) (pl @ concat (map snd rs))"
  by (simp add: reported_statuses_def check_report_parts check_status session_checks_of map_concat comp_def)

lemma of_nat_u64_zero: "n < 2 ^ 64 \<Longrightarrow> (of_nat n :: u64) = 0 \<longleftrightarrow> n = 0"
  by (auto simp: word_of_nat_eq_0_iff dest: dvd_imp_le)

lemma check_report_failures:
  assumes "length (pl @ concat (map snd rs)) < 2 ^ 64"
  shows "u64_or_zero (idx (idx (check_report E cur pl rs) ''summary'') ''fail'') = 0 \<longleftrightarrow>
    JStr ''fail'' \<notin> set (reported_statuses (check_report E cur pl rs))"
proof -
  let ?all = "pl @ concat (map snd rs)"
  have "count_status Fail ?all < 2 ^ 64"
    using assms le_less_trans [OF length_filter_le] unfolding count_status_def by blast
  then have "(of_nat (count_status Fail ?all) :: u64) = 0 \<longleftrightarrow> count_status Fail ?all = 0"
    by (rule of_nat_u64_zero)
  moreover have "count_status Fail ?all = 0 \<longleftrightarrow> (\<forall>ck \<in> set ?all. ck_status ck \<noteq> Fail)"
    by (auto simp: count_status_def filter_empty_conv)
  moreover have "JStr ''fail'' \<in> set (reported_statuses (check_report E cur pl rs)) \<longleftrightarrow>
      (\<exists>ck \<in> set ?all. ck_status ck = Fail)"
    unfolding check_report_statuses by (auto simp: status_name_fail image_iff eq_commute [of "''fail''"])
  ultimately show ?thesis
    unfolding check_report_parts by (simp add: u64_or_zero_def jnat_def)
qed

lemma check_all_report: "check_all D p = (Inr report, p') \<Longrightarrow> \<exists>cur pl rs. report = check_report D cur pl rs"
  by (auto simp: check_all_def Let_def look_def bindE_eq_Inr_iff retE_def)

text \<open>
  \<open>ctl debug check\<close> says by its exit whether something is wrong. When it got the report the
  proxy made of its checks, it shows the report and then fails exactly if one of the listed
  checks, of the proxy or of any session, failed; warnings alone do not make it fail.
\<close>

theorem check_exit_tells_failures:
  assumes "check_all D p = (Inr report, p')" and "length (reported_statuses report) < 2 ^ 64"
    and "client_get E c ''debug/check'' s = (Inr report, u)" and "da_command args = DbgCheck"
    and "debug_run E c args s = (r, t)"
  shows "(isl r \<longleftrightarrow> JStr ''fail'' \<in> set (reported_statuses report)) \<and>
    journal t = journal u @ [Printed (if da_json args then json_pretty (ce_codec E) report @ line_break
      else render_check report)]"
proof -
  obtain cur pl rs where rep: "report = check_report D cur pl rs"
    using check_all_report [OF assms(1)] by blast
  have "length (pl @ concat (map snd rs)) < 2 ^ 64"
    using assms(2) unfolding rep check_report_statuses by (simp only: length_map)
  from check_report_failures [OF this, of D cur] show ?thesis
    using assms(3-5) unfolding rep [symmetric]
    by (auto simp: debug_run_def Let_def bindE_def print_answer_def effect_simps split: if_splits)
qed


text \<open>A proxy that refused its only session.\<close>

lemma check_homeserver_total:
  "\<exists>cs t. check_homeserver E s = (Inr cs, t) \<and> length cs \<le> 2 \<and> sessions t = sessions s \<and> refused t = refused s"
  by (auto simp: check_homeserver_def look_def bindE_def attempt_def send_http_def retE_def Let_def
      split: prod.splits sum.splits option.splits)

lemma refused_report:
  assumes "sessions p = []" and "refused p = [c]"
  shows "\<exists>report p'. check_all D p = (Inr report, p') \<and> length (reported_statuses report) < 2 ^ 64 \<and>
    JStr ''fail'' \<in> set (reported_statuses report)"
proof -
  obtain cs t where cs: "check_homeserver D p = (Inr cs, t)" "length cs \<le> 2" "sessions t = []" "refused t = [c]"
    using check_homeserver_total [of D p] assms by fastforce
  let ?pl = "proxy_checks D cs [] [c] (world t)"
  have pl: "?pl = cs @ [check_fail ''refused_session'' (conflict_detail c) (conflict_hint c), check_store D (world t),
      check_log D (world t)]"
    by (simp add: proxy_checks_def)
  have "check_all D p = (Inr (check_report D (now D (world t)) ?pl []), t)"
    using cs by (simp add: check_all_def bindE_def look_def session_list_def Let_def retE_def)
  moreover have "reported_statuses (check_report D (now D (world t)) ?pl []) =
      map (\<lambda>ck. JStr (status_name (ck_status ck))) ?pl"
    by (simp add: check_report_statuses)
  ultimately show ?thesis
    using cs(2) unfolding pl by (auto simp: check_fail_def)
qed

definition lone_conflict :: "unit proxy" where
  "lone_conflict = ref_proxy\<lparr>refused := [\<lparr>dc_user_id = ''@a:hs'', dc_device_id = ''D'', dc_store = None\<rparr>]\<rparr>"

definition check_args :: debug_args where
  "check_args = \<lparr>da_json = False, da_user_id = None, da_command = DbgCheck\<rparr>"

theorem check_exit_tells_failures_witness:
  "\<exists>report r t. debug_run (ref_cenv [(''{}'', report)]) local_client check_args \<lparr>cw = (), journal = []\<rparr> = (r, t) \<and>
    isl r \<and> length (journal t) = 2"
proof -
  have "sessions lone_conflict = []" "refused lone_conflict = [\<lparr>dc_user_id = ''@a:hs'', dc_device_id = ''D'', dc_store = None\<rparr>]"
    by (simp_all add: lone_conflict_def ref_proxy_def)
  from refused_report [OF this, of "ref_denv []"] obtain report p' where all: "check_all (ref_denv []) lone_conflict = (Inr report, p')"
    and many: "length (reported_statuses report) < 2 ^ 64"
    and fails: "JStr ''fail'' \<in> set (reported_statuses report)"
    by (elim exE conjE)
  let ?E = "ref_cenv [(''{}'', report)] :: unit cenv"
  obtain u where get: "client_get ?E local_client ''debug/check'' \<lparr>cw = (), journal = []\<rparr> = (Inr report, u)"
    and u: "length (journal u) = 1"
    by (simp add: client_get_def client_send_def json_body_def effect_simps Let_def ref_cenv_def ref_codec_def
        is_success_def)
  obtain r t where run: "debug_run ?E local_client check_args \<lparr>cw = (), journal = []\<rparr> = (r, t)"
    by fastforce
  have "da_command check_args = DbgCheck" by (simp add: check_args_def)
  from check_exit_tells_failures [OF all many get this run] fails u run show ?thesis
    by (intro exI [of _ report] exI [of _ r] exI [of _ t]) simp
qed

end
