(* ===== verification/Setup.thy ===== *)
theory Setup
  imports GuidedVerify
begin

text \<open>
  \<open>ement-e2ee setup\<close> (\<open>src/src/setup.rs\<close>): finding the homeserver, writing the configuration,
  installing the service. Paths, user IDs, URLs and \<open>systemctl\<close> are the environment's; the
  timeout of a request is one of the errors of sending it. The journal notes a file when it
  is about to be written.
\<close>

section \<open>Arguments and questions\<close>

record setup_args =
  st_user_id :: "string option"
  st_homeserver :: "string option"
  st_listen :: socket_addr
  st_config :: "string option"
  st_force :: bool
  st_no_service :: bool
  st_yes :: bool

definition prompt :: "'w cenv \<Rightarrow> string \<Rightarrow> ('w, string) cli_eff" where
  "prompt E question =
     bindE (put_str question) (\<lambda>_.
     bindE (outside (ce_flush E)) (\<lambda>_.
     bindE (outside (ce_read_line E)) (\<lambda>answer.
     if answer = [] then failE (Msg ''no answer (standard input is closed)'')
     else retE (str_trim answer))))"

definition server_name :: "'w cenv \<Rightarrow> string \<Rightarrow> error + string" where
  "server_name E user =
     (case ce_server_name E user of
        Inl e \<Rightarrow> Inl (Wrap (ce_debug E user @ '' is not a Matrix user ID (expected @name:server)'') (Msg e))
      | Inr n \<Rightarrow> Inr n)"

text \<open>A result that is already there, as a step.\<close>

definition given :: "error + 'a \<Rightarrow> ('w, 'a) cli_eff" where
  "given r s = (r, s)"

section \<open>The homeserver\<close>

definition plain_get :: "'w cenv \<Rightarrow> string \<Rightarrow> ('w, response) cli_eff" where
  "plain_get E u =
     (let rq = \<lparr>ct_method = ''GET'', ct_url = u, ct_bearer = None, ct_body = None\<rparr> in
      bindE (tell (Sent rq)) (\<lambda>_. outside (ce_http E rq)))"

definition joined :: "'w cenv \<Rightarrow> url \<Rightarrow> string \<Rightarrow> error + url" where
  "joined E u path = (case ce_url_join E u path of Inl e \<Rightarrow> Inl (Msg e) | Inr v \<Rightarrow> Inr v)"

definition discover :: "'w cenv \<Rightarrow> url \<Rightarrow> ('w, url) cli_eff" where
  "discover E origin =
     bindE (given (joined E origin ''/.well-known/matrix/client'')) (\<lambda>well_known.
     bindE (attempt (plain_get E (url_text (ce_host E) well_known))) (\<lambda>r.
     bindE (case r of
         Inr resp \<Rightarrow>
           if is_success (rs_status resp) then
             bindE (json_body E resp) (\<lambda>b.
             retE (Option.bind (Option.bind b (pointer [''m.homeserver'', ''base_url''])) as_str))
           else retE None
       | Inl _ \<Rightarrow> retE None) (\<lambda>advertised.
     case advertised of
       Some base_url \<Rightarrow>
         mapErrE (Wrap (url_text (ce_host E) origin @ '' advertises an unusable homeserver URL''))
           (given (parse_homeserver (ce_host E) (trim_end (\<lambda>c. c = CHR ''/'') base_url)))
     | None \<Rightarrow> given (parse_homeserver (ce_host E) (url_text (ce_host E) origin)))))"

definition probe_homeserver :: "'w cenv \<Rightarrow> url \<Rightarrow> ('w, unit) cli_eff" where
  "probe_homeserver E homeserver =
     (let shown = url_text (ce_host E) homeserver in
      bindE (given (joined E homeserver ''/_matrix/client/versions'')) (\<lambda>u.
      bindE (mapErrE (Wrap (''could not reach '' @ shown)) (plain_get E (url_text (ce_host E) u))) (\<lambda>resp.
      bindE (if is_success (rs_status resp) then
          bindE (json_body E resp) (\<lambda>b. retE (case b of None \<Rightarrow> False | Some v \<Rightarrow> get ''versions'' v \<noteq> None))
        else retE False) (\<lambda>is_matrix.
      if is_matrix then retE ()
      else failE (Msg (shown @ '' does not look like a Matrix homeserver ('' @
        show_status (ce_codec E) (rs_status resp) @
        '' on /_matrix/client/versions); pass --homeserver with the right URL''))))))"

section \<open>The configuration\<close>

definition quoted :: "string \<Rightarrow> string" where
  "quoted x = [CHR 0x22] @ x @ [CHR 0x22]"

text \<open>The text of the file, around its two settings.\<close>

definition config_head :: "string list" where
  "config_head =
     [''# ement-e2ee configuration (written by `ement-e2ee setup`)'',
      [],
      ''# Where the proxy listens; point (ement-connect :uri-prefix ...) here.'']"

definition config_middle :: "string list" where
  "config_middle =
     [[],
      ''# Your real homeserver (the client-server API base URL).'']"

definition config_tail :: "string list" where
  "config_tail =
     [[],
      ''# Where crypto stores and media key caches live.'',
      ''# store_dir = '' @ quoted ''~/.local/share/ement-e2ee'' @ ''   # default'',
      [],
      ''# tracing filter: error | warn | info | debug | trace, or e.g. '' @ quoted ''ement_e2ee=debug'',
      ''# log_level = '' @ quoted ''info'',
      [],
      ''# Optional: encrypt the sqlite crypto store. Either the passphrase itself or,'',
      ''# better, a command that prints it (a password manager, secret-tool, ...).'',
      ''# store_passphrase_command = '' @ quoted ''pass show ement-e2ee/store'',
      ''# store_passphrase = '' @ quoted ''...'',
      [],
      ''# Optional: require a token on the /_ement admin API (`ement-e2ee ctl` reads'',
      ''# it from this file).'',
      ''# admin_token = '' @ quoted ''...'']"

definition config_lines :: "string \<Rightarrow> string \<Rightarrow> string list" where
  "config_lines listen homeserver =
     config_head @ (''listen = '' @ quoted listen) # config_middle @ (''homeserver = '' @ quoted homeserver) # config_tail"

definition unlines :: "string list \<Rightarrow> string" where
  "unlines ls = concat (map (\<lambda>l. l @ line_break) ls)"

definition render_config :: "host \<Rightarrow> socket_addr \<Rightarrow> url \<Rightarrow> string" where
  "render_config H listen homeserver =
     unlines (config_lines (addr_text H listen) (trim_end (\<lambda>c. c = CHR ''/'') (url_text H homeserver)))"

text \<open>\<open>Path::parent\<close>, for a path without components \<open>.\<close>.\<close>

definition path_parent :: "string \<Rightarrow> string option" where
  "path_parent path =
     (let s = trim_end (\<lambda>c. c = CHR ''/'') path; d = rev (dropWhile (\<lambda>c. c \<noteq> CHR ''/'') (rev s)) in
      if s = [] then None
      else if d = [] then Some []
      else Some (let e = trim_end (\<lambda>c. c = CHR ''/'') d in if e = [] then ''/'' else e))"

definition make_parent :: "'w cenv \<Rightarrow> string \<Rightarrow> (string \<Rightarrow> error \<Rightarrow> error) \<Rightarrow> ('w, unit) cli_eff" where
  "make_parent E path ctx =
     (case path_parent path of None \<Rightarrow> retE () | Some d \<Rightarrow> mapErrE (ctx d) (outside (ce_mkdirs E d)))"

definition write_config :: "'w cenv \<Rightarrow> string \<Rightarrow> string \<Rightarrow> ('w, unit) cli_eff" where
  "write_config E path contents =
     bindE (make_parent E path (\<lambda>d. Wrap (''failed to create '' @ d))) (\<lambda>_.
     bindE (tell (Wrote path contents)) (\<lambda>_.
     bindE (mapErrE (Wrap (''failed to write '' @ path)) (outside (ce_open_empty E 0x180 path))) (\<lambda>_.
     outside (ce_write_all E path contents))))"

section \<open>The service\<close>

definition unit_name :: string where
  "unit_name = ''ement-e2ee.service''"

definition exe_path :: "'w cenv \<Rightarrow> ('w, string) cli_eff" where
  "exe_path E = mapErrE (Wrap ''could not determine the path of this executable'') (outside (ce_exe E))"

definition holds_white_space :: "string \<Rightarrow> bool" where
  "holds_white_space s \<longleftrightarrow> list_ex (\<lambda>t. list_ex (\<lambda>w. prefix w t) white_space) (suffixes s)"

definition exec_start :: "string \<Rightarrow> string option \<Rightarrow> string" where
  "exec_start exe custom_config =
     (let quote = (\<lambda>p. if holds_white_space p then quoted p else p) in
      case custom_config of
        Some path \<Rightarrow> quote exe @ '' serve --config '' @ quote path
      | None \<Rightarrow> quote exe @ '' serve'')"

definition serve_command :: "'w cenv \<Rightarrow> string option \<Rightarrow> ('w, string) cli_eff" where
  "serve_command E custom_config = bindE (exe_path E) (\<lambda>exe. retE (exec_start exe custom_config))"

definition render_unit :: "string \<Rightarrow> string option \<Rightarrow> string" where
  "render_unit exe custom_config =
     unlines
       [''# systemd user unit (written by `ement-e2ee setup`)'',
        ''[Unit]'',
        ''Description=Transparent E2EE proxy for ement.el'',
        ''After=network-online.target'',
        [],
        ''[Service]'',
        ''ExecStart='' @ exec_start exe custom_config,
        ''Restart=on-failure'',
        ''RestartSec=5'',
        [],
        ''[Install]'',
        ''WantedBy=default.target'']"

definition elisp_snippet :: "host \<Rightarrow> string option \<Rightarrow> socket_addr \<Rightarrow> string" where
  "elisp_snippet H user listen =
     ''  (ement-connect :user-id '' @ quoted (case user of None \<Rightarrow> ''@you:example.org'' | Some u \<Rightarrow> u) @ line_break @
     ''                 :uri-prefix '' @ quoted (''http://'' @ addr_text H (connect_addr listen)) @ '')''"

definition systemctl :: "'w cenv \<Rightarrow> string list \<Rightarrow> ('w, bool) cli_eff" where
  "systemctl E as =
     bindE (tell (Ran as)) (\<lambda>_.
     bindE (mapErrE (Wrap ''failed to run systemctl'') (outside (ce_systemctl E as))) (\<lambda>r.
     retE (case r of None \<Rightarrow> False | Some ok \<Rightarrow> ok)))"

fun run_systemctls :: "'w cenv \<Rightarrow> string list list \<Rightarrow> ('w, unit) cli_eff" where
  "run_systemctls E [] = retE ()"
| "run_systemctls E (as # rest) =
     bindE (systemctl E as) (\<lambda>ok.
     if ok then run_systemctls E rest
     else failE (Msg (''`systemctl --user '' @ join_with '' '' as @ ''` failed; see `journalctl --user -u '' @ unit_name @ ''`'')))"

text \<open>At most so many attempts, a tenth of a second apart.\<close>

fun await_proxy :: "'w cenv \<Rightarrow> string \<Rightarrow> nat \<Rightarrow> ('w, bool) cli_eff" where
  "await_proxy E u 0 = retE False"
| "await_proxy E u (Suc n) =
     bindE (attempt (plain_get E u)) (\<lambda>r.
     if \<not> isl r then retE True
     else bindE (wait_for E (100 * 1000000)) (\<lambda>_. await_proxy E u n))"

definition no_systemd_text :: "string \<Rightarrow> string" where
  "no_systemd_text serve =
     line_break @ ''No systemd user session here, so no service was installed. Start the proxy with:'' @
     line_break @ line_break @ ''  '' @ serve @ line_break @ line_break @
     ''(On WSL2, systemd is enabled with `[boot] systemd=true` in /etc/wsl.conf followed by `wsl.exe --shutdown`.)''"

definition start_service :: "'w cenv \<Rightarrow> string option \<Rightarrow> socket_addr \<Rightarrow> ('w, unit) cli_eff" where
  "start_service E custom_config listen =
     bindE (given (context_none ''could not determine the config directory'' (config_dir (ce_host E)))) (\<lambda>dir.
     let unit_path = path_join (path_join dir ''systemd/user'') unit_name in
     bindE (make_parent E unit_path (\<lambda>d e. e)) (\<lambda>_.
     bindE (exe_path E) (\<lambda>exe.
     bindE (tell (Wrote unit_path (render_unit exe custom_config))) (\<lambda>_.
     bindE (mapErrE (Wrap (''failed to write '' @ unit_path))
       (outside (ce_write E unit_path (render_unit exe custom_config)))) (\<lambda>_.
     bindE (put_line (''Wrote '' @ unit_path)) (\<lambda>_.
     bindE (run_systemctls E [[''daemon-reload''], [''enable'', unit_name], [''restart'', unit_name]]) (\<lambda>_.
     bindE (await_proxy E (''http://'' @ addr_text (ce_host E) (connect_addr listen) @ ''/_matrix/client/versions'') 50) (\<lambda>up.
     if up then put_line (''The proxy is running (logs: journalctl --user -u '' @ unit_name @ '' -f).'')
     else failE (Msg (''the service was started but the proxy does not answer on '' @ addr_text (ce_host E) listen @
       ''; see `journalctl --user -u '' @ unit_name @ ''`''))))))))))"

definition install_service :: "'w cenv \<Rightarrow> string option \<Rightarrow> socket_addr \<Rightarrow> bool \<Rightarrow> ('w, unit) cli_eff" where
  "install_service E custom_config listen assume_yes =
     bindE (serve_command E custom_config) (\<lambda>serve.
     bindE (systemctl E [''show-environment'']) (\<lambda>available.
     if \<not> available then put_line (no_systemd_text serve)
     else
       bindE (if assume_yes then retE True
         else bindE (prompt E (line_break @ ''Install and start the systemd user service? [Y/n] '')) (\<lambda>answer.
           retE (to_ascii_lowercase answer \<notin> {''n'', ''no''}))) (\<lambda>wanted.
       if wanted then start_service E custom_config listen
       else put_line (''Skipped. Start the proxy with:'' @ line_break @ line_break @ ''  '' @ serve))))"

section \<open>Setup\<close>

text \<open>Without a homeserver there is always a server name: \<open>setup_run\<close> asks for the user ID then.\<close>

definition chosen_homeserver :: "'w cenv \<Rightarrow> setup_args \<Rightarrow> string option \<Rightarrow> ('w, url) cli_eff" where
  "chosen_homeserver E args server =
     (case (st_homeserver args, server) of
        (Some hs, _) \<Rightarrow> given (parse_homeserver (ce_host E) hs)
      | (None, Some n) \<Rightarrow>
          bindE (given (context_err (n @ '' is not a valid server name'') (url_parse (ce_host E) (''https://'' @ n)))) (\<lambda>origin.
          bindE (put_line (''Looking up the homeserver for '' @ n @ ellipsis)) (\<lambda>_.
          discover E origin))
      | (None, None) \<Rightarrow> failE (Msg ''unreachable''))"

definition make_config :: "'w cenv \<Rightarrow> setup_args \<Rightarrow> string option \<Rightarrow> string \<Rightarrow> ('w, socket_addr) cli_eff" where
  "make_config E args server path =
     bindE (chosen_homeserver E args server) (\<lambda>homeserver.
     bindE (probe_homeserver E homeserver) (\<lambda>_.
     bindE (put_line (''Homeserver: '' @ url_text (ce_host E) homeserver)) (\<lambda>_.
     bindE (write_config E path (render_config (ce_host E) (st_listen args) homeserver)) (\<lambda>_.
     bindE (put_line (''Wrote '' @ path)) (\<lambda>_.
     retE (st_listen args))))))"

definition configured :: "'w cenv \<Rightarrow> setup_args \<Rightarrow> string option \<Rightarrow> string \<Rightarrow> ('w, socket_addr) cli_eff" where
  "configured E args server path =
     (if path_exists (ce_host E) path \<and> \<not> st_force args then
        bindE (given (endpoint_listen (ce_host E) path)) (\<lambda>listen.
        bindE (put_line (''Keeping the existing config at '' @ path @ '' (use --force to replace it).'')) (\<lambda>_.
        retE listen))
      else make_config E args server path)"

definition last_words :: string where
  "last_words =
     ''Once ement is connected, join your encrypted identity and verify the device:'' @ line_break @ line_break @
     ''  ement-e2ee ctl bootstrap'' @ line_break @ ''  ement-e2ee ctl verify'' @ line_break @ line_break @
     ''`ement-e2ee ctl debug check` shows whether everything is in order.''"

definition asked_user :: "'w cenv \<Rightarrow> setup_args \<Rightarrow> ('w, string option) cli_eff" where
  "asked_user E args =
     (case (st_user_id args, st_homeserver args) of
        (Some u, _) \<Rightarrow> retE (Some u)
      | (None, Some _) \<Rightarrow> retE None
      | (None, None) \<Rightarrow> bindE (prompt E ''Matrix user ID (e.g. @you:example.org): '') (\<lambda>u. retE (Some u)))"

definition config_file_of :: "'w cenv \<Rightarrow> setup_args \<Rightarrow> error + string" where
  "config_file_of E args =
     context_none ''could not determine the config directory; pass --config''
       (or_else (st_config args) (default_config_path (ce_host E)))"

definition setup_run :: "'w cenv \<Rightarrow> setup_args \<Rightarrow> ('w, unit) cli_eff" where
  "setup_run E args =
     bindE (asked_user E args) (\<lambda>user.
     bindE (case user of None \<Rightarrow> retE None
       | Some u \<Rightarrow> bindE (given (server_name E u)) (\<lambda>n. retE (Some n))) (\<lambda>server.
     bindE (given (config_file_of E args)) (\<lambda>path.
     bindE (configured E args server path) (\<lambda>listen.
     bindE (if st_no_service args then
         bindE (serve_command E (st_config args)) (\<lambda>serve.
         put_line (line_break @ ''Start the proxy with:'' @ line_break @ line_break @ ''  '' @ serve))
       else install_service E (st_config args) listen (st_yes args)) (\<lambda>_.
     bindE (put_line (line_break @ ''Connect ement through the proxy by evaluating this in Emacs:'' @ line_break @
       line_break @ elisp_snippet (ce_host E) user listen @ line_break)) (\<lambda>_.
     put_line last_words))))))"

end
