(* ===== verification/SetupFacts.thy ===== *)
theory SetupFacts
  imports Setup
begin

text \<open>
  What \<open>setup\<close> promises: it writes nothing but the configuration, after the homeserver in it
  answered like one, and the unit of the service; and what it writes, \<open>serve\<close> reads back.
\<close>

section \<open>Only a checked configuration is written\<close>

definition answered_as_homeserver :: "'w cenv \<Rightarrow> url \<Rightarrow> bool" where
  "answered_as_homeserver E homeserver \<longleftrightarrow> (\<exists>s t. probe_homeserver E homeserver s = (Inr (), t))"

definition config_write :: "'w cenv \<Rightarrow> setup_args \<Rightarrow> string \<Rightarrow> string \<Rightarrow> bool" where
  "config_write E args path contents \<longleftrightarrow>
     config_file_of E args = Inr path \<and> (path_exists (ce_host E) path \<longrightarrow> st_force args) \<and>
     (\<exists>homeserver. answered_as_homeserver E homeserver \<and>
       contents = render_config (ce_host E) (st_listen args) homeserver)"

definition unit_write :: "'w cenv \<Rightarrow> setup_args \<Rightarrow> string \<Rightarrow> string \<Rightarrow> bool" where
  "unit_write E args path contents \<longleftrightarrow>
     \<not> st_no_service args \<and>
     (\<exists>dir exe. config_dir (ce_host E) = Some dir \<and> path = path_join (path_join dir ''systemd/user'') unit_name \<and>
       contents = render_unit exe (st_config args))"

definition proper_write :: "'w cenv \<Rightarrow> setup_args \<Rightarrow> cli_event \<Rightarrow> bool" where
  "proper_write E args ev =
     (case ev of Wrote path contents \<Rightarrow> config_write E args path contents \<or> unit_write E args path contents | _ \<Rightarrow> True)"

lemma proper_write_other [simp]:
  "proper_write E args (Printed x)" "proper_write E args (Sent rq)" "proper_write E args (Ran as)"
  by (simp_all add: proper_write_def)

lemma logs_given: "does (logs P) (given r)"
  by (auto simp: does_def given_def logs_def)

lemma proper_puts: "does (logs (proper_write E args)) (put_line x)" "does (logs (proper_write E args)) (put_str x)"
  by (simp_all add: put_line_def put_str_def logs_tell)

lemma proper_get: "does (logs (proper_write E args)) (plain_get E' u)"
  unfolding plain_get_def Let_def by (intro logs.does_intros logs_tell logs_outside) simp

lemma proper_body: "does (logs (proper_write E args)) (json_body E' resp)"
  unfolding json_body_def by (intro logs.does_intros logs_attempt logs_outside)

lemmas proper_intros = proper_puts proper_get proper_body logs_given logs_outside logs_attempt logs_wait

lemma proper_prompt: "does (logs (proper_write E args)) (prompt E' question)"
  unfolding prompt_def by (intro logs.does_intros proper_intros)

lemma proper_chosen: "does (logs (proper_write E args)) (chosen_homeserver E' args' server)"
  unfolding chosen_homeserver_def discover_def by (intro logs.does_intros proper_intros)

lemma proper_probe: "does (logs (proper_write E args)) (probe_homeserver E' homeserver)"
  unfolding probe_homeserver_def Let_def by (intro logs.does_intros proper_intros)

lemma proper_parent: "does (logs (proper_write E args)) (make_parent E' path ctx)"
  unfolding make_parent_def by (intro logs.does_intros proper_intros)

lemma proper_config:
  "config_write E args path contents \<Longrightarrow> does (logs (proper_write E args)) (write_config E' path contents)"
  unfolding write_config_def
  by (intro logs.does_intros proper_intros proper_parent logs_tell) (simp add: proper_write_def)

lemma proper_make_config:
  assumes "config_file_of E args = Inr path" and "path_exists (ce_host E) path \<longrightarrow> st_force args"
  shows "does (logs (proper_write E args)) (make_config E args server path)"
proof -
  have "does (logs (proper_write E args)) (write_config E path (render_config (ce_host E) (st_listen args) homeserver))"
    if "probe_homeserver E homeserver s = (Inr x, t)" for homeserver x s t
    using assms that by (intro proper_config) (auto simp: config_write_def answered_as_homeserver_def)
  then show ?thesis
    unfolding make_config_def
    by (intro logs.does_bindE logs.does_bindE_after [OF proper_probe] logs.does_retE proper_chosen proper_puts)
qed

lemma proper_systemctls: "does (logs (proper_write E args)) (run_systemctls E' cmds)"
  by (induction cmds) (auto simp: systemctl_def intro!: logs.does_intros proper_intros logs_tell)

lemma proper_await: "does (logs (proper_write E args)) (await_proxy E' u n)"
  by (induction n) (auto intro!: logs.does_intros proper_intros)

lemma proper_service:
  assumes "\<not> st_no_service args"
  shows "does (logs (proper_write E args)) (start_service E (st_config args) listen)"
proof -
  have "does (logs (proper_write E args)) (tell (Wrote (path_join (path_join dir ''systemd/user'') unit_name)
      (render_unit exe (st_config args))))" if "config_dir (ce_host E) = Some dir" for dir exe
    using assms that by (intro logs_tell) (auto simp: proper_write_def unit_write_def)
  then show ?thesis
    unfolding start_service_def exe_path_def Let_def
    by (intro logs.does_bindE_after [OF logs_given] logs.does_bindE logs.does_intros proper_intros proper_parent
        proper_systemctls proper_await)
      (auto simp: given_def context_none_def split: option.splits)
qed

lemma proper_install:
  "\<not> st_no_service args \<Longrightarrow> does (logs (proper_write E args)) (install_service E (st_config args) listen yes)"
  unfolding install_service_def serve_command_def exe_path_def systemctl_def
  by (intro logs.does_intros proper_intros proper_prompt proper_service logs_tell) simp_all

text \<open>
  C38: \<open>setup\<close> writes two files at most. The one is the configuration, at the path that was chosen,
  never over an existing file unless \<open>--force\<close> was given, and only with a homeserver that
  answered the version request like one; the other is the unit of the service, unless
  \<open>--no-service\<close> was given.
\<close>

theorem setup_writes_checked_config:
  assumes "setup_run E args s = (r, t)"
  shows "\<exists>evs. journal t = journal s @ evs \<and>
    (\<forall>path contents. Wrote path contents \<in> set evs \<longrightarrow>
      config_write E args path contents \<or> unit_write E args path contents)"
proof -
  have conf: "does (logs (proper_write E args)) (configured E args server path)"
    if "given (config_file_of E args) u = (Inr path, v)" for server path and u v :: "'a cli"
    using that unfolding configured_def
    by (auto simp: given_def intro!: logs.does_intros logs_given proper_puts proper_make_config)
  have service: "does (logs (proper_write E args)) (if st_no_service args then
      bindE (serve_command E (st_config args)) (\<lambda>serve. put_line (x @ serve))
      else install_service E (st_config args) listen (st_yes args))" for x listen
    unfolding serve_command_def exe_path_def
    by (cases "st_no_service args") (auto intro!: logs.does_intros proper_intros proper_install)
  have chosen: "does (logs (proper_write E args)) (bindE (given (config_file_of E args)) (\<lambda>path.
      bindE (configured E args server path) k))" if "\<And>listen. does (logs (proper_write E args)) (k listen)"
    for server and k :: "socket_addr \<Rightarrow> ('a, unit) cli_eff"
    by (rule logs.does_bindE_after [OF logs_given]) (intro logs.does_bindE conf that)
  have "does (logs (proper_write E args)) (setup_run E args)"
    unfolding setup_run_def asked_user_def append_assoc [symmetric]
    by (intro chosen logs.does_bindE service logs.does_intros proper_intros proper_prompt)
  from doesD [OF this assms] obtain evs where "journal t = journal s @ evs" "list_all (proper_write E args) evs"
    unfolding logs_def by blast
  then show ?thesis
    by (intro exI [of _ evs]) (auto simp: list_all_iff proper_write_def)
qed


text \<open>A first setup on a machine without systemd, against a homeserver that is one.\<close>

definition fresh_env :: "unit cenv" where
  "fresh_env = (ref_cenv [(''{}'', JObj [(''versions'', JArr [])])])\<lparr>ce_host := ref_host\<lparr>path_exists := (\<lambda>p. False)\<rparr>\<rparr>"

definition first_args :: setup_args where
  "first_args = \<lparr>st_user_id = None, st_homeserver = Some ''https://hs'', st_listen = default_listen,
     st_config = Some ''/c.toml'', st_force = False, st_no_service = True, st_yes = False\<rparr>"

theorem setup_writes_checked_config_witness:
  "\<exists>t contents. setup_run fresh_env first_args \<lparr>cw = (), journal = []\<rparr> = (Inr (), t) \<and>
    Wrote ''/c.toml'' contents \<in> set (journal t) \<and> config_write fresh_env first_args ''/c.toml'' contents"
proof -
  have "path_parent ''/c.toml'' = Some ''/''" by code_simp
  then obtain t contents where t: "setup_run fresh_env first_args \<lparr>cw = (), journal = []\<rparr> = (Inr (), t)"
    and w: "Wrote ''/c.toml'' contents \<in> set (journal t)"
    by (simp add: setup_run_def asked_user_def first_args_def config_file_of_def or_else_def context_none_def given_def
        configured_def make_config_def chosen_homeserver_def parse_homeserver_def bindR_def context_err_def
        probe_homeserver_def joined_def plain_get_def json_body_def write_config_def make_parent_def serve_command_def
        exe_path_def effect_simps Let_def fresh_env_def ref_cenv_def ref_codec_def ref_host_def is_success_def
        split: option.split)
  have "\<not> unit_write fresh_env first_args ''/c.toml'' contents"
    by (simp add: unit_write_def first_args_def)
  with setup_writes_checked_config [OF t] w t show ?thesis
    by (intro exI [of _ t] exI [of _ contents]) auto
qed

section \<open>What setup writes, serve reads\<close>

text \<open>
  The part of TOML the written file uses: comments, empty lines, and settings that are basic
  strings without escapes.
\<close>

definition plain_char :: "char \<Rightarrow> bool" where
  "plain_char c \<longleftrightarrow> 32 \<le> (of_char c :: nat) \<and> (of_char c :: nat) < 127 \<and> c \<noteq> CHR 0x22 \<and> c \<noteq> CHR 0x5C"

definition setting_of :: "string \<Rightarrow> (string \<times> string) option" where
  "setting_of l =
     Option.bind (split_once (CHR '' '') l) (\<lambda>(k, rest).
     Option.bind (strip_prefix (''= '' @ [CHR 0x22]) rest) (\<lambda>v.
     if k \<noteq> [] \<and> list_all (\<lambda>c. is_ascii_alphanumeric c \<or> c = CHR ''_'') k \<and> v \<noteq> [] \<and> last v = CHR 0x22 \<and>
       list_all plain_char (butlast v) then Some (k, butlast v) else None))"

fun plain_settings :: "string list \<Rightarrow> (string \<times> string) list option" where
  "plain_settings [] = Some []"
| "plain_settings (l # ls) =
     (if l = [] \<or> hd l = CHR ''#'' then plain_settings ls
      else Option.bind (setting_of l) (\<lambda>s. map_option (Cons s) (plain_settings ls)))"

text \<open>
  \<open>parse_addr\<close> is \<open>SocketAddr\<close>'s \<open>FromStr\<close>. A file with these two settings and no others is
  read as them; so the \<open>toml\<close> crate documents basic strings, and \<open>serde\<close> missing options.
\<close>

definition toml_reads :: "host \<Rightarrow> (string \<Rightarrow> socket_addr option) \<Rightarrow> bool" where
  "toml_reads H parse_addr \<longleftrightarrow>
     (\<forall>contents l hs a. plain_settings (split_on (CHR 0x0A) contents) = Some [(''listen'', l), (''homeserver'', hs)] \<longrightarrow>
        parse_addr l = Some a \<longrightarrow>
        toml_parse H contents = Inr (default_file_config\<lparr>fc_listen := Some a, fc_homeserver := Some hs\<rparr>))"

lemma split_unlines:
  "list_all (\<lambda>l. CHR 0x0A \<notin> set l) ls \<Longrightarrow> split_on (CHR 0x0A) (unlines ls) = ls @ [[]]"
proof (induction ls)
  case (Cons l ls)
  have "unlines (l # ls) = l @ CHR 0x0A # unlines ls"
    by (simp add: unlines_def line_break_def)
  with Cons show ?case
    by (simp only: split_on_append) (simp add: split_on_free)
qed (simp add: unlines_def)

lemma plain_no_break: "list_all plain_char x \<Longrightarrow> CHR 0x0A \<notin> set x"
proof -
  have "\<not> plain_char (CHR 0x0A)" by code_simp
  then show "list_all plain_char x \<Longrightarrow> ?thesis" unfolding list_all_iff by blast
qed

lemma setting_line:
  assumes "list_all plain_char v" and "k \<noteq> []" and "list_all (\<lambda>c. is_ascii_alphanumeric c \<or> c = CHR ''_'') k"
  shows "setting_of (k @ '' = '' @ quoted v) = Some (k, v)"
proof -
  have "CHR '' '' \<notin> set k"
    using assms(3) by (auto simp: list_all_iff is_ascii_alphanumeric_def is_ascii_digit_def is_ascii_upper_def
        is_ascii_lower_def less_eq_char_def)
  then have "split_once (CHR '' '') (k @ CHR '' '' # ''= '' @ quoted v) = Some (k, ''= '' @ quoted v)"
    by (rule split_once_free)
  then show ?thesis
    using assms by (simp add: setting_of_def quoted_def butlast_append)
qed

lemma skip_comments: "list_all (\<lambda>l. l = [] \<or> hd l = CHR ''#'') ls \<Longrightarrow> plain_settings (ls @ ms) = plain_settings ms"
  by (induction ls) auto

lemma comment_lines:
  "list_all (\<lambda>l. l = [] \<or> hd l = CHR ''#'') config_head"
  "list_all (\<lambda>l. l = [] \<or> hd l = CHR ''#'') config_middle"
  "list_all (\<lambda>l. l = [] \<or> hd l = CHR ''#'') (config_tail @ [[]])"
  "list_all (\<lambda>l. CHR 0x0A \<notin> set l) (config_head @ config_middle @ config_tail)"
  by code_simp+

lemma config_settings:
  assumes "list_all plain_char l" and "list_all plain_char hs"
  shows "plain_settings (split_on (CHR 0x0A) (unlines (config_lines l hs))) = Some [(''listen'', l), (''homeserver'', hs)]"
proof -
  let ?rest = "config_tail"
  have plain: "list_all (\<lambda>l. CHR 0x0A \<notin> set l) (config_lines l hs)"
    using plain_no_break [OF assms(1)] plain_no_break [OF assms(2)] comment_lines(4)
    by (auto simp: config_lines_def quoted_def)
  have settings: "setting_of (''listen = '' @ quoted l) = Some (''listen'', l)"
      "setting_of (''homeserver = '' @ quoted hs) = Some (''homeserver'', hs)"
    using setting_line [OF assms(1), of "''listen''"] setting_line [OF assms(2), of "''homeserver''"]
    by (simp_all add: is_ascii_alphanumeric_def is_ascii_lower_def less_eq_char_def)
  have "plain_settings ((''homeserver = '' @ quoted hs) # ?rest @ [[]]) = Some [(''homeserver'', hs)]"
    using skip_comments [OF comment_lines(3), of "[]"] settings(2) by simp
  then have "plain_settings ((''listen = '' @ quoted l) # config_middle @
      (''homeserver = '' @ quoted hs) # ?rest @ [[]]) = Some [(''listen'', l), (''homeserver'', hs)]"
    using skip_comments [OF comment_lines(2), of "(''homeserver = '' @ quoted hs) # ?rest @ [[]]"] settings(1) by simp
  then show ?thesis
    using skip_comments [OF comment_lines(1)]
    unfolding split_unlines [OF plain] by (simp add: config_lines_def)
qed

text \<open>
  C39: what \<open>setup\<close> writes is what \<open>serve\<close> reads. A configuration file with the rendered text loads
  to the listen address and the homeserver it was rendered from, with the default store, log
  level and no secrets, whatever they are, as long as the two print as plain text and read back
  as themselves.
\<close>

theorem written_config_loads:
  assumes toml: "toml_reads H parse_addr"
    and addr: "list_all plain_char (addr_text H listen)" "parse_addr (addr_text H listen) = Some listen"
    and hs: "list_all plain_char (trim_end (\<lambda>c. c = CHR ''/'') (url_text H homeserver))"
      "url_parse H (trim_end (\<lambda>c. c = CHR ''/'') (url_text H homeserver)) = Inr homeserver"
      "url_path homeserver \<in> {[], ''/''}" "url_clear_path H homeserver = homeserver"
    and stored: "path_exists H path" "file_text H path = Inr (render_config H listen homeserver)"
    and dir: "data_dir H = Some d"
  shows "load_config H \<lparr>sa_config = Some path, sa_listen = None, sa_homeserver = None, sa_store_dir = None, sa_log_level = None\<rparr> =
    Inr \<lparr>cfg_listen = listen, cfg_homeserver = homeserver, cfg_store_dir = path_join d ''ement-e2ee'',
      cfg_log_level = ''info'', cfg_store_passphrase = None, cfg_admin_token = None\<rparr>"
proof -
  have "toml_parse H (render_config H listen homeserver) = Inr (default_file_config
      \<lparr>fc_listen := Some listen, fc_homeserver := Some (trim_end (\<lambda>c. c = CHR ''/'') (url_text H homeserver))\<rparr>)"
    using toml config_settings [OF addr(1) hs(1)] addr(2) unfolding toml_reads_def render_config_def by blast
  then show ?thesis
    using stored hs(2-4) dir
    by (auto simp: load_config_def read_file_config_def or_else_def bindR_def context_err_def context_none_def
        parse_homeserver_def store_passphrase_of_def default_file_config_def)
qed

definition toml_host :: "socket_addr \<Rightarrow> url \<Rightarrow> host" where
  "toml_host listen homeserver =
     (let H = ref_host\<lparr>addr_text := (\<lambda>a. ''127.0.0.1:8009''), url_text := (\<lambda>u. url_origin u @ ''/'')\<rparr> in
      H\<lparr>file_text := (\<lambda>p. Inr (render_config H listen homeserver)),
        url_parse := (\<lambda>x. Inr homeserver),
        toml_parse := (\<lambda>x. case plain_settings (split_on (CHR 0x0A) x) of
          Some [(k, l), (k', hs)] \<Rightarrow>
            Inr (default_file_config\<lparr>fc_listen := Some default_listen, fc_homeserver := Some hs\<rparr>)
        | _ \<Rightarrow> Inl ''expected two settings'')\<rparr>)"

theorem written_config_loads_witness:
  "\<exists>c. load_config (toml_host default_listen (cfg_homeserver ref_config))
     \<lparr>sa_config = Some ''/c/ement-e2ee/config.toml'', sa_listen = None, sa_homeserver = None, sa_store_dir = None,
       sa_log_level = None\<rparr> = Inr c \<and> cfg_listen c = default_listen \<and> url_origin (cfg_homeserver c) = ''https://hs''"
proof -
  let ?H = "toml_host default_listen (cfg_homeserver ref_config)"
  have "toml_reads ?H (\<lambda>l. if l = ''127.0.0.1:8009'' then Some default_listen else None)"
    unfolding toml_reads_def toml_host_def by (simp add: Let_def)
  from written_config_loads [OF this, of default_listen "cfg_homeserver ref_config" "''/c/ement-e2ee/config.toml''" "''/d''"]
  show ?thesis
    by (simp add: toml_host_def ref_host_def ref_config_def Let_def plain_char_def trim_end_def render_config_def)
qed

end
