(* ===== verification/Redelivery.thy ===== *)
theory Redelivery
  imports Sync
begin

text \<open>
  To-device events across many sync responses (\<open>receive_sync_changes\<close> in
  \<open>src/src/crypto/sync.rs\<close>): the homeserver brings the same events again and again, responses fail
  half way, and still the crypto machine gets each event once. What the machine got is read off the
  machine itself: its ledger of the to-device events it took in.
\<close>

section \<open>Runs of sync responses\<close>

definition incoming :: "json \<Rightarrow> json list" where
  "incoming body = (case array_at [''to_device'', ''events''] body of None \<Rightarrow> [] | Some es \<Rightarrow> es)"

text \<open>The events the loop of \<open>receive_sync_changes\<close> lets through to the machine.\<close>

definition let_through :: "('w, 'y) venv_scheme \<Rightarrow> json \<Rightarrow> 'w ctx \<Rightarrow> json list" where
  "let_through E body s =
     (case fst (admit_events E (incoming body) [] [] 0 s) of Inl _ \<Rightarrow> [] | Inr (_, evs, _) \<Rightarrow> evs)"

text \<open>
  A ledger of the crypto machine \<open>h\<close>, kept in the world: the to-device events of all calls of
  \<open>receive_sync_changes\<close> that it took, in their order. A call that fails takes in nothing.
\<close>

definition keeps_ledger :: "('w, 'y) venv_scheme \<Rightarrow> string \<Rightarrow> ('w \<Rightarrow> json list) \<Rightarrow> bool" where
  "keeps_ledger E h ledger \<longleftrightarrow> (\<forall>changes w.
     case sdk_receive_sync E h changes w of
       (Inr sids, v) \<Rightarrow> ledger v = ledger w @ sc_to_device changes
     | (Inl e, v) \<Rightarrow> ledger v = ledger w)"

text \<open>
  \<open>deliveries E ledger s all taken t\<close>: from \<open>s\<close> to \<open>t\<close>, responses brought the to-device events
  \<open>all\<close>, and those that were processed without an error brought \<open>taken\<close>. Between two responses
  anything may happen that leaves alone the memory, which is locked while a response is processed, and
  the ledger: nothing else in the program hands sync changes to the machine.
\<close>

inductive deliveries ::
  "('w, 'y) venv_scheme \<Rightarrow> ('w \<Rightarrow> json list) \<Rightarrow> 'w ctx \<Rightarrow> json list \<Rightarrow> json list \<Rightarrow> 'w ctx \<Rightarrow> bool"
  for E ledger s where
  start: "deliveries E ledger s [] [] s"
| elsewhere: "deliveries E ledger s all taken t \<Longrightarrow> ss_seen (sync (acct u)) = ss_seen (sync (acct t)) \<Longrightarrow>
    olm (acct u) = olm (acct t) \<Longrightarrow> ledger (world u) = ledger (world t) \<Longrightarrow> deliveries E ledger s all taken u"
| accepted: "deliveries E ledger s all taken t \<Longrightarrow> receive_sync_changes E body t = (Inr (), u) \<Longrightarrow>
    deliveries E ledger s (all @ incoming body) (taken @ incoming body) u"
| refused: "deliveries E ledger s all taken t \<Longrightarrow> receive_sync_changes E body t = (Inl e, u) \<Longrightarrow>
    deliveries E ledger s (all @ incoming body) taken u"

section \<open>What one response does to the memory\<close>

lemma receive_memory:
  assumes "raw_takes_all E" and "receive_sync_changes E body s = (r, t)"
  shows "map (event_key E) (let_through E body s) =
      fst (admit (map (event_key E) (incoming body)) (ss_seen (sync (acct s)))) \<and>
    ss_seen (sync (acct t)) =
      (let m = snd (admit (map (event_key E) (incoming body)) (ss_seen (sync (acct s)))) in
       case r of Inr _ \<Rightarrow> m | Inl _ \<Rightarrow> fold seen_forget (map (event_key E) (let_through E body s)) m)"
proof -
  let ?ks = "map (event_key E) (incoming body)" and ?seen = "ss_seen (sync (acct s))"
  obtain new seen d where n: "(map (event_key E) new, seen) = admit ?ks ?seen"
    "admit_events E (incoming body) [] [] 0 s =
      (Inr (map (event_key E) new, new, d), on_sync (\<lambda>y. y\<lparr>ss_seen := seen\<rparr>) s)"
    using admit_events_spec [OF assms(1), of "incoming body" s "[]" "[]" 0] by auto
  let ?s = "on_sync (\<lambda>y. y\<lparr>ss_seen := seen\<rparr>) s"
  obtain r1 s1 where p: "process_sync_changes E body new ?s = (r1, s1)" by fastforce
  have "ss_seen (sync (acct s1)) = seen" using process_keeps_sync [OF p] by simp
  moreover have "let_through E body s = new" by (simp add: let_through_def n(2))
  ultimately show ?thesis
    using assms(2) [unfolded receive_sync_changes_def incoming_def [symmetric]] n(2) p n(1) [symmetric]
    by (cases r1) (auto simp: bindE_def attempt_def writes_def failE_def note_client_sync_def)
qed

text \<open>What the machine records is what \<open>process_sync_changes\<close> was given.\<close>

lemma parse_field_fixed: "\<exists>x. parse_field E ty m v = (\<lambda>s. (x, s))"
  by (auto simp: parse_field_def retE_def failE_def fun_eq_iff split: option.splits)

lemma process_ledger:
  assumes "keeps_ledger E (olm (acct s)) ledger" and "process_sync_changes E body evs s = (r, t)"
  shows "ledger (world t) = ledger (world s) @ (case r of Inr n \<Rightarrow> evs | Inl e \<Rightarrow> []) \<and>
    olm (acct t) = olm (acct s)"
proof -
  obtain x1 where x1: "parse_field E ''DeviceLists'' ''invalid device_lists in sync response''
      (get ''device_lists'' body) = (\<lambda>s. (x1, s))"
    using parse_field_fixed by blast
  obtain x2 where x2: "parse_field E ''OneTimeKeyCounts'' ''invalid device_one_time_keys_count in sync response''
      (get ''device_one_time_keys_count'' body) = (\<lambda>s. (x2, s))"
    using parse_field_fixed by blast
  obtain x3 where x3: "parse_field E ''OneTimeKeyAlgorithms'' ''invalid device_unused_fallback_key_types in sync response''
      (case get ''device_unused_fallback_key_types'' body of
          Some v \<Rightarrow> Some v
        | None \<Rightarrow> get ''org.matrix.msc2732.device_unused_fallback_key_types'' body) = (\<lambda>s. (x3, s))"
    using parse_field_fixed by blast
  note run = assms(2) [unfolded process_sync_changes_def x1 x2 x3 bindE_def]
  show ?thesis
  proof (cases "(\<exists>e. x1 = Inl e) \<or> (\<exists>e. x2 = Inl e) \<or> (\<exists>e. x3 = Inl e)")
    case True
    then show ?thesis using run by (elim disjE exE) (auto split: sum.splits)
  next
    case False
    then obtain a b c where abc: "x1 = Inr a" "x2 = Inr b" "x3 = Inr c"
      by (meson sum.exhaust)
    obtain x w where w: "sdk_receive_sync E (olm (acct s)) (changes_of body evs a b c) (world s) = (x, w)"
      by fastforce
    have "case sdk_receive_sync E (olm (acct s)) (changes_of body evs a b c) (world s) of
        (Inr sids, v) \<Rightarrow> ledger v = ledger (world s) @ sc_to_device (changes_of body evs a b c)
      | (Inl e, v) \<Rightarrow> ledger v = ledger (world s)"
      using assms(1) by (simp add: keeps_ledger_def)
    then have law: "case x of Inr sids \<Rightarrow> ledger w = ledger (world s) @ evs | Inl e \<Rightarrow> ledger w = ledger (world s)"
      unfolding w by (auto simp: changes_of_def Let_def split: sum.splits)
    show ?thesis
      using run law w unfolding abc
      by (cases x) (auto simp: mapErrE_def look_def call_def writes_def retE_def record_finished_eq)
  qed
qed

text \<open>The machine takes in what the loop lets through, where the response is processed.\<close>

lemma receive_ledger:
  assumes "raw_takes_all E" and "keeps_ledger E (olm (acct s)) ledger" and "receive_sync_changes E body s = (r, t)"
  shows "ledger (world t) = ledger (world s) @ (case r of Inr u \<Rightarrow> let_through E body s | Inl e \<Rightarrow> []) \<and>
    olm (acct t) = olm (acct s) \<and> subseq (let_through E body s) (incoming body)"
proof -
  obtain new seen d where n: "subseq new (incoming body)"
    "admit_events E (incoming body) [] [] 0 s =
      (Inr (map (event_key E) new, new, d), on_sync (\<lambda>y. y\<lparr>ss_seen := seen\<rparr>) s)"
    using admit_events_spec [OF assms(1), of "incoming body" s "[]" "[]" 0] by auto
  let ?s = "on_sync (\<lambda>y. y\<lparr>ss_seen := seen\<rparr>) s"
  obtain r1 s1 where p: "process_sync_changes E body new ?s = (r1, s1)" by fastforce
  have "ledger (world s1) = ledger (world s) @ (case r1 of Inr n \<Rightarrow> new | Inl e \<Rightarrow> [])" "olm (acct s1) = olm (acct s)"
    using process_ledger [OF _ p, of ledger] assms(2) by simp_all
  moreover have "let_through E body s = new" by (simp add: let_through_def n(2))
  ultimately show ?thesis
    using assms(3) [unfolded receive_sync_changes_def incoming_def [symmetric]] n p
    by (cases r1) (auto simp: bindE_def attempt_def writes_def failE_def)
qed

lemma admit_order:
  "seen_ok s \<Longrightarrow> seen_order (snd (admit ks s)) = window seen_capacity (seen_order s @ fst (admit ks s))"
proof (induction ks arbitrary: s)
  case Nil
  then show ?case by (simp add: window_short seen_ok_def)
next
  case (Cons k ks)
  then show ?case
    using Cons.IH [OF seen_insert_ok [OF Cons.prems], of k] seen_insert_order [OF Cons.prems, of k] fst_seen_insert [of k s]
    by (auto simp: Let_def window_window_append seen_ok_def split: prod.splits)
qed

section \<open>The memory across many responses\<close>

text \<open>
  After \<open>n\<close> deliveries the keys handed over so far are different from each other and among the
  \<open>n\<close> youngest ones of the memory.
\<close>

definition remembers :: "nat \<Rightarrow> u64 list \<Rightarrow> seen_to_device \<Rightarrow> bool" where
  "remembers n ks s \<longleftrightarrow> seen_ok s \<and> distinct ks \<and>
     (\<exists>old young. seen_order s = old @ young \<and> set ks \<subseteq> set young \<and> length young \<le> n)"

lemma remembersI: "seen_ok s \<Longrightarrow> distinct ks \<Longrightarrow> seen_order s = old @ young \<Longrightarrow>
    set ks \<subseteq> set young \<Longrightarrow> length young \<le> n \<Longrightarrow> remembers n ks s"
  unfolding remembers_def by blast

lemma remembersD: "remembers n ks s \<Longrightarrow> seen_ok s \<and> distinct ks \<and> set ks \<subseteq> set (seen_order s)"
  by (auto simp: remembers_def)

lemma remembers_more: "remembers n ks s \<Longrightarrow> n \<le> m \<Longrightarrow> remembers m ks s"
  by (fastforce simp: remembers_def)

lemma window_keeps: "length young \<le> cap \<Longrightarrow> \<exists>old'. window cap (old @ young) = old' @ young"
  by (simp add: window_def)

lemma remembers_insert:
  assumes "remembers n ks s" and "n < seen_capacity"
  shows "remembers (Suc n) (if fst (seen_insert k s) then ks @ [k] else ks) (snd (seen_insert k s))"
proof (cases "k \<in> set (seen_order s)")
  case True
  then show ?thesis
    using assms(1) remembers_more [OF assms(1), of "Suc n"]
    by (simp add: fst_seen_insert seen_set_order remembersD) (simp add: seen_insert_def seen_set_order remembersD)
next
  case False
  obtain old young where y: "seen_order s = old @ young" "set ks \<subseteq> set young" "length young \<le> n"
    using assms(1) by (auto simp: remembers_def)
  obtain old' where "window seen_capacity (old @ young @ [k]) = old' @ young @ [k]"
    using window_keeps [of "young @ [k]" seen_capacity old] y(3) assms(2) by auto
  then have "seen_order (snd (seen_insert k s)) = old' @ young @ [k]"
    using False seen_insert_order [of s k] assms(1) y(1) by (simp add: remembersD)
  moreover have "distinct (ks @ [k])" using False y assms(1) by (auto simp: remembers_def)
  ultimately show ?thesis
    using False y remembersD [OF assms(1)]
    by (auto simp: fst_seen_insert seen_set_order seen_insert_ok intro!: remembersI [of _ _ old' "young @ [k]"])
qed

lemma remembers_admit:
  "remembers n hs s \<Longrightarrow> n + length ks \<le> seen_capacity \<Longrightarrow>
    remembers (n + length ks) (hs @ fst (admit ks s)) (snd (admit ks s))"
proof (induction ks arbitrary: n hs s)
  case (Cons k ks)
  show ?case
    using Cons.IH [OF remembers_insert [OF Cons.prems(1), of k]] Cons.prems(2)
    by (auto simp: Let_def split: prod.splits)
qed simp

lemma remembers_forget:
  assumes "remembers n (hs @ ks) s"
  shows "remembers n hs (fold seen_forget ks s)"
proof -
  obtain old young where y: "seen_order s = old @ young" "set (hs @ ks) \<subseteq> set young" "length young \<le> n"
    using assms by (auto simp: remembers_def)
  have ok: "seen_ok s" "distinct (hs @ ks)" using remembersD [OF assms] by simp_all
  have "seen_order (fold seen_forget ks s) =
      filter (\<lambda>x. x \<notin> set ks) old @ filter (\<lambda>x. x \<notin> set ks) young"
    by (simp add: sn.keys_fold_del [OF ok(1)] y(1))
  moreover have "length (filter (\<lambda>x. x \<notin> set ks) young) \<le> n"
    using y(3) length_filter_le order_trans by blast
  ultimately show ?thesis
    using ok y(2) sn.inv_fold_del [OF ok(1)]
    by (intro remembersI [of _ _ "filter (\<lambda>x. x \<notin> set ks) old" "filter (\<lambda>x. x \<notin> set ks) young"]) auto
qed

text \<open>A remembered key was remembered before the run, or handed over in it.\<close>

definition accounted :: "seen_to_device \<Rightarrow> u64 list \<Rightarrow> seen_to_device \<Rightarrow> bool" where
  "accounted s0 hs s \<longleftrightarrow> set (seen_order s) \<subseteq> set (seen_order s0) \<union> set hs"

lemma accounted_admit:
  "seen_ok s \<Longrightarrow> accounted s0 hs s \<Longrightarrow> accounted s0 (hs @ fst (admit ks s)) (snd (admit ks s))"
  using set_window [of seen_capacity "seen_order s @ fst (admit ks s)"]
  by (auto simp: accounted_def admit_order)

lemma accounted_refused:
  "seen_ok s \<Longrightarrow> accounted s0 hs s \<Longrightarrow>
    accounted s0 hs (fold seen_forget (fst (admit ks s)) (snd (admit ks s)))"
  using accounted_admit [of s s0 hs ks] admit_ok [of s ks]
  by (auto simp: accounted_def sn.keys_fold_del)

text \<open>What the machine took in, told by what the memory knows.\<close>

definition delivered ::
  "('w, 'y) venv_scheme \<Rightarrow> ('w \<Rightarrow> json list) \<Rightarrow> 'w ctx \<Rightarrow> json list \<Rightarrow> json list \<Rightarrow> 'w ctx \<Rightarrow> json list \<Rightarrow> bool" where
  "delivered E ledger s all taken t handed \<longleftrightarrow>
     ledger (world t) = ledger (world s) @ handed \<and> olm (acct t) = olm (acct s) \<and> set handed \<subseteq> set all \<and>
     remembers (length all) (map (event_key E) handed) (ss_seen (sync (acct t))) \<and>
     accounted (ss_seen (sync (acct s))) (map (event_key E) handed) (ss_seen (sync (acct t))) \<and>
     event_key E ` set taken \<subseteq> seen_set (ss_seen (sync (acct s))) \<union> event_key E ` set handed"

lemma delivered_accepted:
  assumes "delivered E ledger s all taken t handed" and "receive_sync_changes E body t = (Inr (), u)"
    and raw: "raw_takes_all E" and led: "keeps_ledger E (olm (acct s)) ledger"
    and ok: "seen_ok (ss_seen (sync (acct s)))" and few: "length (all @ incoming body) \<le> seen_capacity"
  shows "delivered E ledger s (all @ incoming body) (taken @ incoming body) u (handed @ let_through E body t)"
proof -
  let ?ks = "map (event_key E) (incoming body)" and ?m = "ss_seen (sync (acct t))"
  note m = receive_memory [OF raw assms(2)]
  note IH = assms(1) [unfolded delivered_def]
  have l: "ledger (world u) = ledger (world t) @ let_through E body t" "olm (acct u) = olm (acct t)"
    "set (let_through E body t) \<subseteq> set (incoming body)"
    using receive_ledger [OF raw _ assms(2), of ledger] led IH by (auto dest: list_emb_set)
  have "event_key E ` set (incoming body) \<subseteq>
      seen_set (ss_seen (sync (acct s))) \<union> event_key E ` set handed \<union> set (fst (admit ?ks ?m))"
  proof
    fix k assume "k \<in> event_key E ` set (incoming body)"
    then have "k \<in> set (fst (admit ?ks ?m)) \<or> k \<in> seen_set ?m" using admit_fresh [of k ?ks ?m] by auto
    then show "k \<in> seen_set (ss_seen (sync (acct s))) \<union> event_key E ` set handed \<union> set (fst (admit ?ks ?m))"
      using IH ok by (auto simp: accounted_def seen_set_order dest!: remembersD)
  qed
  moreover have "set (fst (admit ?ks ?m)) = event_key E ` set (let_through E body t)"
    using m by (metis set_map)
  moreover have "remembers (length all + length ?ks) (map (event_key E) handed @ fst (admit ?ks ?m)) (snd (admit ?ks ?m))"
    using IH few by (intro remembers_admit) simp_all
  moreover have "accounted (ss_seen (sync (acct s))) (map (event_key E) handed @ fst (admit ?ks ?m)) (snd (admit ?ks ?m))"
    using IH by (intro accounted_admit) (simp_all add: remembers_def)
  ultimately show ?thesis
    using IH l m unfolding delivered_def by (auto simp: Let_def)
qed

lemma delivered_refused:
  assumes "delivered E ledger s all taken t handed" and "receive_sync_changes E body t = (Inl e, u)"
    and raw: "raw_takes_all E" and led: "keeps_ledger E (olm (acct s)) ledger"
    and few: "length (all @ incoming body) \<le> seen_capacity"
  shows "delivered E ledger s (all @ incoming body) taken u handed"
proof -
  let ?ks = "map (event_key E) (incoming body)" and ?m = "ss_seen (sync (acct t))"
  note m = receive_memory [OF raw assms(2)]
  note IH = assms(1) [unfolded delivered_def]
  have "ledger (world u) = ledger (world t)" "olm (acct u) = olm (acct t)"
    using receive_ledger [OF raw _ assms(2), of ledger] led IH by auto
  moreover have "remembers (length all + length ?ks) (map (event_key E) handed @ fst (admit ?ks ?m)) (snd (admit ?ks ?m))"
    using IH few by (intro remembers_admit) simp_all
  note remembers_forget [OF this]
  moreover have "accounted (ss_seen (sync (acct s))) (map (event_key E) handed)
      (fold seen_forget (fst (admit ?ks ?m)) (snd (admit ?ks ?m)))"
    using IH by (intro accounted_refused) (simp_all add: remembers_def)
  ultimately show ?thesis
    using IH m unfolding delivered_def by (auto simp: Let_def)
qed

lemma deliveries_inv:
  assumes "deliveries E ledger s all taken t" and "raw_takes_all E" and "keeps_ledger E (olm (acct s)) ledger"
    and "seen_ok (ss_seen (sync (acct s)))" and "length all \<le> seen_capacity"
  shows "\<exists>handed. delivered E ledger s all taken t handed"
  using assms(1,5)
proof induction
  case start
  have "delivered E ledger s [] [] s []"
    using assms(4) by (simp add: delivered_def remembers_def accounted_def)
  then show ?case by blast
next
  case (elsewhere all taken t u)
  then show ?case by (simp add: delivered_def)
next
  case (accepted all taken t body u)
  then show ?case using delivered_accepted [OF _ accepted.hyps(2) assms(2-4)] by fastforce
next
  case (refused all taken t body e u)
  then show ?case using delivered_refused [OF _ refused.hyps(2) assms(2,3)] by fastforce
qed

text \<open>
  C8: across any run of sync responses that bring up to 4096 to-device events, repeats counted,
  whatever fails and whatever happens in between, the crypto machine takes in no event twice and none that
  was not delivered; every event of a response that was processed has been taken in, in the run or
  before it; and what the proxy takes for a repeat at the end is only what was taken in, so an event of a
  failed response gets through when it comes again. What the machine took in is the growth of its own ledger.
\<close>

theorem to_device_exactly_once:
  assumes "deliveries E ledger s all taken t" and "length all \<le> 4096" and "keeps_ledger E (olm (acct s)) ledger"
    and "raw_takes_all E" and "seen_ok (ss_seen (sync (acct s)))"
  shows "\<exists>handed. ledger (world t) = ledger (world s) @ handed \<and>
    distinct (map (event_key E) handed) \<and> set handed \<subseteq> set all \<and>
    event_key E ` set taken \<subseteq> seen_set (ss_seen (sync (acct s))) \<union> event_key E ` set handed \<and>
    seen_set (ss_seen (sync (acct t))) \<subseteq> seen_set (ss_seen (sync (acct s))) \<union> event_key E ` set handed \<and>
    event_key E ` set handed \<subseteq> seen_set (ss_seen (sync (acct t))) \<and>
    seen_ok (ss_seen (sync (acct t)))"
proof -
  have few: "length all \<le> seen_capacity" using assms(2) by (simp add: seen_capacity_def)
  obtain handed where h: "delivered E ledger s all taken t handed"
    using deliveries_inv [OF assms(1,4,3,5) few] by blast
  note d = h [unfolded delivered_def]
  from remembersD [of "length all" "map (event_key E) handed"] d
  have "seen_ok (ss_seen (sync (acct t)))" "distinct (map (event_key E) handed)"
    "set (map (event_key E) handed) \<subseteq> set (seen_order (ss_seen (sync (acct t))))" by blast+
  then show ?thesis
    using d assms(5) by (intro exI [of _ handed]) (simp add: accounted_def seen_set_order)
qed

text \<open>The client asks twice from the same position; the machine keeps its ledger in the world.\<close>

definition ledger_env :: "(json list) venv" where
  "ledger_env = (ref_venv [])\<lparr>sdk_receive_sync := (\<lambda>h changes w. (Inr [], w @ sc_to_device changes))\<rparr>"

lemma ledger_env_keeps: "keeps_ledger ledger_env h id"
  by (simp add: keeps_ledger_def ledger_env_def)

lemma ledger_env_raw: "raw_takes_all ledger_env"
  by (simp add: ledger_env_def ref_venv_def env.defs ref_env_def raw_takes_all_def)

theorem to_device_exactly_once_witness:
  "\<exists>t. deliveries ledger_env id (ref_ctx_at []) (incoming repeating_sync @ incoming repeating_sync)
      (incoming repeating_sync @ incoming repeating_sync) t \<and> world t = [JObj []]"
proof -
  let ?E = ledger_env and ?s = "ref_ctx_at [] :: json list ctx"
  obtain r t where run: "receive_sync_changes ?E repeating_sync ?s = (r, t)" by fastforce
  obtain r' u where run': "receive_sync_changes ?E repeating_sync t = (r', u)" by fastforce
  have "fst (receive_sync_changes ?E repeating_sync ?s) = Inr () \<and>
      fst (receive_sync_changes ?E repeating_sync (snd (receive_sync_changes ?E repeating_sync ?s))) = Inr ()"
    unfolding receive_sync_changes_def process_sync_changes_def record_finished_def by code_simp
  then have "r = Inr ()" "r' = Inr ()" using run run' by simp_all
  then have d: "deliveries ?E id ?s (incoming repeating_sync @ incoming repeating_sync)
      (incoming repeating_sync @ incoming repeating_sync) u"
    using deliveries.accepted [OF deliveries.accepted [OF deliveries.start, of ?E repeating_sync ?s t id], of repeating_sync u]
      run run' by simp
  have key: "event_key ?E j = 0" for j by (simp add: ledger_env_def ref_venv_def env.defs ref_env_def)
  have seen: "ss_seen (sync (acct ?s)) = empty_seen" "world ?s = []"
    by (simp_all add: ref_ctx_at_def ref_account_def empty_sync_def)
  have inc: "incoming repeating_sync = [JObj [], JObj []]"
    by (simp add: incoming_def repeating_sync_def array_at_def)
  have ok: "seen_ok (ss_seen (sync (acct ?s)))" by (simp add: seen(1) seen_ok_empty)
  have few: "length (incoming repeating_sync @ incoming repeating_sync) \<le> 4096" by (simp add: inc)
  from to_device_exactly_once [OF d few ledger_env_keeps ledger_env_raw ok]
  obtain handed where h: "world u = handed" "distinct (map (event_key ?E) handed)" "set handed \<subseteq> {JObj []}"
    "event_key ?E (JObj []) \<in> event_key ?E ` set handed"
    by (auto simp: seen(2) inc) (auto simp: seen(1) empty_seen_def)
  then have "handed \<noteq> []" by auto
  have "handed = [JObj []]"
  proof -
    obtain x xs where x: "handed = x # xs" using \<open>handed \<noteq> []\<close> by (cases handed) auto
    then have "xs = []" using h(2) by (cases xs) (simp_all add: key)
    then show ?thesis using x h(3) by simp
  qed
  then show ?thesis using d h(1) by blast
qed

end
