(* ===== verification/EndToEnd.thy ===== *)
theory EndToEnd
  imports Placeholders Encrypt
begin

text \<open>
  Two proxies and the homeserver between them: what one user's client sends into an encrypted
  room (\<open>src/src/crypto/encrypt.rs\<close>) is what the other user's client is shown
  (\<open>src/src/crypto/decrypt.rs\<close>). The machines of the two ends are related only by what Megolm
  promises: a machine that has the session's key decrypts what the other one encrypted.
\<close>

section \<open>Lists of events\<close>

text \<open>Running a step over a list runs it on every element, in a state the steps before it left.\<close>

lemma mapE_pointwise:
  assumes "stepwise R" and "\<And>x. does R (f x)" and "mapE f xs s = (Inr ys, t)"
  shows "list_all2 (\<lambda>x y. \<exists>u v. R s u \<and> f x u = (Inr y, v)) xs ys"
  using assms(3)
proof (induction xs arbitrary: s ys)
  case (Cons x xs)
  obtain y zs u where u: "f x s = (Inr y, u)" "mapE f xs u = (Inr zs, t)" "ys = y # zs"
    using Cons.prems by (auto simp: bindE_eq_Inr_iff retE_def)
  have "R s u" by (rule doesD [OF assms(2) u(1)])
  then have "list_all2 (\<lambda>x y. \<exists>u v. R s u \<and> f x u = (Inr y, v)) xs zs"
    using Cons.IH [OF u(2)] by (rule_tac list_all2_mono) (use stepwise.trans [OF assms(1)] in blast)+
  then show ?case using u stepwise.refl [OF assms(1)] by auto
qed (simp add: retE_def)

lemma list_all2_map_of:
  assumes "list_all2 (\<lambda>p q. fst q = fst p \<and> P (fst p) (snd p) (snd q)) ps qs" and "map_of ps k = Some x"
  shows "\<exists>y. map_of qs k = Some y \<and> P k x y"
  using assms by (induction rule: list_all2_induct) (auto split: if_splits)

section \<open>The delivered event\<close>

text \<open>The events of a joined room, in the order the client reads them.\<close>

definition joined_events :: "string \<Rightarrow> json \<Rightarrow> json list" where
  "joined_events room body = elements (walk (joined_path room @ [''timeline'', ''events'']) body)"

definition plain_message :: "json \<Rightarrow> bool" where
  "plain_message content \<longleftrightarrow> is_object content \<and> wf_json content \<and> get ''url'' content = None \<and>
     get ''file'' content = None \<and> Option.bind (get ''info'' content) (get ''thumbnail_file'') = None"

lemma rewrite_plain: "plain_message content \<Longrightarrow> rewrite_content_for_encrypted_room E a content = content"
  by (simp add: plain_message_def rewrite_content_for_encrypted_room_def get_str_def)

lemma harvest_plain:
  assumes "plain_message content" and "get ''content'' event = Some content"
  shows "\<exists>e. harvest_and_rewrite_decrypted E event s = (Inr e, s) \<and> get ''content'' e = Some content \<and>
    (\<forall>k. k \<noteq> ''content'' \<longrightarrow> get k e = get k event)"
proof -
  obtain m where m: "content = JObj m" "sorted_keys m" "map_of m ''file'' = None"
    using assms(1) by (auto simp: plain_message_def is_object_iff)
  have info: "obj_put ''info'' (JObj i) m = m" "map_of i ''thumbnail_file'' = None" if "map_of m ''info'' = Some (JObj i)" for i
    using that assms(1) m by (auto simp: plain_message_def obj_put_same)
  have obj: "is_object event" using assms(2) by (cases event) (auto simp: is_object_def)
  show ?thesis
    using assms(2) m(3) obj
    by (cases "map_of m ''info''")
      (auto simp: harvest_and_rewrite_decrypted_def m(1) expose_file_none bindE_def retE_def get_jput Let_def info
        bind_eq_Some_conv split: option.splits)
qed

lemma decrypt_event_plain:
  assumes "sdk_decrypt E (olm (acct s)) event room (world s) = (Inr (SdkDecrypted text info), w)"
    and "json_parse (env_codec E) text = Some (JObj m)"
    and "map_of m ''content'' = Some content" and "plain_message content"
    and "get_str ''type'' event = Some ''m.room.encrypted''" and "parses_as E ''Raw'' event"
  shows "\<exists>e t. decrypt_event E room kind event s = (Inr e, t) \<and> get ''content'' e = Some content \<and>
    (\<forall>k. k \<noteq> ''content'' \<and> k \<noteq> ''unsigned'' \<longrightarrow> get k e = map_of m k)"
proof -
  have "infallible (maybe_feed_verification E (JObj (merge_unsigned event info m)))"
    unfolding maybe_feed_verification_def Let_def by (intro infallible_intros)
  then obtain u s1 where v: "maybe_feed_verification E (JObj (merge_unsigned event info m)) (s\<lparr>world := w\<rparr>) = (Inr u, s1)"
    unfolding infallible_def by blast
  obtain e where h: "harvest_and_rewrite_decrypted E (JObj (merge_unsigned event info m)) s1 = (Inr e, s1)"
    "get ''content'' e = Some content"
    "\<forall>k. k \<noteq> ''content'' \<longrightarrow> get k e = map_of (merge_unsigned event info m) k"
    using harvest_plain [OF assms(4), of "JObj (merge_unsigned event info m)" E s1] assms(3)
    by (auto simp: merge_unsigned_other)
  have "decrypt_event E room kind event s = (Inr e, s1)"
    using assms(1,2,5,6) v h(1)
    by (simp add: decrypt_event_def decrypt_def look_def bindE_def attempt_def call_def retE_def Let_def)
  then show ?thesis using h(2,3) by (auto simp: merge_unsigned_other)
qed

section \<open>Every event in its place\<close>

lemma pointer_jreplace:
  "list_all (\<lambda>k. parse_index k = None) ks \<Longrightarrow> pointer ks j = Some y \<Longrightarrow> pointer ks (jreplace ks x j) = Some x"
proof (induction ks arbitrary: j)
  case (Cons k ks)
  then show ?case by (cases j) (auto simp: pointer.simps(2) split: option.splits)
qed simp

lemma timeline_keys: "list_all (\<lambda>k. parse_index k = None) [''timeline'', ''events'']"
  by code_simp

lemma process_room_events:
  fixes s :: "'w ctx"
  assumes "process_room E sec rid room s = (Inr room', t)"
    and "array_at [''timeline'', ''events''] room = Some es"
  shows "\<exists>es'. array_at [''timeline'', ''events''] room' = Some es' \<and>
    list_all2 (\<lambda>e e'. \<exists>u v. same_account s u \<and> decrypt_event E rid Repairable e u = (Inr e', v)) es es'"
proof -
  obtain u1 s1 u2 s2 u3 s3 where s: "(writes (on_rooms (if sec = ''join'' then note_joined rid (get ''unread_notifications'' room)
        else note_left rid)) :: ('w, unit) eff) s = (Inr u1, s1)" "scan_at E rid [''state'', ''events''] room s1 = (Inr u2, s2)"
      "scan_at E rid [''timeline'', ''events''] room s2 = (Inr u3, s3)"
    and d: "decrypt_at E rid [''timeline'', ''events''] room s3 = (Inr room', t)"
    using assms(1) unfolding process_room_def bindE_eq_Inr_iff by (elim exE conjE) (rule that)
  have "same_account s s1" using s(1) by (auto simp: writes_def same_account_def)
  then have s3: "same_account s s3"
    using doesD [OF silent.does_scan_at s(2)] doesD [OF silent.does_scan_at s(3)]
    by (auto simp: same_account_def)
  obtain es' where es': "decrypt_events E rid es s3 = (Inr es', t)"
    "room' = jreplace [''timeline'', ''events''] (JArr es') room"
    using d assms(2) by (auto simp: decrypt_at_def bindE_eq_Inr_iff retE_def)
  have "list_all2 (\<lambda>e e'. \<exists>u v. (trace u = trace s3 \<and> same_account s3 u) \<and>
      decrypt_event E rid Repairable e u = (Inr e', v)) es es'"
    by (rule mapE_pointwise [OF silent.stepwise_axioms silent.does_decrypt_event es'(1) [unfolded decrypt_events_def]])
  then have "list_all2 (\<lambda>e e'. \<exists>u v. same_account s u \<and> decrypt_event E rid Repairable e u = (Inr e', v)) es es'"
    by (rule list_all2_mono) (use s3 in \<open>auto simp: same_account_def\<close>)
  moreover have "array_at [''timeline'', ''events''] room' = Some es'"
    using assms(2) es'(2) pointer_jreplace [OF timeline_keys, of room _ "JArr es'"]
    by (auto simp: array_at_def bind_eq_Some_conv)
  ultimately show ?thesis by blast
qed

lemma process_section_rooms:
  assumes "process_section E sec v s = (Inr v', t)" and "get sec v = Some (JObj rs)"
  shows "\<exists>rs'. get sec v' = Some (JObj rs') \<and> (\<forall>rid room. map_of rs rid = Some room \<longrightarrow>
    (\<exists>room'. map_of rs' rid = Some room' \<and> (if is_room_id (env_codec E) rid
       then \<exists>u w. same_account s u \<and> process_room E sec rid room u = (Inr room', w) else room' = room)))"
proof -
  define step where "step = (\<lambda>(room_id, room). if is_room_id (env_codec E) room_id
       then bindE (process_room E sec room_id room) (\<lambda>room'. retE (room_id, room'))
       else retE (room_id, room))"
  obtain rs' where m: "mapE step rs s = (Inr rs', t)" "v' = jput sec (JObj rs') v"
    using assms by (auto simp: process_section_def bindE_eq_Inr_iff retE_def step_def)
  have "does (\<lambda>s t. trace t = trace s \<and> same_account s t) (step p)" for p
    unfolding step_def by (intro silent.does_basic silent.does_process_room)
  then have "list_all2 (\<lambda>p q. \<exists>u w. (trace u = trace s \<and> same_account s u) \<and> step p u = (Inr q, w)) rs rs'"
    using mapE_pointwise [OF silent.stepwise_axioms _ m(1)] by blast
  then have "list_all2 (\<lambda>p q. fst q = fst p \<and> (if is_room_id (env_codec E) (fst p)
       then \<exists>u w. same_account s u \<and> process_room E sec (fst p) (snd p) u = (Inr (snd q), w)
       else snd q = snd p)) rs rs'"
    by (rule list_all2_mono) (auto simp: step_def bindE_eq_Inr_iff retE_def split: if_splits prod.splits)
  then have "\<exists>room'. map_of rs' rid = Some room' \<and> (if is_room_id (env_codec E) rid
       then \<exists>u w. same_account s u \<and> process_room E sec rid room u = (Inr room', w) else room' = room)"
    if "map_of rs rid = Some room" for rid room
    using list_all2_map_of [OF _ that, of "\<lambda>rid room room'. if is_room_id (env_codec E) rid
       then \<exists>u w. same_account s u \<and> process_room E sec rid room u = (Inr room', w) else room' = room" rs']
    by blast
  moreover have "is_object v" using assms(2) by (cases v) (auto simp: is_object_def)
  ultimately show ?thesis using m(2) by (auto simp: get_jput)
qed

text \<open>Repairs come after what the homeserver delivered, in every room.\<close>

lemma joined_events_walk: "joined_events rid body =
    elements (walk [''timeline'', ''events''] (idx (walk [''rooms'', ''join''] body) rid))"
  by (simp add: joined_events_def joined_path_def)

text \<open>Reading by \<open>value[k]\<close> and by \<open>pointer\<close> agree where there is an array to read.\<close>

lemma elements_some: "elements j \<noteq> [] \<Longrightarrow> j = JArr (elements j)"
  by (cases j) (auto simp: elements_def)

lemma idx_some: "idx j k \<noteq> JNull \<Longrightarrow> get k j = Some (idx j k)"
  by (cases "get k j") (auto simp: idx_def)

lemma get_pointer: "parse_index k = None \<Longrightarrow> pointer [k] j = get k j"
  by (cases j) (auto simp: pointer.simps(2) split: option.splits)

lemma array_at_walk:
  assumes "array_at [''timeline'', ''events''] room = Some es"
  shows "elements (walk [''timeline'', ''events''] room) = es"
proof -
  have p: "pointer (''timeline'' # [''events'']) room = Some (JArr es)"
    using assms by (auto simp: array_at_def bind_eq_Some_conv)
  have "pointer (''timeline'' # ks) room = Option.bind (get ''timeline'' room) (pointer ks)" for ks
    using timeline_keys by (cases room) (simp_all add: pointer.simps(2) split: option.split)
  then obtain tl where "get ''timeline'' room = Some tl" "pointer [''events''] tl = Some (JArr es)"
    using p by (auto simp: bind_eq_Some_conv)
  moreover have "pointer [''events''] tl = get ''events'' tl" by (rule get_pointer) (use timeline_keys in simp)
  ultimately show ?thesis by (simp add: elements_def)
qed

lemma joined_events_some:
  assumes "joined_events rid body \<noteq> []"
  shows "\<exists>v rs room es. get ''rooms'' body = Some v \<and> get ''join'' v = Some (JObj rs) \<and>
    map_of rs rid = Some room \<and> array_at [''timeline'', ''events''] room = Some es \<and> es = joined_events rid body"
proof -
  define room where "room = idx (walk [''rooms'', ''join''] body) rid"
  have es: "walk [''timeline'', ''events''] room = JArr (joined_events rid body)"
    unfolding room_def joined_events_walk by (rule elements_some [OF assms [unfolded joined_events_walk]])
  then have i: "idx (idx room ''timeline'') ''events'' = JArr (joined_events rid body)" by simp
  have "idx (idx room ''timeline'') ''events'' \<noteq> JNull" by (simp only: i json.distinct not_False_eq_True)
  from idx_some [OF this] have e: "get ''events'' (idx room ''timeline'') = Some (JArr (joined_events rid body))"
    by (simp only: i)
  have "idx room ''timeline'' \<noteq> JNull" using i by auto
  from idx_some [OF this] e obtain tl where "get ''timeline'' room = Some tl"
    "get ''events'' tl = Some (JArr (joined_events rid body))" by blast
  then have at: "array_at [''timeline'', ''events''] room = Some (joined_events rid body)"
    by (auto simp: array_at_def get_Some_JObj)
  have "room \<noteq> JNull" using i by auto
  from idx_some [OF this [unfolded room_def]]
  have "get rid (idx (idx body ''rooms'') ''join'') = Some room"
    by (simp only: room_def walk.simps)
  then obtain rs where rs: "idx (idx body ''rooms'') ''join'' = JObj rs" "map_of rs rid = Some room"
    by (auto simp: get_Some_JObj)
  have "idx (idx body ''rooms'') ''join'' \<noteq> JNull" by (simp add: rs(1))
  from idx_some [OF this] have "get ''join'' (idx body ''rooms'') = Some (JObj rs)" by (simp only: rs(1))
  moreover have "idx body ''rooms'' \<noteq> JNull" using rs(1) by auto
  note idx_some [OF this]
  ultimately show ?thesis using at rs(2) by blast
qed

lemma push_keeps_events:
  assumes "push_into_sync u room ev body = Some (pushed, body')"
  shows "prefix (joined_events rid body) (joined_events rid body')"
proof (cases "pushed")
  case True
  show ?thesis
  proof (cases "rid = room")
    case True
    have "walk (joined_path room @ [''timeline'', ''events'']) body' = JArr (joined_events room body @ [ev])"
      using push_into_sync_effect [OF assms] \<open>pushed\<close> by (simp add: joined_events_def)
    then have "joined_events room body' = joined_events room body @ [ev]"
      by (simp add: joined_events_def elements_def)
    then show ?thesis using True by simp
  next
    case False
    then have "get rid (walk [''rooms'', ''join''] body') = get rid (walk [''rooms'', ''join''] body)"
      using push_into_sync_effect [OF assms] \<open>pushed\<close> by simp
    then show ?thesis by (simp add: joined_events_walk idx_def del: walk.simps)
  qed
qed (use push_into_sync_effect [OF assms] in auto)

lemma inject_loop_keeps_events:
  "inject_loop E delivered rs n body s = Some (Inr (m, body'), t) \<Longrightarrow>
    prefix (joined_events rid body) (joined_events rid body')"
proof (induction rs arbitrary: n body s)
  case (Cons rp rs)
  show ?case
  proof (cases "pr_event_id rp \<in> set delivered")
    case True
    then show ?thesis using Cons by simp
  next
    case False
    obtain d s1 where d: "decrypt E (pr_room_id rp) (pr_event rp) s = (Inr d, s1)"
      using infallible_decrypt unfolding infallible_def by blast
    show ?thesis
    proof (cases d)
      case (Decrypted plain)
      then show ?thesis
        using Cons.prems False d
        by (auto simp: bindP_def liftP_def split: option.splits prod.splits
            dest!: Cons.IH dest: push_keeps_events [of _ _ _ _ _ _ rid] intro: prefix_order.trans)
    qed (use Cons.prems False d in \<open>auto simp: bindP_def liftP_def writes_def dest!: Cons.IH\<close>)
  qed
qed (simp add: liftP_def retE_def)

lemma inject_keeps_events:
  assumes "inject E body s = Some (Inr (n, body'), t)"
  shows "prefix (joined_events rid body) (joined_events rid body')"
  using assms inject_loop_keeps_events
  by (auto simp: inject_def Let_def split: prod.splits if_splits)

lemma process_rooms_events:
  assumes "process_rooms E body s = (Inr body', t)" and "joined_events rid body \<noteq> []"
    and "is_room_id (env_codec E) rid"
  shows "list_all2 (\<lambda>e e'. \<exists>u v. same_account s u \<and> decrypt_event E rid Repairable e u = (Inr e', v))
    (joined_events rid body) (joined_events rid body')"
proof -
  obtain v rs room es where b: "get ''rooms'' body = Some v" "get ''join'' v = Some (JObj rs)"
      "map_of rs rid = Some room" "array_at [''timeline'', ''events''] room = Some es" "es = joined_events rid body"
    using joined_events_some [OF assms(2)] by blast
  obtain v1 v2 s1 where p: "process_section E ''join'' v s = (Inr v1, s1)"
      "process_section E ''leave'' v1 s1 = (Inr v2, t)" "body' = jput ''rooms'' v2 body"
    using assms(1) b(1) by (auto simp: process_rooms_def bindE_eq_Inr_iff retE_def)
  obtain rs' room' u w where r: "get ''join'' v1 = Some (JObj rs')" "map_of rs' rid = Some room'"
      "same_account s u" "process_room E ''join'' rid room u = (Inr room', w)"
    using process_section_rooms [OF p(1) b(2)] b(3) assms(3) by fastforce
  have "get ''join'' v2 = Some (JObj rs')"
    using p(2) r(1) by (auto simp: process_section_def bindE_eq_Inr_iff retE_def get_jput split: option.splits)
  moreover have "is_object body" using b(1) by (cases body) (auto simp: is_object_def)
  ultimately have "idx (walk [''rooms'', ''join''] body') rid = room'"
    using p(3) r(2) by (simp add: get_jput)
  moreover obtain es' where es': "array_at [''timeline'', ''events''] room' = Some es'"
      "list_all2 (\<lambda>e e'. \<exists>u' v. same_account u u' \<and> decrypt_event E rid Repairable e u' = (Inr e', v)) es es'"
    using process_room_events [OF r(4) b(4)] by blast
  ultimately have "joined_events rid body' = es'" by (simp add: joined_events_walk array_at_walk del: walk.simps)
  moreover have "list_all2 (\<lambda>e e'. \<exists>u v. same_account s u \<and> decrypt_event E rid Repairable e u = (Inr e', v)) es es'"
    by (rule list_all2_mono [OF es'(2)]) (use r(3) in \<open>auto simp: same_account_def\<close>)
  ultimately show ?thesis using b(5) by simp
qed

lemma process_sync_events:
  assumes "process_sync_body E body s = Some (Inr body', t)" and "is_room_id (env_codec E) rid"
  shows "\<exists>es'. prefix es' (joined_events rid body') \<and>
    list_all2 (\<lambda>e e'. \<exists>u v. same_account s u \<and> decrypt_event E rid Repairable e u = (Inr e', v))
      (joined_events rid body) es'"
proof (cases "joined_events rid body = []")
  case False
  obtain b1 s1 n where p: "process_rooms E body s = (Inr b1, s1)" "inject E b1 s1 = Some (Inr (n, body'), t)"
    using assms(1)
    by (auto simp: process_sync_body_def bindP_def liftP_def retE_def split: option.splits prod.splits sum.splits)
  show ?thesis
    using process_rooms_events [OF p(1) False assms(2)] inject_keeps_events [OF p(2)] by blast
qed simp

text \<open>
  C16: in every joined room of a sync response the client finds each event at the position the
  homeserver gave it: an event that is not encrypted as it came, an encrypted one as decrypting
  it makes it (the plaintext, or the placeholder). Repairs of earlier placeholders come only
  after them.
\<close>

theorem sync_keeps_order:
  assumes "process_sync_body E body s = Some (Inr body', t)" and "is_room_id (env_codec E) rid"
    and "i < length (joined_events rid body)"
  shows "i < length (joined_events rid body') \<and>
    (\<not> encrypted_event (joined_events rid body ! i) \<longrightarrow> joined_events rid body' ! i = joined_events rid body ! i) \<and>
    (\<exists>u v. same_account s u \<and>
      decrypt_event E rid Repairable (joined_events rid body ! i) u = (Inr (joined_events rid body' ! i), v))"
proof -
  obtain es' where es': "prefix es' (joined_events rid body')"
      "list_all2 (\<lambda>e e'. \<exists>u v. same_account s u \<and> decrypt_event E rid Repairable e u = (Inr e', v))
        (joined_events rid body) es'"
    using process_sync_events [OF assms(1,2)] by blast
  have len: "length (joined_events rid body) = length es'" using es'(2) by (rule list_all2_lengthD)
  have nth: "joined_events rid body' ! i = es' ! i" "i < length (joined_events rid body')"
    using es'(1) assms(3) len by (auto simp: prefix_def nth_append)
  obtain u v where d: "same_account s u" "decrypt_event E rid Repairable (joined_events rid body ! i) u = (Inr (es' ! i), v)"
    using list_all2_nthD [OF es'(2) assms(3)] by blast
  have "\<not> encrypted_event (joined_events rid body ! i) \<Longrightarrow> es' ! i = joined_events rid body ! i"
    using d(2) by (simp add: decrypt_plain)
  then show ?thesis unfolding nth(1) using nth(2) d by blast
qed

section \<open>From client to client\<close>

text \<open>
  Megolm: what the sender's machine encrypted for a room, the receiver's machine (it has the
  session's key) decrypts to an event of that type and content.
\<close>

definition megolm_pair :: "('w, 'y) env_scheme \<Rightarrow> string \<Rightarrow> ('v, 'z) env_scheme \<Rightarrow> string \<Rightarrow> string \<Rightarrow> bool" where
  "megolm_pair ES hs ER hr room \<longleftrightarrow> (\<forall>ty x w cipher w' c ev v.
     sdk_encrypt ES hs room ty x w = (Inr cipher, w') \<and> json_parse (env_codec ES) cipher = Some c \<and>
     encrypted_event ev \<and> get ''content'' ev = Some c \<longrightarrow>
     (\<exists>plain info m v'. sdk_decrypt ER hr ev room v = (Inr (SdkDecrypted plain info), v') \<and>
        json_parse (env_codec ER) plain = Some (JObj m) \<and> map_of m ''type'' = Some (JStr ty) \<and>
        map_of m ''content'' = Some x))"

text \<open>A parsed value survives being printed (\<open>serde_json\<close>).\<close>

definition json_law :: "codec \<Rightarrow> bool" where
  "json_law cd \<longleftrightarrow> (\<forall>b j. json_parse cd b = Some j \<longrightarrow> json_parse cd (json_print cd j) = Some j)"

lemma sent_event_content:
  assumes "is_room_id (env_codec ES) room" and "ty \<noteq> ''m.room.encrypted''"
    and "is_room_encrypted ES room s = (Inr True, s0)"
    and "handle_send ES req room ty txn s = Some (Inr resp, t)"
    and "json_parse (env_codec ES) (rq_body req) = Some content" and "plain_message content"
    and "json_law (env_codec ES)"
  shows "\<exists>w cipher w' c. sdk_encrypt ES (olm (acct s)) room ty content w = (Inr cipher, w') \<and>
    json_parse (env_codec ES) cipher = Some c \<and>
    json_parse (env_codec ES) (hr_body (last (trace t))) = Some c \<and>
    last (trace t) = json_http ES ''PUT'' (encrypted_send_path (env_codec ES) room txn) (token (acct s)) (Some c)"
proof -
  obtain w0 tr content' cipher w wire where "json_parse (env_codec ES) (rq_body req) = Some content'"
    "sdk_encrypt ES (olm (acct s)) room ty (rewrite_content_for_encrypted_room ES (acct s0) content') w0 = (Inr cipher, w)"
    "json_parse (env_codec ES) cipher = Some wire"
    "trace t = tr @ [json_http ES ''PUT'' (encrypted_send_path (env_codec ES) room txn) (token (acct s)) (Some wire)]"
    using send_in_encrypted_room [OF assms(1-4)] by (simp only: sum.disc simp_thms) blast
  then show ?thesis
    using assms(5-7) by (auto simp: rewrite_plain json_http_def json_law_def)
qed

lemma delivered_event_shown:
  assumes "megolm_pair ES hs ER (olm (acct r)) room" and "sdk_encrypt ES hs room ty content w = (Inr cipher, w')"
    and "json_parse (env_codec ES) cipher = Some c" and "plain_message content"
    and "i < length (joined_events room body)" and "encrypted_event (joined_events room body ! i)"
    and "get ''content'' (joined_events room body ! i) = Some c"
    and "parses_as ER ''Raw'' (joined_events room body ! i)" and "is_room_id (env_codec ER) room"
    and "process_sync_body ER body r = Some (Inr body', r')"
  shows "i < length (joined_events room body') \<and>
    get_str ''type'' (joined_events room body' ! i) = Some ty \<and>
    get ''content'' (joined_events room body' ! i) = Some content"
proof -
  let ?ev = "joined_events room body ! i"
  obtain es' where es': "prefix es' (joined_events room body')"
      "list_all2 (\<lambda>e e'. \<exists>u v. same_account r u \<and> decrypt_event ER room Repairable e u = (Inr e', v))
        (joined_events room body) es'"
    using process_sync_events [OF assms(10,9)] by blast
  obtain u v where u: "same_account r u" "decrypt_event ER room Repairable ?ev u = (Inr (es' ! i), v)"
    using list_all2_nthD [OF es'(2) assms(5)] by blast
  have olm: "olm (acct u) = olm (acct r)" using u(1) by (simp add: same_account_def)
  obtain plain info m v' where d: "sdk_decrypt ER (olm (acct u)) ?ev room (world u) = (Inr (SdkDecrypted plain info), v')"
      "json_parse (env_codec ER) plain = Some (JObj m)" "map_of m ''type'' = Some (JStr ty)"
      "map_of m ''content'' = Some content"
    using assms(1,2,3,6,7) unfolding megolm_pair_def olm by blast
  obtain e t' where e: "decrypt_event ER room Repairable ?ev u = (Inr e, t')" "get ''content'' e = Some content"
      "\<forall>k. k \<noteq> ''content'' \<and> k \<noteq> ''unsigned'' \<longrightarrow> get k e = map_of m k"
    using decrypt_event_plain [OF d(1,2,4) assms(4)] assms(6,8) unfolding encrypted_event_def by blast
  have "es' ! i = e" using e(1) u(2) by simp
  moreover have "joined_events room body' ! i = es' ! i" "i < length (joined_events room body')"
    using es' assms(5) list_all2_lengthD [OF es'(2)] by (auto simp: prefix_def nth_append)
  ultimately show ?thesis using e(2,3) d(3) by (simp add: get_str_def)
qed

text \<open>
  C2: a message without attachments that one user's client sends into an encrypted room arrives
  as it was sent: when the homeserver delivers what the sender's proxy put on the wire, as an
  event anywhere in the room's timeline, the receiver's client finds, at that event's position,
  an event of the type and with the content the sender's client sent, whatever else the sync
  response holds.
\<close>

theorem sent_message_arrives:
  assumes "is_room_id (env_codec ES) room" and "ty \<noteq> ''m.room.encrypted''"
    and "is_room_encrypted ES room s = (Inr True, s0)"
    and "handle_send ES req room ty txn s = Some (Inr resp, t)"
    and "json_parse (env_codec ES) (rq_body req) = Some content" and "plain_message content"
    and "json_law (env_codec ES)" and "megolm_pair ES (olm (acct s)) ER (olm (acct r)) room"
    and "i < length (joined_events room body)" and "encrypted_event (joined_events room body ! i)"
    and "get ''content'' (joined_events room body ! i) = json_parse (env_codec ES) (hr_body (last (trace t)))"
    and "parses_as ER ''Raw'' (joined_events room body ! i)" and "is_room_id (env_codec ER) room"
    and "process_sync_body ER body r = Some (Inr body', r')"
  shows "i < length (joined_events room body') \<and>
    get_str ''type'' (joined_events room body' ! i) = Some ty \<and>
    get ''content'' (joined_events room body' ! i) = Some content"
proof -
  obtain w cipher w' c where c: "sdk_encrypt ES (olm (acct s)) room ty content w = (Inr cipher, w')"
      "json_parse (env_codec ES) cipher = Some c" "json_parse (env_codec ES) (hr_body (last (trace t))) = Some c"
    using sent_event_content [OF assms(1-7)] by blast
  show ?thesis
    by (rule delivered_event_shown [OF assms(8) c(1,2) assms(6,9,10) _ assms(12-14)]) (simp add: assms(11) c(3))
qed

text \<open>Two accounts whose machines know one message, and the response that delivers it.\<close>

definition hello_content :: json where
  "hello_content = JObj [(''body'', JStr ''hi'')]"

definition hello_cipher :: json where
  "hello_cipher = JObj [(''ciphertext'', JStr ''x'')]"

definition talk_env :: "unit env" where
  "talk_env = send_env\<lparr>
     env_codec := ref_codec [(''J'', JObj [(''joined'', JObj [(''@a:hs'', JObj [])])]),
       (''hello'', hello_content), (''secret'', hello_cipher),
       (''P'', JObj [(''content'', hello_content), (''type'', JStr ''m.room.message'')])],
     sdk_encrypt := (\<lambda>h r t c w. if t = ''m.room.message'' \<and> c = hello_content then (Inr ''secret'', w)
       else (Inl ''unknown'', w)),
     sdk_decrypt := (\<lambda>h e r w. if get ''content'' e = Some hello_cipher then (Inr (SdkDecrypted ''P'' JNull), w)
       else (Inr (SdkUnableToDecrypt ''MissingRoomKey'' None), w))\<rparr>"

definition delivery_sync :: json where
  "delivery_sync = JObj [(''rooms'', JObj [(''join'', JObj [(''!r'', JObj [(''timeline'',
     JObj [(''events'', JArr [JObj [(''type'', JStr ''m.room.name'')],
       JObj [(''content'', hello_cipher), (''type'', JStr ''m.room.encrypted'')]])])])])])]"

lemma talk_idle: "pump talk_env s = Some (Inr (), s)"
  by (rule pump_idle) (simp_all add: talk_env_def send_env_def ref_env_def)

lemma talk_sends:
  "case handle_send talk_env sample_send ''!r'' ''m.room.message'' ''1'' ref_ctx of
      None \<Rightarrow> False | Some (r, t) \<Rightarrow> \<not> isl r \<and> hr_body (last (trace t)) = ''secret''"
  unfolding handle_send_def wire_content_def encrypt_content_def prepare_room_def bindP_def mapErrP_def
    look_def talk_idle sample_send_bytes
  by code_simp

lemma talk_room: "case is_room_encrypted talk_env ''!r'' ref_ctx of (r, t) \<Rightarrow> r = Inr True"
  by code_simp

lemma talk_delivers:
  "case process_sync_body talk_env delivery_sync ref_ctx of None \<Rightarrow> False | Some (r, t) \<Rightarrow> \<not> isl r"
  by code_simp

lemma delivered_ok: "\<exists>b t. process_sync_body talk_env delivery_sync ref_ctx = Some (Inr b, t)"
proof (cases "process_sync_body talk_env delivery_sync ref_ctx")
  case (Some p)
  then show ?thesis using talk_delivers by (cases p; cases "fst p") auto
qed (use talk_delivers in simp)

lemma talk_json: "json_law (env_codec talk_env)"
  unfolding json_law_def talk_env_def ref_codec_def
  by (auto simp: hello_content_def hello_cipher_def split: if_splits)

lemma talk_megolm: "megolm_pair talk_env h talk_env h' room"
  unfolding megolm_pair_def talk_env_def
  by (auto simp: ref_codec_def send_env_def split: if_splits)

lemma delivery_events: "joined_events ''!r'' delivery_sync = [JObj [(''type'', JStr ''m.room.name'')],
       JObj [(''content'', hello_cipher), (''type'', JStr ''m.room.encrypted'')]]"
  by code_simp

lemma hello_plain: "plain_message hello_content"
  by code_simp

lemma talk_ok: "is_room_id (env_codec talk_env) ''!r''" "parses_as talk_env ty j"
  "json_parse (env_codec talk_env) (rq_body sample_send) = Some hello_content"
  "json_parse (env_codec talk_env) ''secret'' = Some hello_cipher"
  by (simp_all add: talk_env_def ref_codec_def send_env_def ref_env_def sample_send_def)

theorem sync_keeps_order_witness:
  "\<exists>b t. process_sync_body talk_env delivery_sync ref_ctx = Some (Inr b, t) \<and>
    joined_events ''!r'' b ! 0 = JObj [(''type'', JStr ''m.room.name'')]"
proof -
  obtain b t where p: "process_sync_body talk_env delivery_sync ref_ctx = Some (Inr b, t)"
    using delivered_ok by blast
  show ?thesis
    using sync_keeps_order [OF p talk_ok(1), of 0] p
    by (auto simp: delivery_events encrypted_event_def get_str_def)
qed

theorem sent_message_arrives_witness:
  "\<exists>resp t b r'. handle_send talk_env sample_send ''!r'' ''m.room.message'' ''1'' ref_ctx = Some (Inr resp, t) \<and>
    process_sync_body talk_env delivery_sync ref_ctx = Some (Inr b, r') \<and>
    get ''content'' (joined_events ''!r'' b ! 1) = Some hello_content"
proof -
  obtain resp t where h: "handle_send talk_env sample_send ''!r'' ''m.room.message'' ''1'' ref_ctx = Some (Inr resp, t)"
    and body: "hr_body (last (trace t)) = ''secret''"
    using talk_sends by (auto split: option.splits simp: isl_def) (metis Inr_Inl_False obj_sumE)
  obtain s0 where k: "is_room_encrypted talk_env ''!r'' ref_ctx = (Inr True, s0)"
    using talk_room by (auto split: prod.splits)
  obtain b r' where p: "process_sync_body talk_env delivery_sync ref_ctx = Some (Inr b, r')"
    using delivered_ok by blast
  have "get ''content'' (joined_events ''!r'' b ! 1) = Some hello_content"
    using sent_message_arrives [OF talk_ok(1) _ k h talk_ok(3) hello_plain talk_json talk_megolm _ _ _ talk_ok(2,1) p, of 1]
    by (simp add: delivery_events encrypted_event_def get_str_def body talk_ok)
  then show ?thesis using h p by blast
qed

end
