(* ===== verification/Homeserver.thy ===== *)
theory Homeserver
  imports Routes
begin

text \<open>
  The homeserver of the repository's own tests (\<open>HsState\<close> and \<open>FakeHomeserver\<close> of
  \<open>src/src/testutil.rs\<close>): enough of the client-server API for proxies to exchange keys and
  messages through it. A request is a function of the homeserver's state; \<open>None\<close> is a panic.
  Hash maps are association lists (a key of one that is new comes last, the order is visible only where
  the code iterates over one), B-tree maps whose order is visible are sorted ones. The stream
  position (\<open>seq\<close>, a \<open>u64\<close> that counts the changes) is a natural number.
\<close>

section \<open>State\<close>

text \<open>One request as the homeserver saw it.\<close>

record recorded =
  rc_method :: string
  rc_path :: string
  rc_query :: string
  rc_headers :: headers
  rc_content_type :: "string option"
  rc_body :: string

record hs_medium =
  hm_content_type :: "string option"
  hm_filename :: "string option"
  hm_bytes :: string

record stored_event =
  se_seq :: nat
  se_sender_device :: string
  se_txn_id :: string
  se_json :: json

record hs_room =
  ro_encryption :: "json option"
  ro_members :: "string list"
  ro_timeline :: "stored_event list"

record key_backup =
  kb_version :: string
  kb_auth_data :: json
  kb_rooms :: "(string \<times> fields) list"

type_synonym hs_device = "string \<times> string"

record hs_state =
  hs_seq :: nat
  hs_tokens :: "(string \<times> hs_device) list"
  hs_logins :: "(string \<times> (string \<times> string)) list"
  hs_device_keys :: "(string \<times> fields) list"
  hs_one_time_keys :: "(hs_device \<times> fields) list"
  hs_fallback_keys :: "(hs_device \<times> fields) list"
  hs_device_changes :: "(nat \<times> string) list"
  hs_to_device :: "(hs_device \<times> (nat \<times> json) list) list"
  hs_idle :: bool
  hs_well_known :: "json option"
  hs_fail_keys_query :: bool
  hs_omit_counts :: bool
  hs_unlisted_zero :: bool
  hs_rooms :: "(string \<times> hs_room) list"
  hs_media :: "(string \<times> hs_medium) list"
  hs_account_data :: "((string \<times> string) \<times> json) list"
  hs_cross_signing :: "(string \<times> json) list"
  hs_backup :: "key_backup option"
  hs_requests :: "recorded list"
  hs_drop_to_device :: bool
  hs_hold_to_device :: bool
  hs_held_to_device :: "(hs_device \<times> json) list"

definition hs_init :: hs_state where
  "hs_init = \<lparr>hs_seq = 0, hs_tokens = [], hs_logins = [], hs_device_keys = [], hs_one_time_keys = [],
     hs_fallback_keys = [], hs_device_changes = [], hs_to_device = [], hs_idle = False, hs_well_known = None,
     hs_fail_keys_query = False, hs_omit_counts = False, hs_unlisted_zero = False, hs_rooms = [], hs_media = [],
     hs_account_data = [], hs_cross_signing = [], hs_backup = None, hs_requests = [],
     hs_drop_to_device = False, hs_hold_to_device = False, hs_held_to_device = []\<rparr>"

text \<open>\<open>map.get(k).unwrap_or_default()\<close>, and what \<open>map.entry(k).or_default()\<close> finds.\<close>

definition found_or :: "'v \<Rightarrow> 'k \<Rightarrow> ('k \<times> 'v) list \<Rightarrow> 'v" where
  "found_or d k m = (case map_of m k of None \<Rightarrow> d | Some v \<Rightarrow> v)"

text \<open>\<open>BTreeMap::insert\<close>.\<close>

fun sorted_put :: "string \<Rightarrow> 'v \<Rightarrow> (string \<times> 'v) list \<Rightarrow> (string \<times> 'v) list" where
  "sorted_put k v [] = [(k, v)]"
| "sorted_put k v ((k', v') # m) =
     (if k = k' then (k, v) # m
      else if k' < k then (k', v') # sorted_put k v m
      else (k, v) # (k', v') # m)"

text \<open>\<open>value[key].as_object().into_iter().flatten()\<close>.\<close>

definition obj_entries :: "json \<Rightarrow> fields" where
  "obj_entries j = (case as_object j of None \<Rightarrow> [] | Some m \<Rightarrow> m)"

definition hs_nat :: "nat \<Rightarrow> json" where
  "hs_nat n = JNum (PosInt (of_nat n))"

definition hs_server_name :: string where
  "hs_server_name = ''hs.test''"

section \<open>Answers\<close>

definition hs_json :: "codec \<Rightarrow> nat \<Rightarrow> json \<Rightarrow> response" where
  "hs_json cd status body =
     \<lparr>rs_status = status, rs_headers = [(''content-type'', ''application/json'')], rs_body = json_print cd body\<rparr>"

definition matrix_error :: "codec \<Rightarrow> nat \<Rightarrow> string \<Rightarrow> response" where
  "matrix_error cd status errcode =
     hs_json cd status (mk_obj [(''errcode'', JStr errcode), (''error'', JStr errcode)])"

definition hs_query_param :: "codec \<Rightarrow> string \<Rightarrow> string \<Rightarrow> string option" where
  "hs_query_param cd query name =
     (case List.map_filter (\<lambda>kv. Option.bind (split_once (CHR ''='') kv)
         (\<lambda>(k, v). if k = name then Some (dec cd v) else None)) (split_on (CHR ''&'') query) of
        [] \<Rightarrow> None
      | v # _ \<Rightarrow> Some v)"

text \<open>\<open>Recorded::json\<close>.\<close>

definition recorded_json :: "codec \<Rightarrow> recorded \<Rightarrow> json" where
  "recorded_json cd req = (case json_parse cd (rc_body req) of None \<Rightarrow> JNull | Some j \<Rightarrow> j)"

section \<open>Logins and media\<close>

definition hs_login :: "codec \<Rightarrow> json \<Rightarrow> hs_state \<Rightarrow> response \<times> hs_state" where
  "hs_login cd body st =
     (let user = (case Option.bind (pointer [''identifier'', ''user''] body) as_str of None \<Rightarrow> [] | Some u \<Rightarrow> u)
      in case map_of (hs_logins st) user of
        None \<Rightarrow> (matrix_error cd 403 ''M_FORBIDDEN'', st)
      | Some (assigned, tok) \<Rightarrow>
          (let device = (case as_str (idx body ''device_id'') of None \<Rightarrow> assigned | Some d \<Rightarrow> d)
           in (hs_json cd 200 (mk_obj [(''user_id'', JStr user), (''device_id'', JStr device),
                 (''access_token'', JStr tok)]),
               st\<lparr>hs_tokens := AList.update tok (user, device) (hs_tokens st)\<rparr>)))"

definition media_uri :: "nat \<Rightarrow> string" where
  "media_uri n = ''mxc://'' @ hs_server_name @ ''/media'' @ show_nat n"

definition hs_upload :: "codec \<Rightarrow> recorded \<Rightarrow> hs_state \<Rightarrow> response \<times> hs_state" where
  "hs_upload cd req st =
     (let n = Suc (hs_seq st); mxc = media_uri n;
          m = \<lparr>hm_content_type = rc_content_type req, hm_filename = hs_query_param cd (rc_query req) ''filename'',
            hm_bytes = rc_body req\<rparr>
      in (hs_json cd 200 (mk_obj [(''content_uri'', JStr mxc)]),
          st\<lparr>hs_seq := n, hs_media := AList.update mxc m (hs_media st)\<rparr>))"

definition hs_download :: "codec \<Rightarrow> string \<Rightarrow> string \<Rightarrow> hs_state \<Rightarrow> response" where
  "hs_download cd server media_id st =
     (case map_of (hs_media st) (''mxc://'' @ server @ ''/'' @ media_id) of
        None \<Rightarrow> matrix_error cd 404 ''M_NOT_FOUND''
      | Some m \<Rightarrow> \<lparr>rs_status = 200,
          rs_headers = [(''content-type'', case hm_content_type m of
            None \<Rightarrow> ''application/octet-stream'' | Some c \<Rightarrow> c)],
          rs_body = hm_bytes m\<rparr>)"

section \<open>Keys\<close>

definition otk_counts :: "string \<Rightarrow> string \<Rightarrow> hs_state \<Rightarrow> json" where
  "otk_counts user device st =
     (let count = length (found_or [] (user, device) (hs_one_time_keys st))
      in if count = 0 \<and> hs_unlisted_zero st then mk_obj []
         else mk_obj [(''signed_curve25519'', hs_nat count)])"

text \<open>\<open>store.entry(key).or_default().extend(..)\<close>.\<close>

definition extend_keys ::
  "hs_device \<Rightarrow> json option \<Rightarrow> (hs_device \<times> fields) list \<Rightarrow> (hs_device \<times> fields) list" where
  "extend_keys key field store =
     (case Option.bind field as_object of
        None \<Rightarrow> store
      | Some ks \<Rightarrow> AList.update key (fold (\<lambda>(k, v). obj_put k v) ks (found_or [] key store)) store)"

definition note_device_change :: "string \<Rightarrow> hs_state \<Rightarrow> hs_state" where
  "note_device_change user st =
     st\<lparr>hs_seq := Suc (hs_seq st), hs_device_changes := hs_device_changes st @ [(Suc (hs_seq st), user)]\<rparr>"

definition publish_device :: "string \<Rightarrow> string \<Rightarrow> json option \<Rightarrow> hs_state \<Rightarrow> hs_state" where
  "publish_device user device keys st =
     (case keys of
        None \<Rightarrow> st
      | Some dk \<Rightarrow> note_device_change user
          (st\<lparr>hs_device_keys := AList.update user (obj_put device dk (found_or [] user (hs_device_keys st)))
             (hs_device_keys st)\<rparr>))"

definition hs_keys_upload :: "codec \<Rightarrow> string \<Rightarrow> string \<Rightarrow> json \<Rightarrow> hs_state \<Rightarrow> response \<times> hs_state" where
  "hs_keys_upload cd user device body st =
     (let key = (user, device);
          st1 = publish_device user device (get ''device_keys'' body) st;
          st2 = st1\<lparr>hs_one_time_keys := extend_keys key (get ''one_time_keys'' body) (hs_one_time_keys st1),
            hs_fallback_keys := extend_keys key (get ''fallback_keys'' body) (hs_fallback_keys st1)\<rparr>
      in (hs_json cd 200 (mk_obj [(''one_time_key_counts'', otk_counts user device st2)]), st2))"

text \<open>The user-signing key is only visible to the user themselves.\<close>

definition hs_keys_query :: "codec \<Rightarrow> string \<Rightarrow> json \<Rightarrow> hs_state \<Rightarrow> response" where
  "hs_keys_query cd requester body st =
     (if hs_fail_keys_query st then matrix_error cd 500 ''M_UNKNOWN''
      else
        let users = map fst (obj_entries (idx body ''device_keys''));
            published = (\<lambda>k us. mk_obj (List.map_filter (\<lambda>u.
                map_option (\<lambda>keys. (u, idx keys k)) (map_of (hs_cross_signing st) u)) us))
        in hs_json cd 200 (mk_obj
          [(''device_keys'', mk_obj (map (\<lambda>u. (u, JObj (found_or [] u (hs_device_keys st)))) users)),
           (''failures'', mk_obj []),
           (''master_keys'', published ''master_key'' users),
           (''self_signing_keys'', published ''self_signing_key'' users),
           (''user_signing_keys'', published ''user_signing_key'' (filter (\<lambda>u. u = requester) users))]))"

text \<open>
  One device's key: the first one-time key, which is handed out only once, or the fallback key,
  which stays.
\<close>

definition claim_key :: "hs_device \<Rightarrow> hs_state \<Rightarrow> (string \<times> json) option \<times> hs_state" where
  "claim_key key st =
     (case map_of (hs_one_time_keys st) key of
        Some (k # ks) \<Rightarrow> (Some k, st\<lparr>hs_one_time_keys := AList.update key ks (hs_one_time_keys st)\<rparr>)
      | _ \<Rightarrow> (case map_of (hs_fallback_keys st) key of
            Some (k # ks) \<Rightarrow> (Some k, st)
          | _ \<Rightarrow> (None, st)))"

definition claim_step ::
  "string \<times> string \<Rightarrow> fields \<times> hs_state \<Rightarrow> fields \<times> hs_state" where
  "claim_step key p =
     (let (user, device) = key; (claimed, st) = p in
      case claim_key key st of
        (None, st') \<Rightarrow> (claimed, st')
      | (Some (key_id, value), st') \<Rightarrow>
          (obj_put user (JObj (obj_put device (mk_obj [(key_id, value)])
             (case map_of claimed user of Some (JObj m) \<Rightarrow> m | _ \<Rightarrow> []))) claimed, st'))"

text \<open>The devices a claim names, in the order of the request.\<close>

definition claimed_devices :: "json \<Rightarrow> hs_device list" where
  "claimed_devices body =
     concat (map (\<lambda>(user, devices). map (\<lambda>(device, _). (user, device)) (obj_entries devices))
       (obj_entries (idx body ''one_time_keys'')))"

definition hs_keys_claim :: "codec \<Rightarrow> json \<Rightarrow> hs_state \<Rightarrow> response \<times> hs_state" where
  "hs_keys_claim cd body st =
     (let (claimed, st') = fold claim_step (claimed_devices body) ([], st)
      in (hs_json cd 200 (mk_obj [(''one_time_keys'', JObj claimed), (''failures'', mk_obj [])]), st'))"

text \<open>A loop whose body may panic.\<close>

fun fold_opt :: "('a \<Rightarrow> 's \<Rightarrow> 's option) \<Rightarrow> 'a list \<Rightarrow> 's \<Rightarrow> 's option" where
  "fold_opt f [] s = Some s"
| "fold_opt f (x # xs) s = Option.bind (f x s) (fold_opt f xs)"

text \<open>\<open>device_keys["signatures"][signer][key_id] = signature\<close> for every uploaded signature.\<close>

definition merge_signatures :: "json \<Rightarrow> json \<Rightarrow> json option" where
  "merge_signatures sobj device_keys =
     fold_opt (\<lambda>(signer, signatures). fold_opt (\<lambda>(key_id, signature).
         jset [''signatures'', signer, key_id] signature) (obj_entries signatures))
       (obj_entries (idx sobj ''signatures'')) device_keys"

definition sign_object :: "string \<Rightarrow> string \<times> json \<Rightarrow> hs_state \<Rightarrow> hs_state option" where
  "sign_object user entry st =
     (let (oid, sobj) = entry in
      case Option.bind (map_of (hs_device_keys st) user) (\<lambda>d. map_of d oid) of
        None \<Rightarrow> Some st
      | Some device_keys \<Rightarrow>
          map_option (\<lambda>dk. note_device_change user
            (st\<lparr>hs_device_keys := AList.update user (obj_put oid dk (found_or [] user (hs_device_keys st)))
               (hs_device_keys st)\<rparr>)) (merge_signatures sobj device_keys))"

definition hs_signatures_upload :: "codec \<Rightarrow> json \<Rightarrow> hs_state \<Rightarrow> (response \<times> hs_state) option" where
  "hs_signatures_upload cd body st =
     map_option (Pair (hs_json cd 200 (mk_obj [(''failures'', mk_obj [])])))
       (fold_opt (\<lambda>(user, objects). fold_opt (sign_object user) (obj_entries objects)) (obj_entries body) st)"

section \<open>To-device messages\<close>

definition queue_to_device :: "hs_device \<Rightarrow> json \<Rightarrow> hs_state \<Rightarrow> hs_state" where
  "queue_to_device target event st =
     st\<lparr>hs_seq := Suc (hs_seq st),
       hs_to_device := AList.update target (found_or [] target (hs_to_device st) @ [(Suc (hs_seq st), event)])
         (hs_to_device st)\<rparr>"

definition hs_targets :: "string \<Rightarrow> string \<Rightarrow> string \<Rightarrow> hs_state \<Rightarrow> string list" where
  "hs_targets user device sender_device st =
     (if device = ''*''
      then map snd (filter (\<lambda>(u, d). u = user \<and> d \<noteq> sender_device) (map snd (hs_tokens st)))
      else [device])"

definition deliver_to_device :: "hs_device \<Rightarrow> json \<Rightarrow> hs_state \<Rightarrow> hs_state" where
  "deliver_to_device target event st =
     (if hs_hold_to_device st then st\<lparr>hs_held_to_device := hs_held_to_device st @ [(target, event)]\<rparr>
      else queue_to_device target event st)"

definition hs_send_to_device ::
  "codec \<Rightarrow> string \<Rightarrow> string \<Rightarrow> string \<Rightarrow> json \<Rightarrow> hs_state \<Rightarrow> response \<times> hs_state" where
  "hs_send_to_device cd sender sender_device event_type body st =
     (hs_json cd 200 (mk_obj []),
      if hs_drop_to_device st then st
      else fold (\<lambda>(user, devices). fold (\<lambda>(device, content). \<lambda>s.
             fold (\<lambda>target. deliver_to_device (user, target)
                 (mk_obj [(''type'', JStr event_type), (''sender'', JStr sender), (''content'', content)]))
               (hs_targets user device sender_device s) s)
           (obj_entries devices)) (obj_entries (idx body ''messages'')) st)"

section \<open>Rooms\<close>

text \<open>
  A stored event for a client: its transaction ID is only told to the device that sent it.
\<close>

definition client_event :: "string \<Rightarrow> bool \<Rightarrow> stored_event \<Rightarrow> json" where
  "client_event device with_room_id e =
     (let j = (if with_room_id then se_json e else jdel ''room_id'' (se_json e));
          unsigned = mk_obj [(''age'', hs_nat 1)];
          unsigned' = (if se_sender_device e = device then jput ''transaction_id'' (JStr (se_txn_id e)) unsigned
            else unsigned)
      in jput ''unsigned'' unsigned' j)"

definition event_ts :: "nat \<Rightarrow> json" where
  "event_ts n = JNum (PosInt (1700000000000 + of_nat n))"

definition new_event :: "nat \<Rightarrow> string \<Rightarrow> string \<Rightarrow> string \<Rightarrow> string \<Rightarrow> string \<Rightarrow> json \<Rightarrow> stored_event" where
  "new_event n room_id sender sender_device event_type txn_id content =
     \<lparr>se_seq = n, se_sender_device = sender_device, se_txn_id = txn_id,
      se_json = mk_obj [(''type'', JStr event_type), (''content'', content), (''sender'', JStr sender),
        (''event_id'', JStr (CHR 0x24 # ''event'' @ show_nat n)), (''origin_server_ts'', event_ts n),
        (''room_id'', JStr room_id)]\<rparr>"

text \<open>The room must exist.\<close>

definition append_event ::
  "string \<Rightarrow> string \<Rightarrow> string \<Rightarrow> string \<Rightarrow> string \<Rightarrow> json \<Rightarrow> hs_state \<Rightarrow> (string \<times> hs_state) option" where
  "append_event room_id sender sender_device event_type txn_id content st =
     (let n = Suc (hs_seq st) in
      case map_of (hs_rooms st) room_id of
        None \<Rightarrow> None
      | Some room \<Rightarrow> Some (CHR 0x24 # ''event'' @ show_nat n,
          st\<lparr>hs_seq := n, hs_rooms := AList.update room_id
            (room\<lparr>ro_timeline := ro_timeline room @
               [new_event n room_id sender sender_device event_type txn_id content]\<rparr>) (hs_rooms st)\<rparr>))"

definition event_position :: "string \<Rightarrow> hs_room \<Rightarrow> nat option" where
  "event_position event_id room =
     (let n = length (takeWhile (\<lambda>e. idx (se_json e) ''event_id'' \<noteq> JStr event_id) (ro_timeline room))
      in if n < length (ro_timeline room) then Some n else None)"

definition event_context :: "codec \<Rightarrow> string \<Rightarrow> hs_room \<Rightarrow> nat \<Rightarrow> response" where
  "event_context cd device room i =
     (let render = (\<lambda>es. JArr (map (client_event device True) es)) in
      hs_json cd 200 (mk_obj
        [(''event'', client_event device True (ro_timeline room ! i)),
         (''events_before'', render (take i (ro_timeline room))),
         (''events_after'', render (drop (Suc i) (ro_timeline room))),
         (''state'', JArr []), (''start'', JStr ''s''), (''end'', JStr ''e'')]))"

text \<open>\<open>room_api\<close>: like Synapse, nothing is revealed about rooms the user is not in.\<close>

definition room_api ::
  "codec \<Rightarrow> string \<Rightarrow> string \<Rightarrow> string list \<Rightarrow> recorded \<Rightarrow> string \<Rightarrow> string \<Rightarrow> hs_state \<Rightarrow>
   (response \<times> hs_state) option" where
  "room_api cd meth room_id path req user device st =
     (case map_of (hs_rooms st) room_id of
        None \<Rightarrow> Some (matrix_error cd 403 ''M_FORBIDDEN'', st)
      | Some room \<Rightarrow>
          if user \<notin> set (ro_members room) then Some (matrix_error cd 403 ''M_FORBIDDEN'', st)
          else if meth = ''GET'' \<and> path = [''state'', ''m.room.encryption''] then
            Some (case ro_encryption room of
                Some content \<Rightarrow> hs_json cd 200 content | None \<Rightarrow> matrix_error cd 404 ''M_NOT_FOUND'', st)
          else if meth = ''GET'' \<and> path \<noteq> [] \<and> hd path = ''state'' then
            Some (matrix_error cd 404 ''M_NOT_FOUND'', st)
          else if meth = ''GET'' \<and> path = [''joined_members''] then
            Some (hs_json cd 200 (mk_obj [(''joined'', mk_obj (map (\<lambda>m. (m, mk_obj [])) (ro_members room)))]), st)
          else if meth = ''GET'' \<and> path = [''messages''] then
            Some (hs_json cd 200 (mk_obj
              [(''chunk'', JArr (map (client_event device True) (rev (ro_timeline room)))),
               (''start'', JStr ''s''), (''end'', JStr ''e'')]), st)
          else if meth = ''GET'' \<and> length path = 2 \<and> path ! 0 = ''event'' then
            Some (case event_position (path ! 1) room of
                Some i \<Rightarrow> hs_json cd 200 (client_event device True (ro_timeline room ! i))
              | None \<Rightarrow> matrix_error cd 404 ''M_NOT_FOUND'', st)
          else if meth = ''GET'' \<and> length path = 2 \<and> path ! 0 = ''context'' then
            Some (case event_position (path ! 1) room of
                Some i \<Rightarrow> event_context cd device room i
              | None \<Rightarrow> matrix_error cd 404 ''M_NOT_FOUND'', st)
          else if meth = ''PUT'' \<and> length path = 3 \<and> path ! 0 = ''send'' then
            map_option (\<lambda>(event_id, st'). (hs_json cd 200 (mk_obj [(''event_id'', JStr event_id)]), st'))
              (append_event room_id user device (path ! 1) (path ! 2) (recorded_json cd req) st)
          else Some (matrix_error cd 404 ''M_UNRECOGNIZED'', st))"

section \<open>Sync\<close>

text \<open>What a client gets of one room; \<open>None\<close> where there is nothing new.\<close>

definition room_update :: "string \<Rightarrow> string \<Rightarrow> nat \<Rightarrow> string \<Rightarrow> hs_room \<Rightarrow> json option" where
  "room_update user device since room_id room =
     (let events = map (client_event device False) (filter (\<lambda>e. since < se_seq e) (ro_timeline room));
          state = (case ro_encryption room of
              Some content \<Rightarrow> if since = 0 then [mk_obj
                [(''type'', JStr ''m.room.encryption''), (''state_key'', JStr []), (''content'', content),
                 (''sender'', JStr (hd (ro_members room))),
                 (''event_id'', JStr (CHR 0x24 # ''encryption-'' @ room_id)),
                 (''origin_server_ts'', hs_nat 1)]] else []
            | None \<Rightarrow> []);
          unread = length (filter (\<lambda>e. idx (se_json e) ''sender'' \<noteq> JStr user) (ro_timeline room))
      in if events = [] \<and> state = [] then None
         else Some (mk_obj
           [(''timeline'', mk_obj [(''events'', JArr events), (''limited'', JBool False)]),
            (''state'', mk_obj [(''events'', JArr state)]),
            (''unread_notifications'', mk_obj
              [(''notification_count'', hs_nat unread), (''highlight_count'', hs_nat 0)])]))"

definition joined_update :: "string \<Rightarrow> string \<Rightarrow> nat \<Rightarrow> hs_state \<Rightarrow> fields" where
  "joined_update user device since st =
     fold (\<lambda>(room_id, room). if user \<in> set (ro_members room)
         then (case room_update user device since room_id room of None \<Rightarrow> id | Some u \<Rightarrow> obj_put room_id u)
         else id) (hs_rooms st) []"

definition sync_position :: "codec \<Rightarrow> string \<Rightarrow> nat" where
  "sync_position cd query =
     (case Option.bind (hs_query_param cd query ''since'') parse_usize of None \<Rightarrow> 0 | Some n \<Rightarrow> n)"

text \<open>What a device has not acknowledged yet, and who changed their devices.\<close>

definition pending_messages :: "hs_device \<Rightarrow> nat \<Rightarrow> hs_state \<Rightarrow> (nat \<times> json) list" where
  "pending_messages key since st = filter (\<lambda>(position, _). since < position) (found_or [] key (hs_to_device st))"

definition changed_users :: "nat \<Rightarrow> hs_state \<Rightarrow> string list" where
  "changed_users since st = remdups_adj (sort (map snd (filter (\<lambda>(n, _). since < n) (hs_device_changes st))))"

definition hs_sync_answer :: "string \<Rightarrow> string \<Rightarrow> nat \<Rightarrow> hs_state \<Rightarrow> json" where
  "hs_sync_answer user device since st =
     (let fallback = (case map_of (hs_fallback_keys st) (user, device) of
              None \<Rightarrow> [] | Some _ \<Rightarrow> [JStr ''signed_curve25519'']);
          body = mk_obj
            [(''next_batch'', JStr (show_nat (hs_seq st))),
             (''to_device'', mk_obj [(''events'', JArr (map snd (pending_messages (user, device) since st)))]),
             (''device_lists'', mk_obj [(''changed'', JArr (map JStr (changed_users since st))), (''left'', JArr [])]),
             (''device_one_time_keys_count'', otk_counts user device st),
             (''device_unused_fallback_key_types'', JArr fallback),
             (''rooms'', mk_obj [(''join'', JObj (joined_update user device since st))])]
      in if hs_omit_counts st
         then jdel ''device_unused_fallback_key_types'' (jdel ''device_one_time_keys_count'' body) else body)"

text \<open>
  As on a real homeserver, a to-device event keeps being delivered until some request's \<open>since\<close>
  acknowledges it.
\<close>

definition hs_sync :: "codec \<Rightarrow> string \<Rightarrow> string \<Rightarrow> string \<Rightarrow> hs_state \<Rightarrow> response \<times> hs_state" where
  "hs_sync cd user device query st =
     (let since = sync_position cd query;
          pending = pending_messages (user, device) since st
      in (hs_json cd 200 (hs_sync_answer user device since st),
          st\<lparr>hs_to_device := AList.update (user, device) pending (hs_to_device st),
            hs_idle := (hs_query_param cd query ''since'' \<noteq> None \<and> pending = [] \<and>
              joined_update user device since st = [] \<and> changed_users since st = [])\<rparr>))"

text \<open>A notification for every event someone else sent into one of the user's rooms.\<close>

definition hs_notifications :: "codec \<Rightarrow> string \<Rightarrow> string \<Rightarrow> hs_state \<Rightarrow> response" where
  "hs_notifications cd user device st =
     hs_json cd 200 (mk_obj [(''notifications'', JArr (concat (map (\<lambda>(room_id, room).
       if user \<notin> set (ro_members room) then []
       else map (\<lambda>e. mk_obj
           [(''actions'', JArr [JStr ''notify'', mk_obj [(''set_tweak'', JStr ''sound''), (''value'', JStr ''default'')]]),
            (''event'', client_event device True e), (''read'', JBool False), (''room_id'', JStr room_id),
            (''ts'', idx (se_json e) ''origin_server_ts'')])
         (filter (\<lambda>e. idx (se_json e) ''sender'' \<noteq> JStr user) (ro_timeline room))) (hs_rooms st))))])"

section \<open>Routes\<close>

definition backup_count :: "key_backup \<Rightarrow> nat" where
  "backup_count b = sum_list (map (length \<circ> snd) (kb_rooms b))"

text \<open>\<open>PUT room_keys/keys\<close>: every uploaded session is stored.\<close>

definition store_backup :: "json \<Rightarrow> key_backup \<Rightarrow> key_backup" where
  "store_backup body b =
     b\<lparr>kb_rooms := fold (\<lambda>(room, data). fold (\<lambda>(session, key). \<lambda>m.
         AList.update room (obj_put session key (found_or [] room m)) m) (obj_entries (idx data ''sessions'')))
       (obj_entries (idx body ''rooms'')) (kb_rooms b)\<rparr>"

definition backup_api :: "codec \<Rightarrow> string \<Rightarrow> string list \<Rightarrow> recorded \<Rightarrow> hs_state \<Rightarrow> (response \<times> hs_state) option" where
  "backup_api cd meth path req st =
     (if meth = ''GET'' \<and> path = [''version''] then
        Some (case hs_backup st of
            Some b \<Rightarrow> hs_json cd 200 (mk_obj
              [(''algorithm'', JStr ''m.megolm_backup.v1.curve25519-aes-sha2''),
               (''auth_data'', kb_auth_data b), (''version'', JStr (kb_version b)),
               (''count'', hs_nat (backup_count b)), (''etag'', JStr ''0'')])
          | None \<Rightarrow> matrix_error cd 404 ''M_NOT_FOUND'', st)
      else if meth = ''GET'' \<and> length path = 3 \<and> path ! 0 = ''keys'' then
        Some (case Option.bind (hs_backup st) (\<lambda>b. Option.bind (map_of (kb_rooms b) (path ! 1)) (\<lambda>r. map_of r (path ! 2))) of
            Some key \<Rightarrow> hs_json cd 200 key | None \<Rightarrow> matrix_error cd 404 ''M_NOT_FOUND'', st)
      else if meth = ''GET'' \<and> path = [''keys''] then
        Some (case hs_backup st of
            Some b \<Rightarrow> hs_json cd 200 (mk_obj [(''rooms'', mk_obj (map (\<lambda>(room, sessions).
                (room, mk_obj [(''sessions'', JObj sessions)])) (kb_rooms b)))])
          | None \<Rightarrow> matrix_error cd 404 ''M_NOT_FOUND'', st)
      else if meth = ''PUT'' \<and> path = [''keys''] then
        Some (case hs_backup st of
            None \<Rightarrow> (matrix_error cd 404 ''M_NOT_FOUND'', st)
          | Some b \<Rightarrow> (let b' = store_backup (recorded_json cd req) b in
              (hs_json cd 200 (mk_obj [(''count'', hs_nat (backup_count b')), (''etag'', JStr ''1'')]),
               st\<lparr>hs_backup := Some b'\<rparr>)))
      else Some (matrix_error cd 404 ''M_UNRECOGNIZED'', st))"

definition client_api ::
  "codec \<Rightarrow> string \<Rightarrow> string list \<Rightarrow> recorded \<Rightarrow> string \<Rightarrow> string \<Rightarrow> hs_state \<Rightarrow> (response \<times> hs_state) option" where
  "client_api cd meth path req user device st =
     (let body = recorded_json cd req in
      if meth = ''GET'' \<and> path = [''account'', ''whoami''] then
        Some (hs_json cd 200 (mk_obj [(''user_id'', JStr user), (''device_id'', JStr device)]), st)
      else if meth = ''POST'' \<and> path = [''keys'', ''upload''] then Some (hs_keys_upload cd user device body st)
      else if meth = ''POST'' \<and> path = [''keys'', ''query''] then Some (hs_keys_query cd user body st, st)
      else if meth = ''POST'' \<and> path = [''keys'', ''claim''] then Some (hs_keys_claim cd body st)
      else if meth = ''POST'' \<and> path = [''keys'', ''signatures'', ''upload''] then hs_signatures_upload cd body st
      else if meth = ''POST'' \<and> path = [''keys'', ''device_signing'', ''upload''] then
        Some (hs_json cd 200 (mk_obj []),
          st\<lparr>hs_cross_signing := AList.update user body (hs_cross_signing st)\<rparr>)
      else if meth = ''PUT'' \<and> length path = 3 \<and> path ! 0 = ''sendToDevice'' then
        Some (hs_send_to_device cd user device (path ! 1) body st)
      else if meth = ''GET'' \<and> path = [''sync''] then Some (hs_sync cd user device (rc_query req) st)
      else if meth = ''GET'' \<and> path = [''notifications''] then Some (hs_notifications cd user device st, st)
      else if meth = ''GET'' \<and> length path = 4 \<and> path ! 0 = ''user'' \<and> path ! 2 = ''account_data'' then
        Some (case map_of (hs_account_data st) (user, path ! 3) of
            Some content \<Rightarrow> hs_json cd 200 content | None \<Rightarrow> matrix_error cd 404 ''M_NOT_FOUND'', st)
      else if path \<noteq> [] \<and> hd path = ''room_keys'' then backup_api cd meth (tl path) req st
      else if 2 \<le> length path \<and> hd path = ''rooms'' then
        room_api cd meth (path ! 1) (drop 2 path) req user device st
      else Some (matrix_error cd 404 ''M_UNRECOGNIZED'', st))"

definition segments_of :: "codec \<Rightarrow> recorded \<Rightarrow> string list" where
  "segments_of cd req = map (dec cd) (path_segments (rc_path req))"

text \<open>The endpoints that take no access token, and then the others.\<close>

definition hs_respond ::
  "codec \<Rightarrow> recorded \<Rightarrow> string option \<Rightarrow> hs_state \<Rightarrow> (response \<times> hs_state) option" where
  "hs_respond cd req tok st =
     (let segs = segments_of cd req; meth = rc_method req in
      if meth = ''GET'' \<and> segs = [''_matrix'', ''client'', ''versions''] then
        Some (hs_json cd 200 (mk_obj [(''versions'', JArr [JStr ''v1.11''])]), st)
      else if meth = ''POST'' \<and> length segs = 4 \<and> take 2 segs = [''_matrix'', ''client''] \<and> segs ! 3 = ''login'' then
        Some (hs_login cd (recorded_json cd req) st)
      else if meth = ''GET'' \<and> segs = [''.well-known'', ''matrix'', ''client''] then
        Some (case hs_well_known st of
            Some body \<Rightarrow> hs_json cd 200 body | None \<Rightarrow> matrix_error cd 404 ''M_NOT_FOUND'', st)
      else if meth = ''GET'' \<and> 4 \<le> length segs \<and> take 2 segs = [''_matrix'', ''media''] \<and> segs ! 3 = ''download'' then
        Some (matrix_error cd 404 ''M_NOT_FOUND'', st)
      else (case Option.bind tok (map_of (hs_tokens st)) of
          None \<Rightarrow> Some (matrix_error cd 401 ''M_UNKNOWN_TOKEN'', st)
        | Some (user, device) \<Rightarrow>
            if meth = ''POST'' \<and> length segs = 4 \<and> take 2 segs = [''_matrix'', ''media''] \<and> segs ! 3 = ''upload'' then
              Some (hs_upload cd req st)
            else if meth = ''GET'' \<and> 7 \<le> length segs \<and> take 2 segs = [''_matrix'', ''client''] \<and>
                segs ! 3 = ''media'' \<and> segs ! 4 = ''download'' then
              Some (hs_download cd (segs ! 5) (segs ! 6) st, st)
            else if 3 \<le> length segs \<and> take 2 segs = [''_matrix'', ''client''] then
              client_api cd meth (drop 3 segs) req user device st
            else Some (matrix_error cd 404 ''M_UNRECOGNIZED'', st)))"

section \<open>Requests over time\<close>

text \<open>A request is recorded when it comes in (\<open>hs_handle\<close>).\<close>

definition record_request :: "string \<Rightarrow> string \<Rightarrow> string option \<Rightarrow> headers \<Rightarrow> string \<Rightarrow> recorded" where
  "record_request meth path query hs body =
     \<lparr>rc_method = meth, rc_path = path, rc_query = (case query of None \<Rightarrow> [] | Some q \<Rightarrow> q), rc_headers = hs,
      rc_content_type = Option.bind (header_get ''content-type'' hs) header_to_str, rc_body = body\<rparr>"

definition request_token :: "recorded \<Rightarrow> string option" where
  "request_token req =
     Option.bind (Option.bind (header_get ''authorization'' (rc_headers req)) header_to_str) (strip_prefix ''Bearer '')"

definition hs_accept :: "recorded \<Rightarrow> hs_state \<Rightarrow> hs_state" where
  "hs_accept req st = st\<lparr>hs_requests := hs_requests st @ [req]\<rparr>"

text \<open>A long poll is held until the time its \<open>timeout\<close> names, counted from its arrival.\<close>

definition poll_deadline :: "codec \<Rightarrow> recorded \<Rightarrow> nat \<Rightarrow> nat option" where
  "poll_deadline cd req arrived =
     map_option ((+) arrived) (Option.bind (hs_query_param cd (rc_query req) ''timeout'') parse_usize)"

text \<open>
  One round of the loop: the answer, or \<open>None\<close> where the request is held until something changes or
  its time is over.
\<close>

definition hs_round ::
  "codec \<Rightarrow> recorded \<Rightarrow> nat option \<Rightarrow> nat \<Rightarrow> hs_state \<Rightarrow> (response option \<times> hs_state) option" where
  "hs_round cd req deadline time st =
     (case hs_respond cd req (request_token req) (st\<lparr>hs_idle := False\<rparr>) of
        None \<Rightarrow> None
      | Some (resp, st') \<Rightarrow>
          Some (if hs_idle st' \<and> (case deadline of None \<Rightarrow> False | Some d \<Rightarrow> time < d) then None else Some resp, st'))"

text \<open>A request that is not held: one without a \<open>timeout\<close>.\<close>

definition hs_handle :: "codec \<Rightarrow> recorded \<Rightarrow> hs_state \<Rightarrow> (response \<times> hs_state) option" where
  "hs_handle cd req st =
     hs_respond cd req (request_token req) ((hs_accept req st)\<lparr>hs_idle := False\<rparr>)"

text \<open>
  The homeserver with the requests it holds, the clock, and what it has answered. Requests come at any time, a
  held request looks again when something has changed or its time is over, and time passes.
\<close>

record hs_system =
  sy_state :: hs_state
  sy_time :: nat
  sy_held :: "(nat \<times> recorded) list"
  sy_answers :: "(nat \<times> response) list"

inductive hs_step :: "codec \<Rightarrow> hs_system \<Rightarrow> hs_system \<Rightarrow> bool" for cd where
  arrive_answered:
    "hs_round cd req (poll_deadline cd req (sy_time y)) (sy_time y) (hs_accept req (sy_state y)) = Some (Some resp, st) \<Longrightarrow>
     hs_step cd y (y\<lparr>sy_state := st, sy_answers := sy_answers y @ [(sy_time y, resp)]\<rparr>)"
| arrive_held:
    "hs_round cd req (poll_deadline cd req (sy_time y)) (sy_time y) (hs_accept req (sy_state y)) = Some (None, st) \<Longrightarrow>
     hs_step cd y (y\<lparr>sy_state := st, sy_held := sy_held y @ [(sy_time y, req)]\<rparr>)"
| wake_answered:
    "sy_held y = hs1 @ (t, req) # hs2 \<Longrightarrow>
     hs_round cd req (poll_deadline cd req t) (sy_time y) (sy_state y) = Some (Some resp, st) \<Longrightarrow>
     hs_step cd y (y\<lparr>sy_state := st, sy_held := hs1 @ hs2, sy_answers := sy_answers y @ [(sy_time y, resp)]\<rparr>)"
| wake_held:
    "sy_held y = hs1 @ (t, req) # hs2 \<Longrightarrow>
     hs_round cd req (poll_deadline cd req t) (sy_time y) (sy_state y) = Some (None, st) \<Longrightarrow>
     hs_step cd y (y\<lparr>sy_state := st\<rparr>)"
| time_passes: "hs_step cd y (y\<lparr>sy_time := Suc (sy_time y)\<rparr>)"

section \<open>Behind the clients' backs\<close>

definition add_device :: "string \<Rightarrow> string \<Rightarrow> string \<Rightarrow> hs_state \<Rightarrow> hs_state" where
  "add_device user device tok st = st\<lparr>hs_tokens := AList.update tok (user, device) (hs_tokens st)\<rparr>"

definition add_login :: "string \<Rightarrow> string \<Rightarrow> string \<Rightarrow> hs_state \<Rightarrow> hs_state" where
  "add_login user device tok st = st\<lparr>hs_logins := AList.update user (device, tok) (hs_logins st)\<rparr>"

definition revoke_token :: "string \<Rightarrow> hs_state \<Rightarrow> hs_state" where
  "revoke_token tok st = st\<lparr>hs_tokens := AList.delete tok (hs_tokens st)\<rparr>"

text \<open>
  Signing a device out, as another client's session manager does: its tokens, keys and pending
  messages go, and everyone is told.
\<close>

definition delete_device :: "string \<Rightarrow> string \<Rightarrow> hs_state \<Rightarrow> hs_state" where
  "delete_device user device st =
     note_device_change user (st\<lparr>
       hs_tokens := filter (\<lambda>(_, ud). ud \<noteq> (user, device)) (hs_tokens st),
       hs_device_keys := (case map_of (hs_device_keys st) user of
           None \<Rightarrow> hs_device_keys st
         | Some ds \<Rightarrow> AList.update user (obj_del device ds) (hs_device_keys st)),
       hs_one_time_keys := AList.delete (user, device) (hs_one_time_keys st),
       hs_fallback_keys := AList.delete (user, device) (hs_fallback_keys st),
       hs_to_device := AList.delete (user, device) (hs_to_device st)\<rparr>)"

definition release_to_device :: "hs_state \<Rightarrow> hs_state" where
  "release_to_device st =
     fold (\<lambda>(target, event). queue_to_device target event) (hs_held_to_device st)
       (st\<lparr>hs_hold_to_device := False, hs_held_to_device := []\<rparr>)"

definition create_room :: "string list \<Rightarrow> bool \<Rightarrow> hs_state \<Rightarrow> string \<times> hs_state" where
  "create_room members encrypted st =
     (let room_id = ''!room'' @ show_nat (Suc (length (hs_rooms st))) @ '':'' @ hs_server_name
      in (room_id, st\<lparr>hs_rooms := sorted_put room_id
           \<lparr>ro_encryption = (if encrypted then Some (mk_obj [(''algorithm'', JStr ''m.megolm.v1.aes-sha2'')]) else None),
            ro_members = members, ro_timeline = []\<rparr> (hs_rooms st)\<rparr>))"

definition inject_event :: "string \<Rightarrow> string \<Rightarrow> string \<Rightarrow> json \<Rightarrow> hs_state \<Rightarrow> (string \<times> hs_state) option" where
  "inject_event room_id sender event_type content st =
     append_event room_id sender ''ELSEWHERE'' event_type (''injected'' @ show_nat (hs_seq st)) content st"

text \<open>The event as the homeserver stores it, from every room; there must be one.\<close>

definition stored_events :: "hs_state \<Rightarrow> stored_event list" where
  "stored_events st = concat (map (ro_timeline \<circ> snd) (hs_rooms st))"

definition find_event :: "string \<Rightarrow> hs_state \<Rightarrow> json option" where
  "find_event event_id st =
     map_option se_json (List.find (\<lambda>e. idx (se_json e) ''event_id'' = JStr event_id) (stored_events st))"

definition add_media :: "string \<Rightarrow> string \<Rightarrow> hs_state \<Rightarrow> string \<times> hs_state" where
  "add_media content_type bytes st =
     (let n = Suc (hs_seq st)
      in (media_uri n, st\<lparr>hs_seq := n, hs_media := AList.update (media_uri n)
           \<lparr>hm_content_type = Some content_type, hm_filename = None, hm_bytes = bytes\<rparr> (hs_media st)\<rparr>))"

definition medium_of :: "string \<Rightarrow> hs_state \<Rightarrow> hs_medium option" where
  "medium_of mxc st = map_of (hs_media st) mxc"

definition use_up_one_time_keys :: "string \<Rightarrow> string \<Rightarrow> hs_state \<Rightarrow> hs_state" where
  "use_up_one_time_keys user device st =
     st\<lparr>hs_one_time_keys := AList.update (user, device) [] (hs_one_time_keys st)\<rparr>"

definition one_time_key_count :: "string \<Rightarrow> string \<Rightarrow> hs_state \<Rightarrow> nat" where
  "one_time_key_count user device st = length (found_or [] (user, device) (hs_one_time_keys st))"

definition hs_identity_key :: "string \<Rightarrow> string \<Rightarrow> hs_state \<Rightarrow> string option" where
  "hs_identity_key user device st =
     Option.bind (Option.bind (map_of (hs_device_keys st) user) (\<lambda>ds. map_of ds device))
       (\<lambda>dk. as_str (idx (idx dk ''keys'') (''ed25519:'' @ device)))"

definition has_device_keys :: "string \<Rightarrow> string \<Rightarrow> hs_state \<Rightarrow> bool" where
  "has_device_keys user device st \<longleftrightarrow>
     Option.bind (map_of (hs_device_keys st) user) (\<lambda>ds. map_of ds device) \<noteq> None \<and>
     map_of (hs_one_time_keys st) (user, device) \<noteq> None"

definition requests_to :: "string \<Rightarrow> hs_state \<Rightarrow> recorded list" where
  "requests_to needle st = filter (\<lambda>r. sublist needle (rc_path r)) (hs_requests st)"

text \<open>\<open>wait_until\<close>: the outcomes of looking, one after the other; \<open>False\<close> is the panic.\<close>

definition wait_until :: "bool list \<Rightarrow> bool" where
  "wait_until looks \<longleftrightarrow> list_ex id (take 1000 looks)"

end
