(* ===== verification/HomeserverFacts.thy ===== *)
theory HomeserverFacts
  imports Homeserver
begin

text \<open>
  What the test homeserver promises. The locale names the elementary changes its operations are made
  of; a relation that allows them holds across every request, where \<open>may_ack\<close> says which
  acknowledgements of to-device messages the requests may hold. Its interpretations: the stream
  only grows, the positions stay ordered, a to-device message stays until it is acknowledged.
\<close>

section \<open>The elementary changes\<close>

text \<open>An answer, if there is one, leaves a state related to the first.\<close>

definition relates :: "(hs_state \<Rightarrow> hs_state \<Rightarrow> bool) \<Rightarrow> hs_state \<Rightarrow> (response \<times> hs_state) option \<Rightarrow> bool" where
  "relates R s m \<longleftrightarrow> (\<forall>r t. m = Some (r, t) \<longrightarrow> R s t)"

lemma relatesI: "(\<And>r t. m = Some (r, t) \<Longrightarrow> R s t) \<Longrightarrow> relates R s m"
  by (simp add: relates_def)

lemma relates_if: "relates R s m \<Longrightarrow> relates R s m' \<Longrightarrow> relates R s (if b then m else m')"
  by simp

lemma relates_option:
  "relates R s m \<Longrightarrow> (\<And>x. relates R s (f x)) \<Longrightarrow> relates R s (case v of None \<Rightarrow> m | Some x \<Rightarrow> f x)"
  by (simp split: option.split)

lemma relates_prod: "(\<And>x y. relates R s (f x y)) \<Longrightarrow> relates R s (case p of (x, y) \<Rightarrow> f x y)"
  by (simp split: prod.split)

locale hs_relation =
  fixes R :: "hs_state \<Rightarrow> hs_state \<Rightarrow> bool" and may_ack :: "hs_device \<Rightarrow> nat \<Rightarrow> bool"
  assumes refl: "R st st"
    and trans: "R s t \<Longrightarrow> R t u \<Longrightarrow> R s u"
    and other: "hs_seq t = hs_seq s \<Longrightarrow> hs_rooms t = hs_rooms s \<Longrightarrow> hs_to_device t = hs_to_device s \<Longrightarrow>
      hs_device_changes t = hs_device_changes s \<Longrightarrow> R s t"
    and tick: "R s (s\<lparr>hs_seq := Suc (hs_seq s)\<rparr>)"
    and change: "R s (note_device_change user s)"
    and queue: "R s (queue_to_device target event s)"
    and append: "append_event room_id sender dev ty txn content s = Some (eid, t) \<Longrightarrow> R s t"
    and acknowledge: "may_ack key since \<Longrightarrow>
      R s (s\<lparr>hs_to_device := AList.update key (pending_messages key since s) (hs_to_device s)\<rparr>)"
begin

lemma other_after: "R s t \<Longrightarrow> hs_seq u = hs_seq t \<Longrightarrow> hs_rooms u = hs_rooms t \<Longrightarrow>
    hs_to_device u = hs_to_device t \<Longrightarrow> hs_device_changes u = hs_device_changes t \<Longrightarrow> R s u"
  using trans other by blast

lemma fold_rel: "(\<And>x s. R s (f x s)) \<Longrightarrow> R s (fold f xs s)"
  by (induction xs arbitrary: s) (auto intro: refl trans)

lemma fold_opt_rel:
  assumes "\<And>x s t. f x s = Some t \<Longrightarrow> R s t" and "fold_opt f xs s = Some t"
  shows "R s t"
  using assms(2)
proof (induction xs arbitrary: s)
  case (Cons x xs)
  then obtain u where "f x s = Some u" "fold_opt f xs u = Some t" by (auto simp: bind_eq_Some_conv)
  then show ?case using Cons.IH trans assms(1) by blast
qed (simp add: refl)

lemma login_rel: "hs_login cd body s = (r, t) \<Longrightarrow> R s t"
  by (auto simp: hs_login_def Let_def refl intro!: other split: option.splits prod.splits)

lemma upload_rel: "hs_upload cd req s = (r, t) \<Longrightarrow> R s t"
  by (auto simp: hs_upload_def Let_def intro!: other_after [OF tick])

lemma publish_rel: "R s (publish_device user device keys s)"
  unfolding publish_device_def
  by (cases keys) (auto intro: refl trans [OF other change])

lemma keys_upload_rel: "hs_keys_upload cd user device body s = (r, t) \<Longrightarrow> R s t"
  unfolding hs_keys_upload_def Let_def prod.inject
  by (elim conjE, rule other_after [OF publish_rel, of _ user device "get ''device_keys'' body"]) auto

lemma claim_rel: "hs_keys_claim cd body s = (r, t) \<Longrightarrow> R s t"
proof -
  assume run: "hs_keys_claim cd body s = (r, t)"
  have step: "R (snd p) (snd (claim_step key p))" for key p
    by (auto simp: claim_step_def claim_key_def Let_def refl intro!: other split: prod.splits option.splits list.splits)
  have "R (snd p) (snd (fold claim_step ks p))" for ks p
  proof (induction ks arbitrary: p)
    case (Cons k ks)
    show ?case using trans [OF step Cons.IH] by simp
  qed (simp add: refl)
  then show "R s t" using run
    by (auto simp: hs_keys_claim_def split: prod.splits) (metis snd_conv)
qed

lemma sign_object_rel: "sign_object user entry s = Some t \<Longrightarrow> R s t"
  by (auto simp: sign_object_def refl bind_eq_Some_conv intro!: trans [OF other change] split: prod.splits option.splits)

lemma signatures_rel: "hs_signatures_upload cd body s = Some (r, t) \<Longrightarrow> R s t"
proof -
  have inner: "fold_opt (sign_object user) es s = Some t \<Longrightarrow> R s t" for user es s t
    by (rule fold_opt_rel [OF sign_object_rel])
  assume "hs_signatures_upload cd body s = Some (r, t)"
  then have "fold_opt (\<lambda>(user, objects). fold_opt (sign_object user) (obj_entries objects)) (obj_entries body) s = Some t"
    by (auto simp: hs_signatures_upload_def)
  then show "R s t" by (rule fold_opt_rel [rotated]) (auto intro: inner)
qed

lemma deliver_rel: "R s (deliver_to_device target event s)"
  by (auto simp: deliver_to_device_def intro: queue other)

lemma send_to_device_rel: "hs_send_to_device cd u d ty body s = (r, t) \<Longrightarrow> R s t"
proof -
  assume run: "hs_send_to_device cd u d ty body s = (r, t)"
  show "R s t"
  proof (cases "hs_drop_to_device s")
    case True
    then show ?thesis using run by (simp add: hs_send_to_device_def refl)
  next
    case False
    then have t: "t = snd (hs_send_to_device cd u d ty body s)" using run by simp
    have inner: "R s (fold (\<lambda>(device, content). \<lambda>s. fold (\<lambda>target. deliver_to_device (user, target)
        (mk_obj [(''type'', JStr ty), (''sender'', JStr u), (''content'', content)])) (hs_targets user device d s) s) es s)"
      for user es s by (intro fold_rel) (auto intro: fold_rel deliver_rel)
    show ?thesis
      unfolding t hs_send_to_device_def snd_conv using False
      by (simp only: if_False) (intro fold_rel, auto intro: inner)
  qed
qed

lemma sync_rel:
  "may_ack (user, device) (sync_position cd query) \<Longrightarrow> hs_sync cd user device query s = (r, t) \<Longrightarrow> R s t"
  by (auto simp: hs_sync_def Let_def intro!: other_after [OF acknowledge])

lemma relates_refl: "relates R s (Some (r, s))"
  by (simp add: relates_def refl)

lemma relates_step: "(\<And>r t. p = (r, t) \<Longrightarrow> R s t) \<Longrightarrow> relates R s (Some p)"
  by (cases p) (simp add: relates_def)

lemma relates_other: "hs_seq t = hs_seq s \<Longrightarrow> hs_rooms t = hs_rooms s \<Longrightarrow> hs_to_device t = hs_to_device s \<Longrightarrow>
    hs_device_changes t = hs_device_changes s \<Longrightarrow> relates R s (Some (r, t))"
  by (simp add: relates_def other)

lemma backup_rel: "relates R s (backup_api cd meth path req s)"
  unfolding backup_api_def Let_def
  by (intro relates_if relates_refl relates_step) (auto simp: refl intro: other split: option.splits)

lemma room_rel: "relates R s (room_api cd meth room path req user device s)"
  unfolding room_api_def
  by (intro relates_if relates_option relates_refl) (auto simp: relates_def intro: append)

lemma signatures_relates: "relates R s (hs_signatures_upload cd body s)"
  by (rule relatesI) (rule signatures_rel)

lemma client_rel:
  assumes ack: "may_ack (user, device) (sync_position cd (rc_query req))"
  shows "relates R s (client_api cd meth path req user device s)"
  unfolding client_api_def Let_def
  by (intro relates_if signatures_relates backup_rel room_rel relates_step)
    (erule keys_upload_rel claim_rel send_to_device_rel sync_rel [OF ack] | auto intro: refl other)+

text \<open>The acknowledgement a request holds is one of the device whose token it carries.\<close>

lemma respond_relates:
  assumes ack: "\<And>key. Option.bind tok (map_of (hs_tokens s)) = Some key \<Longrightarrow> may_ack key (sync_position cd (rc_query req))"
  shows "relates R s (hs_respond cd req tok s)"
proof (cases "Option.bind tok (map_of (hs_tokens s))")
  case None
  show ?thesis
    unfolding hs_respond_def Let_def None option.case
    by (intro relates_if relates_option relates_step) (erule login_rel | auto intro: refl)+
next
  case (Some key)
  obtain user device where key: "key = (user, device)" by (cases key)
  note client = client_rel [OF ack [OF Some [unfolded key]]]
  show ?thesis
    unfolding hs_respond_def Let_def Some key option.case prod.case
    by (intro relates_if client relates_step) (erule login_rel upload_rel | auto intro: refl split: option.splits)+
qed

lemma respond_rel:
  assumes "hs_respond cd req tok s = Some (r, t)"
    and "\<And>key. Option.bind tok (map_of (hs_tokens s)) = Some key \<Longrightarrow> may_ack key (sync_position cd (rc_query req))"
  shows "R s t"
  using respond_relates [of tok s cd req, OF assms(2)] assms(1) by (simp add: relates_def)

end

text \<open>A relation that allows every acknowledgement holds for the homeserver as it runs.\<close>

locale hs_run = hs_relation R "\<lambda>_ _. True" for R
begin

lemma round_rel:
  assumes "hs_round cd req deadline time s = Some (r, t)"
  shows "R s t"
proof -
  obtain resp where "hs_respond cd req (request_token req) (s\<lparr>hs_idle := False\<rparr>) = Some (resp, t)"
    using assms by (auto simp: hs_round_def split: option.splits)
  from respond_rel [OF this] show ?thesis by (rule trans [OF other, rotated -1]) simp_all
qed

lemma handle_rel:
  assumes "hs_handle cd req s = Some (r, t)"
  shows "R s t"
proof -
  have "R ((hs_accept req s)\<lparr>hs_idle := False\<rparr>) t"
    using respond_rel assms by (simp add: hs_handle_def)
  moreover have "R s ((hs_accept req s)\<lparr>hs_idle := False\<rparr>)" by (rule other) (simp_all add: hs_accept_def)
  ultimately show ?thesis by (rule trans [rotated])
qed

lemma accept_round_rel: "hs_round cd req d n (hs_accept req s) = Some (r, t) \<Longrightarrow> R s t"
  by (rule trans [OF other round_rel]) (simp_all add: hs_accept_def)

lemma step_rel: "hs_step cd y z \<Longrightarrow> R (sy_state y) (sy_state z)"
  by (induction rule: hs_step.induct) (simp_all add: refl round_rel accept_round_rel)

lemma steps_rel: "(hs_step cd)\<^sup>*\<^sup>* y z \<Longrightarrow> R (sy_state y) (sy_state z)"
  by (induction rule: rtranclp_induct) (auto intro: refl trans step_rel)

end

section \<open>The stream only grows\<close>

definition extends_room :: "nat \<Rightarrow> nat \<Rightarrow> hs_room \<Rightarrow> hs_room \<Rightarrow> bool" where
  "extends_room n n' r r' \<longleftrightarrow> ro_members r' = ro_members r \<and> ro_encryption r' = ro_encryption r \<and>
     (\<exists>new. ro_timeline r' = ro_timeline r @ new \<and> sorted_wrt (<) (map se_seq new) \<and>
       (\<forall>e \<in> set new. n < se_seq e \<and> se_seq e \<le> n'))"

definition grows :: "hs_state \<Rightarrow> hs_state \<Rightarrow> bool" where
  "grows st st' \<longleftrightarrow> hs_seq st \<le> hs_seq st' \<and>
     (\<forall>rid r. map_of (hs_rooms st) rid = Some r \<longrightarrow>
       (\<exists>r'. map_of (hs_rooms st') rid = Some r' \<and> extends_room (hs_seq st) (hs_seq st') r r'))"

lemma extends_refl: "n \<le> n' \<Longrightarrow> extends_room n n' r r"
  by (simp add: extends_room_def)

lemma extends_trans:
  assumes "extends_room n n1 r r1" and "extends_room n1 n2 r1 r2" and "n \<le> n1" and "n1 \<le> n2"
  shows "extends_room n n2 r r2"
proof -
  obtain a b where a: "ro_timeline r1 = ro_timeline r @ a" "sorted_wrt (<) (map se_seq a)"
      "\<forall>e \<in> set a. n < se_seq e \<and> se_seq e \<le> n1"
    and b: "ro_timeline r2 = ro_timeline r1 @ b" "sorted_wrt (<) (map se_seq b)"
      "\<forall>e \<in> set b. n1 < se_seq e \<and> se_seq e \<le> n2"
    using assms(1,2) by (auto simp: extends_room_def)
  have "sorted_wrt (<) (map se_seq (a @ b))"
    using a b by (fastforce simp: sorted_wrt_append)
  then show ?thesis
    using assms a b by (auto simp: extends_room_def intro!: exI [of _ "a @ b"])
qed

lemma growsD: "grows s t \<Longrightarrow> map_of (hs_rooms s) rid = Some r \<Longrightarrow>
    \<exists>r'. map_of (hs_rooms t) rid = Some r' \<and> extends_room (hs_seq s) (hs_seq t) r r'"
  by (simp add: grows_def)

lemma grows_same: "hs_seq s \<le> hs_seq t \<Longrightarrow> hs_rooms t = hs_rooms s \<Longrightarrow> grows s t"
  by (simp add: grows_def extends_refl)

lemma grows_trans:
  assumes "grows s t" and "grows t u"
  shows "grows s u"
proof -
  have seq: "hs_seq s \<le> hs_seq t" "hs_seq t \<le> hs_seq u" using assms by (simp_all add: grows_def)
  have "\<exists>r''. map_of (hs_rooms u) rid = Some r'' \<and> extends_room (hs_seq s) (hs_seq u) r r''"
    if "map_of (hs_rooms s) rid = Some r" for rid r
    using growsD [OF assms(1) that] growsD [OF assms(2)] extends_trans [OF _ _ seq] by blast
  then show ?thesis using seq by (simp add: grows_def)
qed

lemma grows_append:
  assumes "append_event rid sender dev ty txn_id content s = Some (eid, t)"
  shows "grows s t"
proof -
  obtain room where r: "map_of (hs_rooms s) rid = Some room"
    and t: "t = s\<lparr>hs_seq := Suc (hs_seq s), hs_rooms := AList.update rid
      (room\<lparr>ro_timeline := ro_timeline room @ [new_event (Suc (hs_seq s)) rid sender dev ty txn_id content]\<rparr>) (hs_rooms s)\<rparr>"
    using assms by (auto simp: append_event_def Let_def split: option.splits)
  have "extends_room (hs_seq s) (Suc (hs_seq s)) room
      (room\<lparr>ro_timeline := ro_timeline room @ [new_event (Suc (hs_seq s)) rid sender dev ty txn_id content]\<rparr>)"
    by (simp add: extends_room_def new_event_def)
  then show ?thesis
    using r by (simp add: grows_def t update_conv' extends_refl)
qed

interpretation growing: hs_run grows
proof
  show "grows s t \<Longrightarrow> grows t u \<Longrightarrow> grows s u" for s t u by (rule grows_trans)
  show "append_event room_id sender dev ty txn_id content s = Some (eid, t) \<Longrightarrow> grows s t"
    for room_id sender dev ty txn_id content s eid t by (rule grows_append)
qed (simp_all add: grows_same note_device_change_def queue_to_device_def)

section \<open>Positions in order\<close>

definition timeline_ok :: "nat \<Rightarrow> hs_room \<Rightarrow> bool" where
  "timeline_ok n r \<longleftrightarrow> sorted_wrt (<) (map se_seq (ro_timeline r)) \<and> (\<forall>e \<in> set (ro_timeline r). se_seq e \<le> n)"

definition queue_sorted :: "nat \<Rightarrow> (nat \<times> json) list \<Rightarrow> bool" where
  "queue_sorted n q \<longleftrightarrow> sorted_wrt (<) (map fst q) \<and> (\<forall>p \<in> set q. fst p \<le> n)"

definition stream_ok :: "hs_state \<Rightarrow> bool" where
  "stream_ok st \<longleftrightarrow> distinct (map fst (hs_rooms st)) \<and>
     (\<forall>p \<in> set (hs_rooms st). timeline_ok (hs_seq st) (snd p)) \<and>
     (\<forall>p \<in> set (hs_to_device st). queue_sorted (hs_seq st) (snd p)) \<and>
     (\<forall>p \<in> set (hs_device_changes st). fst p \<le> hs_seq st)"

lemma timeline_ok_mono: "timeline_ok n r \<Longrightarrow> n \<le> m \<Longrightarrow> timeline_ok m r"
  by (auto simp: timeline_ok_def)

lemma timeline_ok_snoc:
  "timeline_ok n r \<Longrightarrow> se_seq e = Suc n \<Longrightarrow> timeline_ok (Suc n) (r\<lparr>ro_timeline := ro_timeline r @ [e]\<rparr>)"
  by (auto simp: timeline_ok_def sorted_wrt_append less_Suc_eq_le)

lemma queue_sorted_mono: "queue_sorted n q \<Longrightarrow> n \<le> m \<Longrightarrow> queue_sorted m q"
  by (auto simp: queue_sorted_def)

lemma queue_sorted_filter: "queue_sorted n q \<Longrightarrow> queue_sorted n (filter P q)"
  by (auto simp: queue_sorted_def sorted_wrt_map sorted_wrt_filter)

lemma queue_sorted_snoc: "queue_sorted n q \<Longrightarrow> queue_sorted (Suc n) (q @ [(Suc n, e)])"
  by (auto simp: queue_sorted_def sorted_wrt_append less_Suc_eq_le)

lemma found_queue: "\<forall>p \<in> set m. queue_sorted n (snd p) \<Longrightarrow> queue_sorted n (found_or [] key m)"
proof (cases "map_of m key")
  case (Some q)
  assume "\<forall>p \<in> set m. queue_sorted n (snd p)"
  then have "queue_sorted n (snd (key, q))" using map_of_SomeD [OF Some] by (rule bspec)
  then show ?thesis using Some by (simp add: found_or_def)
qed (simp add: found_or_def queue_sorted_def)

lemma update_ball: "\<forall>p \<in> set m. P (snd p) \<Longrightarrow> P v \<Longrightarrow> \<forall>p \<in> set (AList.update k v m). P (snd p)"
  by (auto dest!: set_update)

lemma stream_ok_init: "stream_ok hs_init"
  by (simp add: stream_ok_def hs_init_def)

lemma stream_ok_tick: "stream_ok s \<Longrightarrow> stream_ok (s\<lparr>hs_seq := Suc (hs_seq s)\<rparr>)"
  by (auto simp: stream_ok_def intro: timeline_ok_mono queue_sorted_mono le_SucI)

lemma stream_ok_change: "stream_ok s \<Longrightarrow> stream_ok (note_device_change user s)"
  using stream_ok_tick [of s] by (auto simp: stream_ok_def note_device_change_def)

lemma stream_ok_queue: "stream_ok s \<Longrightarrow> stream_ok (queue_to_device target event s)"
proof -
  assume ok: "stream_ok s"
  have "queue_sorted (Suc (hs_seq s)) (found_or [] target (hs_to_device s) @ [(Suc (hs_seq s), event)])"
    by (intro queue_sorted_snoc found_queue) (use ok in \<open>simp add: stream_ok_def\<close>)
  moreover have "\<forall>p \<in> set (hs_to_device s). queue_sorted (Suc (hs_seq s)) (snd p)"
    using stream_ok_tick [OF ok] by (simp add: stream_ok_def)
  ultimately have "\<forall>p \<in> set (AList.update target (found_or [] target (hs_to_device s) @ [(Suc (hs_seq s), event)])
      (hs_to_device s)). queue_sorted (Suc (hs_seq s)) (snd p)"
    by (intro update_ball)
  then show ?thesis
    using stream_ok_tick [OF ok] by (simp add: stream_ok_def queue_to_device_def)
qed

lemma stream_ok_append:
  assumes "append_event rid sender dev ty txn_id content s = Some (eid, t)" and ok: "stream_ok s"
  shows "stream_ok t"
proof -
  obtain room where r: "map_of (hs_rooms s) rid = Some room"
    and t: "t = s\<lparr>hs_seq := Suc (hs_seq s), hs_rooms := AList.update rid
      (room\<lparr>ro_timeline := ro_timeline room @ [new_event (Suc (hs_seq s)) rid sender dev ty txn_id content]\<rparr>) (hs_rooms s)\<rparr>"
    using assms(1) by (auto simp: append_event_def Let_def split: option.splits)
  let ?room = "room\<lparr>ro_timeline := ro_timeline room @ [new_event (Suc (hs_seq s)) rid sender dev ty txn_id content]\<rparr>"
  have "timeline_ok (hs_seq s) room" using ok map_of_SomeD [OF r] by (force simp: stream_ok_def)
  then have "timeline_ok (Suc (hs_seq s)) ?room"
    by (rule timeline_ok_snoc) (simp add: new_event_def)
  moreover have "\<forall>p \<in> set (hs_rooms s). timeline_ok (Suc (hs_seq s)) (snd p)"
    using stream_ok_tick [OF ok] by (simp add: stream_ok_def)
  ultimately have "\<forall>p \<in> set (AList.update rid ?room (hs_rooms s)). timeline_ok (Suc (hs_seq s)) (snd p)"
    by (intro update_ball)
  then show ?thesis
    using stream_ok_tick [OF ok] by (simp add: stream_ok_def t distinct_update)
qed

lemma stream_ok_acknowledge:
  "stream_ok s \<Longrightarrow> stream_ok (s\<lparr>hs_to_device := AList.update key (pending_messages key since s) (hs_to_device s)\<rparr>)"
proof -
  assume ok: "stream_ok s"
  then have "queue_sorted (hs_seq s) (pending_messages key since s)"
    by (simp add: pending_messages_def stream_ok_def queue_sorted_filter found_queue)
  moreover have "\<forall>p \<in> set (hs_to_device s). queue_sorted (hs_seq s) (snd p)"
    using ok by (simp add: stream_ok_def)
  ultimately have "\<forall>p \<in> set (AList.update key (pending_messages key since s) (hs_to_device s)). queue_sorted (hs_seq s) (snd p)"
    by (intro update_ball)
  then show ?thesis using ok by (simp add: stream_ok_def)
qed

interpretation ordered: hs_run "\<lambda>s t. stream_ok s \<longrightarrow> stream_ok t"
proof
  show "hs_seq t = hs_seq s \<Longrightarrow> hs_rooms t = hs_rooms s \<Longrightarrow> hs_to_device t = hs_to_device s \<Longrightarrow>
      hs_device_changes t = hs_device_changes s \<Longrightarrow> stream_ok s \<longrightarrow> stream_ok t" for s t
    by (simp add: stream_ok_def)
qed (blast intro: stream_ok_tick stream_ok_change stream_ok_queue stream_ok_acknowledge stream_ok_append)+

section \<open>To-device messages\<close>

lemma found_update: "found_or d k (AList.update k' v m) = (if k = k' then v else found_or d k m)"
  by (simp add: found_or_def update_conv')

lemma sync_answer_get:
  "k \<notin> {''device_one_time_keys_count'', ''device_unused_fallback_key_types''} \<Longrightarrow>
    get k (hs_sync_answer user device since st) =
    (if k = ''next_batch'' then Some (JStr (show_nat (hs_seq st)))
     else if k = ''to_device'' then
       Some (mk_obj [(''events'', JArr (map snd (pending_messages (user, device) since st)))])
     else if k = ''device_lists'' then
       Some (mk_obj [(''changed'', JArr (map JStr (changed_users since st))), (''left'', JArr [])])
     else if k = ''rooms'' then Some (mk_obj [(''join'', JObj (joined_update user device since st))])
     else None)"
  by (simp add: hs_sync_answer_def Let_def get_jdel get_mk_obj)

interpretation retained: hs_relation "\<lambda>s t. (n, ev) \<in> set (found_or [] key (hs_to_device s)) \<longrightarrow>
    (n, ev) \<in> set (found_or [] key (hs_to_device t))" "\<lambda>k m. k = key \<longrightarrow> m < n" for n ev key
  by unfold_locales (auto simp: note_device_change_def queue_to_device_def append_event_def Let_def found_update
      pending_messages_def split: option.splits)

text \<open>A device with a message waiting, and another one.\<close>

definition sample_hs :: hs_state where
  "sample_hs = queue_to_device (''@a:hs'', ''D'') (JStr ''key'')
     (add_device ''@b:hs'' ''E'' ''t2'' (add_device ''@a:hs'' ''D'' ''t1'' hs_init))"

lemma sample_hs_waiting: "found_or [] (''@a:hs'', ''D'') (hs_to_device sample_hs) = [(1, JStr ''key'')]"
  by code_simp

end
