(* ===== verification/Conversation.thy ===== *)
theory Conversation
  imports EndToEnd HomeserverFacts
begin

text \<open>
  Proxies and the test homeserver together: what the sender's proxy puts on the wire is a request the
  homeserver understands, and what the homeserver answers a sync with is what the receiver's
  proxy decrypts.
\<close>

section \<open>Numbers and literals in requests\<close>

text \<open>ASCII is UTF-8.\<close>

definition ascii_is_utf8 :: "(string \<Rightarrow> bool) \<Rightarrow> bool" where
  "ascii_is_utf8 utf8 \<longleftrightarrow> (\<forall>s. list_all is_ascii s \<longrightarrow> utf8 s)"

lemma decode_plain: "CHR ''%'' \<notin> set s \<Longrightarrow> pct_decode_bytes s = s"
proof (induction s)
  case (Cons c s)
  then show ?case by (auto simp: pct_decode_bytes_plain)
qed simp

lemma dec_plain:
  "percent_coding utf8 cd \<Longrightarrow> ascii_is_utf8 utf8 \<Longrightarrow> CHR ''%'' \<notin> set s \<Longrightarrow> list_all is_ascii s \<Longrightarrow> dec cd s = s"
  by (simp add: dec_def percent_coding_def ascii_is_utf8_def decode_plain)

lemma digit_char_digit:
  assumes "d < 10"
  shows "is_ascii_digit (digit_char d) \<and> (of_char (digit_char d) :: nat) = 48 + d \<and> is_ascii (digit_char d) \<and>
    digit_char d \<notin> {CHR ''%'', CHR ''&'', CHR ''='', CHR ''+''}"
proof -
  have "\<forall>d \<in> set [0..<10]. is_ascii_digit (digit_char d) \<and> (of_char (digit_char d) :: nat) = 48 + d \<and>
      is_ascii (digit_char d) \<and> digit_char d \<notin> {CHR ''%'', CHR ''&'', CHR ''='', CHR ''+''}"
    by code_simp
  then show ?thesis using assms by simp
qed

lemma show_nat_chars: "c \<in> set (show_nat n) \<Longrightarrow> \<exists>d < 10. c = digit_char d"
proof (induction n rule: show_nat.induct)
  case (1 n)
  have "n mod 10 < 10" by simp
  then show ?case
    using 1 by (subst (asm) (2) show_nat.simps) (auto split: if_splits intro: exI [of _ "n mod 10"])
qed

lemma show_nat_plain: "list_all is_ascii (show_nat n) \<and> set (show_nat n) \<inter> {CHR ''%'', CHR ''&'', CHR ''='', CHR ''+''} = {}"
  using show_nat_chars digit_char_digit by (fastforce simp: list_all_iff)

lemma parse_digits_append:
  "parse_digits acc (xs @ ys) = Option.bind (parse_digits acc xs) (\<lambda>n. parse_digits n ys)"
  by (induction xs arbitrary: acc) auto

lemma parse_show_nat: "parse_digits 0 (show_nat n) = Some n"
proof (induction n rule: show_nat.induct)
  case (1 n)
  have d: "n mod 10 < 10" by simp
  show ?case
  proof (cases "n < 10")
    case True
    then show ?thesis using digit_char_digit [OF True] by (subst show_nat.simps) simp
  next
    case False
    then show ?thesis
      using 1 digit_char_digit [OF d] by (subst show_nat.simps) (simp add: parse_digits_append)
  qed
qed

lemma parse_usize_show: "n < 2 ^ 64 \<Longrightarrow> parse_usize (show_nat n) = Some n"
proof -
  assume n: "n < 2 ^ 64"
  have "strip_prefix ''+'' (show_nat n) = None"
    using show_nat_plain [of n] by (cases "show_nat n") auto
  then show ?thesis using n by (simp add: parse_usize_def parse_show_nat)
qed

text \<open>A client that asks from a \<open>next_batch\<close> asks from that position.\<close>

lemma position_of_next_batch:
  assumes "percent_coding utf8 cd" and "ascii_is_utf8 utf8" and "n < 2 ^ 64"
  shows "sync_position cd (''since='' @ show_nat n) = n"
proof -
  have free: "CHR ''&'' \<notin> set (''since='' @ show_nat n)" "CHR ''%'' \<notin> set (show_nat n)"
    using show_nat_plain [of n] by auto
  have "split_once (CHR ''='') (''since'' @ CHR ''='' # show_nat n) = Some (''since'', show_nat n)"
    by (rule split_once_free) simp
  then have "hs_query_param cd (''since='' @ show_nat n) ''since'' = Some (dec cd (show_nat n))"
    using split_on_free [OF free(1)] by (simp add: hs_query_param_def map_filter_simps)
  then show ?thesis
    using dec_plain [OF assms(1,2) free(2)] show_nat_plain [of n] parse_usize_show [OF assms(3)]
    by (simp add: sync_position_def)
qed

section \<open>What a sync holds of a room\<close>

lemma joined_update_fold:
  assumes "distinct (map fst rs)"
  shows "map_of (fold (\<lambda>(rid, room). if user \<in> set (ro_members room)
         then (case room_update user device since rid room of None \<Rightarrow> id | Some u \<Rightarrow> obj_put rid u)
         else id) rs acc) k =
    (case Option.bind (map_of rs k) (\<lambda>room. if user \<in> set (ro_members room)
         then room_update user device since k room else None) of
       None \<Rightarrow> map_of acc k | Some u \<Rightarrow> Some u)"
  using assms
proof (induction rs arbitrary: acc)
  case (Cons p rs)
  obtain rid room where p: "p = (rid, room)" by fastforce
  show ?case
  proof (cases "k = rid")
    case True
    then have "map_of rs k = None" using Cons.prems by (auto simp: p map_of_eq_None_iff)
    then show ?thesis using Cons True by (auto simp: p split: option.splits)
  next
    case False
    then show ?thesis using Cons by (auto simp: p split: option.splits)
  qed
qed simp

lemma joined_events_sync:
  assumes "stream_ok st" and "map_of (hs_rooms st) rid = Some room" and "user \<in> set (ro_members room)"
  shows "joined_events rid (hs_sync_answer user device since st) =
    map (client_event device False) (filter (\<lambda>e. since < se_seq e) (ro_timeline room))"
proof -
  let ?b = "hs_sync_answer user device since st"
  have "idx ?b ''rooms'' = mk_obj [(''join'', JObj (joined_update user device since st))]"
    by (simp add: idx_def sync_answer_get)
  then have w: "walk [''rooms'', ''join''] ?b = JObj (joined_update user device since st)"
    by (simp add: idx_def get_mk_obj)
  have m: "map_of (joined_update user device since st) rid = room_update user device since rid room"
    unfolding joined_update_def
    using assms by (subst joined_update_fold) (auto simp: stream_ok_def split: option.splits)
  show ?thesis
  proof (cases "room_update user device since rid room")
    case None
    then have "filter (\<lambda>e. since < se_seq e) (ro_timeline room) = []"
      by (auto simp: room_update_def Let_def split: if_splits)
    then show ?thesis using m None by (simp only: joined_events_walk w) (simp add: idx_JObj elements_def)
  next
    case (Some u)
    then have "idx u ''timeline'' = mk_obj [(''events'', JArr (map (client_event device False)
        (filter (\<lambda>e. since < se_seq e) (ro_timeline room)))), (''limited'', JBool False)]"
      by (auto simp: room_update_def Let_def idx_def get_mk_obj split: if_splits)
    then show ?thesis
      using m Some by (simp only: joined_events_walk w) (simp add: idx_JObj elements_def get_mk_obj idx_def)
  qed
qed

section \<open>Nothing is missed, nothing comes twice\<close>

text \<open>
  C40: a client that syncs from the \<open>next_batch\<close> it was given last gets, of every room it is in,
  exactly the events that were appended since, in order, each once, whatever other requests the
  homeserver answered in between.
\<close>

theorem incremental_sync_exact:
  assumes "(hs_step cd)\<^sup>*\<^sup>* y z" and "stream_ok (sy_state y)"
    and "map_of (hs_rooms (sy_state y)) rid = Some room" and "user \<in> set (ro_members room)"
    and "get_str ''next_batch'' (hs_sync_answer user device since (sy_state y)) = Some batch"
    and "hs_seq (sy_state y) < 2 ^ 64" and "percent_coding utf8 cd" and "ascii_is_utf8 utf8"
  shows "\<exists>room' new. map_of (hs_rooms (sy_state z)) rid = Some room' \<and>
    ro_timeline room' = ro_timeline room @ new \<and>
    joined_events rid (hs_sync_answer user device (sync_position cd (''since='' @ batch)) (sy_state z)) =
      map (client_event device False) new"
proof -
  have ok: "stream_ok (sy_state z)" using ordered.steps_rel [OF assms(1)] assms(2) by blast
  obtain room' where r: "map_of (hs_rooms (sy_state z)) rid = Some room'"
      "extends_room (hs_seq (sy_state y)) (hs_seq (sy_state z)) room room'"
    using growsD [OF growing.steps_rel [OF assms(1)] assms(3)] by blast
  then obtain new where new: "ro_timeline room' = ro_timeline room @ new" "ro_members room' = ro_members room"
      "\<forall>e \<in> set new. hs_seq (sy_state y) < se_seq e"
    by (auto simp: extends_room_def)
  have "timeline_ok (hs_seq (sy_state y)) room"
    using assms(2) map_of_SomeD [OF assms(3)] by (force simp: stream_ok_def)
  then have only: "filter (\<lambda>e. hs_seq (sy_state y) < se_seq e) (ro_timeline room') = new"
    using new by (auto simp: timeline_ok_def filter_empty_conv filter_id_conv)
  have mem: "user \<in> set (ro_members room')" using assms(4) new(2) by simp
  have "joined_events rid (hs_sync_answer user device (hs_seq (sy_state y)) (sy_state z)) = map (client_event device False) new"
    by (simp only: joined_events_sync [OF ok r(1) mem] only)
  moreover have "batch = show_nat (hs_seq (sy_state y))"
    using assms(5) by (simp add: get_str_def sync_answer_get)
  ultimately show ?thesis
    using position_of_next_batch [OF assms(7,8,6)] r(1) new(1) by (intro exI [of _ room'] exI [of _ new]) simp
qed

section \<open>A message through the homeserver\<close>

text \<open>A request as the homeserver receives it.\<close>

definition received :: "http_request \<Rightarrow> recorded" where
  "received rq = record_request (hr_method rq) (url_path (hr_url rq)) (url_query (hr_url rq)) (hr_headers rq) (hr_body rq)"

lemma put_event_answer:
  assumes "segments_of cd req = [''_matrix'', ''client'', v, ''rooms'', room, ''send'', ty, txn]"
    and "rc_method req = ''PUT''" and "map_of (hs_tokens st) tok = Some (user, device)"
    and "map_of (hs_rooms st) room = Some rm" and "user \<in> set (ro_members rm)"
  shows "hs_respond cd req (Some tok) st =
    map_option (\<lambda>(event_id, st'). (hs_json cd 200 (mk_obj [(''event_id'', JStr event_id)]), st'))
      (append_event room user device ty txn (recorded_json cd req) st)"
  using assms by (simp add: hs_respond_def client_api_def room_api_def)

lemma sent_segments:
  assumes "percent_coding utf8 cd" and "ascii_is_utf8 utf8" and "utf8 room" and "utf8 txn"
  shows "map (dec cd) (path_segments (encrypted_send_path cd room txn)) =
    [''_matrix'', ''client'', ''v3'', ''rooms'', room, ''send'', ''m.room.encrypted'', txn]"
proof -
  let ?ss = "[''_matrix'', ''client'', ''v3'', ''rooms'', enc cd room, ''send'', ''m.room.encrypted'', enc cd txn]"
  have "encrypted_send_path cd room txn = CHR ''/'' # join_with ''/'' ?ss"
    by (simp add: encrypted_send_path_def)
  moreover have "path_segments (CHR ''/'' # join_with ''/'' ?ss) = ?ss"
    using segment_coding.one_segment [OF segment_coding_enc [OF assms(1)]]
    by (intro path_segments_join) auto
  moreover have "dec cd (enc cd s) = s" if "utf8 s" for s
    using segment_coding.decode_encode [OF segment_coding_enc [OF assms(1)]] that .
  moreover have "list_all (\<lambda>s. CHR ''%'' \<notin> set s \<and> list_all is_ascii s)
      [''_matrix'', ''client'', ''v3'', ''rooms'', ''send'', ''m.room.encrypted'']"
    by code_simp
  then have "list_all (\<lambda>s. dec cd s = s) [''_matrix'', ''client'', ''v3'', ''rooms'', ''send'', ''m.room.encrypted'']"
    by (rule list.pred_mono_strong) (use dec_plain [OF assms(1,2)] in blast)
  ultimately show ?thesis using assms(3,4) by simp
qed

lemma client_event_get:
  "get k (client_event device False (new_event n room sender dev ty txn content)) =
    (if k = ''unsigned'' then Some (if dev = device then jput ''transaction_id'' (JStr txn) (mk_obj [(''age'', hs_nat 1)])
       else mk_obj [(''age'', hs_nat 1)])
     else if k = ''room_id'' then None
     else if k = ''type'' then Some (JStr ty) else if k = ''content'' then Some content
     else if k = ''sender'' then Some (JStr sender)
     else if k = ''event_id'' then Some (JStr (CHR 0x24 # ''event'' @ show_nat n))
     else if k = ''origin_server_ts'' then Some (event_ts n) else None)"
proof -
  have "is_object (jdel ''room_id'' (mk_obj kvs))" for kvs by (simp add: mk_obj_def is_object_def)
  then show ?thesis by (simp add: client_event_def new_event_def Let_def get_jput get_jdel get_mk_obj)
qed

text \<open>What the sender's proxy puts on the wire last becomes the newest event of the room.\<close>

lemma wire_stored:
  assumes "percent_coding utf8 (env_codec E)" and "ascii_is_utf8 utf8" and "utf8 room" and "utf8 txn"
    and "set_path E (encrypted_send_path (env_codec E) room txn) = encrypted_send_path (env_codec E) room txn"
    and "header_to_str (''Bearer '' @ tok) = Some (''Bearer '' @ tok)"
    and "map_of (hs_tokens st) tok = Some (user, device)"
    and "map_of (hs_rooms st) room = Some rm" and "user \<in> set (ro_members rm)"
    and "json_law (env_codec E)" and "json_parse (env_codec E) cipher = Some c"
    and "hs_handle (env_codec E) (received (json_http E ''PUT'' (encrypted_send_path (env_codec E) room txn) tok (Some c))) st
      = Some (ans, st')"
  shows "rs_status ans = 200 \<and> map_of (hs_rooms st') room = Some (rm\<lparr>ro_timeline := ro_timeline rm @
    [new_event (Suc (hs_seq st)) room user device ''m.room.encrypted'' txn c]\<rparr>)"
proof -
  let ?cd = "env_codec E"
  let ?path = "encrypted_send_path ?cd room txn"
  let ?req = "received (json_http E ''PUT'' ?path tok (Some c))"
  have "CHR ''?'' \<notin> set ?path"
    using segment_coding.no_query [OF segment_coding_enc [OF assms(1)]]
    by (auto simp: encrypted_send_path_def)
  then have "split_once (CHR ''?'') ?path = None" by (simp add: split_once_None)
  then have path: "rc_path ?req = ?path" "rc_method ?req = ''PUT''" "rc_body ?req = json_print ?cd c"
      "rc_headers ?req = [bearer_auth tok, (''content-type'', ''application/json'')]"
    using assms(5) by (simp_all add: received_def record_request_def json_http_def upstream_url_def)
  have segs: "segments_of ?cd ?req = [''_matrix'', ''client'', ''v3'', ''rooms'', room, ''send'', ''m.room.encrypted'', txn]"
    using sent_segments [OF assms(1-4)] by (simp add: segments_of_def path(1))
  have tok: "request_token ?req = Some tok"
    using assms(6) by (simp add: request_token_def path(4) header_get_def bearer_auth_def strip_prefix_Some)
  let ?st = "(hs_accept ?req st)\<lparr>hs_idle := False\<rparr>"
  have st: "map_of (hs_tokens ?st) tok = Some (user, device)" "map_of (hs_rooms ?st) room = Some rm"
    "hs_seq ?st = hs_seq st" "hs_rooms ?st = hs_rooms st"
    using assms(7,8) by (simp_all add: hs_accept_def)
  have body: "recorded_json ?cd ?req = c"
    using assms(10,11) by (simp add: recorded_json_def path(3) json_law_def)
  have "map_option (\<lambda>(event_id, st'). (hs_json ?cd 200 (mk_obj [(''event_id'', JStr event_id)]), st'))
      (append_event room user device ''m.room.encrypted'' txn c ?st) = Some (ans, st')"
    using assms(12) put_event_answer [OF segs path(2) st(1,2) assms(9)] by (simp add: hs_handle_def tok body)
  then show ?thesis
    using assms(8) by (auto simp: append_event_def st Let_def update_conv' hs_json_def)
qed

text \<open>
  C3: two users talk through their proxies and the homeserver: when the sender's client gets its
  message into an encrypted room through its proxy, the homeserver it goes to answers it and keeps
  it, and the receiver's next sync through their proxy (whatever the homeserver has been asked in between,
  and however far back the sync goes) shows the receiver's client, right after the events that were
  there before, the message as it was sent.
\<close>

theorem message_through_homeserver:
  assumes "is_room_id (env_codec ES) room" and "ty \<noteq> ''m.room.encrypted''"
    and "is_room_encrypted ES room s = (Inr True, s0)"
    and "handle_send ES req room ty txn s = Some (Inr resp, t)"
    and "json_parse (env_codec ES) (rq_body req) = Some content" and "plain_message content"
    and "json_law (env_codec ES)" and "megolm_pair ES (olm (acct s)) ER (olm (acct r)) room"
    and "percent_coding utf8 (env_codec ES)" and "ascii_is_utf8 utf8" and "utf8 room" and "utf8 txn"
    and "set_path ES (encrypted_send_path (env_codec ES) room txn) = encrypted_send_path (env_codec ES) room txn"
    and "header_to_str (''Bearer '' @ token (acct s)) = Some (''Bearer '' @ token (acct s))"
    and "stream_ok st" and "map_of (hs_tokens st) (token (acct s)) = Some (alice, device)"
    and "map_of (hs_rooms st) room = Some rm" and "alice \<in> set (ro_members rm)" and "bob \<in> set (ro_members rm)"
    and "hs_handle (env_codec ES) (received (last (trace t))) st = Some (ans, st')"
    and "(hs_step (env_codec ES))\<^sup>*\<^sup>* y z" and "sy_state y = st'" and "since \<le> hs_seq st"
    and "\<And>j. parses_as ER ''Raw'' j" and "is_room_id (env_codec ER) room"
    and "process_sync_body ER (hs_sync_answer bob phone since (sy_state z)) r = Some (Inr body', r')"
    and "i = length (filter (\<lambda>e. since < se_seq e) (ro_timeline rm))"
  shows "rs_status ans = 200 \<and> i < length (joined_events room body') \<and>
    get_str ''type'' (joined_events room body' ! i) = Some ty \<and>
    get ''content'' (joined_events room body' ! i) = Some content"
proof -
  obtain w cipher w' c where c: "sdk_encrypt ES (olm (acct s)) room ty content w = (Inr cipher, w')"
      "json_parse (env_codec ES) cipher = Some c"
      "last (trace t) = json_http ES ''PUT'' (encrypted_send_path (env_codec ES) room txn) (token (acct s)) (Some c)"
    using sent_event_content [OF assms(1-7)] by blast
  let ?new = "new_event (Suc (hs_seq st)) room alice device ''m.room.encrypted'' txn c"
  have ans: "rs_status ans = 200"
    and stored: "map_of (hs_rooms st') room = Some (rm\<lparr>ro_timeline := ro_timeline rm @ [?new]\<rparr>)"
    using wire_stored [OF assms(9-14,16-18,7) c(2) assms(20) [unfolded c(3)]] by blast+
  have ok: "stream_ok (sy_state z)"
    using ordered.handle_rel [OF assms(20)] ordered.steps_rel [OF assms(21)] assms(15,22) by blast
  obtain rm' where rm': "map_of (hs_rooms (sy_state z)) room = Some rm'"
      "extends_room (hs_seq st') (hs_seq (sy_state z)) (rm\<lparr>ro_timeline := ro_timeline rm @ [?new]\<rparr>) rm'"
    using growsD [OF growing.steps_rel [OF assms(21)]] stored assms(22) by blast
  then obtain later where later: "ro_timeline rm' = ro_timeline rm @ ?new # later" "bob \<in> set (ro_members rm')"
    using assms(19) by (auto simp: extends_room_def)
  have "since < se_seq ?new" using assms(23) by (simp add: new_event_def)
  then have evs: "joined_events room (hs_sync_answer bob phone since (sy_state z)) =
      map (client_event phone False) (filter (\<lambda>e. since < se_seq e) (ro_timeline rm)) @
      client_event phone False ?new # map (client_event phone False) (filter (\<lambda>e. since < se_seq e) later)"
    using joined_events_sync [OF ok rm'(1) later(2)] by (simp add: later(1))
  then have i: "i < length (joined_events room (hs_sync_answer bob phone since (sy_state z)))"
    "joined_events room (hs_sync_answer bob phone since (sy_state z)) ! i = client_event phone False ?new"
    by (simp_all add: assms(27) nth_append)
  have "i < length (joined_events room body') \<and> get_str ''type'' (joined_events room body' ! i) = Some ty \<and>
      get ''content'' (joined_events room body' ! i) = Some content"
    by (rule delivered_event_shown [OF assms(8) c(1,2) assms(6) i(1) _ _ assms(24,25,26)])
      (simp_all add: i(2) encrypted_event_def get_str_def client_event_get)
  then show ?thesis using ans by blast
qed

section \<open>A concrete conversation\<close>

text \<open>The homeserver both accounts of \<open>talk_env\<close> are on, with one room.\<close>

definition talk_room_entry :: hs_room where
  "talk_room_entry = \<lparr>ro_encryption = Some JNull, ro_members = [''@a:hs'', ''@b:hs''], ro_timeline = []\<rparr>"

definition talk_hs :: hs_state where
  "talk_hs = hs_init\<lparr>hs_tokens := [(token (acct ref_ctx), (''@a:hs'', ''D''))], hs_rooms := [(''!r'', talk_room_entry)]\<rparr>"

definition talk_system :: "hs_state \<Rightarrow> hs_system" where
  "talk_system st = \<lparr>sy_state = st, sy_time = 0, sy_held = [], sy_answers = []\<rparr>"

lemma talk_hs_ok: "stream_ok talk_hs" "map_of (hs_tokens talk_hs) (token (acct ref_ctx)) = Some (''@a:hs'', ''D'')"
  "map_of (hs_rooms talk_hs) ''!r'' = Some talk_room_entry"
  by (simp_all add: talk_hs_def stream_ok_def hs_init_def timeline_ok_def talk_room_entry_def)

lemma talk_codec: "percent_coding (\<lambda>_. True) (env_codec talk_env)" "ascii_is_utf8 (\<lambda>_. True)"
  by (simp_all add: percent_coding_def ref_codec_def talk_env_def ascii_is_utf8_def)

lemma talk_conversation:
  "case handle_send talk_env sample_send ''!r'' ''m.room.message'' ''1'' ref_ctx of
      None \<Rightarrow> False
    | Some (r, t) \<Rightarrow> \<not> isl r \<and>
        (case hs_handle (env_codec talk_env) (received (last (trace t))) talk_hs of
           None \<Rightarrow> False
         | Some (ans, st') \<Rightarrow>
             (case process_sync_body talk_env (hs_sync_answer ''@b:hs'' ''P'' 0 st') ref_ctx of
                None \<Rightarrow> False | Some (r', t') \<Rightarrow> \<not> isl r'))"
  unfolding handle_send_def wire_content_def encrypt_content_def prepare_room_def bindP_def mapErrP_def
    look_def talk_idle sample_send_bytes
  by code_simp

lemma talk_runs:
  obtains resp t ans st' b r' where
    "handle_send talk_env sample_send ''!r'' ''m.room.message'' ''1'' ref_ctx = Some (Inr resp, t)"
    "hs_handle (env_codec talk_env) (received (last (trace t))) talk_hs = Some (ans, st')"
    "process_sync_body talk_env (hs_sync_answer ''@b:hs'' ''P'' 0 st') ref_ctx = Some (Inr b, r')"
proof -
  obtain r t where h: "handle_send talk_env sample_send ''!r'' ''m.room.message'' ''1'' ref_ctx = Some (r, t)"
    using talk_conversation
    by (cases "handle_send talk_env sample_send ''!r'' ''m.room.message'' ''1'' ref_ctx") auto
  note c1 = talk_conversation [unfolded h option.case prod.case]
  obtain ans st' where a: "hs_handle (env_codec talk_env) (received (last (trace t))) talk_hs = Some (ans, st')"
    using c1 by (cases "hs_handle (env_codec talk_env) (received (last (trace t))) talk_hs") auto
  note c2 = c1 [unfolded a option.case prod.case]
  obtain q r' where p: "process_sync_body talk_env (hs_sync_answer ''@b:hs'' ''P'' 0 st') ref_ctx = Some (q, r')"
    using c2 by (cases "process_sync_body talk_env (hs_sync_answer ''@b:hs'' ''P'' 0 st') ref_ctx") auto
  have "\<not> isl r" "\<not> isl q" using c2 by (simp_all add: p)
  then obtain resp b where "r = Inr resp" "q = Inr b" by (cases r; cases q) auto
  then show thesis using that h a p by blast
qed

theorem message_through_homeserver_witness:
  "\<exists>resp t ans st' b r'. handle_send talk_env sample_send ''!r'' ''m.room.message'' ''1'' ref_ctx = Some (Inr resp, t) \<and>
    hs_handle (env_codec talk_env) (received (last (trace t))) talk_hs = Some (ans, st') \<and>
    process_sync_body talk_env (hs_sync_answer ''@b:hs'' ''P'' 0 st') ref_ctx = Some (Inr b, r') \<and>
    get ''content'' (joined_events ''!r'' b ! 0) = Some hello_content"
proof -
  obtain resp t ans st' b r' where
    h: "handle_send talk_env sample_send ''!r'' ''m.room.message'' ''1'' ref_ctx = Some (Inr resp, t)"
    and a: "hs_handle (env_codec talk_env) (received (last (trace t))) talk_hs = Some (ans, st')"
    and p: "process_sync_body talk_env (hs_sync_answer ''@b:hs'' ''P'' 0 st') ref_ctx = Some (Inr b, r')"
    by (rule talk_runs)
  obtain s0 where k: "is_room_encrypted talk_env ''!r'' ref_ctx = (Inr True, s0)"
    using talk_room by (auto split: prod.splits)
  have path: "set_path talk_env q = q" for q by (simp add: talk_env_def send_env_def ref_env_def)
  have tok: "header_to_str (''Bearer '' @ token (acct ref_ctx)) = Some (''Bearer '' @ token (acct ref_ctx))"
    by code_simp
  have ty: "''m.room.message'' \<noteq> ''m.room.encrypted''" by simp
  have members: "''@a:hs'' \<in> set (ro_members talk_room_entry)" "''@b:hs'' \<in> set (ro_members talk_room_entry)"
    by (simp_all add: talk_room_entry_def)
  have st: "sy_state (talk_system st') = st'" by (simp add: talk_system_def)
  have len: "0 = length (filter (\<lambda>e. 0 < se_seq e) (ro_timeline talk_room_entry))"
    by (simp add: talk_room_entry_def)
  have p': "process_sync_body talk_env (hs_sync_answer ''@b:hs'' ''P'' 0 (sy_state (talk_system st'))) ref_ctx = Some (Inr b, r')"
    by (simp only: st p)
  have "rs_status ans = 200 \<and> 0 < length (joined_events ''!r'' b) \<and>
      get_str ''type'' (joined_events ''!r'' b ! 0) = Some ''m.room.message'' \<and>
      get ''content'' (joined_events ''!r'' b ! 0) = Some hello_content"
    by (rule message_through_homeserver [where ES = talk_env and ER = talk_env and room = "''!r''" and s = ref_ctx
        and txn = "''1''" and req = sample_send and t = t and r = ref_ctx and st = talk_hs and rm = talk_room_entry
        and since = 0 and alice = "''@a:hs''" and bob = "''@b:hs''" and device = "''D''" and phone = "''P''"
        and ?utf8.0 = "\<lambda>_. True" and y = "talk_system st'" and z = "talk_system st'" and s0 = s0 and resp = resp
        and st' = st' and r' = r'])
      (rule talk_ok ty k h hello_plain talk_json talk_megolm talk_codec TrueI path tok talk_hs_ok members a
        rtranclp.rtrancl_refl st le0 p' len)+
  then show ?thesis using h a p by blast
qed

text \<open>The room again, before and after a send.\<close>

definition talk_put :: recorded where
  "talk_put = record_request ''PUT'' ''/_matrix/client/v3/rooms/!r/send/m.text/1'' None
     [bearer_auth (token (acct ref_ctx))] ''hello''"

lemma talk_put_round:
  "case hs_round (env_codec talk_env) talk_put (poll_deadline (env_codec talk_env) talk_put 0) 0 (hs_accept talk_put talk_hs) of
     Some (Some _, _) \<Rightarrow> True | _ \<Rightarrow> False"
  by code_simp

theorem incremental_sync_exact_witness:
  "\<exists>st. hs_step (env_codec talk_env) (talk_system talk_hs) st \<and> (\<exists>new.
    joined_events ''!r'' (hs_sync_answer ''@b:hs'' ''P'' (sync_position (env_codec talk_env) (''since='' @ ''0'')) (sy_state st)) =
      map (client_event ''P'' False) new)"
proof -
  obtain resp st where "hs_round (env_codec talk_env) talk_put (poll_deadline (env_codec talk_env) talk_put 0) 0
      (hs_accept talk_put talk_hs) = Some (Some resp, st)"
    using talk_put_round by (auto split: option.splits)
  then obtain z where z: "hs_step (env_codec talk_env) (talk_system talk_hs) z"
    using arrive_answered [of "env_codec talk_env" talk_put "talk_system talk_hs" resp st] by (auto simp: talk_system_def)
  then have zs: "(hs_step (env_codec talk_env))\<^sup>*\<^sup>* (talk_system talk_hs) z" by (rule r_into_rtranclp)
  have s: "sy_state (talk_system talk_hs) = talk_hs" by (simp add: talk_system_def)
  have batch: "get_str ''next_batch'' (hs_sync_answer ''@b:hs'' ''P'' 0 talk_hs) = Some ''0''" by code_simp
  have small: "hs_seq talk_hs < 2 ^ 64" by (simp add: talk_hs_def hs_init_def)
  have member: "''@b:hs'' \<in> set (ro_members talk_room_entry)" by (simp add: talk_room_entry_def)
  show ?thesis
    using incremental_sync_exact [OF zs, unfolded s, OF talk_hs_ok(1,3) member batch small talk_codec] z
    by blast
qed

end
