(* ===== verification/Mailbox.thy ===== *)
theory Mailbox
  imports Redelivery Conversation
begin

text \<open>
  The way of a room key: it waits at the homeserver for its device, travels in sync answers that may be
  lost, come late or fail, and is forgotten by the homeserver when the client acknowledges its
  position. The homeserver of the tests and the proxy's processing of syncs, side by side.
\<close>

section \<open>One device, its proxy and the homeserver\<close>

text \<open>
  \<open>mb_answers\<close> are the answers to the device's syncs that are on their way to its proxy, \<open>mb_position\<close> is the
  furthest position the proxy has given to its client as a \<open>next_batch\<close>. The last two fields are
  histories: the to-device events of all responses the proxy received, and of those it processed without
  an error. What the crypto machine took in is not among them: that is its own ledger, in the world.
\<close>

record 'w mailbox =
  mb_hs :: hs_state
  mb_proxy :: "'w ctx"
  mb_answers :: "json list"
  mb_position :: nat
  mb_all :: "json list"
  mb_taken :: "json list"

text \<open>The device's sync, as the homeserver routes it.\<close>

definition is_sync_request :: "codec \<Rightarrow> recorded \<Rightarrow> bool" where
  "is_sync_request cd req \<longleftrightarrow> rc_method req = ''GET'' \<and>
     (\<exists>v. segments_of cd req = [''_matrix'', ''client'', v, ''sync''])"

lemma sync_request_answered:
  assumes "is_sync_request cd req" and "Option.bind tok (map_of (hs_tokens st)) = Some (user, device)"
  shows "hs_respond cd req tok st = Some (hs_sync cd user device (rc_query req) st)"
  using assms by (auto simp: is_sync_request_def hs_respond_def client_api_def)

text \<open>
  Requests come from anyone (\<open>request\<close>; those of the device acknowledge only positions its client was
  given). A sync of the device is answered (\<open>asked\<close>); the answer, in any order, is processed by the proxy and goes on
  to the client (\<open>processed\<close>), fails there (\<open>failed\<close>), or is lost. The proxy does other
  things (\<open>meanwhile\<close>) that leave alone the memory of to-device events and the machine's ledger of
  those it took in.
\<close>

inductive mailbox_step ::
  "('w, 'y) venv_scheme \<Rightarrow> ('w \<Rightarrow> json list) \<Rightarrow> hs_device \<Rightarrow> 'w mailbox \<Rightarrow> 'w mailbox \<Rightarrow> bool" for E ledger key where
  request:
    "hs_respond (env_codec E) req tok (mb_hs m) = Some (resp, st) \<Longrightarrow>
     (Option.bind tok (map_of (hs_tokens (mb_hs m))) = Some key \<Longrightarrow>
        sync_position (env_codec E) (rc_query req) \<le> mb_position m) \<Longrightarrow>
     mailbox_step E ledger key m (m\<lparr>mb_hs := st\<rparr>)"
| asked:
    "is_sync_request (env_codec E) req \<Longrightarrow> Option.bind tok (map_of (hs_tokens (mb_hs m))) = Some key \<Longrightarrow>
     sync_position (env_codec E) (rc_query req) \<le> mb_position m \<Longrightarrow>
     hs_respond (env_codec E) req tok (mb_hs m) = Some (hs_json (env_codec E) 200 body, st) \<Longrightarrow>
     body = hs_sync_answer (fst key) (snd key) (sync_position (env_codec E) (rc_query req)) (mb_hs m) \<Longrightarrow>
     mailbox_step E ledger key m (m\<lparr>mb_hs := st, mb_answers := mb_answers m @ [body]\<rparr>)"
| processed:
    "mb_answers m = as1 @ body # as2 \<Longrightarrow> receive_sync_changes E body (mb_proxy m) = (Inr (), t) \<Longrightarrow>
     get_str ''next_batch'' body = Some batch \<Longrightarrow>
     mailbox_step E ledger key m (m\<lparr>mb_proxy := t, mb_answers := as1 @ as2,
       mb_position := max (mb_position m) (sync_position (env_codec E) (''since='' @ batch)),
       mb_all := mb_all m @ incoming body, mb_taken := mb_taken m @ incoming body\<rparr>)"
| failed:
    "mb_answers m = as1 @ body # as2 \<Longrightarrow> receive_sync_changes E body (mb_proxy m) = (Inl e, t) \<Longrightarrow>
     mailbox_step E ledger key m (m\<lparr>mb_proxy := t, mb_answers := as1 @ as2, mb_all := mb_all m @ incoming body\<rparr>)"
| lost:
    "mb_answers m = as1 @ body # as2 \<Longrightarrow> mailbox_step E ledger key m (m\<lparr>mb_answers := as1 @ as2\<rparr>)"
| meanwhile:
    "ss_seen (sync (acct t)) = ss_seen (sync (acct (mb_proxy m))) \<Longrightarrow>
     olm (acct t) = olm (acct (mb_proxy m)) \<Longrightarrow> ledger (world t) = ledger (world (mb_proxy m)) \<Longrightarrow>
     mailbox_step E ledger key m (m\<lparr>mb_proxy := t\<rparr>)"

text \<open>Nothing on its way, nothing received yet.\<close>

definition mailbox_at :: "hs_state \<Rightarrow> 'w ctx \<Rightarrow> nat \<Rightarrow> 'w mailbox" where
  "mailbox_at st s position = \<lparr>mb_hs = st, mb_proxy = s, mb_answers = [], mb_position = position,
     mb_all = [], mb_taken = []\<rparr>"

section \<open>The proxy's side is a run of sync responses\<close>

lemma step_deliveries:
  assumes "mailbox_step E ledger key m m'" and "deliveries E ledger s (mb_all m) (mb_taken m) (mb_proxy m)"
  shows "deliveries E ledger s (mb_all m') (mb_taken m') (mb_proxy m')"
  using assms by cases (auto intro: deliveries.intros)

lemma mailbox_deliveries:
  assumes "(mailbox_step E ledger key)\<^sup>*\<^sup>* (mailbox_at st s p) m"
  shows "deliveries E ledger s (mb_all m) (mb_taken m) (mb_proxy m)"
  using assms
  by (induction rule: rtranclp_induct) (auto simp: mailbox_at_def intro: deliveries.start step_deliveries)

section \<open>A message is waiting or taken\<close>

lemma waiting_in_answer:
  "(n, ev) \<in> set (found_or [] (user, device) (hs_to_device st)) \<Longrightarrow> since < n \<Longrightarrow>
    ev \<in> set (incoming (hs_sync_answer user device since st))"
proof -
  assume "(n, ev) \<in> set (found_or [] (user, device) (hs_to_device st))" and "since < n"
  then have "ev \<in> set (map snd (pending_messages (user, device) since st))"
    by (force simp: pending_messages_def)
  moreover have "is_object (hs_sync_answer user device since st)"
    using sync_answer_get [of "''rooms''" user device since st]
    by (cases "hs_sync_answer user device since st") (auto simp: is_object_def)
  then have "incoming (hs_sync_answer user device since st) = map snd (pending_messages (user, device) since st)"
    by (simp add: incoming_def array_at_def pointer_obj sync_answer_get) (simp add: mk_obj_def)
  ultimately show ?thesis by simp
qed

text \<open>
  The message waits at the homeserver, or was in a response that was processed; while it was not, the
  client cannot acknowledge it, and every answer on its way holds it.
\<close>

definition waiting_or_taken :: "hs_device \<Rightarrow> nat \<Rightarrow> json \<Rightarrow> 'w mailbox \<Rightarrow> bool" where
  "waiting_or_taken key n ev m \<longleftrightarrow> ev \<in> set (mb_taken m) \<or>
     ((n, ev) \<in> set (found_or [] key (hs_to_device (mb_hs m))) \<and> mb_position m < n \<and>
      (\<forall>body \<in> set (mb_answers m). ev \<in> set (incoming body)))"

lemma respond_keeps:
  assumes "hs_respond cd req tok st = Some (r, st')"
    and "(n, ev) \<in> set (found_or [] key (hs_to_device st))"
    and "Option.bind tok (map_of (hs_tokens st)) = Some key \<longrightarrow> sync_position cd (rc_query req) \<le> p" and "p < n"
  shows "(n, ev) \<in> set (found_or [] key (hs_to_device st'))"
  using retained.respond_rel [OF assms(1), of key n ev] assms(2-4) by auto

lemma step_waiting:
  assumes "mailbox_step E ledger key m m'" and "waiting_or_taken key n ev m"
  shows "waiting_or_taken key n ev m'"
  using assms
proof cases
  case (request req tok resp st)
  then show ?thesis
    using assms(2) respond_keeps [OF request(2) _ impI, of n ev key "mb_position m"]
    by (auto simp: waiting_or_taken_def)
next
  case (asked req tok body st)
  then show ?thesis
    using assms(2) respond_keeps [OF asked(5), of n ev key "mb_position m"]
      waiting_in_answer [of n ev "fst key" "snd key" "mb_hs m" "sync_position (env_codec E) (rc_query req)"]
    by (auto simp: waiting_or_taken_def)
next
  case (processed as1 body as2 t batch)
  then show ?thesis using assms(2) by (auto simp: waiting_or_taken_def)
qed (use assms(2) in \<open>auto simp: waiting_or_taken_def\<close>)

lemma mailbox_waiting:
  assumes "(mailbox_step E ledger key)\<^sup>*\<^sup>* (mailbox_at st s p) m"
    and "(n, ev) \<in> set (found_or [] key (hs_to_device st))" and "p < n"
  shows "waiting_or_taken key n ev m"
  using assms(1)
proof (induction rule: rtranclp_induct)
  case base
  then show ?case using assms(2,3) by (simp add: waiting_or_taken_def mailbox_at_def)
qed (rule step_waiting)

lemma count_distinct: "distinct xs \<Longrightarrow> count_list xs x = (if x \<in> set xs then 1 else 0)"
  by (induction xs) auto

text \<open>
  C4: no key is lost and none comes twice. A to-device message the homeserver holds for a device
  is, after whatever anyone asked, with answers lost, overtaken and failed, either taken in by the
  device's crypto machine exactly once, as its own ledger tells, or not at all and then it still waits at
  the homeserver, the client was given no position that acknowledges it, and every sync it may ask for is
  answered with it.
\<close>

theorem no_key_lost:
  assumes "(mailbox_step E ledger (user, device))\<^sup>*\<^sup>* (mailbox_at st s p) m"
    and "(n, ev) \<in> set (found_or [] (user, device) (hs_to_device st))" and "p < n"
    and "event_key E ev \<notin> seen_set (ss_seen (sync (acct s)))" and "keeps_ledger E (olm (acct s)) ledger"
    and "length (mb_all m) \<le> 4096" and "raw_takes_all E" and "seen_ok (ss_seen (sync (acct s)))"
  shows "\<exists>handed. ledger (world (mb_proxy m)) = ledger (world s) @ handed \<and>
    (count_list (map (event_key E) handed) (event_key E ev) = 1 \<or>
     count_list (map (event_key E) handed) (event_key E ev) = 0 \<and>
     (n, ev) \<in> set (found_or [] (user, device) (hs_to_device (mb_hs m))) \<and> mb_position m < n \<and>
     (\<forall>since. since \<le> mb_position m \<longrightarrow> ev \<in> set (incoming (hs_sync_answer user device since (mb_hs m)))))"
proof -
  have few: "length (mb_all m) \<le> seen_capacity" using assms(6) by (simp add: seen_capacity_def)
  obtain handed where "delivered E ledger s (mb_all m) (mb_taken m) (mb_proxy m) handed"
    using deliveries_inv [OF mailbox_deliveries [OF assms(1)] assms(7,5,8) few] by blast
  note inv = this [unfolded delivered_def]
  have "distinct (map (event_key E) handed)"
    using inv remembersD [of "length (mb_all m)" "map (event_key E) handed"] by blast
  note count = count_distinct [OF this]
  show ?thesis
  proof (cases "event_key E ev \<in> event_key E ` set handed")
    case True
    then show ?thesis using inv by (intro exI [of _ handed]) (simp add: count)
  next
    case False
    then have "ev \<notin> set (mb_taken m)" using inv assms(4) by blast
    then have "(n, ev) \<in> set (found_or [] (user, device) (hs_to_device (mb_hs m)))" "mb_position m < n"
      using mailbox_waiting [OF assms(1-3)] by (simp_all add: waiting_or_taken_def)
    then show ?thesis
      using False inv waiting_in_answer by (intro exI [of _ handed]) (fastforce simp: count)
  qed
qed

text \<open>The device of \<open>sample_hs\<close> asks twice before its first answer comes; the machine keeps its ledger
  in the world.\<close>

definition mailbox_env :: "(json list) venv" where
  "mailbox_env = ledger_env"

definition sample_sync :: recorded where
  "sample_sync = record_request ''GET'' ''/_matrix/client/v3/sync'' None [(''authorization'', ''Bearer t1'')] []"

lemma sample_sync_is: "is_sync_request (env_codec mailbox_env) sample_sync"
proof -
  have "segments_of (env_codec mailbox_env) sample_sync = [''_matrix'', ''client'', ''v3'', ''sync'']" by code_simp
  then show ?thesis by (simp add: is_sync_request_def) (simp add: sample_sync_def record_request_def)
qed

definition sample_answer :: json where
  "sample_answer = hs_sync_answer ''@a:hs'' ''D'' 0 sample_hs"

definition sample_ctx :: "(json list) ctx" where
  "sample_ctx = ref_ctx_at []"

lemma sample_processed:
  "fst (receive_sync_changes mailbox_env sample_answer sample_ctx) = Inr () \<and>
   fst (receive_sync_changes mailbox_env sample_answer (snd (receive_sync_changes mailbox_env sample_answer sample_ctx))) = Inr ()"
  unfolding receive_sync_changes_def process_sync_changes_def record_finished_def by code_simp

definition after_sample :: hs_state where
  "after_sample = snd (hs_sync (env_codec mailbox_env) ''@a:hs'' ''D'' (rc_query sample_sync) sample_hs)"

lemma sample_answers:
  "sync_position (env_codec mailbox_env) (rc_query sample_sync) = 0"
  "map_of (hs_tokens sample_hs) ''t1'' = Some (''@a:hs'', ''D'')"
  "map_of (hs_tokens after_sample) ''t1'' = Some (''@a:hs'', ''D'')"
  "hs_sync_answer ''@a:hs'' ''D'' 0 after_sample = sample_answer"
  "get_str ''next_batch'' sample_answer = Some ''1''"
  "length (incoming sample_answer) = 1"
  "hs_query_param (env_codec mailbox_env) ''since=1'' ''since'' = Some (show_nat 1)"
  by code_simp+

lemma sample_position: "sync_position (env_codec mailbox_env) ''since=1'' = 1"
  using parse_usize_show [of 1] by (simp add: sync_position_def sample_answers(7))

lemma sample_asked:
  assumes "map_of (hs_tokens (mb_hs m)) ''t1'' = Some (''@a:hs'', ''D'')"
    and "hs_sync_answer ''@a:hs'' ''D'' 0 (mb_hs m) = sample_answer"
  obtains m' where "mailbox_step mailbox_env id (''@a:hs'', ''D'') m m'" "mb_answers m' = mb_answers m @ [sample_answer]"
    "mb_hs m' = snd (hs_sync (env_codec mailbox_env) ''@a:hs'' ''D'' (rc_query sample_sync) (mb_hs m))"
    "mb_proxy m' = mb_proxy m" "mb_all m' = mb_all m"
proof -
  let ?st = "snd (hs_sync (env_codec mailbox_env) ''@a:hs'' ''D'' (rc_query sample_sync) (mb_hs m))"
  have "mailbox_step mailbox_env id (''@a:hs'', ''D'') m (m\<lparr>mb_hs := ?st, mb_answers := mb_answers m @ [sample_answer]\<rparr>)"
  proof (rule asked [OF sample_sync_is, of "Some ''t1''"])
    show "hs_respond (env_codec mailbox_env) sample_sync (Some ''t1'') (mb_hs m) =
        Some (hs_json (env_codec mailbox_env) 200 sample_answer, ?st)"
      using sync_request_answered [OF sample_sync_is, of "Some ''t1''" "mb_hs m"] assms
      by (simp add: hs_sync_def Let_def sample_answers)
  qed (simp_all add: assms sample_answers)
  then show thesis by (rule that) simp_all
qed

lemma sample_taken:
  assumes "mb_answers m = sample_answer # as2" and "receive_sync_changes mailbox_env sample_answer (mb_proxy m) = (Inr (), t)"
  obtains m' where "mailbox_step mailbox_env id key m m'" "mb_answers m' = as2" "mb_proxy m' = t"
    "mb_all m' = mb_all m @ incoming sample_answer" "mb_position m' = max (mb_position m) 1"
proof -
  have "mb_answers m = [] @ sample_answer # as2" using assms(1) by simp
  from processed [OF this assms(2) sample_answers(5)] show thesis
    by (rule that) (simp_all add: sample_position)
qed

theorem no_key_lost_witness:
  "\<exists>m. (mailbox_step mailbox_env id (''@a:hs'', ''D''))\<^sup>*\<^sup>* (mailbox_at sample_hs sample_ctx 0) m \<and>
    length (mb_all m) = 2 \<and>
    count_list (map (event_key mailbox_env) (world (mb_proxy m))) (event_key mailbox_env (JStr ''key'')) = 1"
proof -
  let ?E = mailbox_env and ?k = "(''@a:hs'', ''D'')" and ?a = sample_answer
  obtain t where t: "receive_sync_changes ?E ?a sample_ctx = (Inr (), t)"
    using sample_processed by (metis prod.collapse)
  then obtain u where u: "receive_sync_changes ?E ?a t = (Inr (), u)"
    using sample_processed by (metis prod.collapse snd_conv)
  let ?m0 = "mailbox_at sample_hs sample_ctx 0 :: (json list) mailbox"
  have m0: "mb_hs ?m0 = sample_hs" "mb_proxy ?m0 = sample_ctx" "mb_answers ?m0 = []" "mb_all ?m0 = []"
    by (simp_all add: mailbox_at_def)
  obtain m1 where m1: "mailbox_step ?E id ?k ?m0 m1" "mb_answers m1 = [?a]" "mb_hs m1 = after_sample"
    "mb_proxy m1 = sample_ctx" "mb_all m1 = []"
    using sample_asked [of ?m0] unfolding m0 sample_answer_def [symmetric] after_sample_def [symmetric]
    by (auto simp: sample_answers)
  obtain m2 where m2: "mailbox_step ?E id ?k m1 m2" "mb_answers m2 = ?a # [?a]" "mb_proxy m2 = sample_ctx"
    "mb_all m2 = []"
    using sample_asked [of m1] unfolding m1(2-5) by (auto simp: sample_answers)
  obtain m3 where m3: "mailbox_step ?E id ?k m2 m3" "mb_answers m3 = ?a # []" "mb_proxy m3 = t"
    "mb_all m3 = incoming ?a"
    using sample_taken [OF m2(2) t [folded m2(3)], of ?k] unfolding m2(3-4) by auto
  obtain m4 where m4: "mailbox_step ?E id ?k m3 m4" "mb_all m4 = incoming ?a @ incoming ?a" "1 \<le> mb_position m4"
    using sample_taken [OF m3(2) u [folded m3(3)], of ?k] unfolding m3(3-4) by (metis max.cobounded2)
  have run: "(mailbox_step ?E id ?k)\<^sup>*\<^sup>* ?m0 m4"
    using converse_rtranclp_into_rtranclp [of "mailbox_step ?E id ?k"] m1(1) m2(1) m3(1) m4(1) rtranclp.rtrancl_refl
    by (metis (no_types))
  have waits: "(1, JStr ''key'') \<in> set (found_or [] ?k (hs_to_device sample_hs))" by (simp add: sample_hs_waiting)
  have seen: "ss_seen (sync (acct sample_ctx)) = empty_seen" "world sample_ctx = []"
    by (simp_all add: sample_ctx_def ref_ctx_at_def ref_account_def empty_sync_def)
  have law: "raw_takes_all ?E" "keeps_ledger ?E (olm (acct sample_ctx)) id"
    by (simp_all add: mailbox_env_def ledger_env_raw ledger_env_keeps)
  have ok: "seen_ok (ss_seen (sync (acct sample_ctx)))" by (simp add: seen(1) seen_ok_empty)
  have new: "event_key ?E (JStr ''key'') \<notin> seen_set (ss_seen (sync (acct sample_ctx)))"
    by (simp add: seen(1) empty_seen_def)
  have few: "length (mb_all m4) \<le> 4096" by (simp add: m4(2) sample_answers(6))
  show ?thesis
    using no_key_lost [OF run waits _ new law(2) few law(1) ok] run m4(2,3) sample_answers(6) seen(2) by auto
qed

end
