(* ===== verification/SyncBody.thy ===== *)
theory SyncBody
  imports EndToEnd LateKeys
begin

text \<open>
  What processing a sync response (\<open>process_sync_body\<close> of \<open>src/src/crypto/decrypt.rs\<close> and \<open>inject\<close> of
  \<open>src/src/crypto/repair.rs\<close>) does as a whole: it returns for every response of the shape the
  homeserver's have, changes nothing but the rooms, and settles every placeholder that was ready.
\<close>

section \<open>The shape of a response is kept\<close>

lemma walkable_jreplace: "walkable ks j \<Longrightarrow> walkable ks (jreplace ks x j)"
proof (induction ks arbitrary: j)
  case (Cons k ks)
  then show ?case
    by (cases j) (auto simp: is_object_def idx_JObj split: option.splits)
qed simp

abbreviation timeline_path :: "string list" where
  "timeline_path \<equiv> [''timeline'', ''events'']"

lemma process_room_shape:
  fixes s :: "'w ctx"
  assumes "process_room E sec rid room s = (Inr room', t)" and "walkable timeline_path room"
  shows "walkable timeline_path room'"
proof -
  obtain s3 where "decrypt_at E rid timeline_path room s3 = (Inr room', t)"
    using assms(1) unfolding process_room_def bindE_eq_Inr_iff by (elim exE conjE) (rule that)
  then have "room' = room \<or> (\<exists>es. room' = jreplace timeline_path (JArr es) room)"
    by (auto simp: decrypt_at_def bindE_eq_Inr_iff retE_def split: option.splits)
  then show ?thesis using walkable_jreplace [OF assms(2)] assms(2) by blast
qed

lemma any_stepwise: "stepwise (\<lambda>s t. True)"
  by unfold_locales simp_all

lemma list_all2_map_of_back:
  assumes "list_all2 (\<lambda>p q. fst q = fst p \<and> P (snd p) (snd q)) ps qs" and "map_of qs k = Some y"
  shows "\<exists>x. map_of ps k = Some x \<and> P x y"
  using assms by (induction rule: list_all2_induct) (auto split: if_splits)

lemma process_section_shape:
  assumes "process_section E sec v s = (Inr v', t)"
  shows "v' = v \<or> (\<exists>rs rs'. get sec v = Some (JObj rs) \<and> v' = jput sec (JObj rs') v \<and>
    (\<forall>rid room'. map_of rs' rid = Some room' \<longrightarrow>
       (\<exists>room. map_of rs rid = Some room \<and> (walkable timeline_path room \<longrightarrow> walkable timeline_path room'))))"
proof (cases "Option.bind (get sec v) as_object")
  case None
  then show ?thesis using assms by (simp add: process_section_def retE_def)
next
  case (Some rs)
  then have rs: "get sec v = Some (JObj rs)" by (auto simp: bind_eq_Some_conv)
  define step where "step = (\<lambda>(room_id, room). if is_room_id (env_codec E) room_id
       then bindE (process_room E sec room_id room) (\<lambda>room'. retE (room_id, room'))
       else retE (room_id, room))"
  obtain rs' where m: "mapE step rs s = (Inr rs', t)" "v' = jput sec (JObj rs') v"
    using assms Some by (auto simp: process_section_def bindE_eq_Inr_iff retE_def step_def)
  have "does (\<lambda>s t. True) (step p)" for p by (simp add: does_def)
  from mapE_pointwise [OF any_stepwise this m(1)]
  have "list_all2 (\<lambda>p q. fst q = fst p \<and> (walkable timeline_path (snd p) \<longrightarrow> walkable timeline_path (snd q))) rs rs'"
    by (rule list_all2_mono)
      (auto simp: step_def bindE_eq_Inr_iff retE_def simp del: walkable.simps dest: process_room_shape
        split: if_splits prod.splits)
  note earlier = list_all2_map_of_back [OF this]
  show ?thesis
    by (intro disjI2 exI [of _ rs] exI [of _ rs'] conjI allI impI) (use rs m(2) earlier in auto)
qed

text \<open>The shape a section of joined rooms has when events can be appended to any of its rooms.\<close>

definition rooms_shaped :: "json \<Rightarrow> bool" where
  "rooms_shaped v \<longleftrightarrow> (v = JNull \<or> is_object v) \<and> (idx v ''join'' = JNull \<or> is_object (idx v ''join'')) \<and>
     (\<forall>rid. walkable timeline_path (idx (idx v ''join'') rid))"

lemma pushable_rooms: "pushable body \<longleftrightarrow> is_object body \<and> rooms_shaped (idx body ''rooms'')"
  unfolding pushable_def walkable_joined rooms_shaped_def by (auto simp del: walkable.simps)

lemma walkable_JNull: "walkable ks JNull"
  by (induction ks) simp_all

lemma process_join_shape:
  assumes "process_section E ''join'' v s = (Inr v', t)" and "rooms_shaped v"
  shows "rooms_shaped v'"
  using process_section_shape [OF assms(1)]
proof
  assume "\<exists>rs rs'. get ''join'' v = Some (JObj rs) \<and> v' = jput ''join'' (JObj rs') v \<and>
    (\<forall>rid room'. map_of rs' rid = Some room' \<longrightarrow>
       (\<exists>room. map_of rs rid = Some room \<and> (walkable timeline_path room \<longrightarrow> walkable timeline_path room')))"
  then obtain rs rs' where rs: "get ''join'' v = Some (JObj rs)" "v' = jput ''join'' (JObj rs') v"
    and earlier: "\<And>rid room'. map_of rs' rid = Some room' \<Longrightarrow>
       \<exists>room. map_of rs rid = Some room \<and> (walkable timeline_path room \<longrightarrow> walkable timeline_path room')"
    by (elim exE conjE) (rule that, auto simp del: walkable.simps)
  have o: "is_object v" using rs(1) by (cases v) (auto simp: is_object_def)
  have j: "idx v ''join'' = JObj rs" "idx v' ''join'' = JObj rs'"
    using rs o by (simp_all add: idx_def get_jput)
  have "walkable timeline_path (idx (JObj rs') rid)" for rid
  proof (cases "map_of rs' rid")
    case None
    then show ?thesis by (simp add: idx_JObj)
  next
    case (Some room')
    from earlier [OF this] obtain room where r: "map_of rs rid = Some room"
      "walkable timeline_path room \<longrightarrow> walkable timeline_path room'" by (elim exE conjE)
    have "walkable timeline_path (idx (JObj rs) rid)"
      using assms(2) j(1) by (simp add: rooms_shaped_def del: walkable.simps)
    then show ?thesis using r Some by (simp add: idx_JObj del: walkable.simps)
  qed
  then show ?thesis
    unfolding rooms_shaped_def j(2) using o rs(2) by (simp add: is_object_def del: walkable.simps)
qed (use assms(2) in simp)

lemma process_leave_shape:
  assumes "process_section E ''leave'' v s = (Inr v', t)" and "rooms_shaped v"
  shows "rooms_shaped v'"
  using process_section_shape [OF assms(1)] assms(2)
  by (auto simp: rooms_shaped_def idx_def get_jput simp del: walkable.simps)

lemma process_rooms_shape:
  assumes "process_rooms E body s = (Inr body', t)" and "pushable body"
  shows "pushable body'"
proof (cases "get ''rooms'' body")
  case None
  then show ?thesis using assms by (simp add: process_rooms_def retE_def)
next
  case (Some v)
  then obtain v1 v2 s1 where p: "process_section E ''join'' v s = (Inr v1, s1)"
      "process_section E ''leave'' v1 s1 = (Inr v2, t)" "body' = jput ''rooms'' v2 body"
    using assms(1) by (auto simp: process_rooms_def bindE_eq_Inr_iff retE_def)
  have "rooms_shaped v" using assms(2) Some by (simp add: pushable_rooms idx_def)
  from process_leave_shape [OF p(2) process_join_shape [OF p(1) this]] show ?thesis
    using assms(2) p(3) by (simp add: pushable_rooms idx_def get_jput)
qed

section \<open>Nothing fails, and nothing but the rooms changes\<close>

lemma inject_returns:
  assumes "pushable body"
  shows "\<exists>n body' t. inject E body s = Some (Inr (n, body'), t)"
proof -
  obtain ready q where q: "take_ready (repairs (acct s)) = (ready, q)" by fastforce
  show ?thesis
    using inject_loop_returns [OF assms, of E "delivered_event_ids body" ready 0 "on_repairs (\<lambda>_. q) s"]
    by (auto simp: inject_def q Let_def)
qed

lemma process_sync_body_cases:
  assumes "process_sync_body E body s = Some (r, t)"
  shows "\<exists>body'. r = Inr body' \<and> (\<forall>k. k \<noteq> ''rooms'' \<longrightarrow> get k body' = get k body)"
proof -
  obtain b1 s1 where p: "process_rooms E body s = (Inr b1, s1)"
    using infallible_process_rooms unfolding infallible_def by blast
  have b1: "get k b1 = get k body" if "k \<noteq> ''rooms''" for k
    using p that
    by (auto simp: process_rooms_def bindE_eq_Inr_iff retE_def get_jput split: option.splits)
  have "\<exists>m b2. inject E b1 s1 = Some (Inr (m, b2), t) \<and> r = Inr b2 \<and>
      (\<forall>k. k \<noteq> ''rooms'' \<longrightarrow> get k b2 = get k b1)"
    using assms p
    by (auto simp: process_sync_body_def bindP_def liftP_def retE_def inject_def Let_def
        split: option.splits prod.splits sum.splits if_splits dest!: inject_loop_keeps)
  then show ?thesis using b1 by auto
qed

text \<open>
  C17: processing a sync response whose \<open>rooms\<close>, \<open>join\<close>, joined rooms and timelines are objects, null or
  missing, as a homeserver's are, always returns, with a body: it gives no error and does not panic, whatever
  the machine, the store and the queue of placeholders hold. Whatever the response is, it puts no request
  on the wire, and where it returns nothing in the response is changed but its \<open>rooms\<close>: \<open>next_batch\<close>,
  to-device events, device lists and every other key reach the client as the homeserver sent them.
\<close>

theorem sync_body_only_rooms:
  "(pushable body \<longrightarrow> (\<exists>body' t. process_sync_body E body s = Some (Inr body', t))) \<and>
   (\<forall>r t. process_sync_body E body s = Some (r, t) \<longrightarrow>
      (\<exists>body'. r = Inr body' \<and> (\<forall>k. k \<noteq> ''rooms'' \<longrightarrow> get k body' = get k body)) \<and>
      trace t = trace s \<and> token (acct t) = token (acct s))"
proof (intro conjI impI allI)
  assume shape: "pushable body"
  obtain b1 s1 where p: "process_rooms E body s = (Inr b1, s1)"
    using infallible_process_rooms unfolding infallible_def by blast
  obtain n b2 t where "inject E b1 s1 = Some (Inr (n, b2), t)"
    using inject_returns [OF process_rooms_shape [OF p shape]] by blast
  then show "\<exists>body' t. process_sync_body E body s = Some (Inr body', t)"
    using p by (simp add: process_sync_body_def bindP_def liftP_def retE_def)
next
  fix r t assume run: "process_sync_body E body s = Some (r, t)"
  show "\<exists>body'. r = Inr body' \<and> (\<forall>k. k \<noteq> ''rooms'' \<longrightarrow> get k body' = get k body)"
    by (rule process_sync_body_cases [OF run])
  have "trace t = trace s \<and> same_account s t"
    using doesPD [OF silent.does_process_sync run] .
  then show "trace t = trace s" "token (acct t) = token (acct s)" by (simp_all add: same_account_def)
qed

theorem sync_body_only_rooms_witness:
  "\<exists>b t. process_sync_body missing_key_env sample_sync ref_ctx = Some (Inr b, t) \<and>
    get ''next_batch'' b = Some (JStr ''s1'')"
proof -
  have "rooms_shaped (idx sample_sync ''rooms'')"
    by (auto simp: rooms_shaped_def sample_sync_def idx_JObj is_object_def)
  then have "pushable sample_sync" unfolding pushable_rooms by (simp add: sample_sync_def is_object_def)
  then obtain b t where p: "process_sync_body missing_key_env sample_sync ref_ctx = Some (Inr b, t)"
    using sync_body_only_rooms [of sample_sync missing_key_env ref_ctx] by blast
  have "get ''next_batch'' b = get ''next_batch'' sample_sync"
    using sync_body_only_rooms [of sample_sync missing_key_env ref_ctx] p by auto
  then show ?thesis using p by (intro exI [of _ b] exI [of _ t]) (simp add: sample_sync_def)
qed

section \<open>Every placeholder that was ready is settled\<close>

lemma snapshot_requeue:
  assumes "queue_inv q" and "pr_event_id r \<notin> set (order q)"
  shows "pending_snapshot (requeue r q) = pending_snapshot q @ [r]"
proof -
  have "map (\<lambda>e. the (map_of (pending (requeue r q)) e)) (order q) = map (\<lambda>e. the (map_of (pending q) e)) (order q)"
    using assms(2) by (intro map_cong) (auto simp: requeue_def update_conv')
  then show ?thesis
    by (simp add: snapshot_map [OF assms(1)] snapshot_map [OF requeue_inv [OF assms]])
      (simp add: requeue_def update_conv')
qed

text \<open>
  What becomes of a placeholder that is taken out, \<open>again\<close> where it is put back: where the response
  brings its event, nothing more; otherwise it is decrypted, by the machine of this account. Where that fails
  it is put back, and where it succeeds the edit that replaces it, if there is one, is in its room
  of the response, if the client is in the room.
\<close>

definition fate ::
  "('w, 'y) env_scheme \<Rightarrow> string list \<Rightarrow> 'w ctx \<Rightarrow> json \<Rightarrow> pending_repair \<Rightarrow> bool \<Rightarrow> bool" where
  "fate E delivered s body' p again \<longleftrightarrow>
     (if pr_event_id p \<in> set delivered then \<not> again
      else \<exists>u d v. same_account s u \<and> decrypt E (pr_room_id p) (pr_event p) u = (Inr d, v) \<and>
        (case d of
           Decrypted plain \<Rightarrow> \<not> again \<and> (\<forall>edit. synthetic_edit plain = Some (Some edit) \<longrightarrow>
             last_unread_notifications (pr_room_id p) (rooms (acct s)) \<noteq> None \<longrightarrow>
             edit \<in> set (joined_events (pr_room_id p) body'))
         | _ \<Rightarrow> again))"

lemma fate_earlier:
  assumes "fate E delivered s1 body' p again" and "same_account s s1" and "rooms (acct s1) = rooms (acct s)"
  shows "fate E delivered s body' p again"
proof (cases "pr_event_id p \<in> set delivered")
  case False
  with assms(1) obtain u d v where
    "same_account s1 u" "decrypt E (pr_room_id p) (pr_event p) u = (Inr d, v)"
    and "case d of
        Decrypted plain \<Rightarrow> \<not> again \<and> (\<forall>edit. synthetic_edit plain = Some (Some edit) \<longrightarrow>
          last_unread_notifications (pr_room_id p) (rooms (acct s)) \<noteq> None \<longrightarrow>
          edit \<in> set (joined_events (pr_room_id p) body'))
      | _ \<Rightarrow> again"
    unfolding fate_def assms(3) by (simp only: if_False) (elim exE conjE, rule that)
  then show ?thesis
    using False same.trans [OF assms(2)] unfolding fate_def by (simp only: if_False) blast
qed (use assms(1) in \<open>simp add: fate_def\<close>)

lemma push_puts:
  assumes "push_into_sync u room ev body = Some (pushed, body')" and "is_object body" and "u \<noteq> None"
  shows "ev \<in> set (joined_events room body')"
proof -
  have pushed
    using assms by (auto simp: push_into_sync_def Let_def bind_eq_Some_conv split: if_splits)
  then show ?thesis
    using push_into_sync_effect [OF assms(1)] by (simp add: joined_events_def elements_def)
qed

lemma push_object:
  assumes "push_into_sync u room ev body = Some (pushed, body')" and "is_object body"
  shows "is_object body'"
  using assms
  by (auto simp: push_into_sync_def Let_def bind_eq_Some_conv joined_path_def simp del: jupdate.simps
      split: if_splits option.splits dest: jupdate_is_object)

lemma decrypt_keeps:
  assumes "decrypt E room ev s = (r, t)"
  shows "same_account s t" "rooms (acct t) = rooms (acct s)" "repairs (acct t) = repairs (acct s)"
  using doesD [OF silent.does_decrypt assms] doesD [OF roomless_decrypt assms] by (simp_all add: same_rooms_def)

text \<open>The loop settles the placeholders one after the other, and puts back in this order.\<close>

lemma inject_loop_fates:
  "inject_loop E delivered rs n body s = Some (r, t) \<Longrightarrow> is_object body \<Longrightarrow> queue_inv (repairs (acct s)) \<Longrightarrow>
    distinct (map pr_event_id rs) \<Longrightarrow> set (map pr_event_id rs) \<inter> set (order (repairs (acct s))) = {} \<Longrightarrow>
    \<exists>m body' fates. r = Inr (m, body') \<and> list_all2 (fate E delivered s body') rs fates \<and>
      queue_inv (repairs (acct t)) \<and>
      pending_snapshot (repairs (acct t)) = pending_snapshot (repairs (acct s)) @ map fst (filter snd (zip rs fates))"
proof (induction rs arbitrary: n body s)
  case (Cons rp rs)
  obtain d s1 where d: "decrypt E (pr_room_id rp) (pr_event rp) s = (Inr d, s1)"
    using infallible_decrypt unfolding infallible_def by blast
  note s1 = decrypt_keeps [OF d]
  have skip: ?case
    if run: "inject_loop E delivered rs m b s2 = Some (r, t)" and "is_object b" "repairs (acct s2) = repairs (acct s)"
      "same_account s s2" "rooms (acct s2) = rooms (acct s)"
      and now: "\<And>k body'. inject_loop E delivered rs m b s2 = Some (Inr (k, body'), t) \<Longrightarrow> fate E delivered s body' rp False"
    for m b s2
  proof -
    from Cons.IH [OF run that(2)] Cons.prems(3-5) that(3) obtain k body' fates where
      f: "r = Inr (k, body')" "list_all2 (fate E delivered s2 body') rs fates" "queue_inv (repairs (acct t))"
      "pending_snapshot (repairs (acct t)) = pending_snapshot (repairs (acct s)) @ map fst (filter snd (zip rs fates))"
      by auto
    have "list_all2 (fate E delivered s body') rs fates"
      by (rule list_all2_mono [OF f(2)]) (rule fate_earlier [OF _ that(4,5)])
    then show ?thesis
      using f now run by (intro exI [of _ k] exI [of _ body'] exI [of _ "False # fates"]) simp
  qed
  consider "pr_event_id rp \<in> set delivered" | plain where "pr_event_id rp \<notin> set delivered" "d = Decrypted plain"
    | "pr_event_id rp \<notin> set delivered" "\<forall>plain. d \<noteq> Decrypted plain" by blast
  then show ?case
  proof cases
    case 1
    then show ?thesis
      using Cons.prems(1,2) by (intro skip [of n body s]) (auto simp: fate_def same.refl)
  next
    case 2
    let ?u = "last_unread_notifications (pr_room_id rp) (rooms (acct s1))"
    obtain v where v: "synthetic_edit plain = Some v"
      using synthetic_edit_total d 2 by blast
    show ?thesis
    proof (cases v)
      case None
      then have "inject_loop E delivered rs n body s1 = Some (r, t)"
        using Cons.prems(1) 2 d v by (simp add: bindP_def liftP_def)
      moreover have "fate E delivered s body' rp False" for body'
        using 2 d v None same.refl unfolding fate_def by fastforce
      ultimately show ?thesis using skip Cons.prems(2) s1 by blast
    next
      case (Some edit)
      obtain pushed b1 where b: "push_into_sync ?u (pr_room_id rp) edit body = Some (pushed, b1)"
        and run: "inject_loop E delivered rs (if pushed then Suc n else n) b1 s1 = Some (r, t)"
        using Cons.prems(1) 2 d v Some by (auto simp: bindP_def liftP_def split: option.splits)
      have "fate E delivered s body' rp False"
        if "inject_loop E delivered rs (if pushed then Suc n else n) b1 s1 = Some (Inr (k, body'), t)" for k body'
      proof -
        have "edit \<in> set (joined_events (pr_room_id rp) body')"
          if "last_unread_notifications (pr_room_id rp) (rooms (acct s)) \<noteq> None"
          using push_puts [OF b Cons.prems(2)] that s1(2)
            inject_loop_keeps_events [OF \<open>inject_loop _ _ _ _ b1 s1 = Some (Inr (k, body'), t)\<close>, of "pr_room_id rp"]
          by (auto dest: set_mono_prefix)
        then have "\<exists>u d v. same_account s u \<and> decrypt E (pr_room_id rp) (pr_event rp) u = (Inr d, v) \<and>
            (case d of Decrypted plain \<Rightarrow> \<not> False \<and> (\<forall>edit. synthetic_edit plain = Some (Some edit) \<longrightarrow>
               last_unread_notifications (pr_room_id rp) (rooms (acct s)) \<noteq> None \<longrightarrow>
               edit \<in> set (joined_events (pr_room_id rp) body')) | _ \<Rightarrow> False)"
          by (intro exI [of _ s] exI [of _ d] exI [of _ s1]) (simp add: 2(2) d [unfolded 2(2)] v Some same.refl)
        then show ?thesis using 2(1) by (simp add: fate_def)
      qed
      then show ?thesis using skip [OF run push_object [OF b Cons.prems(2)]] s1 by blast
    qed
  next
    case 3
    let ?s2 = "on_repairs (requeue rp) s1"
    have run: "inject_loop E delivered rs n body ?s2 = Some (r, t)"
      using Cons.prems(1) d 3 by (cases d) (auto simp: bindP_def liftP_def writes_def)
    have out: "pr_event_id rp \<notin> set (order (repairs (acct s)))" using Cons.prems(5) by simp
    have "queue_inv (repairs (acct ?s2))" using Cons.prems(3) out s1(3) by (simp add: requeue_inv)
    moreover have "set (map pr_event_id rs) \<inter> set (order (repairs (acct ?s2))) = {}"
      using Cons.prems(4,5) s1(3) by auto
    moreover have "distinct (map pr_event_id rs)" using Cons.prems(4) by simp
    ultimately obtain k body' fates where
      f: "r = Inr (k, body')" "list_all2 (fate E delivered ?s2 body') rs fates" "queue_inv (repairs (acct t))"
      "pending_snapshot (repairs (acct t)) = pending_snapshot (repairs (acct ?s2)) @ map fst (filter snd (zip rs fates))"
      using Cons.IH [OF run Cons.prems(2)] by blast
    have near: "same_account s ?s2" "rooms (acct ?s2) = rooms (acct s)"
      using s1 by (simp_all add: same_account_def)
    have "list_all2 (fate E delivered s body') rs fates"
      by (rule list_all2_mono [OF f(2)]) (rule fate_earlier [OF _ near])
    moreover have "\<exists>u d v. same_account s u \<and> decrypt E (pr_room_id rp) (pr_event rp) u = (Inr d, v) \<and>
        (case d of Decrypted plain \<Rightarrow> \<not> True \<and> (\<forall>edit. synthetic_edit plain = Some (Some edit) \<longrightarrow>
           last_unread_notifications (pr_room_id rp) (rooms (acct s)) \<noteq> None \<longrightarrow>
           edit \<in> set (joined_events (pr_room_id rp) body')) | _ \<Rightarrow> True)"
      using 3(2) by (intro exI [of _ s] exI [of _ d] exI [of _ s1]) (simp add: d same.refl split: decryption.split)
    then have "fate E delivered s body' rp True" using 3(1) by (simp add: fate_def)
    moreover have "pending_snapshot (repairs (acct ?s2)) = pending_snapshot (repairs (acct s)) @ [rp]"
      using snapshot_requeue [OF Cons.prems(3) out] s1(3) by simp
    ultimately show ?thesis
      using f by (intro exI [of _ k] exI [of _ body'] exI [of _ "True # fates"]) simp
  qed
qed (auto simp: liftP_def retE_def)

lemma length_again: "length (map fst (filter snd (zip rs fates))) \<le> length rs"
  by (metis length_filter_le length_map length_zip min.bounded_iff)

lemma snapshot_order: "queue_inv q \<Longrightarrow> length (pending_snapshot q) = length (order q)"
  by (simp add: snapshot_map)

text \<open>
  C19: repairing accounts for every placeholder. Those whose key had not come wait on, with their
  events and in their places. Each of those whose key should be there is settled: the response brings the
  event itself; or the machine decrypts it, and then the response brings the edit made of it, in its room, if the
  client is in that room; or it does not decrypt, and then the placeholder is put back as it was, behind the
  others and in their order. Nothing else is in the queue, which stays well-formed and bounded.
\<close>

theorem repairs_accounted:
  assumes "queue_ok (repairs (acct s))" and "is_object body" and "inject E body s = Some (r, t)"
  shows "queue_ok (repairs (acct t)) \<and>
    (\<exists>n body' fates. r = Inr (n, body') \<and>
       list_all2 (fate E (delivered_event_ids body) s body')
         (filter (is_ready (repairs (acct s))) (pending_snapshot (repairs (acct s)))) fates \<and>
       pending_snapshot (repairs (acct t)) =
         filter (\<lambda>p. \<not> is_ready (repairs (acct s)) p) (pending_snapshot (repairs (acct s))) @
         map fst (filter snd (zip (filter (is_ready (repairs (acct s))) (pending_snapshot (repairs (acct s)))) fates)))"
proof -
  let ?q = "repairs (acct s)"
  let ?ready = "filter (is_ready ?q) (pending_snapshot ?q)"
  have inv: "queue_inv ?q" by (rule queue_ok_inv [OF assms(1)])
  obtain q1 where take: "take_ready ?q = (?ready, q1)" using take_ready_eq [OF inv] by simp
  have rest: "pending_snapshot q1 = filter (\<lambda>p. \<not> is_ready ?q p) (pending_snapshot ?q)" "queue_inv q1"
    using take_ready_partition [OF inv] by (simp_all add: take)
  have ids: "map pr_event_id ?ready = filter (\<lambda>e. e \<in> ready_ids ?q) (order ?q)"
    "order q1 = filter (\<lambda>e. e \<notin> ready_ids ?q) (order ?q)"
    using take_ready_ids [OF inv] take take_ready_eq [OF inv] by auto
  have dist: "distinct (map pr_event_id ?ready)" "set (map pr_event_id ?ready) \<inter> set (order q1) = {}"
    using inv unfolding ids by (auto simp: queue_inv_def)
  have "\<exists>n body' fates. r = Inr (n, body') \<and> list_all2 (fate E (delivered_event_ids body) s body') ?ready fates \<and>
      queue_inv (repairs (acct t)) \<and>
      pending_snapshot (repairs (acct t)) = pending_snapshot q1 @ map fst (filter snd (zip ?ready fates))"
  proof (cases "?ready = []")
    case True
    then have "r = Inr (0, body)" "t = on_repairs (\<lambda>_. q1) s"
      using assms(3) take unfolding inject_def by simp_all
    then show ?thesis
      unfolding True using rest(2) by (intro exI [of _ 0] exI [of _ body] exI [of _ "[]"]) simp
  next
    case False
    then have "inject_loop E (delivered_event_ids body) ?ready 0 body (on_repairs (\<lambda>_. q1) s) = Some (r, t)"
      using assms(3) take unfolding inject_def by simp
    from inject_loop_fates [OF this assms(2)] rest(2) dist obtain n body' fates where
      f: "r = Inr (n, body')" "list_all2 (fate E (delivered_event_ids body) (on_repairs (\<lambda>_. q1) s) body') ?ready fates"
      "queue_inv (repairs (acct t))"
      "pending_snapshot (repairs (acct t)) = pending_snapshot q1 @ map fst (filter snd (zip ?ready fates))"
      by auto
    have near: "same_account s (on_repairs (\<lambda>_. q1) s)" "rooms (acct (on_repairs (\<lambda>_. q1) s)) = rooms (acct s)"
      by (simp_all add: same_account_def)
    have "list_all2 (fate E (delivered_event_ids body) s body') ?ready fates"
      by (rule list_all2_mono [OF f(2)]) (rule fate_earlier [OF _ near])
    then show ?thesis using f by blast
  qed
  then obtain n body' fates where f: "r = Inr (n, body')"
    "list_all2 (fate E (delivered_event_ids body) s body') ?ready fates" "queue_inv (repairs (acct t))"
    "pending_snapshot (repairs (acct t)) = pending_snapshot q1 @ map fst (filter snd (zip ?ready fates))"
    by blast
  have "length (order (repairs (acct t))) \<le> length (pending_snapshot q1) + length ?ready"
    using snapshot_order [OF f(3)] length_again [of ?ready fates] by (simp add: f(4))
  also have "\<dots> = length (pending_snapshot ?q)"
    using sum_length_filter_compl [of "is_ready ?q" "pending_snapshot ?q"] by (simp add: rest(1))
  finally have "queue_ok (repairs (acct t))"
    using assms(1) f(3) snapshot_order [OF inv] by (simp add: queue_ok_def)
  then show ?thesis using f rest(1) by (intro conjI exI [of _ n] exI [of _ body'] exI [of _ fates]) simp_all
qed

text \<open>Everything is tried again after an import, and the key of the one placeholder is still not there.\<close>

theorem repairs_accounted_witness:
  "\<exists>r t. inject (ref_env []) (JObj []) (on_repairs (note_bulk_import o track ''!r:hs'' encrypted_sample None) ref_ctx) = Some (r, t) \<and>
    map pr_event_id (pending_snapshot (repairs (acct t))) = [''$1'']"
proof -
  let ?s = "on_repairs (note_bulk_import o track ''!r:hs'' encrypted_sample None) ref_ctx"
  let ?q = "repairs (acct ?s)"
  have ok: "queue_ok ?q"
    by (simp add: note_bulk_import_ok track_ok queue_ok_empty ref_ctx_def ref_ctx_at_def ref_account_def)
  have "case inject (ref_env []) (JObj []) ?s of None \<Rightarrow> False | Some _ \<Rightarrow> True"
    by code_simp
  then obtain r t where i: "inject (ref_env []) (JObj []) ?s = Some (r, t)"
    by (auto split: option.splits)
  have obj: "is_object (JObj [])" by (simp add: is_object_def)
  have ready: "map pr_event_id (filter (is_ready ?q) (pending_snapshot ?q)) = [''$1'']"
    "filter (\<lambda>p. \<not> is_ready ?q p) (pending_snapshot ?q) = []" "delivered_event_ids (JObj []) = []"
    by code_simp+
  have fails: "d = Undecryptable ''MissingRoomKey'' None ev \<or> d = Untouched"
    if "decrypt (ref_env [] :: unit env) room ev u = (Inr d, v)" for room ev d u v
    using that
    by (auto simp: decrypt_def look_def retE_def bindE_def attempt_def call_def ref_env_def split: if_splits)
  obtain body' fates where f: "list_all2 (fate (ref_env []) [] ?s body') (filter (is_ready ?q) (pending_snapshot ?q)) fates"
    "pending_snapshot (repairs (acct t)) = map fst (filter snd (zip (filter (is_ready ?q) (pending_snapshot ?q)) fates))"
    using repairs_accounted [OF ok obj i] unfolding ready(2,3) by auto
  obtain p where p: "filter (is_ready ?q) (pending_snapshot ?q) = [p]" "pr_event_id p = ''$1''"
    using ready(1) by (auto simp: map_eq_Cons_conv)
  then obtain again where a: "fates = [again]" "fate (ref_env []) [] ?s body' p again"
    using f(1) by (auto simp: list_all2_Cons1)
  have again using a(2) by (auto simp: fate_def dest!: fails)
  then show ?thesis using f(2) i a(1) p by simp
qed

end
