(* ===== verification/Start.thy ===== *)
theory Start
  imports Proxy Ctl Setup
begin

text \<open>
  The program from its first line to its last (\<open>src/src/main.rs\<close>, \<open>AppState::new\<close> of
  \<open>src/src/proxy/mod.rs\<close>, \<open>Upstream::new\<close> of \<open>src/src/upstream.rs\<close>): what a command line runs, how
  the proxy comes up, and how it goes down. Parsing the command line, the logging library, binding a
  listener, serving connections and signals are parameters.
\<close>

section \<open>The command line\<close>

record ctl_args =
  ca_config :: "string option"
  ca_proxy :: "string option"
  ca_command :: ctl_command

datatype command =
    Serve serve_args
  | CtlCommand ctl_args
  | SetupCommand setup_args

record command_line =
  cmd_command :: "command option"
  cmd_serve :: serve_args

text \<open>Which of the three programs runs, with what.\<close>

datatype program = RunServe serve_args | RunCtl ctl_args | RunSetup setup_args

definition dispatch :: "command_line \<Rightarrow> program" where
  "dispatch cli =
     (case cmd_command cli of
        Some (CtlCommand args) \<Rightarrow> RunCtl args
      | Some (SetupCommand args) \<Rightarrow> RunSetup args
      | Some (Serve args) \<Rightarrow> RunServe args
      | None \<Rightarrow> RunServe (cmd_serve cli))"

text \<open>The command line tools, run to their end.\<close>

definition run_tool :: "'w cenv \<Rightarrow> program \<Rightarrow> 'w cli \<Rightarrow> ((error + unit) \<times> 'w cli) option" where
  "run_tool E p =
     (case p of
        RunCtl args \<Rightarrow> ctl_run E (ca_config args) (ca_proxy args) (ca_command args)
      | RunSetup args \<Rightarrow> liftP (setup_run E args)
      | RunServe _ \<Rightarrow> (\<lambda>_. None))"

section \<open>Coming up\<close>

text \<open>
  What \<open>serve\<close> calls: the host, the libraries of the proxy, the log filter of the environment
  (\<open>RUST_LOG\<close>, where there is a valid one), \<open>EnvFilter::new\<close> and \<open>try_new\<close>, the subscriber's filter,
  the HTTP client with its connection timeout in seconds, and the listener.
\<close>

record ('w, 'f) boot =
  bt_host :: host
  bt_app :: "'w denv"
  bt_env_filter :: "'f option"
  bt_filter_new :: "string \<Rightarrow> 'f"
  bt_filter_try :: "string \<Rightarrow> string + 'f"
  bt_install :: "'f \<Rightarrow> 'w \<Rightarrow> 'w"
  bt_reload :: "'f \<Rightarrow> ('w, unit) api"
  bt_http_client :: "nat \<Rightarrow> ('w, unit) api"
  bt_bind :: "socket_addr \<Rightarrow> ('w, unit) api"

type_synonym ('w, 'a) booting = "'w \<Rightarrow> (error + 'a) \<times> 'w"

definition from_api :: "('w, 'a) api \<Rightarrow> ('w, 'a) booting" where
  "from_api f w = (case f w of (Inl e, v) \<Rightarrow> (Inl (Msg e), v) | (Inr x, v) \<Rightarrow> (Inr x, v))"

definition upstream_new :: "('w, 'f) boot \<Rightarrow> ('w, unit) booting" where
  "upstream_new B = mapErrE (Wrap ''failed to build upstream HTTP client'') (from_api (bt_http_client B 10))"

text \<open>\<open>AppState::new\<close>: no sessions, nobody refused, no log buffer of its own, no control of the log.\<close>

definition app_state_new :: "('w, 'f) boot \<Rightarrow> config \<Rightarrow> ('w, 'w denv \<times> 'w proxy) booting" where
  "app_state_new B c =
     bindE (upstream_new B) (\<lambda>_. look (\<lambda>w. retE
       ((bt_app B)\<lparr>env_config := c, app_started := now (bt_app B) w, app_logs := \<lambda>_. [], app_log_control := None\<rparr>,
        \<lparr>world = w, trace = [], tasks = [], sessions = [], refused = []\<rparr>)))"

text \<open>A filter that cannot be read is not applied.\<close>

definition log_control :: "('w, 'f) boot \<Rightarrow> string \<Rightarrow> ('w, unit) api" where
  "log_control B directives =
     (case bt_filter_try B directives of
        Inl e \<Rightarrow> (\<lambda>w. (Inl (''invalid log filter: '' @ e), w))
      | Inr f \<Rightarrow> (\<lambda>w. case bt_reload B f w of
            (Inl e, v) \<Rightarrow> (Inl (''failed to apply the log filter: '' @ e), v)
          | (Inr x, v) \<Rightarrow> (Inr x, v)))"

definition initial_filter :: "('w, 'f) boot \<Rightarrow> config \<Rightarrow> 'f" where
  "initial_filter B c = (case bt_env_filter B of Some f \<Rightarrow> f | None \<Rightarrow> bt_filter_new B (cfg_log_level c))"

text \<open>The proxy as it listens: its libraries and configuration, its state, its address.\<close>

record 'w running =
  ru_env :: "'w denv"
  ru_proxy :: "'w proxy"
  ru_listen :: socket_addr

definition serve_start :: "('w, 'f) boot \<Rightarrow> serve_args \<Rightarrow> ('w, 'w running) booting" where
  "serve_start B args =
     bindE (\<lambda>w. (load_config (bt_host B) args, w)) (\<lambda>c.
     bindE (writes (bt_install B (initial_filter B c))) (\<lambda>_.
     bindE (app_state_new B c) (\<lambda>(D, p).
     let D' = D\<lparr>app_logs := app_logs (bt_app B), app_log_control := Some (log_control B)\<rparr>;
         listen = cfg_listen c
     in bindE (mapErrE (Wrap (''failed to bind '' @ show_addr D listen)) (from_api (bt_bind B listen))) (\<lambda>_.
        look (\<lambda>w. retE \<lparr>ru_env = D', ru_proxy = p\<lparr>world := w\<rparr>, ru_listen = listen\<rparr>)))))"

section \<open>Going down\<close>

text \<open>Times in milliseconds since the server started to listen.\<close>

definition shutdown_grace :: nat where
  "shutdown_grace = 3000"

text \<open>
  \<open>tokio::select!\<close> over two branches, each with the time it is ready: the outcomes it may have. Two
  branches that are ready together are picked from at random.
\<close>

definition select :: "(nat \<times> 'a) option \<Rightarrow> (nat \<times> 'a) option \<Rightarrow> (nat \<times> 'a) list" where
  "select x y =
     (case (x, y) of
        (None, None) \<Rightarrow> []
      | (Some a, None) \<Rightarrow> [a]
      | (None, Some b) \<Rightarrow> [b]
      | (Some a, Some b) \<Rightarrow> if fst a < fst b then [a] else if fst b < fst a then [b] else [a, b])"

text \<open>
  \<open>shutdown_signal\<close>. A handler for SIGTERM that cannot be installed is warned about, and never
  resolves; \<open>ctrl_c()\<close> resolves at once to an error where its handler cannot be installed, and the
  pattern \<open>_\<close> takes that for an interrupt.
\<close>

definition shutdown_signal :: "string + nat option \<Rightarrow> string + nat option \<Rightarrow> (nat \<times> string) list" where
  "shutdown_signal interrupt terminate = select
     (map_option (\<lambda>t. (t, ''interrupted; shutting down'')) (case interrupt of Inl _ \<Rightarrow> Some 0 | Inr t \<Rightarrow> t))
     (map_option (\<lambda>t. (t, ''terminated; shutting down'')) (case terminate of Inl _ \<Rightarrow> None | Inr t \<Rightarrow> t))"

text \<open>
  How \<open>serve\<close> ends once it listens. \<open>server\<close> is the future of \<open>axum::serve\<close>: when it ends and how,
  given when the shutdown was signalled; after a signal the requests in flight get \<open>shutdown_grace\<close>.
\<close>

type_synonym server_future = "nat option \<Rightarrow> (nat \<times> (string + unit)) option"

definition server_end :: "server_future \<Rightarrow> nat option \<Rightarrow> (nat \<times> (error + unit)) option" where
  "server_end server signal =
     map_option (\<lambda>(t, r). (t, case r of Inl e \<Rightarrow> Inl (Msg e) | Inr u \<Rightarrow> Inr u)) (server signal)"

definition serve_ends :: "nat option \<Rightarrow> server_future \<Rightarrow> (nat \<times> (error + unit)) list" where
  "serve_ends signal server = select (server_end server signal)
     (map_option (\<lambda>t. (t + shutdown_grace, Inr ())) signal)"

text \<open>
  The signals as they may be seen, and then the ends: nothing where neither signal comes and the server
  goes on for ever.
\<close>

definition serve_outcomes ::
  "string + nat option \<Rightarrow> string + nat option \<Rightarrow> server_future \<Rightarrow> (nat \<times> (error + unit)) list" where
  "serve_outcomes interrupt terminate server =
     (case shutdown_signal interrupt terminate of
        [] \<Rightarrow> serve_ends None server
      | s # ss \<Rightarrow> concat (map (\<lambda>(t, _). serve_ends (Some t) server) (s # ss)))"

section \<open>Bounds of the shutdown\<close>

text \<open>When the first signal comes.\<close>

definition first_signal :: "nat option \<Rightarrow> nat option \<Rightarrow> nat option" where
  "first_signal i k = (case (i, k) of (Some a, Some b) \<Rightarrow> Some (min a b) | (Some a, None) \<Rightarrow> Some a | (None, b) \<Rightarrow> b)"

lemma select_mem:
  "z \<in> set (select x y) \<longleftrightarrow> (x = Some z \<and> (\<forall>b. y = Some b \<longrightarrow> fst z \<le> fst b)) \<or>
    (y = Some z \<and> (\<forall>a. x = Some a \<longrightarrow> fst z \<le> fst a))"
  by (cases x; cases y) (auto simp: select_def)

lemma select_Nil: "select x y = [] \<longleftrightarrow> x = None \<and> y = None"
  by (cases x; cases y) (auto simp: select_def)

text \<open>Whichever signal comes first, its time is the first signal's.\<close>

lemma shutdown_signal_times:
  "fst ` set (shutdown_signal (Inr i) (Inr k)) = set_option (first_signal i k)"
  by (cases i; cases k) (auto simp: shutdown_signal_def first_signal_def select_def)

lemma serve_outcomes_set:
  "set (serve_outcomes (Inr i) (Inr k) server) = set (serve_ends (first_signal i k) server)"
proof (cases "shutdown_signal (Inr i) (Inr k)")
  case Nil
  then show ?thesis
    using shutdown_signal_times [of i k] by (cases "first_signal i k") (simp_all add: serve_outcomes_def)
next
  case (Cons s ss)
  then obtain t where t: "first_signal i k = Some t" "fst ` set (s # ss) = {t}"
    using shutdown_signal_times [of i k] by (cases "first_signal i k") simp_all
  have "set (serve_outcomes (Inr i) (Inr k) server) = (\<Union>p \<in> set (s # ss). set (serve_ends (Some (fst p)) server))"
    by (simp only: serve_outcomes_def Cons list.case set_concat set_map case_prod_beta image_image)
  also have "\<dots> = (\<Union>u \<in> fst ` set (s # ss). set (serve_ends (Some u) server))" by blast
  finally show ?thesis by (simp only: t(2)) (simp add: t(1))
qed

text \<open>
  C36: the proxy goes down in time. Once SIGINT or SIGTERM has come, \<open>serve\<close> ends within three
  seconds of the first of them, whatever requests are in flight; it ends without an error after exactly these
  three seconds, or as its server ends; and a server that has finished before is waited for no
  longer, so no request that finishes in time is cut off.
\<close>

theorem shutdown_bounded:
  assumes "first_signal i k = Some t" and "outs = serve_outcomes (Inr i) (Inr k) server"
  shows "outs \<noteq> [] \<and>
    (\<forall>(e, r) \<in> set outs. e \<le> t + 3000 \<and>
       (server_end server (Some t) = Some (e, r) \<or> (e = t + 3000 \<and> r = Inr ()))) \<and>
    (\<forall>d q. server_end server (Some t) = Some (d, q) \<and> d < t + 3000 \<longrightarrow> set outs = {(d, q)})"
proof -
  have outs: "set outs = set (select (server_end server (Some t)) (Some (t + 3000, Inr ())))"
    using serve_outcomes_set [of i k server] assms by (simp add: serve_ends_def shutdown_grace_def)
  then have "outs \<noteq> []" using select_Nil [of "server_end server (Some t)" "Some (t + 3000, Inr ())"] by force
  moreover have "\<forall>d q. server_end server (Some t) = Some (d, q) \<and> d < t + 3000 \<longrightarrow> set outs = {(d, q)}"
    by (simp add: outs select_def)
  ultimately show ?thesis by (auto simp: outs select_mem)
qed

text \<open>A request is in flight that never ends.\<close>

theorem shutdown_bounded_witness:
  "set (serve_outcomes (Inr (Some 1000)) (Inr (Some 1500)) (\<lambda>_. None)) = {(4000, Inr ())}"
proof -
  have "first_signal (Some 1000) (Some 1500) = Some 1000" by (simp add: first_signal_def)
  from shutdown_bounded [OF this refl, of "\<lambda>_. None"] show ?thesis
    by (cases "serve_outcomes (Inr (Some 1000)) (Inr (Some 1500)) (\<lambda>_. None)") (auto simp: server_end_def)
qed

text \<open>A SIGINT handler that cannot be installed shuts the proxy down as soon as it is up.\<close>

lemma failed_handler_stops:
  "(0, ''interrupted; shutting down'') \<in> set (shutdown_signal (Inl e) k)"
  by (simp add: shutdown_signal_def select_mem)

section \<open>The life of the process\<close>

text \<open>What a background task of an account does when it runs.\<close>

definition run_task :: "('w, 'y) env_scheme \<Rightarrow> account \<Rightarrow> task \<Rightarrow> ('w, unit) admin_eff" where
  "run_task E a x =
     (case x of
        PumpTask _ \<Rightarrow> with_accountP a (mapErrP Internal (pump E))
      | PeriodicPump tok \<Rightarrow> (\<lambda>s. map_option (\<lambda>(_, t). (Inr (), t)) (periodic_tick E tok s))
      | PublishTask _ again \<Rightarrow> with_accountP a (mapErrP Internal (run_publish E again))
      | RoomKeyRequest _ room raw sid \<Rightarrow> with_accountP a (mapErrP Internal (liftP (run_room_key_request E room raw sid))))"

text \<open>Requests of any clients, the tasks that were started, and the world that moves on.\<close>

inductive process_step :: "'w denv \<Rightarrow> 'w proxy \<Rightarrow> 'w proxy \<Rightarrow> bool" for E where
  request: "handle E wake req s = Some (r, t) \<Longrightarrow> process_step E s t"
| background: "x \<in> set (tasks s) \<Longrightarrow> run_task E a x s = Some (r, t) \<Longrightarrow> process_step E s t"
| outside: "process_step E s (s\<lparr>world := w\<rparr>)"

lemma home_republish: "does (home E) (republish E)"
  unfolding republish_def by (intro home_intros)

lemma home_run_publish: "doesP (home E) (run_publish E again)"
  unfolding run_publish_def by (intro homeP_intros home_intros home_republish home_pump)

lemma home_send_and_mark: "does (home E) (send_and_mark E r)"
  by (rule home_of_own) (rule own_send_and_mark)

lemma home_room_key_request: "does (home E) (run_room_key_request E room raw sid)"
  unfolding run_room_key_request_def
  by (intro home_intros home_send_and_mark home_quiet) simp

lemma home_periodic:
  assumes "periodic_tick E tok s = Some (b, t)"
  shows "home E s t"
proof (cases "session_get tok s")
  case None
  then show ?thesis using assms by (simp add: periodic_tick_def sends.refl)
next
  case (Some a)
  then show ?thesis
    using assms doesPD [OF home_with_accountP [OF home_pump]] by (auto simp: periodic_tick_def)
qed

lemma home_run_task: "doesP (home E) (run_task E a x)"
proof (cases x)
  case (PeriodicPump tok)
  then show ?thesis by (auto simp: run_task_def intro!: doesPI dest: home_periodic)
qed (simp_all add: run_task_def home_with_accountP home_pump home_run_publish home_room_key_request
    sends.doesP_liftP sends.doesP_intros)

lemma process_home: "process_step E s t \<Longrightarrow> home E s t"
proof (induction rule: process_step.induct)
  case (outside s w)
  then show ?case by (simp add: sends_only_def)
qed (blast intro: doesPD [OF home_handle] doesPD [OF home_run_task])+

lemma process_life_home:
  assumes "(process_step E)\<^sup>*\<^sup>* s t" and "trace s = []" and "rq \<in> set (trace t)"
  shows "at_home E rq"
proof -
  have "home E s t" using assms(1)
    by (induction rule: rtranclp_induct) (auto intro: sends.refl sends.trans process_home)
  then show ?thesis using assms(2,3) by (auto simp: sends_only_def list_all_iff)
qed

lemma from_api_cases:
  assumes "mapErrE g (from_api f) w = (Inr x, v)"
  shows "f w = (Inr x, v)"
  using assms by (auto simp: mapErrE_def from_api_def split: prod.splits sum.splits)

lemma serve_start_state:
  assumes "serve_start B args w = (Inr R, v)"
  shows "\<exists>c. load_config (bt_host B) args = Inr c \<and> env_config (ru_env R) = c \<and> ru_listen R = cfg_listen c \<and>
    app_log_control (ru_env R) = Some (log_control B) \<and>
    ru_proxy R = \<lparr>world = v, trace = [], tasks = [], sessions = [], refused = []\<rparr> \<and>
    (\<exists>u. bt_bind B (cfg_listen c) u = (Inr (), v))"
  using assms
  by (auto simp: serve_start_def app_state_new_def upstream_new_def bindE_def look_def retE_def writes_def Let_def
      dest!: from_api_cases split: prod.splits sum.splits)

text \<open>
  What the HTTP client makes of the requests \<open>T\<close> it is handed: it is built with the default redirect
  policy of \<open>reqwest\<close>, so an answer that is a redirect is followed, to any host, through at most ten
  redirects. \<open>follows rq rq'\<close>: the answer to \<open>rq\<close> redirects the client, which sends \<open>rq'\<close>. The number
  counts the redirects before a request.
\<close>

inductive on_wire ::
  "(http_request \<Rightarrow> http_request \<Rightarrow> bool) \<Rightarrow> http_request set \<Rightarrow> nat \<Rightarrow> http_request \<Rightarrow> bool" for follows T where
  sent: "rq \<in> T \<Longrightarrow> on_wire follows T 0 rq"
| followed: "on_wire follows T n rq \<Longrightarrow> n < 10 \<Longrightarrow> follows rq rq' \<Longrightarrow> on_wire follows T (Suc n) rq'"

lemma on_wire_bound: "on_wire follows T n rq \<Longrightarrow> n \<le> 10"
  by (induction rule: on_wire.induct) simp_all

text \<open>A request elsewhere stands behind a redirect elsewhere that was given at home.\<close>

lemma on_wire_away:
  assumes "on_wire follows T n rq" and "\<And>rq. rq \<in> T \<Longrightarrow> at rq" and "\<not> at rq"
  shows "\<exists>k a b. on_wire follows T k a \<and> k < n \<and> at a \<and> follows a b \<and> \<not> at b \<and> follows\<^sup>*\<^sup>* b rq"
  using assms(1,3)
proof (induction rule: on_wire.induct)
  case (sent rq)
  then show ?case using assms(2) by blast
next
  case (followed n rq rq')
  show ?case
  proof (cases "at rq")
    case True
    then show ?thesis using followed by blast
  next
    case False
    then obtain k a b where "on_wire follows T k a" "k < n" "at a" "follows a b" "\<not> at b" "follows\<^sup>*\<^sup>* b rq"
      using followed.IH by blast
    moreover have "follows\<^sup>*\<^sup>* b rq'" using calculation(6) followed.hyps(3) by simp
    ultimately show ?thesis using less_SucI by blast
  qed
qed

text \<open>
  C9: from its first request to its last, for any clients, on any routes and with any outcome, its
  background tasks included, every request the process makes is for one place: the origin of the
  homeserver that the configuration it was started with names. What the HTTP client sends beyond
  them are redirects it follows, at most ten for each; where one of those goes to another
  server, the way there begins with a redirect that the homeserver itself answered. So no client and no
  content decides where the process connects, but the homeserver does. It listens on the address of
  that configuration, and starts with no sessions.
\<close>

theorem process_asks_homeserver:
  assumes "serve_start B args w = (Inr R, v)" and "(process_step (ru_env R))\<^sup>*\<^sup>* (ru_proxy R) s"
  shows "\<exists>c. load_config (bt_host B) args = Inr c \<and> ru_listen R = cfg_listen c \<and> sessions (ru_proxy R) = [] \<and>
    (\<forall>rq \<in> set (trace s). url_origin (hr_url rq) = url_origin (cfg_homeserver c)) \<and>
    (\<forall>follows n rq. on_wire follows (set (trace s)) n rq \<longrightarrow> n \<le> 10 \<and>
       (url_origin (hr_url rq) = url_origin (cfg_homeserver c) \<or>
        (\<exists>k a b. on_wire follows (set (trace s)) k a \<and> k < n \<and>
           url_origin (hr_url a) = url_origin (cfg_homeserver c) \<and> follows a b \<and>
           url_origin (hr_url b) \<noteq> url_origin (cfg_homeserver c) \<and> follows\<^sup>*\<^sup>* b rq)))"
proof -
  obtain c where c: "load_config (bt_host B) args = Inr c" "env_config (ru_env R) = c" "ru_listen R = cfg_listen c"
    "ru_proxy R = \<lparr>world = v, trace = [], tasks = [], sessions = [], refused = []\<rparr>"
    using serve_start_state [OF assms(1)] by blast
  let ?at = "\<lambda>rq. url_origin (hr_url rq) = url_origin (cfg_homeserver c)"
  have "trace (ru_proxy R) = []" by (simp add: c(4))
  from process_life_home [OF assms(2) this]
  have home: "?at rq" if "rq \<in> set (trace s)" for rq
    using that c(2) by (simp add: at_home_def)
  have wire: "n \<le> 10 \<and> (?at rq \<or> (\<exists>k a b. on_wire follows (set (trace s)) k a \<and> k < n \<and> ?at a \<and>
      follows a b \<and> \<not> ?at b \<and> follows\<^sup>*\<^sup>* b rq))"
    if "on_wire follows (set (trace s)) n rq" for follows n rq
    using on_wire_bound [OF that] on_wire_away [OF that, of ?at] home by blast
  show ?thesis
    by (intro exI [of _ c] conjI allI impI ballI) (use c home wire in \<open>simp_all\<close>)
qed

text \<open>The proxy of \<open>ref_host\<close>, and a client that wants it to ask somewhere else.\<close>

definition ref_boot :: "(unit, string) boot" where
  "ref_boot = \<lparr>bt_host = ref_host, bt_app = ref_denv [], bt_env_filter = None, bt_filter_new = id,
     bt_filter_try = Inr, bt_install = (\<lambda>f w. w), bt_reload = (\<lambda>f w. (Inr (), w)),
     bt_http_client = (\<lambda>n w. (Inr (), w)), bt_bind = (\<lambda>a w. (Inr (), w))\<rparr>"

definition ref_running :: "unit running" where
  "ref_running = (case fst (serve_start ref_boot no_args ()) of Inr R \<Rightarrow> R
     | Inl _ \<Rightarrow> \<lparr>ru_env = ref_denv [], ru_proxy = ref_proxy, ru_listen = default_listen\<rparr>)"

lemma ref_running_starts: "serve_start ref_boot no_args () = (Inr ref_running, ())"
proof -
  have "case fst (serve_start ref_boot no_args ()) of Inr _ \<Rightarrow> True | Inl _ \<Rightarrow> False"
    by code_simp
  then show ?thesis by (auto simp: ref_running_def prod_eq_iff split: sum.splits)
qed

lemma ref_running_asked:
  "case handle (ru_env ref_running) None evil_request (ru_proxy ref_running) of
     None \<Rightarrow> False | Some (r, t) \<Rightarrow> length (trace t) = 1"
  by code_simp

text \<open>A homeserver that redirects the client's request to another server.\<close>

theorem process_asks_homeserver_witness:
  "\<exists>s rq. (process_step (ru_env ref_running))\<^sup>*\<^sup>* (ru_proxy ref_running) s \<and>
    map (\<lambda>rq. url_origin (hr_url rq)) (trace s) = [''https://hs''] \<and>
    on_wire (\<lambda>a b. b = a\<lparr>hr_url := (hr_url a)\<lparr>url_origin := ''https://elsewhere''\<rparr>\<rparr>) (set (trace s)) 1 rq \<and>
    url_origin (hr_url rq) = ''https://elsewhere''"
proof -
  let ?follows = "\<lambda>a b. b = a\<lparr>hr_url := (hr_url a)\<lparr>url_origin := ''https://elsewhere''\<rparr>\<rparr>"
  obtain r t where h: "handle (ru_env ref_running) None evil_request (ru_proxy ref_running) = Some (r, t)"
    "length (trace t) = 1"
    using ref_running_asked by (auto split: option.splits)
  have run: "(process_step (ru_env ref_running))\<^sup>*\<^sup>* (ru_proxy ref_running) t"
    by (rule r_into_rtranclp) (rule process_step.request [OF h(1)])
  have "case load_config (bt_host ref_boot) no_args of
      Inr c \<Rightarrow> url_origin (cfg_homeserver c) = ''https://hs'' | Inl _ \<Rightarrow> False"
    by code_simp
  moreover obtain rq where rq: "trace t = [rq]" using h(2) by (auto simp: length_Suc_conv)
  ultimately have home: "url_origin (hr_url rq) = ''https://hs''"
    using process_asks_homeserver [OF ref_running_starts run] by (auto split: sum.splits)
  have "on_wire ?follows (set (trace t)) 1 (rq\<lparr>hr_url := (hr_url rq)\<lparr>url_origin := ''https://elsewhere''\<rparr>\<rparr>)"
    using followed [OF sent [of rq "set (trace t)" ?follows]] rq by simp
  then show ?thesis using run rq home by (intro exI [of _ t] exI conjI) auto
qed

text \<open>A log filter that cannot be read is refused and nothing changes.\<close>

lemma bad_filter_refused:
  "bt_filter_try B directives = Inl e \<Longrightarrow> log_control B directives w = (Inl (''invalid log filter: '' @ e), w)"
  by (simp add: log_control_def)

end
