(* ===== verification/ProxyTests.thy ===== *)
theory ProxyTests
  imports Start
begin

text \<open>
  The unit tests of the repository's routing, forwarding and identifiers, run on the model: each
  definition is one test function, each lemma says that its assertions hold. What the
  tests leave to a library is given on the texts that occur.
\<close>

section \<open>Routes (\<open>proxy/routes.rs\<close>)\<close>

abbreviation plain_codec :: codec where
  "plain_codec \<equiv> ref_codec []"

definition classify_core_routes :: bool where
  "classify_core_routes \<longleftrightarrow>
     classify plain_codec ''POST'' ''/_matrix/client/r0/login'' = Login \<and>
     classify plain_codec ''GET'' ''/_matrix/client/v3/sync'' = Sync \<and>
     classify plain_codec ''PUT'' ''/_matrix/client/r0/rooms/!abc%3Aexample.org/send/m.room.message/1-123'' =
       Send ''!abc:example.org'' ''m.room.message'' ''1-123'' \<and>
     classify plain_codec ''GET'' ''/_matrix/client/v1/media/download/example.org/abcd/file.jpg'' =
       MediaDownload ''example.org'' ''abcd'' True \<and>
     classify plain_codec ''GET'' ''/_matrix/media/r0/download/example.org/abcd'' =
       MediaDownload ''example.org'' ''abcd'' False \<and>
     classify plain_codec ''GET'' ''/_matrix/client/r0/login'' = Passthrough \<and>
     classify plain_codec ''GET'' ''/_matrix/client/versions'' = Passthrough"

definition classify_event_fetching_routes :: bool where
  "classify_event_fetching_routes \<longleftrightarrow>
     classify plain_codec ''GET'' ''/_matrix/client/r0/rooms/!abc%3Aexample.org/messages'' =
       Messages ''!abc:example.org'' \<and>
     classify plain_codec ''GET'' ''/_matrix/client/v3/rooms/%21abc%3Aexample.org/context/%24event'' =
       Context ''!abc:example.org'' \<and>
     classify plain_codec ''GET'' ''/_matrix/client/v3/rooms/%21abc%3Aexample.org/event/%24event'' =
       RoomEvent ''!abc:example.org'' \<and>
     list_all (\<lambda>version. classify plain_codec ''GET'' (''/_matrix/client/'' @ version @ ''/notifications'') =
       Notifications) [''r0'', ''v3'']"

definition classify_is_method_sensitive :: bool where
  "classify_is_method_sensitive \<longleftrightarrow>
     list_all (\<lambda>(meth, path). classify plain_codec meth path = Passthrough)
       [(''POST'', ''/_matrix/client/v3/sync''), (''POST'', ''/_matrix/client/r0/notifications''),
        (''GET'', ''/_matrix/client/r0/rooms/!a%3Ab/send/m.room.message/1''),
        (''POST'', ''/_matrix/client/r0/rooms/!a%3Ab/messages''), (''GET'', ''/_matrix/media/r0/upload''),
        (''POST'', ''/_matrix/client/v1/media/download/example.org/abcd'')]"

definition classify_media_and_admin_routes :: bool where
  "classify_media_and_admin_routes \<longleftrightarrow>
     list_all (\<lambda>version. classify plain_codec ''POST'' (''/_matrix/media/'' @ version @ ''/upload'') = MediaUpload)
       [''r0'', ''v3''] \<and>
     classify plain_codec ''GET'' ''/_matrix/media/v3/download/example.org/abcd/cat%20pic.png'' =
       MediaDownload ''example.org'' ''abcd'' False \<and>
     list_all (\<lambda>path. classify plain_codec ''GET'' path = Passthrough)
       [''/_matrix/media/r0/thumbnail/example.org/abcd'', ''/_matrix/client/v1/media/thumbnail/example.org/abcd'',
        ''/_matrix/client/v1/media/download/example.org''] \<and>
     classify plain_codec ''GET'' ''/_ement/status'' = Admin ''status'' \<and>
     classify plain_codec ''POST'' ''/_ement/verify/abc/confirm'' = Admin ''verify/abc/confirm'' \<and>
     classify plain_codec ''GET'' ''/_ement'' = Admin [] \<and>
     classify plain_codec ''GET'' ''/_ementx/status'' = Passthrough"

definition classify_unrelated_paths :: bool where
  "classify_unrelated_paths \<longleftrightarrow>
     list_all (\<lambda>path. list_all (\<lambda>meth. classify plain_codec meth path = Passthrough) [''GET'', ''PUT'', ''POST''])
       [''/'', [], ''/_matrix/client/r0/rooms/!a%3Ab/state/m.room.topic'',
        ''/_matrix/client/r0/rooms/!a%3Ab/send/m.room.message'', ''/_matrix/client/r0/sync/extra'',
        ''/_matrix/federation/v1/version'', ''/.well-known/matrix/client'']"

section \<open>Tokens and headers (\<open>proxy/mod.rs\<close>, \<open>proxy/passthrough.rs\<close>)\<close>

definition token_request :: "string \<Rightarrow> string option \<Rightarrow> string option \<Rightarrow> client_request" where
  "token_request path query authorization = \<lparr>rq_method = ''GET'', rq_path = path, rq_query = query,
     rq_headers = (case authorization of None \<Rightarrow> [] | Some v \<Rightarrow> [(''authorization'', v)]), rq_body = []\<rparr>"

definition bearer_token_from_header_or_query :: bool where
  "bearer_token_from_header_or_query \<longleftrightarrow>
     bearer_token (token_request ''/_matrix/client/r0/sync'' None (Some ''Bearer syt_abc'')) = Some ''syt_abc'' \<and>
     bearer_token (token_request ''/_matrix/client/r0/sync'' (Some ''timeout=0&access_token=syt_q'') None) =
       Some ''syt_q'' \<and>
     bearer_token (token_request ''/sync'' (Some ''access_token=query'') (Some ''Bearer header'')) = Some ''header''"

definition bearer_token_absent_or_unusable :: bool where
  "bearer_token_absent_or_unusable \<longleftrightarrow>
     bearer_token (token_request ''/sync'' None None) = None \<and>
     bearer_token (token_request ''/sync'' (Some ''timeout=0'') None) = None \<and>
     bearer_token (token_request ''/sync'' None (Some ''Basic dXNlcjpwYXNz'')) = None \<and>
     bearer_token (token_request ''/sync'' (Some ''not_access_token=x'') None) = None"

definition hop_by_hop_and_host_headers_are_not_forwarded :: bool where
  "hop_by_hop_and_host_headers_are_not_forwarded \<longleftrightarrow>
     sort (map fst (copy_headers
       [(''host'', ''localhost:8009''), (''connection'', ''keep-alive''), (''keep-alive'', ''timeout=5''),
        (''proxy-connection'', ''keep-alive''), (''transfer-encoding'', ''chunked''), (''upgrade'', ''websocket''),
        (''te'', ''trailers''), (''authorization'', ''Bearer token''), (''content-type'', ''application/json''),
        (''x-custom'', ''kept'')] [])) = [''authorization'', ''content-type'', ''x-custom'']"

definition repeated_headers_are_all_forwarded :: bool where
  "repeated_headers_are_all_forwarded \<longleftrightarrow>
     length (header_values ''set-cookie'' (copy_headers [(''set-cookie'', ''a=1''), (''set-cookie'', ''b=2'')] [])) = 2"

section \<open>URLs (\<open>upstream.rs\<close>)\<close>

definition upstream_at :: "string \<Rightarrow> unit env" where
  "upstream_at origin = (ref_env [])\<lparr>env_config := ref_config\<lparr>cfg_homeserver :=
     \<lparr>url_origin = origin, url_path = ''/'', url_query = None\<rparr>\<rparr>\<rparr>"

definition url_string :: "url \<Rightarrow> string" where
  "url_string u = url_origin u @ url_path u @ (case url_query u of None \<Rightarrow> [] | Some q \<Rightarrow> CHR ''?'' # q)"

definition url_joins_path_and_query_onto_base :: bool where
  "url_joins_path_and_query_onto_base \<longleftrightarrow>
     url_string (upstream_url (upstream_at ''https://matrix.example.org'') ''/_matrix/client/v3/sync?since=s1&timeout=30000'') =
       ''https://matrix.example.org/_matrix/client/v3/sync?since=s1&timeout=30000'' \<and>
     url_string (upstream_url (upstream_at ''http://127.0.0.1:8008'') ''/_matrix/client/versions'') =
       ''http://127.0.0.1:8008/_matrix/client/versions''"

definition url_keeps_percent_encoding_intact :: bool where
  "url_keeps_percent_encoding_intact \<longleftrightarrow>
     (let path = ''/_matrix/client/r0/rooms/%21abc%3Aexample.org/event/%24a%2Fb''
      in url_path (upstream_url (upstream_at ''https://matrix.example.org'') path) = path)"

definition url_cannot_be_redirected_to_another_host :: bool where
  "url_cannot_be_redirected_to_another_host \<longleftrightarrow>
     list_all (\<lambda>path. url_origin (upstream_url (upstream_at ''https://matrix.example.org'') path) =
       ''https://matrix.example.org'')
       [''//evil.example/_matrix'', ''/'' @ CHR 0x5C # ''evil.example/x'', ''/@evil.example/x'']"

section \<open>Identifiers (\<open>session.rs\<close>, \<open>crypto/machine.rs\<close>)\<close>

definition sanitize_keeps_matrix_ids_readable :: bool where
  "sanitize_keeps_matrix_ids_readable \<longleftrightarrow>
     list_all (\<lambda>s. sanitize_for_path s = s) [''@alice:example.org'', ''ABCDEFGHIJ'', ''a.b-c_d=e+f'']"

text \<open>The fourth name has an umlaut, two bytes of UTF-8.\<close>

definition sanitize_neutralizes_path_syntax :: bool where
  "sanitize_neutralizes_path_syntax \<longleftrightarrow>
     sanitize_for_path ''../../etc/passwd'' = ''.._.._etc_passwd'' \<and>
     sanitize_for_path (''a/b'' @ CHR 0x5C # ''c'') = ''a_b_c'' \<and>
     sanitize_for_path (''dev ice'' @ [CHR 0x00, CHR 0x0A]) = ''dev_ice__'' \<and>
     sanitize_for_path (''ger'' @ [CHR 0xC3, CHR 0xA4] @ ''t'') = ''ger_t'' \<and>
     CHR ''/'' \<notin> set (sanitize_for_path ''@a/../../b:hs'')"

definition enc_escapes_matrix_sigils_for_path_segments :: bool where
  "enc_escapes_matrix_sigils_for_path_segments \<longleftrightarrow>
     enc plain_codec ''!abc:example.org'' = ''%21abc%3Aexample.org'' \<and>
     enc plain_codec (CHR 0x24 # ''event/with+odd?chars#'') = ''%24event%2Fwith%2Bodd%3Fchars%23'' \<and>
     enc plain_codec ''@alice:example.org'' = ''%40alice%3Aexample.org'' \<and>
     enc plain_codec (''m.room.message-1_2'' @ CHR 0x7E # ''3'') = ''m.room.message-1_2'' @ CHR 0x7E # ''3'' \<and>
     enc plain_codec ''a b%c'' = ''a%20b%25c'' \<and>
     enc plain_codec [CHR 0xC3, CHR 0xBC] = ''%C3%BC''"

definition store_dir_is_per_user_and_device :: bool where
  "store_dir_is_per_user_and_device \<longleftrightarrow>
     (let cfg = ref_config\<lparr>cfg_store_dir := ''/stores''\<rparr>
      in account_store_dir cfg ''@alice:example.org'' ''DEVICE1'' = ''/stores/@alice:example.org/DEVICE1'' \<and>
         account_store_dir cfg ''@alice:example.org'' ''../../etc'' = ''/stores/@alice:example.org/.._.._etc'')"

lemma proxy_tests:
  "classify_core_routes \<and> classify_event_fetching_routes \<and> classify_is_method_sensitive \<and>
   classify_media_and_admin_routes \<and> classify_unrelated_paths \<and>
   bearer_token_from_header_or_query \<and> bearer_token_absent_or_unusable \<and>
   hop_by_hop_and_host_headers_are_not_forwarded \<and> repeated_headers_are_all_forwarded \<and>
   url_joins_path_and_query_onto_base \<and> url_keeps_percent_encoding_intact \<and>
   url_cannot_be_redirected_to_another_host \<and> sanitize_keeps_matrix_ids_readable \<and>
   sanitize_neutralizes_path_syntax \<and> enc_escapes_matrix_sigils_for_path_segments \<and>
   store_dir_is_per_user_and_device"
  by code_simp

end
