(* ===== verification/CryptoTests.thy ===== *)
theory CryptoTests
  imports ProxyTests Mailbox
begin

text \<open>
  The unit tests of the crypto half of the program (\<open>crypto/repair.rs\<close>, \<open>crypto/sync.rs\<close>,
  \<open>crypto/rooms.rs\<close>, \<open>crypto/decrypt.rs\<close>), run on the model.
\<close>

section \<open>The repair queue (\<open>crypto/repair.rs\<close>)\<close>

definition test_encrypted :: "string \<Rightarrow> json" where
  "test_encrypted event_id =
     mk_obj [(''type'', JStr ''m.room.encrypted''), (''event_id'', JStr event_id), (''content'', JObj [])]"

definition track_test :: "string \<Rightarrow> string option \<Rightarrow> repair_queue \<Rightarrow> repair_queue" where
  "track_test event_id sid q = track ''!room:example.org'' (test_encrypted event_id) sid q"

definition repair_ids :: "pending_repair list \<Rightarrow> string list" where
  "repair_ids rs = map pr_event_id rs"

definition repairs_become_ready_when_their_session_key_arrives :: bool where
  "repairs_become_ready_when_their_session_key_arrives \<longleftrightarrow>
     (let q = track_test ''$c'' (Some ''session1'') (track_test ''$b'' (Some ''session2'')
            (track_test ''$a'' (Some ''session1'') empty_queue));
          q1 = snd (take_ready q);
          q2 = note_room_keys [''session1''] q1;
          q3 = snd (take_ready q2)
      in \<not> any_ready q \<and> fst (take_ready q) = [] \<and> any_ready q2 \<and>
         repair_ids (fst (take_ready q2)) = [''$a'', ''$c''] \<and> \<not> any_ready q3 \<and>
         repair_ids (pending_snapshot q3) = [''$b''])"

definition unrelated_keys_wake_nobody :: bool where
  "unrelated_keys_wake_nobody \<longleftrightarrow>
     (let q = track_test ''$a'' (Some ''session1'') (note_room_keys [''session1''] empty_queue);
          q1 = note_room_keys [''other''] q
      in \<not> any_ready q \<and> \<not> any_ready q1 \<and> length (pending_snapshot q1) = 1)"

definition bulk_import_retries_everything_including_sessionless_events :: bool where
  "bulk_import_retries_everything_including_sessionless_events \<longleftrightarrow>
     (let q = note_bulk_import (track_test ''$b'' None (track_test ''$a'' (Some ''session1'') empty_queue))
      in any_ready q \<and> repair_ids (fst (take_ready q)) = [''$a'', ''$b''] \<and>
         \<not> any_ready (track_test ''$c'' (Some ''session9'') (snd (take_ready q))))"

definition failed_repairs_wait_for_the_next_key :: bool where
  "failed_repairs_wait_for_the_next_key \<longleftrightarrow>
     (let q = note_room_keys [''session1''] (track_test ''$a'' (Some ''session1'') empty_queue)
      in case take_ready q of
           (r # _, q1) \<Rightarrow>
             (let q2 = requeue r q1 in \<not> any_ready q2 \<and>
               repair_ids (fst (take_ready (note_room_keys [''session1''] q2))) = [''$a''])
         | _ \<Rightarrow> False)"

text \<open>The first half of \<open>tracking_is_idempotent_and_bounded\<close>; the bound is \<open>repair_queue_is_bounded\<close>.\<close>

definition tracking_is_idempotent :: bool where
  "tracking_is_idempotent \<longleftrightarrow>
     (let q = track_test ''$a'' (Some ''second'') (track_test ''$a'' (Some ''first'') empty_queue);
          q1 = track ''!room:example.org'' (mk_obj [(''type'', JStr ''m.room.encrypted'')]) (Some ''s'') q
      in map pr_session_id (pending_snapshot q) = [Some ''first''] \<and> length (pending_snapshot q1) = 1)"

section \<open>Replacing edits (\<open>crypto/repair.rs\<close>)\<close>

definition test_message :: "json \<Rightarrow> json" where
  "test_message content = mk_obj
     [(''type'', JStr ''m.room.message''), (''event_id'', JStr ''$orig''), (''sender'', JStr ''@alice:example.org''),
      (''origin_server_ts'', JNum (PosInt 1234)), (''content'', content),
      (''unsigned'', mk_obj [(''age'', JNum (PosInt 5)), (''ement_e2ee'', mk_obj [(''decrypted'', JBool True)])])]"

definition with_edit :: "json \<Rightarrow> (json \<Rightarrow> bool) \<Rightarrow> bool" where
  "with_edit event P = (case synthetic_edit event of Some (Some e) \<Rightarrow> P e | _ \<Rightarrow> False)"

definition at :: "json \<Rightarrow> string list \<Rightarrow> json" where
  "at j path = walk path j"

definition edit_replaces_the_placeholder_in_place :: bool where
  "edit_replaces_the_placeholder_in_place \<longleftrightarrow>
     (let text = mk_obj [(''msgtype'', JStr ''m.text''), (''body'', JStr ''hi'')] in
      with_edit (test_message text) (\<lambda>e.
        at e [''type''] = JStr ''m.room.message'' \<and> at e [''event_id''] = JStr (''$orig'' @ CHR 0x7E # ''decrypted'') \<and>
        at e [''sender''] = JStr ''@alice:example.org'' \<and> at e [''origin_server_ts''] = JNum (PosInt 1234) \<and>
        at e [''content'', ''m.relates_to''] = mk_obj [(''rel_type'', JStr ''m.replace''), (''event_id'', JStr ''$orig'')] \<and>
        at e [''content'', ''m.new_content''] = text \<and>
        at e [''content'', ''msgtype''] = JStr ''m.text'' \<and> at e [''content'', ''body''] = JStr ''hi'' \<and>
        at e [''unsigned'', ''ement_e2ee'', ''decrypted''] = JBool True \<and>
        at e [''unsigned'', ''ement_e2ee'', ''repairs''] = JStr ''$orig''))"

definition edit_keeps_media_and_reply_rendering :: bool where
  "edit_keeps_media_and_reply_rendering \<longleftrightarrow>
     with_edit (test_message (mk_obj
         [(''msgtype'', JStr ''m.image''), (''body'', JStr ''cat.png''), (''url'', JStr ''mxc://example.org/abc''),
          (''info'', mk_obj [(''mimetype'', JStr ''image/png'')]),
          (''m.relates_to'', mk_obj [(''m.in_reply_to'', mk_obj [(''event_id'', JStr ''$parent'')])])])) (\<lambda>e.
       at e [''content'', ''msgtype''] = JStr ''m.image'' \<and> at e [''content'', ''url''] = JStr ''mxc://example.org/abc'' \<and>
       at e [''content'', ''info'', ''mimetype''] = JStr ''image/png'' \<and>
       at e [''content'', ''m.relates_to'', ''rel_type''] = JStr ''m.replace'' \<and>
       at e [''content'', ''m.relates_to'', ''m.in_reply_to'', ''event_id''] = JStr ''$parent'' \<and>
       get ''m.relates_to'' (at e [''content'', ''m.new_content'']) = None \<and>
       at e [''content'', ''m.new_content'', ''url''] = JStr ''mxc://example.org/abc'')"

definition edit_of_an_edit_shows_the_new_text :: bool where
  "edit_of_an_edit_shows_the_new_text \<longleftrightarrow>
     with_edit (test_message (mk_obj
         [(''msgtype'', JStr ''m.text''), (''body'', JStr ''* fixed''),
          (''m.new_content'', mk_obj [(''msgtype'', JStr ''m.text''), (''body'', JStr ''fixed'')]),
          (''m.relates_to'', mk_obj [(''rel_type'', JStr ''m.replace''), (''event_id'', JStr ''$other'')])])) (\<lambda>e.
       at e [''content'', ''m.new_content'', ''body''] = JStr ''fixed'' \<and> at e [''content'', ''body''] = JStr ''fixed'' \<and>
       at e [''content'', ''m.relates_to'', ''event_id''] = JStr ''$orig'')"

text \<open>The emoji of the reaction, in UTF-8.\<close>

definition thumb :: string where
  "thumb = [CHR 0xF0, CHR 0x9F, CHR 0x91, CHR 0x8D]"

definition test_reaction :: "string \<Rightarrow> json" where
  "test_reaction ty = mk_obj
     [(''type'', JStr ty), (''event_id'', JStr ''$orig''), (''sender'', JStr ''@alice:example.org''),
      (''origin_server_ts'', JNum (PosInt 1)),
      (''content'', mk_obj [(''m.relates_to'', mk_obj [(''rel_type'', JStr ''m.annotation''),
         (''event_id'', JStr ''$target''), (''key'', JStr thumb)])])]"

definition non_message_events_become_a_one_line_note :: bool where
  "non_message_events_become_a_one_line_note \<longleftrightarrow>
     with_edit (test_reaction ''m.reaction'') (\<lambda>e.
       at e [''type''] = JStr ''m.room.message'' \<and> at e [''content'', ''msgtype''] = JStr ''m.notice'' \<and>
       at e [''content'', ''m.new_content'', ''body''] = JStr (unlocked @ '' reacted with '' @ thumb) \<and>
       at e [''content'', ''m.relates_to'', ''event_id''] = JStr ''$orig'') \<and>
     with_edit (test_reaction ''m.sticker'') (\<lambda>e. case at e [''content'', ''body''] of
       JStr body \<Rightarrow> sublist ''[m.sticker]'' body | _ \<Rightarrow> False)"

definition events_without_identity_cannot_be_repaired :: bool where
  "events_without_identity_cannot_be_repaired \<longleftrightarrow>
     synthetic_edit (mk_obj [(''type'', JStr ''m.room.message''), (''content'', JObj [])]) = Some None \<and>
     synthetic_edit (mk_obj [(''event_id'', JStr ''$a''), (''content'', JObj [])]) = Some None \<and>
     synthetic_edit (mk_obj [(''type'', JStr ''m.room.message''), (''event_id'', JStr ''$a'')]) = Some None"

definition test_room :: "json list \<Rightarrow> json" where
  "test_room es = mk_obj [(''timeline'', mk_obj [(''events'', JArr es)])]"

definition delivered_ids_cover_all_joined_rooms :: bool where
  "delivered_ids_cover_all_joined_rooms \<longleftrightarrow>
     (let id = (\<lambda>i. mk_obj [(''event_id'', JStr i)]);
          ids = delivered_event_ids (mk_obj [(''rooms'', mk_obj [(''join'', mk_obj
            [(''!a:hs'', test_room [id ''$1'', id ''$2'']), (''!b:hs'', test_room [id ''$3'', JObj []]), (''!c:hs'', JObj [])])])])
      in length (remdups ids) = 3 \<and> ''$3'' \<in> set ids \<and>
         delivered_event_ids (mk_obj [(''next_batch'', JStr ''s1'')]) = [])"

section \<open>Room settings (\<open>crypto/rooms.rs\<close>)\<close>

definition parse_encryption_content :: bool where
  "parse_encryption_content \<longleftrightarrow>
     (case room_settings_from_content (mk_obj [(''algorithm'', JStr ''m.megolm.v1.aes-sha2''),
         (''rotation_period_ms'', JNum (PosInt 604800000)), (''rotation_period_msgs'', JNum (PosInt 100))]) of
        None \<Rightarrow> False
      | Some st \<Rightarrow> st_algorithm st = ''m.megolm.v1.aes-sha2'' \<and> st_rotation_period_ms st = Some 604800000 \<and>
          st_rotation_msgs st = Some 100) \<and>
     (case room_settings_from_content (mk_obj [(''algorithm'', JStr ''m.megolm.v1.aes-sha2'')]) of
        None \<Rightarrow> False | Some st \<Rightarrow> st_rotation_period_ms st = None) \<and>
     room_settings_from_content (JObj []) = None"

section \<open>Placeholders (\<open>crypto/decrypt.rs\<close>)\<close>

definition body_contains :: "json \<Rightarrow> string \<Rightarrow> bool" where
  "body_contains p part = (case at p [''content'', ''body''] of JStr body \<Rightarrow> sublist part body | _ \<Rightarrow> False)"

definition utd_placeholder_preserves_envelope :: bool where
  "utd_placeholder_preserves_envelope \<longleftrightarrow>
     (let p = utd_placeholder (mk_obj
          [(''type'', JStr ''m.room.encrypted''), (''event_id'', JStr ''$abc''), (''sender'', JStr ''@alice:example.org''),
           (''origin_server_ts'', JNum (PosInt 1234)),
           (''content'', mk_obj [(''algorithm'', JStr ''m.megolm.v1.aes-sha2''), (''ciphertext'', JStr ''...'')]),
           (''unsigned'', mk_obj [(''transaction_id'', JStr ''1-999''), (''age'', JNum (PosInt 5))])])
          ''MissingRoomKey'' (Some ''sess'') True
      in at p [''type''] = JStr ''m.room.message'' \<and> at p [''event_id''] = JStr ''$abc'' \<and>
         at p [''sender''] = JStr ''@alice:example.org'' \<and> at p [''origin_server_ts''] = JNum (PosInt 1234) \<and>
         at p [''unsigned'', ''transaction_id''] = JStr ''1-999'' \<and>
         at p [''unsigned'', ''ement_e2ee'', ''utd''] = JBool True \<and> body_contains p ''MissingRoomKey'')"

fun mentions :: "string \<Rightarrow> json \<Rightarrow> bool" where
  "mentions x (JStr s) = sublist x s"
| "mentions x (JArr js) = list_ex (mentions x) js"
| "mentions x (JObj m) = list_ex (\<lambda>(k, j). sublist x k \<or> mentions x j) m"
| "mentions x _ = False"

definition utd_placeholder_copes_with_sparse_events :: bool where
  "utd_placeholder_copes_with_sparse_events \<longleftrightarrow>
     (let p = utd_placeholder (mk_obj [(''type'', JStr ''m.room.encrypted''), (''event_id'', JStr ''$abc'')])
          ''MalformedEncryptedEvent'' None False
      in at p [''event_id''] = JStr ''$abc'' \<and> at p [''content'', ''msgtype''] = JStr ''m.text'' \<and>
         at p [''unsigned'', ''ement_e2ee'', ''utd''] = JBool True \<and>
         at p [''unsigned'', ''ement_e2ee'', ''session_id''] = JNull \<and>
         get ''sender'' p = None \<and> get ''origin_server_ts'' p = None \<and> \<not> mentions ''ciphertext'' p)"

definition utd_placeholder_keeps_room_id_for_history_endpoints :: bool where
  "utd_placeholder_keeps_room_id_for_history_endpoints \<longleftrightarrow>
     (let p = utd_placeholder (mk_obj
          [(''type'', JStr ''m.room.encrypted''), (''event_id'', JStr ''$abc''), (''room_id'', JStr ''!room:example.org''),
           (''content'', mk_obj [(''ciphertext'', JStr ''...'')])]) ''MissingRoomKey'' (Some ''sess'') False
      in at p [''room_id''] = JStr ''!room:example.org'' \<and>
         at p [''unsigned'', ''ement_e2ee'', ''session_id''] = JStr ''sess'')"

definition utd_placeholder_only_promises_what_will_happen :: bool where
  "utd_placeholder_only_promises_what_will_happen \<longleftrightarrow>
     (let p = utd_placeholder (mk_obj [(''type'', JStr ''m.room.encrypted''), (''event_id'', JStr ''$abc'')])
          ''MissingRoomKey'' None
      in body_contains (p True) ''update in place'' \<and>
         at (p False) [''content'', ''body''] = JStr (locked @ '' [undecryptable: MissingRoomKey]''))"

section \<open>To-device events (\<open>crypto/sync.rs\<close>)\<close>

text \<open>The hash of a JSON value is the library's; the reordered event has the key of the first one.\<close>

definition to_device_repeats_are_recognised :: bool where
  "to_device_repeats_are_recognised \<longleftrightarrow>
     (let event = 1; reordered = 1; different = 2;
          (a, s1) = seen_insert event empty_seen; (b, s2) = seen_insert event s1;
          (c, s3) = seen_insert reordered s2; (d, s4) = seen_insert different s3
      in a \<and> \<not> b \<and> \<not> c \<and> d \<and> fst (seen_insert reordered (seen_forget event s4)))"

definition unknown_token_detection :: bool where
  "unknown_token_detection \<longleftrightarrow>
     (let cd = ref_codec [(''unknown'', mk_obj [(''errcode'', JStr ''M_UNKNOWN_TOKEN'')]),
            (''missing'', mk_obj [(''errcode'', JStr ''M_MISSING_TOKEN'')])]
      in is_unknown_token cd 401 ''unknown'' \<and> \<not> is_unknown_token cd 401 ''missing'' \<and>
         \<not> is_unknown_token cd 401 ''not json'' \<and> \<not> is_unknown_token cd 403 ''unknown'')"

lemma crypto_tests:
  "repairs_become_ready_when_their_session_key_arrives \<and> unrelated_keys_wake_nobody \<and>
   bulk_import_retries_everything_including_sessionless_events \<and>
   failed_repairs_wait_for_the_next_key \<and> tracking_is_idempotent \<and>
   edit_replaces_the_placeholder_in_place \<and> edit_keeps_media_and_reply_rendering \<and>
   edit_of_an_edit_shows_the_new_text \<and> non_message_events_become_a_one_line_note \<and>
   events_without_identity_cannot_be_repaired \<and> delivered_ids_cover_all_joined_rooms \<and>
   parse_encryption_content \<and> utd_placeholder_preserves_envelope \<and>
   utd_placeholder_copes_with_sparse_events \<and>
   utd_placeholder_keeps_room_id_for_history_endpoints \<and>
   utd_placeholder_only_promises_what_will_happen \<and> to_device_repeats_are_recognised \<and>
   unknown_token_detection"
  by code_simp

text \<open>
  \<open>to_device_memory_is_bounded\<close>: 4106 different events are all new, the memory ends with 4096 of
  them, the first is forgotten and the last is known.
\<close>

definition to_device_memory_is_bounded :: bool where
  "to_device_memory_is_bounded \<longleftrightarrow>
     (let ks = map of_nat [0 ..< seen_capacity + 10]; s = snd (admit ks empty_seen)
      in fst (admit ks empty_seen) = ks \<and> card (seen_set s) = seen_capacity \<and>
         length (seen_order s) = seen_capacity \<and> fst (seen_insert 0 s) \<and>
         \<not> fst (seen_insert (of_nat (seen_capacity + 9)) s))"

lemma admit_distinct:
  "distinct ks \<Longrightarrow> set ks \<inter> seen_set s = {} \<Longrightarrow> fst (admit ks s) = ks"
proof (induction ks arbitrary: s)
  case (Cons k ks)
  have "seen_set (snd (seen_insert k s)) \<subseteq> insert k (seen_set s)"
    by (auto simp: seen_insert_def Let_def split: list.split)
  then have "set ks \<inter> seen_set (snd (seen_insert k s)) = {}" using Cons.prems by auto
  then show ?case
    using Cons.IH [of "snd (seen_insert k s)"] Cons.prems fst_seen_insert [of k s]
    by (auto simp: Let_def split: prod.splits)
qed simp

lemma seen_empty: "seen_order empty_seen = []"
  by (simp add: empty_seen_def)

lemma to_device_memory_is_bounded_holds: to_device_memory_is_bounded
proof -
  let ?ks = "map of_nat [0 ..< seen_capacity + 10] :: u64 list" and ?n = seen_capacity
  let ?s = "snd (admit ?ks empty_seen)"
  have n: "?n = 4096" by (simp add: seen_capacity_def)
  have inj: "inj_on (of_nat :: nat \<Rightarrow> u64) {0 ..< ?n + 10}"
    by (rule inj_onI) (simp add: n word_of_nat_eq_iff take_bit_nat_eq_self)
  then have ks: "distinct ?ks" by (simp add: distinct_map)
  then have new: "fst (admit ?ks empty_seen) = ?ks" by (rule admit_distinct) (simp add: empty_seen_def)
  have ok: "seen_ok ?s" by (rule admit_ok [OF seen_ok_empty])
  have "seen_order ?s = window ?n ?ks"
    using admit_order [OF seen_ok_empty, of ?ks] by (simp only: new seen_empty append_Nil)
  then have order: "seen_order ?s = map of_nat [10 ..< ?n + 10]"
    by (simp add: window_def drop_map)
  have "card (seen_set ?s) = ?n"
    using ok order distinct_card [of "seen_order ?s"] by (simp add: seen_ok_def)
  moreover have "(0 :: u64) \<notin> set (seen_order ?s)"
  proof
    assume "0 \<in> set (seen_order ?s)"
    then obtain i where "i \<in> {10 ..< ?n + 10}" "(of_nat i :: u64) = of_nat 0" by (auto simp: order)
    then show False using inj_onD [OF inj, of i 0] by (simp add: n)
  qed
  moreover have "(of_nat (?n + 9) :: u64) \<in> set (seen_order ?s)"
    unfolding order set_map by (intro imageI) (simp add: n)
  ultimately show ?thesis
    unfolding to_device_memory_is_bounded_def Let_def
    using new order by (simp only: fst_seen_insert seen_set_order [OF ok]) simp
qed

section \<open>The bound of the repair queue (\<open>crypto/repair.rs\<close>)\<close>

definition repair_queue_is_bounded :: bool where
  "repair_queue_is_bounded \<longleftrightarrow>
     (let q = track_test ''$a'' (Some ''first'') empty_queue;
          q1 = fold (\<lambda>i. track_test (''$n'' @ show_nat i) (Some ''s'')) [0 ..< max_pending + 5] q
      in length (pending_snapshot q1) = max_pending \<and> pr_event_id (hd (pending_snapshot q1)) = ''$n5'')"

lemma show_nat_inj: "show_nat m = show_nat n \<Longrightarrow> m = n"
  by (metis parse_show_nat option.inject)

lemma test_encrypted_id: "get_str ''event_id'' (test_encrypted eid) = Some eid"
  by (simp add: test_encrypted_def get_str_def get_mk_obj)

lemma track_test_id: "track_test eid sid q = track_id eid (''!room:example.org'', test_encrypted eid, sid) q"
  by (simp only: track_test_def track_def test_encrypted_id option.case)

lemma track_test_fun: "track_test eid sid = track_id eid (''!room:example.org'', test_encrypted eid, sid)"
  by (rule ext) (rule track_test_id)

lemma snapshot_ids:
  assumes "queue_inv q"
  shows "map pr_event_id (pending_snapshot q) = order q"
proof -
  have "pr_event_id (the (map_of (pending q) e)) = e" if "e \<in> set (order q)" for e
    using pending_entry [OF assms that] by auto
  then show ?thesis by (simp add: snapshot_map [OF assms] map_idI)
qed

lemma repair_queue_is_bounded_holds: repair_queue_is_bounded
proof -
  let ?q = "track_test ''$a'' (Some ''first'') empty_queue"
  let ?ev = "\<lambda>i. (''$n'' @ show_nat i, ''!room:example.org'', test_encrypted (''$n'' @ show_nat i), Some ''s'')"
  let ?q1 = "fold (\<lambda>i. track_test (''$n'' @ show_nat i) (Some ''s'')) [0 ..< max_pending + 5] ?q"
  have ok: "queue_ok ?q" and o: "order ?q = [''$a'']"
    unfolding track_test_id
    using track_id_order [OF queue_ok_inv [OF queue_ok_empty], of "''$a''"]
    by (simp_all only: track_id_ok [OF queue_ok_empty]) (simp add: empty_queue_def window_def max_pending_def)
  have q1: "?q1 = rq.fill (map ?ev [0 ..< max_pending + 5]) ?q"
    by (simp only: rq.fill_def fold_map track_test_fun comp_def prod.case)
  have "distinct (order ?q @ map fst (map ?ev [0 ..< max_pending + 5]))"
    by (auto simp: o distinct_map intro!: inj_onI dest: show_nat_inj)
  note fresh = rq.fill_fresh [OF ok this]
  have order: "order ?q1 = window max_pending (''$a'' # map (\<lambda>i. ''$n'' @ show_nat i) [0 ..< max_pending + 5])"
    unfolding q1 fresh o by (simp add: comp_def)
  have ok1: "queue_ok ?q1" unfolding q1 by (rule rq.inv_fill [OF ok])
  have ids: "map pr_event_id (pending_snapshot ?q1) = map (\<lambda>i. ''$n'' @ show_nat i) [5 ..< max_pending + 5]"
    unfolding snapshot_ids [OF queue_ok_inv [OF ok1]] order by (simp add: window_def drop_Cons drop_map)
  have "length (pending_snapshot ?q1) = max_pending" using arg_cong [OF ids, of length] by simp
  moreover have "pr_event_id (hd (pending_snapshot ?q1)) = hd (map pr_event_id (pending_snapshot ?q1))"
    using calculation by (cases "pending_snapshot ?q1") (simp_all add: max_pending_def)
  moreover have "hd (map (\<lambda>i. ''$n'' @ show_nat i) [5 ..< max_pending + 5]) = ''$n'' @ show_nat 5"
    by (simp add: max_pending_def upt_rec [of 5])
  moreover have "show_nat 5 = ''5''" by code_simp
  ultimately show ?thesis
    unfolding repair_queue_is_bounded_def Let_def by (simp only: ids) simp
qed

end
