(* ===== verification/ConfigTests.thy ===== *)
theory ConfigTests
  imports ProxyTests
begin

unbundle bit_operations_syntax

text \<open>
  The unit tests of the configuration (\<open>config.rs\<close>) run on the model.
  A test's configuration file is what the TOML library reads from it, or its error; the shell answers the
  commands that occur.
\<close>

section \<open>The host of a test\<close>

definition url_of_text :: "string \<Rightarrow> string + url" where
  "url_of_text s =
     (case strip_prefix ''https://'' s of
        None \<Rightarrow> Inl ''relative URL without a base''
      | Some r \<Rightarrow>
          (let name = takeWhile (\<lambda>c. c \<noteq> CHR ''/'') r; path = drop (length name) r
           in Inr \<lparr>url_origin = ''https://'' @ name, url_path = (if path = [] then ''/'' else path), url_query = None\<rparr>))"

definition octet :: "nat \<Rightarrow> 32 word \<Rightarrow> string" where
  "octet n w = show_nat (unat (drop_bit n w AND 0xFF))"

definition port_string :: "16 word \<Rightarrow> string" where
  "port_string p = dropWhile (\<lambda>c. c = CHR ''0'') (map (\<lambda>d. digit_char (unat (p div d mod 10))) [10000, 1000, 100, 10, 1])"

definition addr_string :: "socket_addr \<Rightarrow> string" where
  "addr_string a =
     (case sa_ip a of
        V4 w \<Rightarrow> octet 24 w @ ''.'' @ octet 16 w @ ''.'' @ octet 8 w @ ''.'' @ octet 0 w
      | V6 w \<Rightarrow> ''[::1]'') @ '':'' @ port_string (sa_port a)"

definition shell :: "string \<Rightarrow> string + shell_output" where
  "shell cmd = Inr (
     if cmd = ''exit 3'' then \<lparr>sh_success = False, sh_status = ''exit status: 3'', sh_stdout = []\<rparr>
     else if cmd = ''exit 1'' then \<lparr>sh_success = False, sh_status = ''exit status: 1'', sh_stdout = []\<rparr>
     else if cmd = ''echo'' then \<lparr>sh_success = True, sh_status = ''0'', sh_stdout = line_break\<rparr>
     else if cmd = ''printf'' then \<lparr>sh_success = True, sh_status = ''0'', sh_stdout = ''correct horse'' @ line_break\<rparr>
     else \<lparr>sh_success = True, sh_status = ''0'', sh_stdout = []\<rparr>)"

definition test_path :: string where
  "test_path = ''/tmp/t/config.toml''"

definition test_host :: "string + file_config \<Rightarrow> host" where
  "test_host fc = ref_host\<lparr>path_exists := (\<lambda>p. p = test_path), toml_parse := (\<lambda>t. fc),
     data_dir := Some ''/home/me/.local/share'', home_dir := Some ''/home/me'',
     url_parse := url_of_text, url_text := url_string, url_clear_path := (\<lambda>u. u\<lparr>url_path := ''/''\<rparr>),
     run_shell := shell, addr_text := addr_string\<rparr>"

definition test_args :: serve_args where
  "test_args = no_args\<lparr>sa_config := Some test_path\<rparr>"

definition loads :: "string + file_config \<Rightarrow> serve_args \<Rightarrow> (config \<Rightarrow> bool) \<Rightarrow> bool" where
  "loads fc args P = (case load_config (test_host fc) args of Inl _ \<Rightarrow> False | Inr c \<Rightarrow> P c)"

definition load_error_contains :: "string + file_config \<Rightarrow> string \<Rightarrow> bool" where
  "load_error_contains fc part =
     (case load_config (test_host fc) test_args of Inl e \<Rightarrow> sublist part (show_chain e) | Inr _ \<Rightarrow> False)"

definition with_homeserver :: file_config where
  "with_homeserver = default_file_config\<lparr>fc_homeserver := Some ''https://matrix.example.org''\<rparr>"

definition loopback :: "16 word \<Rightarrow> socket_addr" where
  "loopback port = \<lparr>sa_ip = V4 0x7F000001, sa_port = port\<rparr>"

section \<open>Configuration (\<open>config.rs\<close>)\<close>

definition minimal_config_gets_defaults :: bool where
  "minimal_config_gets_defaults \<longleftrightarrow> loads (Inr with_homeserver) test_args (\<lambda>c.
     url_string (cfg_homeserver c) = ''https://matrix.example.org/'' \<and> cfg_listen c = loopback 8009 \<and>
     cfg_log_level c = ''info'' \<and> suffix ''ement-e2ee'' (cfg_store_dir c) \<and>
     cfg_store_passphrase c = None \<and> cfg_admin_token c = None)"

definition full_config_is_read :: bool where
  "full_config_is_read \<longleftrightarrow> loads (Inr
     \<lparr>fc_listen = Some (loopback 9999), fc_homeserver = Some ''https://matrix.example.org/'',
      fc_store_dir = Some ''/var/lib/ement'', fc_log_level = Some ''ement_e2ee=debug'',
      fc_store_passphrase = Some ''hunter2'', fc_store_passphrase_command = None, fc_admin_token = Some ''s3cret''\<rparr>)
     test_args (\<lambda>c.
       cfg_listen c = loopback 9999 \<and> url_string (cfg_homeserver c) = ''https://matrix.example.org/'' \<and>
       cfg_store_dir c = ''/var/lib/ement'' \<and> cfg_log_level c = ''ement_e2ee=debug'' \<and>
       cfg_store_passphrase c = Some ''hunter2'' \<and> cfg_admin_token c = Some ''s3cret'')"

definition command_line_overrides_file :: bool where
  "command_line_overrides_file \<longleftrightarrow> loads (Inr (default_file_config\<lparr>fc_listen := Some (loopback 9999),
       fc_homeserver := Some ''https://file.example.org'', fc_log_level := Some ''warn''\<rparr>))
     (test_args\<lparr>sa_listen := Some (loopback 1234), sa_homeserver := Some ''https://cli.example.org'',
       sa_store_dir := Some ''/tmp/cli-store'', sa_log_level := Some ''trace''\<rparr>) (\<lambda>c.
       cfg_listen c = loopback 1234 \<and> url_origin (cfg_homeserver c) = ''https://cli.example.org'' \<and>
       cfg_store_dir c = ''/tmp/cli-store'' \<and> cfg_log_level c = ''trace'')"

definition homeserver_is_required_and_validated :: bool where
  "homeserver_is_required_and_validated \<longleftrightarrow>
     load_error_contains (Inr default_file_config) ''no homeserver configured'' \<and>
     load_error_contains (Inr (default_file_config\<lparr>fc_homeserver := Some ''not a url''\<rparr>)) ''not a valid URL'' \<and>
     load_error_contains (Inr (default_file_config\<lparr>fc_homeserver := Some ''https://example.org/matrix''\<rparr>))
       ''must not have a path''"

definition mistakes_in_the_file_are_reported :: bool where
  "mistakes_in_the_file_are_reported \<longleftrightarrow>
     load_error_contains (Inl ''unknown field `admin_tokn`'') ''admin_tokn'' \<and>
     load_error_contains (Inl ''expected a value'') ''invalid config'' \<and>
     load_error_contains (Inl ''invalid socket address syntax'') ''invalid config''"

definition tilde_in_store_dir_means_home :: bool where
  "tilde_in_store_dir_means_home \<longleftrightarrow>
     (let H = test_host (Inr with_homeserver); tilde = [CHR 0x7E] in
      expand_tilde H (tilde @ ''/.local/share/ement-e2ee'') = ''/home/me/.local/share/ement-e2ee'' \<and>
      expand_tilde H ''/srv/~/x'' = ''/srv/~/x'' \<and>
      expand_tilde H (tilde @ ''other/x'') = tilde @ ''other/x'' \<and>
      expand_tilde H ''relative/x'' = ''relative/x'' \<and>
      loads (Inr (with_homeserver\<lparr>fc_store_dir := Some (tilde @ ''/stores'')\<rparr>)) test_args
        (\<lambda>c. cfg_store_dir c = ''/home/me/stores''))"

definition passphrase_can_come_from_a_command :: bool where
  "passphrase_can_come_from_a_command \<longleftrightarrow>
     loads (Inr (with_homeserver\<lparr>fc_store_passphrase_command := Some ''printf''\<rparr>)) test_args
       (\<lambda>c. cfg_store_passphrase c = Some ''correct horse'')"

definition passphrase_command_failures_stop_startup :: bool where
  "passphrase_command_failures_stop_startup \<longleftrightarrow>
     (let cmd = (\<lambda>c. with_homeserver\<lparr>fc_store_passphrase_command := Some c\<rparr>) in
      load_error_contains (Inr (cmd ''exit 3'')) ''store_passphrase_command failed'' \<and>
      load_error_contains (Inr (cmd ''true'')) ''printed nothing'' \<and>
      load_error_contains (Inr (cmd ''echo'')) ''printed nothing'' \<and>
      load_error_contains (Inr ((cmd ''echo y'')\<lparr>fc_store_passphrase := Some ''x''\<rparr>)) ''not both'')"

definition ctl_finds_the_proxy_from_the_config :: bool where
  "ctl_finds_the_proxy_from_the_config \<longleftrightarrow>
     (let H = test_host (Inr (with_homeserver\<lparr>fc_listen := Some (loopback 9123),
         fc_admin_token := Some ''s3cret'', fc_store_passphrase_command := Some ''exit 1''\<rparr>)) in
      load_endpoint H (Some test_path) None =
        Inr \<lparr>ae_url = ''http://127.0.0.1:9123'', ae_admin_token = Some ''s3cret''\<rparr> \<and>
      load_endpoint H (Some test_path) (Some ''http://127.0.0.1:1/'') =
        Inr \<lparr>ae_url = ''http://127.0.0.1:1'', ae_admin_token = Some ''s3cret''\<rparr>)"

definition wildcard_listen_is_reached_via_loopback :: bool where
  "wildcard_listen_is_reached_via_loopback \<longleftrightarrow>
     connect_addr \<lparr>sa_ip = V4 0, sa_port = 8009\<rparr> = loopback 8009 \<and>
     connect_addr \<lparr>sa_ip = V6 0, sa_port = 8009\<rparr> = \<lparr>sa_ip = V6 1, sa_port = 8009\<rparr> \<and>
     connect_addr \<lparr>sa_ip = V4 0xC0A80105, sa_port = 8009\<rparr> = \<lparr>sa_ip = V4 0xC0A80105, sa_port = 8009\<rparr>"

definition explicit_config_path_must_exist :: bool where
  "explicit_config_path_must_exist \<longleftrightarrow>
     (case load_config (test_host (Inr with_homeserver)) (no_args\<lparr>sa_config := Some ''/nonexistent/ement-e2ee.toml''\<rparr>) of
        Inl e \<Rightarrow> sublist ''does not exist'' (show_chain e) | Inr _ \<Rightarrow> False)"

lemma config_tests:
  "minimal_config_gets_defaults \<and> full_config_is_read \<and> command_line_overrides_file \<and>
   homeserver_is_required_and_validated \<and> mistakes_in_the_file_are_reported \<and>
   tilde_in_store_dir_means_home \<and> passphrase_can_come_from_a_command \<and>
   passphrase_command_failures_stop_startup \<and> ctl_finds_the_proxy_from_the_config \<and>
   wildcard_listen_is_reached_via_loopback \<and> explicit_config_path_must_exist"
  by code_simp

end
