(* ===== verification/AdminTests.thy ===== *)
theory AdminTests
  imports ConfigTests LogBuf Inspect "HOL-Library.Code_Target_Nat"
begin

unbundle bit_operations_syntax

text \<open>
  The unit tests of the admin API and its client (\<open>admin/mod.rs\<close>, \<open>admin/ctl.rs\<close>, \<open>admin/verify.rs\<close>,
  \<open>admin/diagnose.rs\<close>, \<open>admin/debug.rs\<close>), of the log's tail (\<open>logbuf.rs\<close>) and of the pure parts of
  \<open>setup\<close> (\<open>setup.rs\<close>), run on the model.
\<close>

section \<open>Parameters (\<open>admin/mod.rs\<close>, \<open>admin/ctl.rs\<close>)\<close>

definition parse_query_takes_values_verbatim :: bool where
  "parse_query_takes_values_verbatim \<longleftrightarrow>
     (let query = parse_query (Some ''user_id=@a=b:example.org&with_user=@c:example.org'') in
      map_of query ''user_id'' = Some ''@a=b:example.org'' \<and> map_of query ''with_user'' = Some ''@c:example.org'' \<and>
      length query = 2)"

definition parse_query_ignores_junk :: bool where
  "parse_query_ignores_junk \<longleftrightarrow>
     parse_query None = [] \<and> parse_query (Some []) = [] \<and>
     (let query = parse_query (Some ''flag&user_id=@a:b&&'') in
      length query = 1 \<and> map_of query ''user_id'' = Some ''@a:b'')"

definition json_params_keeps_only_strings :: bool where
  "json_params_keeps_only_strings \<longleftrightarrow>
     (let params = json_params (mk_obj [(''device_id'', JStr ''ABCDEF''), (''count'', JNum (PosInt 3)),
            (''nested'', mk_obj [(''a'', JStr ''b'')]), (''nothing'', JNull)]) in
      length params = 1 \<and> map_of params ''device_id'' = Some ''ABCDEF'') \<and>
     json_params JNull = [] \<and> json_params (JArr [JStr ''device_id'']) = []"

definition verify_targets_are_sent_only_when_given :: bool where
  "verify_targets_are_sent_only_when_given \<longleftrightarrow>
     (let nothing = \<lparr>vc_user_id = None, vc_with_user = None\<rparr>;
          both = \<lparr>vc_user_id = Some ''@me:example.org'', vc_with_user = Some ''@you:example.org''\<rparr>;
          other_user_only = \<lparr>vc_user_id = None, vc_with_user = Some ''@you:example.org''\<rparr>
      in common_query nothing = [] \<and> common_body nothing = [] \<and>
         common_query both = ''?user_id=@me:example.org&with_user=@you:example.org'' \<and>
         JObj (common_body both) =
           mk_obj [(''user_id'', JStr ''@me:example.org''), (''with_user'', JStr ''@you:example.org'')] \<and>
         common_query other_user_only = ''?with_user=@you:example.org'' \<and>
         JObj (common_body other_user_only) = mk_obj [(''with_user'', JStr ''@you:example.org'')])"

definition client_base_url_tolerates_trailing_slash :: bool where
  "client_base_url_tolerates_trailing_slash \<longleftrightarrow>
     list_all (\<lambda>proxy. ac_base (new_client proxy None) = ''http://127.0.0.1:8009/_ement'')
       [''http://127.0.0.1:8009'', ''http://127.0.0.1:8009/'']"

section \<open>The guided verification (\<open>admin/verify.rs\<close>)\<close>

text \<open>A dog and a key, each followed by its name.\<close>

definition dog_key :: string where
  "dog_key = [CHR 0xF0, CHR 0x9F, CHR 0x90, CHR 0xB6] @ ''  '' @ [CHR 0xF0, CHR 0x9F, CHR 0x94, CHR 0x91] @
     line_break @ ''Dog Key''"

definition sas_renders_emoji_or_falls_back_to_decimals :: bool where
  "sas_renders_emoji_or_falls_back_to_decimals \<longleftrightarrow>
     (let cd = ref_codec []; number = (\<lambda>w. JNum (PosInt w)) in
      render_sas cd (mk_obj [(''emoji'', mk_obj [(''formatted'', JStr dog_key)]),
        (''decimals'', JArr [number 1, number 2, number 3])]) = Inr dog_key \<and>
      render_sas cd (mk_obj [(''emoji'', JNull), (''decimals'', JArr [number 1234, number 5678, number 9012])]) =
        Inr ''1234   5678   9012'' \<and>
      (case render_sas cd (mk_obj [(''emoji'', JNull), (''decimals'', JNull)]) of Inl _ \<Rightarrow> True | Inr _ \<Rightarrow> False))"

definition options_name_the_session_and_peer_only_when_given :: bool where
  "options_name_the_session_and_peer_only_when_given \<longleftrightarrow>
     (let options = \<lparr>vo_device = None, vo_user_id = None, vo_with_user = None, vo_timeout = 1000, vo_poll = 1\<rparr>;
          options' = options\<lparr>vo_user_id := Some ''@me:example.org'', vo_with_user := Some ''@you:example.org''\<rparr>
      in options_query options = [] \<and> options_params options = [] \<and>
         options_query options' = ''?user_id=@me:example.org&with_user=@you:example.org'' \<and>
         JObj (options_params options') =
           mk_obj [(''user_id'', JStr ''@me:example.org''), (''with_user'', JStr ''@you:example.org'')])"

section \<open>Explanations (\<open>admin/diagnose.rs\<close>)\<close>

definition clock_check_allows_for_header_resolution_and_latency :: bool where
  "clock_check_allows_for_header_resolution_and_latency \<longleftrightarrow>
     (let s = 10 ^ 9; current = 10 ^ 6 * s; quick = 50 * 10 ^ 6; slow = 40 * s;
          status = (\<lambda>t latency. ck_status (clock_check current t latency));
          check = clock_check current (current + 400 * s) quick
      in status current quick = Ok \<and> status (current - 20 * s) quick = Ok \<and>
         status (current - 45 * s) quick = Warn \<and> status (current + 45 * s) quick = Warn \<and>
         status (current - 900 * s) quick = Fail \<and> status (current - 45 * s) slow = Ok \<and>
         sublist ''s off the homeserver's clock'' (ck_detail check) \<and>
         (case ck_hint check of None \<Rightarrow> False | Some hint \<Rightarrow> sublist ''hwclock'' hint))"

definition undecryptable_explanations_name_the_right_remedy :: bool where
  "undecryptable_explanations_name_the_right_remedy \<longleftrightarrow>
     (let (what, hint) = explain_undecryptable ''MissingMegolmSession'' False (Some True) in
      sublist ''server-side backup'' what \<and> sublist ''ctl bootstrap'' hint) \<and>
     (let (what, hint) = explain_undecryptable ''MissingMegolmSession'' False (Some False) in
      sublist ''never given the room key'' what \<and> sublist ''keys import'' hint) \<and>
     (let (what, _) = explain_undecryptable ''UnknownMegolmMessageIndex'' True (Some True) in
      sublist ''later point in the session'' what) \<and>
     (let (what, hint) = explain_undecryptable ''MalformedEncryptedEvent'' False None in
      sublist ''not a well-formed'' what \<and> sublist ''nothing can decrypt it'' hint)"

section \<open>Reports (\<open>admin/debug.rs\<close>)\<close>

definition durations_read_naturally :: bool where
  "durations_read_naturally \<longleftrightarrow>
     human_duration 0 = ''0 s'' \<and> human_duration 59 = ''59 s'' \<and> human_duration 60 = ''1 min'' \<and>
     human_duration 3599 = ''59 min'' \<and> human_duration (3600 * 3 + 12 * 60) = ''3 h 12 min'' \<and>
     human_duration (86400 * 2 + 3600 * 5) = ''2 d 5 h''"

definition test_check :: "string \<Rightarrow> string \<Rightarrow> string \<Rightarrow> (string \<times> json) list \<Rightarrow> json" where
  "test_check i st detail hint = mk_obj ([(''id'', JStr i), (''status'', JStr st), (''detail'', JStr detail)] @ hint)"

definition test_report :: json where
  "test_report =
     (let number = (\<lambda>w. JNum (PosInt w)) in mk_obj
       [(''version'', JStr ''0.1.0''), (''listen'', JStr ''127.0.0.1:8009''), (''uptime_secs'', number 3725),
        (''proxy'', JArr [test_check ''homeserver'' ''ok'' ''answers in 40 ms'' []]),
        (''sessions'', JArr [mk_obj [(''user_id'', JStr ''@ben:example.org''), (''device_id'', JStr ''ABCDEF''),
           (''checks'', JArr [test_check ''token'' ''ok'' ''access token is valid'' [],
              test_check ''cross_signing'' ''warn'' ''this device has no cross-signing keys''
                [(''hint'', JStr ''run `ement-e2ee ctl bootstrap`'')],
              test_check ''device_keys'' ''fail'' ''this device's keys are not on the homeserver''
                [(''hint'', JStr ''see the logs'')]])]]),
        (''summary'', mk_obj [(''ok'', number 2), (''warn'', number 1), (''fail'', number 1)])])"

definition check_report_lists_problems_with_their_remedies :: bool where
  "check_report_lists_problems_with_their_remedies \<longleftrightarrow>
     (let text = render_check test_report in
      prefix (''ement-e2ee 0.1.0 '' @ long_dash @ '' up 1 h 2 min, listening on 127.0.0.1:8009'' @ line_break) text \<and>
      sublist (line_break @ ''Proxy'' @ line_break @ ''  '' @ check_mark @ '' homeserver       answers in 40 ms'' @
        line_break) text \<and>
      sublist (line_break @ ''@ben:example.org (ABCDEF)'' @ line_break @ ''  '' @ check_mark @ '' token '') text \<and>
      sublist (''  ! cross signing    this device has no cross-signing keys'' @ line_break) text \<and>
      sublist ('' '' @ arrow @ '' run `ement-e2ee ctl bootstrap`'' @ line_break) text \<and>
      sublist (''  '' @ ballot_x @ '' device keys      this device's keys are not on the homeserver'' @ line_break) text \<and>
      suffix (''2 ok, 1 warning, 1 failure'' @ line_break) text) \<and>
     suffix (''0 ok, 0 warnings, 0 failures'' @ line_break)
       (render_check (mk_obj [(''proxy'', JArr []), (''sessions'', JArr []), (''summary'', mk_obj [])]))"

text \<open>\<open>str::lines\<close>, for a text without carriage returns that ends with a line break.\<close>

definition text_lines :: "string \<Rightarrow> string list" where
  "text_lines s = butlast (split_on (CHR 0x0A) s)"

definition devices_table_marks_trust_and_this_device :: bool where
  "devices_table_marks_trust_and_this_device \<longleftrightarrow>
     (let answer = mk_obj [(''user_id'', JStr ''@ben:example.org''), (''tracked'', JBool True),
            (''devices'', JArr
              [mk_obj [(''device_id'', JStr ''EMENT''), (''ed25519'', JStr ''abc''), (''this_device'', JBool True),
                 (''verified'', JBool True), (''cross_signed'', JBool True), (''display_name'', JStr ''ement'')],
               mk_obj [(''device_id'', JStr ''PHONE1234''), (''ed25519'', JStr ''def''), (''this_device'', JBool False),
                 (''verified'', JBool True), (''cross_signed'', JBool False)],
               mk_obj [(''device_id'', JStr ''OLD''), (''ed25519'', JNull), (''verified'', JBool False),
                 (''cross_signed'', JBool False)],
               mk_obj [(''device_id'', JStr ''BAD''), (''ed25519'', JStr ''xyz''), (''blacklisted'', JBool True),
                 (''verified'', JBool False)]])];
          ls = text_lines (render_devices answer)
      in ls ! 0 = ''Devices of @ben:example.org'' \<and>
         ls ! 1 = ''  * EMENT      verified (cross-signed)  abc  ement'' \<and>
         prefix ''    PHONE1234  verified (locally)       def'' (ls ! 2) \<and>
         prefix ''    OLD        unverified               (no key)'' (ls ! 3) \<and>
         sublist ''blacklisted'' (ls ! 4)) \<and>
     (let text = render_devices (mk_obj [(''user_id'', JStr ''@x:example.org''), (''tracked'', JBool False),
            (''devices'', JArr [])])
      in sublist ''not tracked'' text \<and> sublist ''none known'' text)"

definition event_report_explains_and_advises :: bool where
  "event_report_explains_and_advises \<longleftrightarrow>
     (let text = render_event (mk_obj
            [(''room_id'', JStr ''!room:example.org''), (''event_id'', JStr ''$event''),
             (''sender'', JStr ''@alice:example.org''), (''sender_device'', JStr ''ALICEDEVICE''),
             (''type'', JStr ''m.room.encrypted''), (''algorithm'', JStr ''m.megolm.v1.aes-sha2''),
             (''session_id'', JStr ''SESSION''), (''room_key'', mk_obj [(''held'', JBool False)]),
             (''key_in_server_backup'', JBool True), (''outcome'', JStr ''undecryptable''),
             (''reason'', JStr ''MissingMegolmSession''),
             (''explanation'', JStr (''this device was never given the room key, '' @
               ''but the key is in your server-side backup'')),
             (''hint'', JStr ''run `ement-e2ee ctl bootstrap`'')])
      in prefix (''$event in !room:example.org'' @ line_break) text \<and>
         sublist (''  sender     @alice:example.org (device ALICEDEVICE)'' @ line_break) text \<and>
         sublist (''  type       m.room.encrypted (m.megolm.v1.aes-sha2)'' @ line_break) text \<and>
         sublist (''  room key   not held'' @ line_break) text \<and>
         sublist (''  backup     has the key'' @ line_break) text \<and>
         sublist (''  outcome    undecryptable: MissingMegolmSession'' @ line_break) text \<and>
         sublist (line_break @ ''This device was never given the room key, but'') text \<and>
         suffix (arrow @ '' run `ement-e2ee ctl bootstrap`'' @ line_break) text) \<and>
     (let text = render_event (mk_obj
            [(''room_id'', JStr ''!r:hs''), (''event_id'', JStr ''$e''), (''sender'', JStr ''@a:hs''),
             (''type'', JStr ''m.room.encrypted''),
             (''room_key'', mk_obj [(''held'', JBool True), (''first_known_index'', JNum (PosInt 3)),
                (''imported'', JBool True)]),
             (''outcome'', JStr ''decrypted''), (''decrypted_type'', JStr ''m.room.message''),
             (''explanation'', JStr ''the event decrypts'')])
      in sublist (''  room key   held from message index 3 on (imported)'' @ line_break) text \<and>
         sublist (''  outcome    decrypted (m.room.message)'' @ line_break) text) \<and>
     sublist (''  outcome    not encrypted'' @ line_break) (render_event (mk_obj
       [(''room_id'', JStr ''!r:hs''), (''event_id'', JStr ''$e''), (''sender'', JStr ''@a:hs''),
        (''type'', JStr ''m.room.message''), (''outcome'', JStr ''not_encrypted''),
        (''explanation'', JStr ''this event was sent in the clear'')]))"

definition logs_show_age_level_and_source :: bool where
  "logs_show_age_level_and_source \<longleftrightarrow>
     (let line = (\<lambda>age lvl target message. mk_obj [(''secs_ago'', JNum (PosInt age)), (''level'', JStr lvl),
            (''target'', JStr target), (''message'', JStr message)]);
          ls = text_lines (render_logs (mk_obj [(''lines'', JArr
            [line 125 ''WARN'' ''ement_e2ee::crypto::machine'' ''outgoing crypto request failed'',
             line 3 ''INFO'' ''ement_e2ee::session'' ''session initialized''])]))
      in ls ! 0 = ''     2 min ago  WARN  ement_e2ee::crypto::machine: outgoing crypto request failed'' \<and>
         ls ! 1 = ''       3 s ago  INFO  ement_e2ee::session: session initialized'') \<and>
     prefix ''No log lines'' (render_logs (mk_obj [(''lines'', JArr [])]))"

definition tree_renders_any_answer :: bool where
  "tree_renders_any_answer \<longleftrightarrow>
     (let number = (\<lambda>w. JNum (PosInt w));
          member = (\<lambda>u n. mk_obj [(''user_id'', JStr u), (''devices'', number n)]);
          text = render_tree (mk_obj
            [(''user_id'', JStr ''@ben:example.org''),
             (''backup'', mk_obj [(''enabled'', JBool True), (''version'', JNull), (''room_keys'', number 12)]),
             (''members'', JArr [member ''@a:hs'' 2, member ''@b:hs'' 0]),
             (''tags'', JArr [JStr ''x'', JStr ''y'']), (''empty'', JArr [])])
      in sublist (unlines [''user id: @ben:example.org'']) text \<and>
         sublist (unlines [''backup:'', ''  enabled: yes'', ''  room keys: 12'', ''  version: '' @ en_dash]) text \<and>
         sublist (unlines [''members:'', ''  - devices: 2, user id: @a:hs'', ''  - devices: 0, user id: @b:hs'']) text \<and>
         sublist (unlines [''tags:'', ''  - x'', ''  - y'']) text \<and>
         sublist (unlines [''empty: none'']) text)"

lemma report_tests:
  "clock_check_allows_for_header_resolution_and_latency \<and>
   undecryptable_explanations_name_the_right_remedy \<and> durations_read_naturally \<and>
   check_report_lists_problems_with_their_remedies \<and>
   devices_table_marks_trust_and_this_device \<and> event_report_explains_and_advises \<and>
   logs_show_age_level_and_source \<and> tree_renders_any_answer"
  by code_simp

section \<open>The tail of the log (\<open>logbuf.rs\<close>)\<close>

text \<open>What is logged: target, level and fields, all at the same time.\<close>

definition capture :: "(string \<times> level \<times> (string \<times> string) list) list \<Rightarrow> log_buffer" where
  "capture events = fold (\<lambda>(target, lvl, fs). on_event 0 lvl target fs) events []"

definition own_message :: "level \<Rightarrow> string \<Rightarrow> string \<times> level \<times> (string \<times> string) list" where
  "own_message lvl x = (''ement_e2ee::logbuf::tests'', lvl, [(''message'', x)])"

definition tail_messages :: "level \<Rightarrow> nat \<Rightarrow> log_buffer \<Rightarrow> string list" where
  "tail_messages lvl limit buffer = map ll_message (log_tail lvl limit buffer)"

definition keeps_messages_with_their_fields :: bool where
  "keeps_messages_with_their_fields \<longleftrightarrow>
     (let target = ''ement_e2ee::logbuf::tests'';
          ls = log_tail INFO 10 (capture
            [(target, INFO, [(''message'', ''shared room key''), (''room_id'', ''!r:example.org''), (''count'', ''3'')]),
             (target, WARN, [(''message'', ''upstream failed''), (''error'', ''TimedOut'')])])
      in length ls = 2 \<and> ll_level (ls ! 0) = INFO \<and>
         ll_message (ls ! 0) = ''shared room key room_id=!r:example.org count=3'' \<and>
         prefix ''ement_e2ee'' (ll_target (ls ! 0)) \<and> ll_message (ls ! 1) = ''upstream failed error=TimedOut'')"

definition keeps_what_matters_regardless_of_verbosity :: bool where
  "keeps_what_matters_regardless_of_verbosity \<longleftrightarrow>
     tail_messages INFO 10 (capture
       [own_message DEBUG ''pump tick'', own_message TRACE ''request'',
        (''matrix_sdk_crypto::machine'', INFO, [(''message'', ''created olm machine'')]),
        (''matrix_sdk_crypto::olm'', WARN, [(''message'', ''failed to decrypt'')]),
        own_message ERROR ''store error'']) = [''failed to decrypt'', ''store error'']"

definition tail_filters_by_level_and_limits :: bool where
  "tail_filters_by_level_and_limits \<longleftrightarrow>
     (let buffer = capture [own_message INFO ''one'', own_message WARN ''two'', own_message ERROR ''three'',
            own_message WARN ''four'']; minute = 60 * 10 ^ 9
      in tail_messages WARN 10 buffer = [''two'', ''three'', ''four''] \<and> tail_messages ERROR 10 buffer = [''three''] \<and>
         tail_messages INFO 2 buffer = [''three'', ''four''] \<and>
         count_since 0 WARN minute buffer = 3 \<and> count_since 0 ERROR minute buffer = 1)"

definition memory_is_bounded :: bool where
  "memory_is_bounded \<longleftrightarrow>
     (let ls = log_tail INFO (2 ^ 64 - 1) (capture (map (own_message INFO) (map (\<lambda>i. ''line '' @ show_nat i) [0 ..< log_capacity + 20])))
      in length ls = log_capacity \<and> ll_message (hd ls) = ''line 20'')"

lemma own_target: "layer_accepts ''ement_e2ee::logbuf::tests'' INFO"
  by code_simp

lemma message_text: "line_text [(''message'', x)] = x"
  by (simp add: line_text_def record_field_def visitor_finish_def)

definition own_line :: "string \<Rightarrow> log_line" where
  "own_line x = \<lparr>ll_time = 0, ll_level = INFO, ll_target = ''ement_e2ee::logbuf::tests'', ll_message = x\<rparr>"

lemma own_event: "on_event 0 INFO ''ement_e2ee::logbuf::tests'' [(''message'', x)] = log_push (own_line x)"
  by (rule ext) (simp only: on_event_def own_target message_text own_line_def if_True)

lemma capture_own: "capture (map (own_message INFO) xs) = fold log_push (map own_line xs) []"
  by (simp only: capture_def fold_map comp_def own_message_def prod.case own_event)

lemma own_lines_kept: "filter (\<lambda>l. ll_level l \<le> INFO) (map own_line xs) = map own_line xs"
  by (simp add: filter_map comp_def own_line_def)

lemma window_upt: "window n (map g [0 ..< n + k]) = map g [k ..< n + k]"
  by (simp add: window_def drop_map)

lemma memory_is_bounded_holds: memory_is_bounded
proof -
  let ?text = "\<lambda>i. ''line '' @ show_nat i"
  let ?ls = "log_tail INFO (2 ^ 64 - 1) (capture (map (own_message INFO) (map ?text [0 ..< log_capacity + 20])))"
  have w: "window log_capacity (map own_line (map ?text [0 ..< log_capacity + 20])) =
      map own_line (map ?text [20 ..< log_capacity + 20])"
    unfolding map_map by (rule window_upt)
  have "?ls = window (2 ^ 64 - 1) (filter (\<lambda>l. ll_level l \<le> INFO)
      (window log_capacity (map own_line (map ?text [0 ..< log_capacity + 20]))))"
    unfolding capture_own by (rule log_tail_newest [folded log_capacity_def])
  also have "\<dots> = window (2 ^ 64 - 1) (map own_line (map ?text [20 ..< log_capacity + 20]))"
    unfolding w own_lines_kept ..
  also have "\<dots> = map own_line (map ?text [20 ..< log_capacity + 20])"
    by (rule window_short) (simp add: log_capacity_def)
  finally have ls: "?ls = map own_line (map ?text [20 ..< log_capacity + 20])" .
  have upt: "[20 ..< log_capacity + 20] = 20 # [Suc 20 ..< log_capacity + 20]"
    by (rule upt_conv_Cons) (simp add: log_capacity_def)
  have "length ?ls = log_capacity" unfolding ls by (simp del: upt_rec_numeral)
  moreover have "ll_message (hd ?ls) = ?text 20" unfolding ls upt by (simp add: own_line_def)
  moreover have "?text 20 = ''line 20''" by code_simp
  ultimately show ?thesis unfolding memory_is_bounded_def Let_def by (simp only:)
qed

section \<open>The parts of \<open>setup\<close> (\<open>setup.rs\<close>)\<close>

definition unit_runs_this_binary_with_this_config :: bool where
  "unit_runs_this_binary_with_this_config \<longleftrightarrow>
     (let unit = render_unit ''/home/me/.cargo/bin/ement-e2ee'' None in
      sublist (line_break @ ''ExecStart=/home/me/.cargo/bin/ement-e2ee serve'' @ line_break) unit \<and>
      sublist (''[Install]'' @ line_break @ ''WantedBy=default.target'') unit \<and>
      sublist ''Restart=on-failure'' unit) \<and>
     sublist (''ExecStart='' @ quoted ''/opt/my tools/ement-e2ee'' @ '' serve --config '' @ quoted ''/etc/ement e2ee.toml'' @
       line_break) (render_unit ''/opt/my tools/ement-e2ee'' (Some ''/etc/ement e2ee.toml''))"

definition snippet_points_ement_at_the_proxy :: bool where
  "snippet_points_ement_at_the_proxy \<longleftrightarrow>
     (let H = test_host (Inr default_file_config) in
      (let snippet = elisp_snippet H (Some ''@ben:example.org'') (loopback 8009) in
       sublist ('':user-id '' @ quoted ''@ben:example.org'') snippet \<and>
       sublist ('':uri-prefix '' @ quoted ''http://127.0.0.1:8009'') snippet) \<and>
      (let snippet = elisp_snippet H None \<lparr>sa_ip = V4 0, sa_port = 9000\<rparr> in
       sublist ('':uri-prefix '' @ quoted ''http://127.0.0.1:9000'') snippet \<and> sublist ''@you:example.org'' snippet))"

lemma admin_tests:
  "parse_query_takes_values_verbatim \<and> parse_query_ignores_junk \<and>
   json_params_keeps_only_strings \<and> verify_targets_are_sent_only_when_given \<and>
   client_base_url_tolerates_trailing_slash \<and> sas_renders_emoji_or_falls_back_to_decimals \<and>
   options_name_the_session_and_peer_only_when_given \<and> keeps_messages_with_their_fields \<and>
   keeps_what_matters_regardless_of_verbosity \<and> tail_filters_by_level_and_limits \<and>
   unit_runs_this_binary_with_this_config \<and> snippet_points_ement_at_the_proxy"
  by code_simp

end
