(* ===== verification/DeviceTests.thy ===== *)
theory DeviceTests
  imports ProxyTests Login "HOL-Library.Code_Target_Nat"
begin

text \<open>
  The unit tests of the devices (\<open>crypto/device.rs\<close>), run on the model. The file system is the list of the
  files there are, each with its contents and the time it was modified; a directory is there where a file
  below it is. A login is sent as the text \<open>sent\<close>; the codec knows the texts that may come of it.
\<close>

type_synonym files = "(string \<times> string \<times> nat) list"

definition EMENT_ID :: string where
  "EMENT_ID = ''03f8f9640d1c7a5b9e2f4c6a8b0d2e4f6a8c0e2b4d6f8a1c3e5b7d9f1a3c5e7b''"

definition subdirs :: "string \<Rightarrow> files \<Rightarrow> string list" where
  "subdirs dir fs = remdups (List.map_filter (\<lambda>(path, _).
     Option.bind (strip_prefix (dir @ ''/'') path) (\<lambda>rest.
       map_option (\<lambda>(name, _). dir @ ''/'' @ name) (split_once (CHR ''/'') rest))) fs)"

definition login_codec :: "json \<Rightarrow> codec" where
  "login_codec login = ref_codec
     ((''sent'', login) # (''without a device'', jdel ''device_id'' login) #
      map (\<lambda>d. (''for '' @ d, jput ''device_id'' (JStr d) login)) [''ASSIGNED'', ''OLD'', ''NEW''] @
      map (\<lambda>d. (''record of '' @ d, json_of_login_record \<lparr>lr_device_id = d, lr_requested = EMENT_ID\<rparr>))
        [''EVESDEVICE'', ''GONE'', ''ASSIGNED'', ''OLD'', ''NEW''])"

definition device_env :: "json \<Rightarrow> files env" where
  "device_env login = (ref_env [])\<lparr>env_codec := login_codec login,
     is_file := (\<lambda>p fs. map_of fs p \<noteq> None), read_file := (\<lambda>p fs. map_option fst (map_of fs p)),
     modified := (\<lambda>p fs. map_option snd (map_of fs p)), subdirs_of := subdirs,
     write_file := (\<lambda>p b fs. (Inr (), AList.update p (b, 1) fs))\<rparr>"

text \<open>A store for a device, as a login that asked for \<open>requested\<close> and got \<open>dev\<close> leaves it behind.\<close>

definition store_dir_of :: "string \<Rightarrow> string \<Rightarrow> string" where
  "store_dir_of user dev = path_join (path_join ''/stores'' (sanitize_for_path user)) (sanitize_for_path dev)"

definition store_of :: "string \<Rightarrow> string \<Rightarrow> string option \<Rightarrow> files \<Rightarrow> files" where
  "store_of user dev requested fs =
     (let dir = store_dir_of user dev;
          noted = (case requested of
             None \<Rightarrow> fs
           | Some r \<Rightarrow> world (snd (record_login (device_env JNull) dir dev r
               \<lparr>world = fs, trace = [], tasks = [], sessions = [], refused = []\<rparr>)))
      in AList.update (path_join dir store_file) ([], 1) noted)"

definition login_of :: "string \<Rightarrow> string option \<Rightarrow> json" where
  "login_of user dev = mk_obj
     ([(''type'', JStr ''m.login.password''),
       (''identifier'', mk_obj [(''type'', JStr ''m.id.user''), (''user'', JStr user)]),
       (''password'', JStr ''hunter2'')] @
      (case dev of None \<Rightarrow> [] | Some d \<Rightarrow> [(''device_id'', JStr d)]))"

definition planned :: "files \<Rightarrow> json \<Rightarrow> login_plan" where
  "planned fs login = plan_login (device_env login) fs ''/stores'' ''sent''"

definition sent_body :: "files \<Rightarrow> json \<Rightarrow> json option" where
  "sent_body fs login = Option.bind (lp_body (planned fs login)) (json_parse (login_codec login))"

text \<open>The device that the homeserver is asked for, where a rewritten body is sent.\<close>

definition device_sent :: "files \<Rightarrow> json \<Rightarrow> json option option" where
  "device_sent fs login = map_option (get ''device_id'') (sent_body fs login)"

definition a_login_without_a_store_gets_a_new_device :: bool where
  "a_login_without_a_store_gets_a_new_device \<longleftrightarrow>
     (let login = login_of ''@ben:example.org'' (Some EMENT_ID) in
      lp_requested (planned [] login) = Some EMENT_ID \<and>
      (case sent_body [] login of None \<Rightarrow> False | Some body \<Rightarrow>
         get ''device_id'' body = None \<and> get ''password'' body = Some (JStr ''hunter2'') \<and>
         pointer [''identifier'', ''user''] body = Some (JStr ''@ben:example.org'')) \<and>
      (let fs = store_of ''@ben:example.org'' ''GONE'' (Some EMENT_ID)
             (store_of ''@eve:example.org'' ''EVESDEVICE'' (Some EMENT_ID) []);
           gone = path_join (store_dir_of ''@ben:example.org'' ''GONE'') store_file
       in device_sent (AList.delete gone fs) login = Some None))"

definition a_login_continues_the_device_its_store_was_made_for :: bool where
  "a_login_continues_the_device_its_store_was_made_for \<longleftrightarrow>
     (let fs = store_of ''@ben:example.org'' ''ASSIGNED'' (Some EMENT_ID) [];
          login = login_of ''@ben:example.org'' (Some EMENT_ID);
          assigned = Some (Some (JStr ''ASSIGNED''))
      in device_sent fs login = assigned \<and> lp_requested (planned fs login) = Some EMENT_ID \<and>
         list_all (\<lambda>user. device_sent fs (login_of user (Some EMENT_ID)) = assigned)
           [''@Ben:Example.org'', ''ben'', ''@ben''] \<and>
         device_sent fs (mk_obj [(''type'', JStr ''m.login.password''), (''user'', JStr ''ben''),
           (''device_id'', JStr EMENT_ID)]) = assigned \<and>
         device_sent fs (login_of ''@ben:example.org'' (Some ''OTHERHASH'')) = Some None \<and>
         list_all (\<lambda>user. device_sent fs (login_of user (Some EMENT_ID)) = Some None)
           [''@benjamin:example.org'', ''@ben:example.com'', ''be''])"

definition a_store_under_the_requested_id_itself_is_continued_untouched :: bool where
  "a_store_under_the_requested_id_itself_is_continued_untouched \<longleftrightarrow>
     (let fs = store_of ''@ben:example.org'' ''ASSIGNED'' (Some EMENT_ID)
            (store_of ''@ben:example.org'' EMENT_ID None [])
      in planned fs (login_of ''@ben:example.org'' (Some EMENT_ID)) = \<lparr>lp_body = None, lp_requested = Some EMENT_ID\<rparr>)"

definition touch :: "string \<Rightarrow> nat \<Rightarrow> files \<Rightarrow> files" where
  "touch dev t fs = AList.map_entry (path_join (store_dir_of ''@ben:example.org'' dev) store_file) (\<lambda>(b, _). (b, t)) fs"

definition the_store_last_used_wins :: bool where
  "the_store_last_used_wins \<longleftrightarrow>
     (let fs = store_of ''@ben:example.org'' ''NEW'' (Some EMENT_ID)
            (store_of ''@ben:example.org'' ''OLD'' (Some EMENT_ID) []);
          fs = touch ''NEW'' 2000 (touch ''OLD'' 1000 fs);
          login = login_of ''@ben:example.org'' (Some EMENT_ID)
      in device_sent fs login = Some (Some (JStr ''NEW'')) \<and>
         device_sent (touch ''OLD'' 3000 fs) login = Some (Some (JStr ''OLD'')))"

definition logins_the_proxy_cannot_place_are_left_alone :: bool where
  "logins_the_proxy_cannot_place_are_left_alone \<longleftrightarrow>
     (let fs = store_of ''@ben:example.org'' ''ASSIGNED'' (Some EMENT_ID) [];
          by_mail = mk_obj [(''type'', JStr ''m.login.password''),
            (''identifier'', mk_obj [(''type'', JStr ''m.id.thirdparty''), (''medium'', JStr ''email''),
               (''address'', JStr ''b@x.org'')]),
            (''device_id'', JStr EMENT_ID)];
          ben = login_of ''ben'' (Some EMENT_ID)
      in planned fs (login_of ''@ben:example.org'' None) = no_plan \<and> planned fs by_mail = no_plan \<and>
         plan_login (device_env JNull) fs ''/stores'' ''device_id=x'' = no_plan \<and>
         map_option (get ''device_id'') (Option.bind (lp_body (plan_login (device_env ben) fs ''/stores/missing'' ''sent''))
           (json_parse (login_codec ben))) = Some None)"

definition conflicts_say_what_to_do :: bool where
  "conflicts_say_what_to_do \<longleftrightarrow>
     (let conflict = \<lparr>dc_user_id = ''@ben:example.org'', dc_device_id = ''ABCDEF'', dc_store = None\<rparr>;
          text = show_conflict conflict;
          hint = conflict_hint (conflict\<lparr>dc_store := Some ''/stores/@ben:example.org/ABCDEF''\<rparr>)
      in sublist ''device ABCDEF of @ben:example.org'' text \<and> sublist ''log in again'' text \<and>
         sublist ''C-u M-x ement-connect'' text \<and>
         sublist ''move /stores/@ben:example.org/ABCDEF away'' hint \<and> sublist ''log in again'' hint)"

lemma device_tests:
  "a_login_without_a_store_gets_a_new_device \<and> a_login_continues_the_device_its_store_was_made_for \<and>
   a_store_under_the_requested_id_itself_is_continued_untouched \<and> the_store_last_used_wins \<and>
   logins_the_proxy_cannot_place_are_left_alone \<and> conflicts_say_what_to_do"
  by code_simp

end
