(* ===== verification/SetupTests.thy ===== *)
theory SetupTests
  imports ConfigTests Homeserver "HOL-Library.Code_Target_Nat"
begin

text \<open>
  The unit tests of \<open>setup\<close> that talk to servers (\<open>setup.rs\<close>), run on the model: the tool's requests
  are answered by homeservers of the tests, each at an origin of its own.
\<close>

datatype test_server = FakeHomeserver hs_state | Hello

type_synonym network = "(string \<times> test_server) list"

definition home1 :: url where
  "home1 = \<lparr>url_origin = ''https://home1'', url_path = ''/'', url_query = None\<rparr>"

definition home2 :: url where
  "home2 = \<lparr>url_origin = ''https://home2'', url_path = ''/'', url_query = None\<rparr>"

definition delegation :: "string \<Rightarrow> json" where
  "delegation base = mk_obj [(''m.homeserver'', mk_obj [(''base_url'', JStr base)])]"

definition net_codec :: codec where
  "net_codec = ref_codec
     [(''versions'', mk_obj [(''versions'', JArr [JStr ''v1.11''])]),
      (''to home1'', delegation ''https://home1/''),
      (''identity server'', mk_obj [(''m.identity_server'', mk_obj [])]),
      (''to a path'', delegation ''https://example.org/some/path''),
      (''not found'', mk_obj [(''errcode'', JStr ''M_NOT_FOUND''), (''error'', JStr ''M_NOT_FOUND'')])]"

definition served :: "ctl_request \<Rightarrow> url \<Rightarrow> network \<Rightarrow> (string + response) \<times> network" where
  "served rq u w =
     (case map_of w (url_origin u) of
        None \<Rightarrow> (Inl ''connection refused'', w)
      | Some Hello \<Rightarrow> (Inr \<lparr>rs_status = 200, rs_headers = [], rs_body = ''hello''\<rparr>, w)
      | Some (FakeHomeserver st) \<Rightarrow>
          (case hs_respond net_codec \<lparr>rc_method = ct_method rq, rc_path = url_path u, rc_query = [], rc_headers = [],
               rc_content_type = None, rc_body = []\<rparr> None st of
             None \<Rightarrow> (Inl ''connection reset'', w)
           | Some (resp, st') \<Rightarrow> (Inr resp, AList.update (url_origin u) (FakeHomeserver st') w)))"

definition net_env :: "network cenv" where
  "net_env = (ref_cenv [])\<lparr>ce_codec := net_codec, ce_host := test_host (Inr default_file_config),
     ce_server_name := (\<lambda>u. case strip_prefix ''@'' u of
         None \<Rightarrow> Inl ''no leading sigil''
       | Some rest \<Rightarrow> (case split_once (CHR '':'') rest of None \<Rightarrow> Inl ''no colon'' | Some (_, server) \<Rightarrow> Inr server)),
     ce_http := (\<lambda>rq w. case url_of_text (ct_url rq) of Inl e \<Rightarrow> (Inl e, w) | Inr u \<Rightarrow> served rq u w)\<rparr>"

definition on_net :: "network \<Rightarrow> (network, 'a) cli_eff \<Rightarrow> error + 'a" where
  "on_net w f = fst (f \<lparr>cw = w, journal = []\<rparr>)"

definition fails_with :: "string \<Rightarrow> error + 'a \<Rightarrow> bool" where
  "fails_with part r = (case r of Inl e \<Rightarrow> sublist part (show_chain e) | Inr _ \<Rightarrow> False)"

definition server_name_comes_from_the_user_id :: bool where
  "server_name_comes_from_the_user_id \<longleftrightarrow>
     server_name net_env ''@ben:example.org'' = Inr ''example.org'' \<and>
     server_name net_env ''@a:matrix.example.org:8448'' = Inr ''matrix.example.org:8448'' \<and>
     list_all (\<lambda>bad. fails_with ''not a Matrix user ID'' (server_name net_env bad))
       [''ben'', ''ben@example.org'', ''@ben'', []]"

definition discovery_follows_well_known :: bool where
  "discovery_follows_well_known \<longleftrightarrow>
     (let w = [(''https://home1'', FakeHomeserver hs_init),
            (''https://home2'', FakeHomeserver (hs_init\<lparr>hs_well_known := Some (delegation ''https://home1/'')\<rparr>))]
      in on_net w (discover net_env home2) = Inr home1 \<and> on_net w (probe_homeserver net_env home1) = Inr ())"

definition discovery_falls_back_to_the_server_itself :: bool where
  "discovery_falls_back_to_the_server_itself \<longleftrightarrow>
     (let found = (\<lambda>doc. on_net [(''https://home1'', FakeHomeserver (hs_init\<lparr>hs_well_known := doc\<rparr>))]
            (discover net_env home1))
      in found None = Inr home1 \<and>
         found (Some (mk_obj [(''m.identity_server'', mk_obj [])])) = Inr home1 \<and>
         fails_with ''unusable homeserver URL'' (found (Some (delegation ''https://example.org/some/path''))))"

definition a_non_matrix_server_is_rejected_before_writing_anything :: bool where
  "a_non_matrix_server_is_rejected_before_writing_anything \<longleftrightarrow>
     fails_with ''does not look like a Matrix homeserver'' (on_net [(''https://home1'', Hello)] (probe_homeserver net_env home1)) \<and>
     fails_with ''could not reach'' (on_net [] (probe_homeserver net_env home1))"

lemma setup_server_tests:
  "server_name_comes_from_the_user_id \<and> discovery_follows_well_known \<and>
   discovery_falls_back_to_the_server_itself \<and> a_non_matrix_server_is_rejected_before_writing_anything"
  by code_simp

end
