(* ===== verification/Spec2Isabelle.thy ===== *)
theory Spec2Isabelle
  imports LogBuf LateKeys CtlProxy SetupFacts Mailbox SyncBody CryptoTests AdminTests DeviceTests SetupTests
begin

text \<open>
  A model of ement-e2ee, a proxy on localhost that gives a Matrix client without encryption (the
  Emacs client ement) end-to-end encryption. The client speaks plain HTTP to the proxy; the
  proxy encrypts what is sent into encrypted rooms, decrypts what the homeserver delivers, and
  forwards everything else as it came. The cryptography is the library matrix-sdk-crypto;
  the program is what happens around it: which requests are intercepted, whose keys they are
  handled with, in which order the library and the homeserver are called, what is kept between requests,
  and what the client gets to see when something fails. That is what is modelled here.

  \<^bold>\<open>The parts of the program, and the theories that model them.\<close> File names are those under
  \<open>src/src\<close>. Definitions keep the names of the code's functions and types.

  \<^item> \<open>Prelude\<close>, \<open>Json\<close>, \<open>Http\<close>, \<open>Base\<close>: what everything shares. Fallible code over a state
    (\<open>bindE\<close> is \<open>?\<close>, \<open>bindP\<close> sequences code that may panic or not return), strings as UTF-8 bytes,
    \<open>serde_json\<close> values with the access functions the code calls, headers and requests, the
    errors of \<open>error.rs\<close>. The locale \<open>stepwise\<close> carries a reflexive and transitive relation of
    states through the sequencing operators.
  \<^item> \<open>Routes\<close> (\<open>proxy/routes.rs\<close>): the classification of a request, path segments (locale
    \<open>segment_coding\<close>).
  \<^item> \<open>Bounded\<close>: the interface (locale \<open>keyed_fifo\<close>) of the program's bounded memories, interpreted by
    \<open>SeenEvents\<close> (to-device events already handed over, \<open>crypto/sync.rs\<close>), \<open>Repair\<close> (placeholders that
    wait for keys, \<open>crypto/repair.rs\<close>) and \<open>VerifyLog\<close> (finished flows, \<open>crypto/verify.rs\<close>).
    \<open>LogBuf\<close> is the tail of the log (\<open>logbuf.rs\<close>).
  \<^item> \<open>Tracker\<close>, \<open>Rooms\<close> (\<open>crypto/rooms.rs\<close>): what is known of rooms, pure and with the homeserver.
  \<^item> \<open>Edit\<close> (\<open>crypto/repair.rs\<close>): the edit that replaces a placeholder, appending it to a sync response.
  \<^item> \<open>Env\<close>: the state (\<open>AccountContext\<close> of \<open>session.rs\<close> as \<open>account\<close>; \<open>proxy\<close>, what all requests
    share) and the world the program calls (\<open>env\<close>).
  \<^item> \<open>Client\<close> (\<open>upstream.rs\<close>, \<open>proxy/passthrough.rs\<close>, parts of \<open>proxy/intercept.rs\<close>): requests to the
    homeserver and plain forwarding.
  \<^item> \<open>Machine\<close> (\<open>crypto/machine.rs\<close>): the request queue of the crypto machine, the backup upload.
  \<^item> \<open>Media\<close> (\<open>crypto/media.rs\<close>), \<open>Encrypt\<close> (\<open>crypto/encrypt.rs\<close>), \<open>Decrypt\<close> (\<open>crypto/decrypt.rs\<close>, \<open>inject\<close>
    of \<open>crypto/repair.rs\<close>): attachments, sending, what is delivered.
  \<^item> \<open>Verify\<close> (\<open>crypto/verify.rs\<close>), \<open>Sync\<close> (\<open>crypto/sync.rs\<close>), \<open>Device\<close> (\<open>crypto/device.rs\<close>),
    \<open>Session\<close> (\<open>session.rs\<close>), \<open>Login\<close> (\<open>proxy/login.rs\<close>, the history routes of \<open>proxy/intercept.rs\<close>),
    \<open>Secrets\<close> (\<open>crypto/ssss.rs\<close>, \<open>crypto/backup.rs\<close>).
  \<^item> \<open>Diagnose\<close>, \<open>Inspect\<close> (\<open>admin/diagnose.rs\<close>), \<open>Admin\<close> (\<open>admin/mod.rs\<close>): the admin API.
  \<^item> \<open>Proxy\<close> (\<open>proxy/mod.rs\<close>): which session and which handler a request gets.
  \<^item> \<open>Config\<close> (\<open>config.rs\<close>), and the command line tools: \<open>Terminal\<close> (what they run on, and the client
    of \<open>admin/ctl.rs\<close>), \<open>GuidedVerify\<close> (\<open>admin/verify.rs\<close>), \<open>DebugView\<close> (\<open>admin/debug.rs\<close>), \<open>Ctl\<close>
    (\<open>admin/ctl.rs\<close>), \<open>Setup\<close> (\<open>setup.rs\<close>).
  \<^item> \<open>Start\<close> (\<open>main.rs\<close>, \<open>AppState::new\<close>, \<open>Upstream::new\<close>): which program a command line runs, how the
    proxy comes up and goes down, and the steps of the process in between.
  \<^item> \<open>ProxyTests\<close>, \<open>ConfigTests\<close>, \<open>CryptoTests\<close>, \<open>AdminTests\<close>, \<open>DeviceTests\<close>, \<open>SetupTests\<close>: the unit
    tests of the repository, each a closed boolean under the name of its test function, with the lemma that
    the model passes it.
  \<^item> \<open>Homeserver\<close> (\<open>testutil.rs\<close>): the homeserver the repository tests its proxies against, with every
    endpoint and its long polls.
  \<^item> \<open>Delivery\<close>, \<open>Placeholders\<close>, \<open>Homeward\<close>, \<open>LateKeys\<close>, \<open>CtlProxy\<close>, \<open>SetupFacts\<close>, \<open>EndToEnd\<close>,
    \<open>HomeserverFacts\<close>, \<open>Conversation\<close>, \<open>Redelivery\<close>, \<open>Mailbox\<close>, \<open>SyncBody\<close> hold no part of the program: they are the lemmas and the
    properties of what several components do together.
\<close>

text \<open>
  \<^bold>\<open>How the parts interact.\<close> A request comes to \<open>handle\<close> (\<open>Proxy\<close>), is classified
  (\<open>classify\<close>) and gets the session of its access token (\<open>context_for\<close>, \<open>get_or_init\<close>), which is
  made on first use: the homeserver is asked whose token it is, the account's store is opened, and
  the keys in it are compared with those the homeserver publishes. A sync goes to the homeserver, its
  crypto sections to the crypto machine exactly once (\<open>process_sync_changes\<close>), its timelines through
  \<open>decrypt_event\<close>; what cannot be decrypted becomes a placeholder and waits in the account's
  \<open>repairs\<close>. When its key comes, \<open>inject\<close> appends the replacing edit to the next response. A send
  asks \<open>is_room_encrypted\<close> first; in an encrypted room the members are tracked, the request queue is drained
  (\<open>pump\<close>), the room key is shared, and only the ciphertext is sent. The admin API works on the sessions;
  \<open>ctl\<close> is its client.

  \<^bold>\<open>State.\<close> A handler is a function from the state to an error or a value and the state it
  leaves (\<open>eff\<close>, \<open>peff\<close>); \<open>effP\<close> and \<open>peffP\<close> have \<open>None\<close> where the code panics or does not return. What the
  program calls and does not define is a field of \<open>env\<close> (its extensions \<open>venv\<close>, \<open>senv\<close> and \<open>denv\<close>; \<open>host\<close>
  and \<open>cenv\<close> of the command line tools): HTTP, the clock, files, SQLite, URLs, TOML, the crypto machine, each
  over an abstract world which it may change and in which it may fail. \<open>trace\<close> lists the
  requests handed to the HTTP client, one for each \<open>send\<close>; the client has \<open>reqwest\<close>'s default redirect policy, and what
  it sends on its own for answers that are redirects is no part of the trace (\<open>on_wire\<close> of \<open>Start\<close>); the
  same holds of the command line tools. \<open>tasks\<close> the background tasks started; no code reads either. Words are \<open>64 word\<close> where
  the code computes with \<open>u64\<close>; times, counters and sizes that only grow or are compared are natural numbers.
  Hash maps are association lists with distinct keys, in the order of their first insertion; the code's order is
  arbitrary, and the one place where it shows is which session lends its token to a media download that has none.
  The stream position of the test homeserver is a natural number, a \<open>u64\<close> in the code; reading it back from a query
  needs it below that bound, which the property says.

  \<^bold>\<open>What the properties show.\<close> The claims are numbered in the order of their importance.

  \<^item> Secrecy and failing closed: a message for a room not known to be unencrypted leaves only
    encrypted (\<open>Encrypt\<close>), only a 404 makes a room unencrypted, and encryption is never forgotten once seen
    (\<open>Rooms\<close>; an event counts whose content names an algorithm), uploads carry ciphertext only (\<open>Media\<close>), and
    over the whole life of the process every request is made for the configured homeserver: another host is
    reached only where the homeserver redirects the HTTP client there (\<open>Start\<close>).
  \<^item> From client to client: what one client sends, the other is shown, for any homeserver that delivers it
    (\<open>EndToEnd\<close>) and through the homeserver of the tests (\<open>Conversation\<close>); media come back as they went.
  \<^item> Exactly once: to-device events, over any run of repeated and failed responses (\<open>Redelivery\<close>) and from the
    homeserver's queue to the crypto machine (\<open>Mailbox\<close>), both told by the machine's own ledger of what it took in
    (\<open>keeps_ledger\<close>); room-key requests, repairs of placeholders,
    events of an incremental sync.
  \<^item> The client's view: the shape of decrypted events and replacing edits, the order of
    events, what a sync response keeps, when it is untouched, that processing one returns (\<open>SyncBody\<close>); a late
    key repairs, and every placeholder that was ready is settled.
  \<^item> Sessions: only for a device whose keys the store holds, never two for one token under interleaving
    (a step relation whose events determine the table: what the homeserver said of a token, who was given which
    context, what was removed); logins, errors, recovery.
  \<^item> The tools: the human alone judges the emoji and the guided flow ends, \<open>ctl\<close> talks to its proxy only,
    \<open>setup\<close> writes only a configuration that was checked, and \<open>serve\<close> reads it back. After a signal the
    proxy is down within three seconds (\<open>Start\<close>).
\<close>

text \<open>
  \<^bold>\<open>Lemma groups.\<close> Relations of states that every operation keeps are proved by the rules of a
  locale, once per operation: \<open>stepwise\<close> with the interpretations \<open>own\<close> (only the account's own requests are
  sent, \<open>Machine\<close>), \<open>sends\<close> and \<open>home_delivery\<close> (only the configured homeserver, \<open>Homeward\<close>),
  \<open>logs\<close> (what a command line tool does, \<open>Terminal\<close>); \<open>looking\<close>, \<open>reading\<close> and \<open>delivery\<close> for the
  processing of responses (\<open>Delivery\<close>: silence, a key asked for once, the queue's invariant);
  \<open>hs_relation\<close> and \<open>hs_run\<close> for the homeserver (\<open>growing\<close>, \<open>ordered\<close>, \<open>retained\<close>). Laws of the libraries are
  named predicates, each met by the reference codec or environment of the witnesses: \<open>percent_coding\<close>,
  \<open>json_law\<close>, \<open>media_law\<close>, \<open>megolm_pair\<close>.

  \<^bold>\<open>Bounds and recursion.\<close> The capacities are the code's (4096 remembered to-device events, 2000 waiting
  placeholders, 32 finished flows, 500 log lines, the byte limits of the routes, and the three seconds a shutdown
  waits). Loops over lists are
  structural. \<open>pump\<close>, the loops of the guided verification and other polling loops are partial
  functions: they return \<open>None\<close> where the code goes on for ever. For \<open>pump\<close> that is characterised exactly (every
  batch of requests succeeds and the machine has more, without end), for the guided verification that it
  returns is a theorem with the fact it rests on as a hypothesis (the clock goes on). The 50 attempts
  of \<open>setup\<close> to reach the started service are the code's own bound; no other fuel is used.

  \<^bold>\<open>Not modelled.\<close>

  \<^item> Parsing the command line (a library's derive), the log library, the runtime and the sockets: \<open>Start\<close>
    takes what the command line holds, when a signal comes and how the HTTP server ends as arguments.
  \<^item> Locks and concurrency: a handler runs without interleaving, as its locks have it where it
    matters (\<open>pump_lock\<close>, \<open>share_lock\<close>, the sync lock, the verification's pause). The exceptions are
    the creation of a session, where the code itself lets two requests race, the test
    homeserver's long polls, and the sync answers on their way to a proxy (\<open>mailbox_step\<close>); they are step
    relations, as is the process as a whole (\<open>process_step\<close>). Background tasks are noted when started; what one
    does is a definition of its own.
  \<^item> The wait of a sync in progress: \<open>handle_sync\<close> takes what came first as an argument; the
    timeouts and the streaming of bodies are part of the HTTP library.
  \<^item> The crypto machine, SQLite, HTTP, TLS, TOML, URLs, percent-encoding and JSON text are parameters.
  \<^item> The harness that starts proxies inside the tests, the tests that need several processes or the
    real crypto library, and the unit tests of what the libraries do: the grammar of the command line, the
    attachment cipher, the SQLite cache, response types, file modes.
\<close>

end
